(* ===== verification/JsPrelude.thy ===== *)
theory JsPrelude
  imports Complex_Main "HOL-Library.Sublist" "HOL-Library.Multiset"
begin

text \<open>
  What the modelled TypeScript uses of the language and its standard library, as executable
  definitions: numbers, strings, parsed JSON values, plain objects, and the collections of rewrite
  rules the component theories share.

  Conventions.
  \<^item> A JavaScript number is \<open>jsnum\<close>: a finite value, one of the two infinities, or NaN. Finite values
    are exact rationals: the rounding of IEEE doubles is not modelled, the special values are.
  \<^item> A string is a list of bytes. Non-ASCII literals of the source are written as their UTF-8 bytes;
    \<open>trim\<close>, \<open>lower\<close> and \<open>\s\<close> know the ASCII white space and letters only.
  \<^item> \<open>null\<close> and \<open>undefined\<close> are \<open>None\<close> in a typed optional field, and two separate
    constructors of \<open>json\<close> where the source inspects an \<open>unknown\<close> value.
  \<^item> A plain object is an association list in JavaScript's enumeration order (array indices first,
    then the other keys by first insertion). The key \<open>__proto__\<close> is treated as an ordinary key.
\<close>

section \<open>Rule collections\<close>

named_theorems js_simps \<open>evaluation rules of the string and object operations\<close>
named_theorems js_len \<open>length bounds used in termination proofs\<close>

section \<open>Characters and strings\<close>

abbreviation code :: "char \<Rightarrow> nat" where
  "code c \<equiv> of_char c"

definition is_ws :: "char \<Rightarrow> bool" where
  "is_ws c \<longleftrightarrow> code c \<in> {9, 10, 11, 12, 13, 32}"

definition is_digit :: "char \<Rightarrow> bool" where
  "is_digit c \<longleftrightarrow> 48 \<le> code c \<and> code c \<le> 57"

definition is_upper :: "char \<Rightarrow> bool" where
  "is_upper c \<longleftrightarrow> 65 \<le> code c \<and> code c \<le> 90"

definition is_lower :: "char \<Rightarrow> bool" where
  "is_lower c \<longleftrightarrow> 97 \<le> code c \<and> code c \<le> 122"

definition is_alpha :: "char \<Rightarrow> bool" where
  "is_alpha c \<longleftrightarrow> is_upper c \<or> is_lower c"

definition lower_char :: "char \<Rightarrow> char" where
  "lower_char c = (if is_upper c then char_of (code c + 32) else c)"

definition upper_char :: "char \<Rightarrow> char" where
  "upper_char c = (if is_lower c then char_of (code c - 32) else c)"

text \<open>\<open>s.toLowerCase()\<close>, \<open>s.trim()\<close>, \<open>s.startsWith(p)\<close>, \<open>s.endsWith(p)\<close>, \<open>s.includes(p)\<close>.\<close>

definition lower :: "string \<Rightarrow> string" where
  "lower s = map lower_char s"

definition trim :: "string \<Rightarrow> string" where
  "trim s = rev (dropWhile is_ws (rev (dropWhile is_ws s)))"

definition starts_with :: "string \<Rightarrow> string \<Rightarrow> bool" where
  "starts_with p s \<longleftrightarrow> take (length p) s = p"

definition ends_with :: "string \<Rightarrow> string \<Rightarrow> bool" where
  "ends_with p s \<longleftrightarrow> starts_with (rev p) (rev s)"

fun includes_str :: "string \<Rightarrow> string \<Rightarrow> bool" where
  "includes_str p [] \<longleftrightarrow> p = []"
| "includes_str p (c # s) \<longleftrightarrow> starts_with p (c # s) \<or> includes_str p s"

text \<open>\<open>s.split(c)\<close> for a one-character separator, and \<open>xs.join(sep)\<close>.\<close>

fun split_on :: "char \<Rightarrow> string \<Rightarrow> string list" where
  "split_on d [] = [[]]"
| "split_on d (c # s) =
     (if c = d then [] # split_on d s
      else case split_on d s of [] \<Rightarrow> [[c]] | w # ws \<Rightarrow> (c # w) # ws)"

fun join :: "string \<Rightarrow> string list \<Rightarrow> string" where
  "join sep [] = []"
| "join sep [w] = w"
| "join sep (w # ws) = w @ sep @ join sep ws"

definition replace_char :: "char \<Rightarrow> char \<Rightarrow> string \<Rightarrow> string" where
  "replace_char a b s = map (\<lambda>c. if c = a then b else c) s"

text \<open>\<open>a || b\<close> on a string that may be absent: the empty string is falsy.\<close>

definition or_str :: "string option \<Rightarrow> string \<Rightarrow> string" where
  "or_str a b = (case a of Some s \<Rightarrow> if s = [] then b else s | None \<Rightarrow> b)"

definition or_opt :: "string option \<Rightarrow> string option \<Rightarrow> string option" where
  "or_opt a b = (case a of Some s \<Rightarrow> if s = [] then b else a | None \<Rightarrow> b)"

text \<open>\<open>a ?? b\<close> on optional values.\<close>

definition coalesce :: "'a option \<Rightarrow> 'a option \<Rightarrow> 'a option" where
  "coalesce a b = (case a of Some x \<Rightarrow> Some x | None \<Rightarrow> b)"

definition or_else :: "'a option \<Rightarrow> 'a \<Rightarrow> 'a" where
  "or_else a b = (case a of Some x \<Rightarrow> x | None \<Rightarrow> b)"

definition nonempty :: "string \<Rightarrow> string option" where
  "nonempty s = (if s = [] then None else Some s)"

section \<open>Printing and reading numbers\<close>

definition digit_char :: "nat \<Rightarrow> char" where
  "digit_char n = char_of (48 + n)"

definition digit_val :: "char \<Rightarrow> nat" where
  "digit_val c = code c - 48"

fun show_nat :: "nat \<Rightarrow> string" where
  "show_nat n = (if n < 10 then [digit_char n] else show_nat (n div 10) @ [digit_char (n mod 10)])"

declare show_nat.simps [simp del]

definition show_int :: "int \<Rightarrow> string" where
  "show_int i = (if i < 0 then CHR ''-'' # show_nat (nat (- i)) else show_nat (nat i))"

definition read_digits :: "string \<Rightarrow> nat" where
  "read_digits s = foldl (\<lambda>n c. 10 * n + digit_val c) 0 s"

datatype jsnum = Fin rat | PosInf | NegInf | NaN

definition is_finite :: "jsnum \<Rightarrow> bool" where
  "is_finite n \<longleftrightarrow> (case n of Fin _ \<Rightarrow> True | _ \<Rightarrow> False)"

definition is_integral :: "rat \<Rightarrow> bool" where
  "is_integral q \<longleftrightarrow> of_int \<lfloor>q\<rfloor> = q"

text \<open>\<open>Number.isSafeInteger\<close>: integral and of magnitude below \<open>2 ^ 53\<close>.\<close>

definition is_safe_integer :: "jsnum \<Rightarrow> bool" where
  "is_safe_integer n \<longleftrightarrow>
     (case n of Fin q \<Rightarrow> is_integral q \<and> \<bar>q\<bar> \<le> 9007199254740991 | _ \<Rightarrow> False)"

text \<open>\<open>Math.round\<close> rounds a half towards plus infinity.\<close>

definition js_round :: "rat \<Rightarrow> int" where
  "js_round q = \<lfloor>q + 1 / 2\<rfloor>"

text \<open>
  \<open>x.toFixed(d)\<close>: the magnitude is rounded to \<open>d\<close> decimals, halves away from zero, and the sign is
  printed whenever \<open>x < 0\<close>, even when the rounded magnitude is zero.
\<close>

definition fixed_mag :: "nat \<Rightarrow> rat \<Rightarrow> nat" where
  "fixed_mag d q = nat (js_round (\<bar>q\<bar> * 10 ^ d))"

definition pad_left :: "nat \<Rightarrow> string \<Rightarrow> string" where
  "pad_left n s = replicate (n - length s) (CHR ''0'') @ s"

definition to_fixed :: "nat \<Rightarrow> rat \<Rightarrow> string" where
  "to_fixed d q =
     (let m = fixed_mag d q;
          body = (if d = 0 then show_nat m
                  else show_nat (m div 10 ^ d) @ ''.'' @ pad_left d (show_nat (m mod 10 ^ d)))
      in if q < 0 then CHR ''-'' # body else body)"

text \<open>\<open>Number(x.toFixed(d))\<close> as a value.\<close>

definition fixed_value :: "nat \<Rightarrow> rat \<Rightarrow> rat" where
  "fixed_value d q = (if q < 0 then - 1 else 1) * (of_nat (fixed_mag d q) / 10 ^ d)"

text \<open>
  \<open>Number(s)\<close> on a string: white space is trimmed, the empty string is 0, then a hexadecimal, octal or
  binary literal, a signed \<open>Infinity\<close>, or a signed decimal with an optional fraction and exponent;
  anything else is NaN.
\<close>

definition radix_val :: "char \<Rightarrow> nat" where
  "radix_val c = (if is_digit c then code c - 48
                  else if is_lower c then code c - 87
                  else if is_upper c then code c - 55 else 99)"

definition read_radix :: "nat \<Rightarrow> string \<Rightarrow> jsnum" where
  "read_radix b s =
     (if s \<noteq> [] \<and> (\<forall>c \<in> set s. radix_val c < b)
      then Fin (of_nat (foldl (\<lambda>n c. b * n + radix_val c) 0 s)) else NaN)"

definition read_exponent :: "string \<Rightarrow> int option" where
  "read_exponent s =
     (case s of
        [] \<Rightarrow> Some 0
      | c # r \<Rightarrow>
          if c \<noteq> CHR ''e'' \<and> c \<noteq> CHR ''E'' then None
          else (let neg = starts_with ''-'' r;
                    ds = (if neg \<or> starts_with ''+'' r then tl r else r)
                in if ds \<noteq> [] \<and> (\<forall>d \<in> set ds. is_digit d)
                   then Some ((if neg then - 1 else 1) * int (read_digits ds)) else None))"

definition pow10 :: "int \<Rightarrow> rat" where
  "pow10 e = (if 0 \<le> e then 10 ^ nat e else 1 / 10 ^ nat (- e))"

definition read_unsigned :: "string \<Rightarrow> jsnum" where
  "read_unsigned s =
     (if s = ''Infinity'' then PosInf
      else
        (let ip = takeWhile is_digit s;
             r = dropWhile is_digit s;
             dot = starts_with ''.'' r;
             fp = (if dot then takeWhile is_digit (tl r) else []);
             rest = (if dot then dropWhile is_digit (tl r) else r)
         in if ip = [] \<and> fp = [] then NaN
            else case read_exponent rest of
                   None \<Rightarrow> NaN
                 | Some e \<Rightarrow> Fin (of_nat (read_digits (ip @ fp)) * pow10 (e - int (length fp)))))"

definition neg_num :: "jsnum \<Rightarrow> jsnum" where
  "neg_num n = (case n of Fin q \<Rightarrow> Fin (- q) | PosInf \<Rightarrow> NegInf | NegInf \<Rightarrow> PosInf | NaN \<Rightarrow> NaN)"

definition js_Number :: "string \<Rightarrow> jsnum" where
  "js_Number str =
     (let s = trim str in
      if s = [] then Fin 0
      else if starts_with ''0x'' s \<or> starts_with ''0X'' s then read_radix 16 (drop 2 s)
      else if starts_with ''0o'' s \<or> starts_with ''0O'' s then read_radix 8 (drop 2 s)
      else if starts_with ''0b'' s \<or> starts_with ''0B'' s then read_radix 2 (drop 2 s)
      else if starts_with ''-'' s then neg_num (read_unsigned (tl s))
      else if starts_with ''+'' s then read_unsigned (tl s)
      else read_unsigned s)"

text \<open>
  \<open>parseInt(s, 10)\<close>: leading white space, an optional sign, then the longest run of digits.
  No digits give NaN (\<open>None\<close>).
\<close>

definition parse_int :: "string \<Rightarrow> int option" where
  "parse_int str =
     (let s = dropWhile is_ws str;
          neg = starts_with ''-'' s;
          r = (if neg \<or> starts_with ''+'' s then tl s else s);
          ds = takeWhile is_digit r
      in if ds = [] then None else Some ((if neg then - 1 else 1) * int (read_digits ds)))"

section \<open>Parsed JSON values and plain objects\<close>

datatype json =
    JUndef
  | JNull
  | JBool bool
  | JNum jsnum
  | JStr string
  | JArr "json list"
  | JObj "(string \<times> json) list"

type_synonym jsobject = "(string \<times> json) list"

definition truthy :: "json \<Rightarrow> bool" where
  "truthy v = (case v of
      JUndef \<Rightarrow> False | JNull \<Rightarrow> False | JBool b \<Rightarrow> b
    | JNum n \<Rightarrow> n \<noteq> Fin 0 \<and> n \<noteq> NaN | JStr s \<Rightarrow> s \<noteq> [] | JArr _ \<Rightarrow> True | JObj _ \<Rightarrow> True)"

definition nullish :: "json \<Rightarrow> bool" where
  "nullish v \<longleftrightarrow> v = JUndef \<or> v = JNull"

text \<open>\<open>a ?? b\<close> on values.\<close>

definition jcoalesce :: "json \<Rightarrow> json \<Rightarrow> json" where
  "jcoalesce a b = (if nullish a then b else a)"

text \<open>\<open>o[k]\<close> on a plain object: \<open>undefined\<close> for a missing key.\<close>

definition oget :: "jsobject \<Rightarrow> string \<Rightarrow> json" where
  "oget ob k = (case map_of ob k of Some v \<Rightarrow> v | None \<Rightarrow> JUndef)"

text \<open>\<open>o?.k\<close> where \<open>o\<close> is a record or null.\<close>

definition oget_opt :: "jsobject option \<Rightarrow> string \<Rightarrow> json" where
  "oget_opt ob k = (case ob of None \<Rightarrow> JUndef | Some b \<Rightarrow> oget b k)"

definition array_index :: "string \<Rightarrow> nat option" where
  "array_index k =
     (if k \<noteq> [] \<and> (\<forall>c \<in> set k. is_digit c) \<and> show_nat (read_digits k) = k
         \<and> read_digits k < 4294967295
      then Some (read_digits k) else None)"

definition enumerates_before :: "string \<Rightarrow> string \<Rightarrow> bool" where
  "enumerates_before k k' =
     (case array_index k of
        None \<Rightarrow> False
      | Some i \<Rightarrow> (case array_index k' of None \<Rightarrow> True | Some j \<Rightarrow> i < j))"

fun insert_key :: "string \<Rightarrow> 'v \<Rightarrow> (string \<times> 'v) list \<Rightarrow> (string \<times> 'v) list" where
  "insert_key k v [] = [(k, v)]"
| "insert_key k v ((k', v') # ob) =
     (if enumerates_before k k' then (k, v) # (k', v') # ob else (k', v') # insert_key k v ob)"

fun replace_key :: "string \<Rightarrow> 'v \<Rightarrow> (string \<times> 'v) list \<Rightarrow> (string \<times> 'v) list" where
  "replace_key k v [] = []"
| "replace_key k v ((k', v') # ob) =
     (if k = k' then (k', v) # ob else (k', v') # replace_key k v ob)"

text \<open>\<open>o[k] = v\<close>: an existing key keeps its place, a new one goes where enumeration puts it.\<close>

definition oset :: "string \<Rightarrow> 'v \<Rightarrow> (string \<times> 'v) list \<Rightarrow> (string \<times> 'v) list" where
  "oset k v ob = (if k \<in> fst ` set ob then replace_key k v ob else insert_key k v ob)"

definition as_obj :: "json \<Rightarrow> jsobject option" where
  "as_obj v = (case v of JObj ob \<Rightarrow> Some ob | _ \<Rightarrow> None)"

text \<open>The first element that satisfies \<open>P\<close>, replaced; the list as it is when there is none.\<close>

fun update_first :: "('a \<Rightarrow> bool) \<Rightarrow> ('a \<Rightarrow> 'a) \<Rightarrow> 'a list \<Rightarrow> 'a list" where
  "update_first P f [] = []"
| "update_first P f (x # xs) = (if P x then f x # xs else x # update_first P f xs)"

text \<open>\<open>xs.map((x, i) => f(i, x))\<close>, counting from \<open>i\<close>.\<close>

fun map_index :: "(nat \<Rightarrow> 'a \<Rightarrow> 'b) \<Rightarrow> nat \<Rightarrow> 'a list \<Rightarrow> 'b list" where
  "map_index f i [] = []"
| "map_index f i (x # xs) = f i x # map_index f (Suc i) xs"

text \<open>\<open>[...new Set(xs)]\<close>: the first occurrences, in order.\<close>

fun dedup :: "'a list \<Rightarrow> 'a list" where
  "dedup [] = []"
| "dedup (x # xs) = x # filter (\<lambda>y. y \<noteq> x) (dedup xs)"

text \<open>
  \<open>xs.sort(cmp)\<close> is stable: an insertion sort that keeps equal elements in order. \<open>le a b\<close> is
  \<open>cmp(a, b) <= 0\<close>.
\<close>

fun insert_sorted :: "('a \<Rightarrow> 'a \<Rightarrow> bool) \<Rightarrow> 'a \<Rightarrow> 'a list \<Rightarrow> 'a list" where
  "insert_sorted le x [] = [x]"
| "insert_sorted le x (y # ys) = (if le x y then x # y # ys else y # insert_sorted le x ys)"

fun sort_by :: "('a \<Rightarrow> 'a \<Rightarrow> bool) \<Rightarrow> 'a list \<Rightarrow> 'a list" where
  "sort_by le [] = []"
| "sort_by le (x # xs) = insert_sorted le x (sort_by le xs)"

section \<open>Laws of the string operations\<close>

lemma starts_with_prefix: "starts_with p s \<longleftrightarrow> prefix p s"
  by (metis starts_with_def prefix_def append_take_drop_id append_eq_conv_conj)

lemma starts_with_append [simp]: "starts_with p (p @ s)"
  by (simp add: starts_with_def)

lemma starts_with_Nil [simp]: "starts_with [] s"
  by (simp add: starts_with_def)

lemma starts_with_Cons: "starts_with (c # p) s \<longleftrightarrow> s \<noteq> [] \<and> hd s = c \<and> starts_with p (tl s)"
  by (cases s) (auto simp: starts_with_def)

lemma starts_with_trans: "starts_with p q \<Longrightarrow> starts_with q s \<Longrightarrow> starts_with p s"
  by (auto simp: starts_with_prefix)

lemma includes_str_iff: "includes_str p s \<longleftrightarrow> (\<exists>u v. s = u @ p @ v)"
proof (induction s)
  case (Cons c s)
  have "starts_with p (c # s) \<longleftrightarrow> (\<exists>v. c # s = p @ v)"
    by (auto simp: starts_with_prefix prefix_def)
  then show ?case
    using Cons by (auto simp: Cons_eq_append_conv)
qed auto

lemma length_lower [simp]: "length (lower s) = length s"
  by (simp add: lower_def)

lemma lower_append [simp]: "lower (s @ t) = lower s @ lower t"
  by (simp add: lower_def)

lemma lower_char_idem [simp]: "lower_char (lower_char c) = lower_char c"
proof (cases "is_upper c")
  case True
  then have "code (char_of (code c + 32)) = code c + 32"
    by (simp add: is_upper_def)
  with True show ?thesis
    by (auto simp: lower_char_def is_upper_def)
qed (simp add: lower_char_def)

lemma lower_idem [simp]: "lower (lower s) = lower s"
  by (simp add: lower_def)

lemma length_dropWhile_le' [js_len]: "length (dropWhile P s) \<le> length s"
  by (rule length_dropWhile_le)

lemma length_trim [js_len]: "length (trim s) \<le> length s"
  by (metis trim_def length_dropWhile_le length_rev order_trans)

lemma dropWhile_idem' [simp]: "dropWhile P (dropWhile P s) = dropWhile P s"
  by (induction s) auto

lemma hd_dropWhile_rev:
  assumes "s \<noteq> []" "\<not> P (hd s)"
  shows "dropWhile P (rev (dropWhile P (rev s))) = rev (dropWhile P (rev s))"
proof -
  have "rev (dropWhile P (rev s)) \<noteq> []"
    using assms by (metis dropWhile_eq_Nil_conv hd_in_set rev_is_Nil_conv set_rev)
  moreover have "prefix (rev (dropWhile P (rev s))) s"
    by (metis suffix_dropWhile suffix_to_prefix rev_rev_ident)
  ultimately have "hd (rev (dropWhile P (rev s))) = hd s"
    unfolding prefix_def by (metis hd_append2)
  then show ?thesis
    using assms by (metis \<open>rev (dropWhile P (rev s)) \<noteq> []\<close> dropWhile.simps(2) list.collapse)
qed

lemma trim_idem [simp]: "trim (trim s) = trim s"
proof (cases "dropWhile is_ws s = []")
  case False
  then have "\<not> is_ws (hd (dropWhile is_ws s))"
    by (rule hd_dropWhile)
  with False show ?thesis
    unfolding trim_def
    using hd_dropWhile_rev [of "dropWhile is_ws s" is_ws] by (metis rev_rev_ident dropWhile_idem')
qed (simp only: trim_def rev.simps dropWhile.simps)

lemma trim_Nil [simp]: "trim [] = []"
  by (simp add: trim_def)

lemma trim_eq_self: "s \<noteq> [] \<Longrightarrow> \<not> is_ws (hd s) \<Longrightarrow> \<not> is_ws (last s) \<Longrightarrow> trim s = s"
  by (metis trim_def dropWhile.simps(2) hd_rev list.collapse rev_is_Nil_conv rev_rev_ident)

lemma trim_no_ws: "(\<forall>c \<in> set s. \<not> is_ws c) \<Longrightarrow> trim s = s"
  by (cases "s = []") (auto intro: trim_eq_self)

lemma set_trim: "set (trim s) \<subseteq> set s"
  unfolding trim_def by (metis set_dropWhileD set_rev subsetI)

lemma split_on_neq_Nil [simp]: "split_on d s \<noteq> []"
  by (induction s) (auto split: list.splits)

lemma join_Cons_Cons [simp]: "ws \<noteq> [] \<Longrightarrow> join sep (w # ws) = w @ sep @ join sep ws"
  by (cases ws) auto

lemma join_append: "xs \<noteq> [] \<Longrightarrow> ys \<noteq> [] \<Longrightarrow> join sep (xs @ ys) = join sep xs @ sep @ join sep ys"
proof (induction xs)
  case (Cons x xs)
  then show ?case by (cases "xs = []") auto
qed simp

lemma join_split_on [simp]: "join [d] (split_on d s) = s"
proof (induction s)
  case (Cons c s)
  obtain w ws where ws: "split_on d s = w # ws"
    by (meson list.exhaust split_on_neq_Nil)
  with Cons show ?case
    by (cases ws) auto
qed simp

lemma split_on_no_sep: "w \<in> set (split_on d s) \<Longrightarrow> d \<notin> set w"
proof (induction s arbitrary: w)
  case (Cons c s)
  then show ?case
    by (cases "split_on d s") (auto split: if_splits)
qed simp

lemma split_on_id: "d \<notin> set s \<Longrightarrow> split_on d s = [s]"
  by (induction s) auto

lemma split_on_append: "d \<notin> set w \<Longrightarrow> split_on d (w @ d # s) = w # split_on d s"
  by (induction w) auto

lemma split_on_join:
  "ws \<noteq> [] \<Longrightarrow> (\<forall>w \<in> set ws. d \<notin> set w) \<Longrightarrow> split_on d (join [d] ws) = ws"
proof (induction ws)
  case (Cons w ws)
  then show ?case
    by (cases "ws = []") (auto simp: split_on_id split_on_append)
qed simp

lemma length_split_on: "length (split_on d s) = Suc (count_list s d)"
proof (induction s)
  case (Cons c s)
  then show ?case by (cases "split_on d s") auto
qed simp

lemma set_join: "set (join [d] ws) \<subseteq> insert d (\<Union>w \<in> set ws. set w)"
  by (induction "[d]" ws rule: join.induct) auto

lemma in_set_join: "w \<in> set ws \<Longrightarrow> set w \<subseteq> set (join sep ws)"
  by (induction sep ws rule: join.induct) auto

section \<open>Laws of the number operations\<close>

lemma is_digit_digit_char [simp]: "n < 10 \<Longrightarrow> is_digit (digit_char n)"
  by (simp add: is_digit_def digit_char_def)

lemma digit_val_digit_char [simp]: "n < 10 \<Longrightarrow> digit_val (digit_char n) = n"
  by (simp add: digit_val_def digit_char_def)

lemma is_digit_not_ws [simp]: "is_digit c \<Longrightarrow> \<not> is_ws c"
  by (auto simp: is_digit_def is_ws_def)

lemma digit_val_less: "is_digit c \<Longrightarrow> digit_val c < 10"
  by (auto simp: is_digit_def digit_val_def)

lemma show_nat_neq_Nil [simp]: "show_nat n \<noteq> []"
  by (subst show_nat.simps) simp

lemma show_nat_digits: "c \<in> set (show_nat n) \<Longrightarrow> is_digit c"
proof (induction n arbitrary: c rule: show_nat.induct)
  case (1 n)
  then show ?case
    by (subst (asm) (2) show_nat.simps) (auto split: if_splits)
qed

lemma read_digits_append: "read_digits (s @ [c]) = 10 * read_digits s + digit_val c"
  by (simp add: read_digits_def)

lemma read_show_nat [simp]: "read_digits (show_nat n) = n"
proof (induction n rule: show_nat.induct)
  case (1 n)
  show ?case
  proof (cases "n < 10")
    case True
    then show ?thesis
      by (simp add: show_nat.simps [of n] read_digits_def)
  next
    case False
    with 1 show ?thesis
      by (simp add: show_nat.simps [of n] read_digits_append)
  qed
qed

lemma show_nat_inject [simp]: "show_nat m = show_nat n \<longleftrightarrow> m = n"
  by (metis read_show_nat)

lemma takeWhile_digits [simp]:
  "takeWhile is_digit (show_nat n) = show_nat n" "dropWhile is_digit (show_nat n) = []"
  by (auto simp: takeWhile_eq_all_conv dest: show_nat_digits)

lemma trim_show_nat [simp]: "trim (show_nat n) = show_nat n"
  by (rule trim_no_ws) (auto dest: show_nat_digits)

lemma show_nat_head:
  assumes "\<not> is_digit c"
  shows "\<not> starts_with (c # p) (show_nat n)"
  by (metis assms show_nat_digits starts_with_def list.set_intros(1) in_set_takeD)

lemma show_nat_second:
  assumes "\<not> is_digit c"
  shows "\<not> starts_with (d # c # p) (show_nat n)"
  by (metis assms show_nat_digits starts_with_def list.set_intros in_set_takeD)

lemma read_unsigned_show_nat: "read_unsigned (show_nat n) = Fin (of_nat n)"
proof -
  have "show_nat n \<noteq> ''Infinity''"
    using show_nat_digits [of "CHR ''I''" n] by (auto simp: is_digit_def)
  then show ?thesis
    by (simp add: read_unsigned_def Let_def starts_with_def read_exponent_def pow10_def)
qed

text \<open>Reading a printed natural number gives it back.\<close>

lemma js_Number_show_nat [simp]: "js_Number (show_nat n) = Fin (of_nat n)"
proof -
  have "\<not> is_digit (CHR ''x'')" "\<not> is_digit (CHR ''X'')" "\<not> is_digit (CHR ''o'')"
    "\<not> is_digit (CHR ''O'')" "\<not> is_digit (CHR ''b'')" "\<not> is_digit (CHR ''B'')"
    "\<not> is_digit (CHR ''-'')" "\<not> is_digit (CHR ''+'')"
    by (simp_all add: is_digit_def)
  then show ?thesis
    by (simp add: js_Number_def Let_def show_nat_head show_nat_second read_unsigned_show_nat)
qed

lemma js_Number_show_int [simp]: "js_Number (show_int k) = Fin (of_int k)"
proof (cases "k < 0")
  case True
  let ?s = "CHR ''-'' # show_nat (nat (- k))"
  have "trim ?s = ?s"
    by (rule trim_no_ws) (auto dest: show_nat_digits simp: is_ws_def is_digit_def)
  then show ?thesis
    using True by (simp add: show_int_def js_Number_def Let_def starts_with_def read_unsigned_show_nat neg_num_def)
qed (simp add: show_int_def)

lemma parse_int_show_nat [simp]: "parse_int (show_nat n) = Some (int n)"
proof -
  have "dropWhile is_ws (show_nat n) = show_nat n"
    by (metis dropWhile.simps(2) is_digit_not_ws list.exhaust list.set_intros(1) show_nat_digits
        show_nat_neq_Nil)
  moreover have "\<not> is_digit (CHR ''-'')" "\<not> is_digit (CHR ''+'')"
    by (simp_all add: is_digit_def)
  ultimately show ?thesis
    by (simp add: parse_int_def Let_def show_nat_head)
qed

lemma js_round_of_int [simp]: "js_round (of_int k) = k"
  by (simp add: js_round_def floor_eq_iff)

lemma js_round_mono: "p \<le> q \<Longrightarrow> js_round p \<le> js_round q"
  by (simp add: js_round_def floor_mono)

lemma js_round_nonneg: "0 \<le> q \<Longrightarrow> 0 \<le> js_round q"
  by (simp add: js_round_def)

lemma js_round_le: "q \<le> of_int k \<Longrightarrow> js_round q \<le> k"
  using js_round_mono [of q "of_int k"] by simp

lemma js_round_ge: "of_int k \<le> q \<Longrightarrow> k \<le> js_round q"
  using js_round_mono [of "of_int k" q] by simp

lemma js_round_close: "\<bar>of_int (js_round q) - q\<bar> \<le> 1 / 2"
  unfolding js_round_def by linarith

section \<open>Laws of plain objects, sets and sorting\<close>

lemma map_of_replace_key:
  "k \<in> fst ` set ob \<Longrightarrow> map_of (replace_key k v ob) = (map_of ob)(k \<mapsto> v)"
proof (induction ob)
  case (Cons p ob)
  then show ?case
    by (cases p; cases "k = fst p") (simp_all add: fun_eq_iff)
qed simp

lemma map_of_insert_key:
  "k \<notin> fst ` set ob \<Longrightarrow> map_of (insert_key k v ob) = (map_of ob)(k \<mapsto> v)"
  by (induction k v ob rule: insert_key.induct) auto

lemma map_of_oset [simp]: "map_of (oset k v ob) = (map_of ob)(k \<mapsto> v)"
  by (simp add: oset_def map_of_replace_key map_of_insert_key)

lemma keys_replace_key [simp]: "map fst (replace_key k v ob) = map fst ob"
  by (induction k v ob rule: replace_key.induct) auto

lemma set_insert_key: "set (insert_key k v ob) = insert (k, v) (set ob)"
  by (induction k v ob rule: insert_key.induct) auto

lemma distinct_insert_key:
  "k \<notin> fst ` set ob \<Longrightarrow> distinct (map fst ob) \<Longrightarrow> distinct (map fst (insert_key k v ob))"
  by (induction k v ob rule: insert_key.induct) (auto simp: set_insert_key)

lemma distinct_oset [simp]: "distinct (map fst ob) \<Longrightarrow> distinct (map fst (oset k v ob))"
  by (simp add: oset_def distinct_insert_key)

lemma oget_oset: "oget (oset k v ob) k' = (if k' = k then v else oget ob k')"
  by (simp add: oget_def)

lemma keys_oset: "fst ` set (oset k v ob) = insert k (fst ` set ob)"
proof (cases "k \<in> fst ` set ob")
  case True
  then show ?thesis
    by (metis oset_def keys_replace_key image_set insert_absorb)
qed (simp add: oset_def set_insert_key)

text \<open>Objects in enumeration order; assignment keeps it, and re-assigning the members rebuilds the object.\<close>

definition js_ordered :: "(string \<times> 'v) list \<Rightarrow> bool" where
  "js_ordered ob \<longleftrightarrow>
     distinct (map fst ob) \<and> sorted_wrt (\<lambda>m m'. \<not> enumerates_before (fst m') (fst m)) ob"

lemma enumerates_before_trans:
  "enumerates_before a b \<Longrightarrow> enumerates_before b c \<Longrightarrow> enumerates_before a c"
  by (auto simp: enumerates_before_def split: option.splits)

lemma enumerates_before_asym: "enumerates_before a b \<Longrightarrow> \<not> enumerates_before b a"
  by (auto simp: enumerates_before_def split: option.splits)

lemma enumerates_before_weak:
  "enumerates_before a b \<Longrightarrow> \<not> enumerates_before c b \<Longrightarrow> enumerates_before a c"
  by (auto simp: enumerates_before_def split: option.splits)

lemma insert_key_append:
  "\<forall>m \<in> set ob. \<not> enumerates_before k (fst m) \<Longrightarrow> insert_key k v ob = ob @ [(k, v)]"
  by (induction k v ob rule: insert_key.induct) auto

lemma js_ordered_insert_key:
  assumes "js_ordered ob" "k \<notin> fst ` set ob"
  shows "js_ordered (insert_key k v ob)"
proof -
  have "sorted_wrt (\<lambda>m m'. \<not> enumerates_before (fst m') (fst m)) ob \<Longrightarrow>
      sorted_wrt (\<lambda>m m'. \<not> enumerates_before (fst m') (fst m)) (insert_key k v ob)"
    by (induction k v ob rule: insert_key.induct)
       (auto simp: set_insert_key dest: enumerates_before_asym enumerates_before_weak)
  with assms show ?thesis by (auto simp: js_ordered_def distinct_insert_key)
qed

lemma js_ordered_replace_key: "js_ordered ob \<Longrightarrow> js_ordered (replace_key k v ob)"
  unfolding js_ordered_def
  by (simp add: sorted_wrt_map [of "\<lambda>k k'. \<not> enumerates_before k' k" fst, symmetric])

lemma js_ordered_oset [simp]: "js_ordered ob \<Longrightarrow> js_ordered (oset k v ob)"
  by (auto simp: oset_def js_ordered_insert_key js_ordered_replace_key)

lemma js_ordered_Nil [simp]: "js_ordered []"
  by (simp add: js_ordered_def)

lemma oset_snoc: "js_ordered (ob @ [(k, v)]) \<Longrightarrow> oset k v ob = ob @ [(k, v)]"
  by (auto simp: js_ordered_def sorted_wrt_append oset_def intro!: insert_key_append)

lemma js_ordered_append: "js_ordered (xs @ ys) \<Longrightarrow> js_ordered xs"
  by (auto simp: js_ordered_def sorted_wrt_append)

lemma js_ordered_filter: "js_ordered ob \<Longrightarrow> js_ordered (filter P ob)"
  by (auto simp: js_ordered_def sorted_wrt_filter distinct_map_filter)

lemma js_ordered_rebuild:
  "js_ordered (acc @ ob) \<Longrightarrow> fold (\<lambda>m. oset (fst m) (snd m)) ob acc = acc @ ob"
proof (induction ob arbitrary: acc)
  case (Cons m ob)
  then have "js_ordered ((acc @ [m]) @ ob)" by simp
  moreover from this have "oset (fst m) (snd m) acc = acc @ [m]"
    by (metis js_ordered_append oset_snoc prod.collapse)
  ultimately show ?case using Cons.IH [of "acc @ [m]"] by simp
qed simp

lemma lookup_filtered:
  assumes "distinct (map fst ob)"
  shows "map_of (filter Q ob) key = Option.bind (map_of ob key) (\<lambda>x. if Q (key, x) then Some x else None)"
  using assms
proof (induction ob)
  case (Cons m ob)
  have "map_of ob (fst m) = None" using Cons.prems by (simp add: map_of_eq_None_iff)
  with Cons show ?case by (cases m) auto
qed simp

lemma oget_fold_oset:
  "distinct (map fst ms) \<Longrightarrow>
   oget (fold (\<lambda>m. oset (fst m) (snd m)) ms acc) k = (case map_of ms k of Some v \<Rightarrow> v | None \<Rightarrow> oget acc k)"
proof (induction ms arbitrary: acc)
  case (Cons m ms)
  have "map_of ms (fst m) = None" using Cons.prems by (simp add: map_of_eq_None_iff)
  with Cons show ?case by (cases m) (auto simp: oget_oset split: option.splits)
qed simp

text \<open>Members put into an object whose keys are not indices: the indices go first, in order, the rest last.\<close>

lemma insert_key_index:
  assumes "array_index k \<noteq> None" "\<forall>m \<in> set b. array_index (fst m) = None"
  shows "insert_key k v (a @ b) = insert_key k v a @ b"
proof (induction a)
  case Nil
  then show ?case using assms by (cases b) (auto simp: enumerates_before_def split: option.splits)
qed auto

definition indexed :: "string \<times> 'v \<Rightarrow> bool" where
  "indexed m \<longleftrightarrow> array_index (fst m) \<noteq> None"

lemma fold_oset_split:
  assumes "\<forall>m \<in> set base. \<not> indexed m" "distinct (map fst (base @ xs))" 
  shows "fold (\<lambda>m. oset (fst m) (snd m)) xs base =
    fold (\<lambda>m. oset (fst m) (snd m)) (filter indexed xs) [] @ base @ filter (\<lambda>m. \<not> indexed m) xs"
    (is "?F xs base = _")
  using assms
proof (induction xs rule: rev_induct)
  case (snoc m xs)
  let ?I = "?F (filter indexed xs) []" and ?R = "base @ filter (\<lambda>m. \<not> indexed m) xs"
  have keys: "fst ` set (?F ys acc) = fst ` set acc \<union> fst ` set ys" for ys :: "(string \<times> 'a) list" and acc
    by (induction ys arbitrary: acc) (auto simp: keys_oset)
  have F: "?F xs base = ?I @ ?R" using snoc by auto
  have new: "fst m \<notin> fst ` set ?I" "fst m \<notin> fst ` set (?F xs base)"
    using snoc.prems by (auto simp: keys)
  have ins: "?F (xs @ [m]) base = insert_key (fst m) (snd m) (?I @ ?R)"
    using new(2) F by (simp add: oset_def)
  show ?case
  proof (cases "indexed m")
    case True
    have "insert_key (fst m) (snd m) (?I @ ?R) = insert_key (fst m) (snd m) ?I @ ?R"
      using True snoc.prems(1) by (intro insert_key_index) (auto simp: indexed_def)
    with ins new(1) True show ?thesis by (simp add: oset_def)
  next
    case False
    have "insert_key (fst m) (snd m) (?I @ ?R) = (?I @ ?R) @ [(fst m, snd m)]"
      using False by (intro insert_key_append) (simp add: indexed_def enumerates_before_def)
    with ins False show ?thesis by simp
  qed
qed simp

lemma set_fold_oset:
  "distinct (map fst (acc @ xs)) \<Longrightarrow> set (fold (\<lambda>m. oset (fst m) (snd m)) xs acc) = set acc \<union> set xs"
proof (induction xs arbitrary: acc)
  case (Cons m xs)
  then have "distinct (map fst (oset (fst m) (snd m) acc @ xs))"
    by (auto simp: keys_oset)
  moreover have "set (oset (fst m) (snd m) acc) = insert m (set acc)"
    using Cons.prems by (simp add: oset_def set_insert_key)
  ultimately show ?case using Cons.IH by auto
qed simp

lemma js_ordered_fold: "js_ordered acc \<Longrightarrow> js_ordered (fold (\<lambda>m. oset (fst m) (snd m)) xs acc)"
  by (induction xs arbitrary: acc) simp_all

lemma fold_oset_again:
  assumes base: "\<forall>m \<in> set base. \<not> indexed m \<and> \<not> P m" and d: "distinct (map fst (base @ xs))"
    and P: "\<forall>m \<in> set xs. P m"
  defines "put \<equiv> fold (\<lambda>m. oset (fst m) (snd m))"
  shows "put (filter P (put xs base)) base = put xs base"
proof -
  let ?I = "put (filter indexed xs) []" and ?N = "filter (\<lambda>m. \<not> indexed m) xs"
  have dI: "distinct (map fst (filter indexed xs))" using d by (simp add: distinct_map_filter)
  have I: "set ?I = set (filter indexed xs)"
    using set_fold_oset [of "[]" "filter indexed xs"] dI by (simp add: put_def)
  have eq: "put xs base = ?I @ base @ ?N"
    unfolding put_def using base d by (intro fold_oset_split) auto
  have oI: "js_ordered ?I" unfolding put_def by (rule js_ordered_fold) simp
  have "filter P base = []" "filter P ?I = ?I" "filter P ?N = ?N"
    using base P I by (auto simp: filter_empty_conv filter_id_conv intro: filter_cong)
  then have F: "filter P (put xs base) = ?I @ ?N" by (simp add: eq)
  have dist: "distinct (map fst (base @ ?I @ ?N))"
    using d oI I by (auto simp: js_ordered_def distinct_map_filter indexed_def)
  have fI: "filter indexed ?I = ?I" "filter (\<lambda>m. \<not> indexed m) ?I = []"
    using I by (auto simp: filter_empty_conv filter_id_conv)
  have fN: "filter indexed ?N = []" "filter (\<lambda>m. \<not> indexed m) ?N = ?N"
    by (simp_all add: filter_empty_conv)
  have "put (?I @ ?N) base = put (filter indexed (?I @ ?N)) [] @ base @ filter (\<lambda>m. \<not> indexed m) (?I @ ?N)"
    using base dist fold_oset_split [of base "?I @ ?N"] unfolding put_def by blast
  also have "put (filter indexed (?I @ ?N)) [] = ?I"
    using js_ordered_rebuild [of "[]" ?I] oI fI fN by (simp add: put_def)
  finally show ?thesis using F eq fI fN by simp
qed

lemma oget_Nil [simp]: "oget [] k = JUndef"
  by (simp add: oget_def)

lemma set_dedup [simp]: "set (dedup xs) = set xs"
  by (induction xs) auto

lemma distinct_dedup [simp]: "distinct (dedup xs)"
  by (induction xs) auto

lemma dedup_distinct: "distinct xs \<Longrightarrow> dedup xs = xs"
  by (induction xs) (auto intro!: filter_True)

lemma set_insert_sorted [simp]: "set (insert_sorted le x xs) = insert x (set xs)"
  by (induction xs) auto

lemma set_sort_by [simp]: "set (sort_by le xs) = set xs"
  by (induction xs) auto

lemma length_insert_sorted [simp]: "length (insert_sorted le x xs) = Suc (length xs)"
  by (induction xs) auto

lemma length_sort_by [simp]: "length (sort_by le xs) = length xs"
  by (induction xs) auto

lemma distinct_insert_sorted [simp]: "distinct (insert_sorted le x xs) \<longleftrightarrow> x \<notin> set xs \<and> distinct xs"
  by (induction xs) auto

lemma distinct_sort_by [simp]: "distinct (sort_by le xs) \<longleftrightarrow> distinct xs"
  by (induction xs) auto

lemma sorted_wrt_insert_sorted:
  assumes "transp le" "\<And>a b. \<not> le a b \<Longrightarrow> le b a" "sorted_wrt le xs"
  shows "sorted_wrt le (insert_sorted le x xs)"
  using assms(3)
proof (induction xs)
  case (Cons y ys)
  then show ?case
    using assms(1,2) by (auto dest: transpD)
qed simp

lemma sorted_wrt_sort_by:
  assumes "transp le" "\<And>a b. \<not> le a b \<Longrightarrow> le b a"
  shows "sorted_wrt le (sort_by le xs)"
  by (induction xs) (auto intro: sorted_wrt_insert_sorted assms)

lemma length_map_index [simp]: "length (map_index f k xs) = length xs"
  by (induction xs arbitrary: k) auto

lemma nth_map_index: "i < length xs \<Longrightarrow> map_index f k xs ! i = f (k + i) (xs ! i)"
  by (induction xs arbitrary: k i) (auto simp: nth_Cons split: nat.splits)

lemma find_SomeD: "List.find P xs = Some x \<Longrightarrow> P x \<and> x \<in> set xs"
  by (metis find_Some_iff nth_mem)

text \<open>Updating the first match.\<close>

lemma length_update_first [simp]: "length (update_first P f xs) = length xs"
  by (induction xs) auto

lemma map_update_first: "(\<And>x. g (f x) = g x) \<Longrightarrow> map g (update_first P f xs) = map g xs"
  by (induction xs) auto

lemma update_first_split:
  assumes "list_ex P xs"
  obtains us x vs where "xs = us @ x # vs" "P x" "\<forall>u \<in> set us. \<not> P u"
    "update_first P f xs = us @ f x # vs"
  using assms
proof (induction xs arbitrary: thesis)
  case (Cons y xs)
  show ?case
  proof (cases "P y")
    case True
    with Cons.prems(1) [of "[]" y xs] show ?thesis by simp
  next
    case False
    with Cons.prems(2) have "list_ex P xs" by simp
    with Cons.IH obtain us x vs where "xs = us @ x # vs" "P x" "\<forall>u \<in> set us. \<not> P u"
      "update_first P f xs = us @ f x # vs" by blast
    with False Cons.prems(1) [of "y # us" x vs] show ?thesis by simp
  qed
qed simp

section \<open>Comparators\<close>

text \<open>
  \<open>xs.sort(cmp)\<close> with a comparator \<open>cmp\<close> of which only the sign counts; \<open>f(a, b) || g(a, b)\<close> is
  \<open>cmp_then f g\<close>. The sort is stable.
\<close>

definition sort_cmp :: "('a \<Rightarrow> 'a \<Rightarrow> int) \<Rightarrow> 'a list \<Rightarrow> 'a list" where
  "sort_cmp cmp xs = sort_by (\<lambda>a b. cmp a b \<le> 0) xs"

definition cmp_then :: "('a \<Rightarrow> 'a \<Rightarrow> int) \<Rightarrow> ('a \<Rightarrow> 'a \<Rightarrow> int) \<Rightarrow> 'a \<Rightarrow> 'a \<Rightarrow> int" where
  "cmp_then f g a b = (if f a b \<noteq> 0 then f a b else g a b)"

definition cmp_on :: "('a \<Rightarrow> 'b) \<Rightarrow> ('b \<Rightarrow> 'b \<Rightarrow> int) \<Rightarrow> 'a \<Rightarrow> 'a \<Rightarrow> int" where
  "cmp_on f cmp a b = cmp (f a) (f b)"

definition cmp_num :: "'a :: linorder \<Rightarrow> 'a \<Rightarrow> int" where
  "cmp_num a b = (if a < b then - 1 else if a = b then 0 else 1)"

definition cmp_rev :: "('a \<Rightarrow> 'a \<Rightarrow> int) \<Rightarrow> 'a \<Rightarrow> 'a \<Rightarrow> int" where
  "cmp_rev cmp a b = cmp b a"

lemma set_sort_cmp [simp]: "set (sort_cmp cmp xs) = set xs"
  by (simp add: sort_cmp_def)

lemma length_sort_cmp [simp]: "length (sort_cmp cmp xs) = length xs"
  by (simp add: sort_cmp_def)

lemma distinct_sort_cmp [simp]: "distinct (sort_cmp cmp xs) \<longleftrightarrow> distinct xs"
  by (simp add: sort_cmp_def)

lemma mset_sort_cmp [simp]: "mset (sort_cmp cmp xs) = mset xs"
proof -
  have "mset (insert_sorted le x ys) = add_mset x (mset ys)" for le and x :: 'a and ys
    by (induction ys) auto
  then have "mset (sort_by le ys) = mset ys" for le :: "'a \<Rightarrow> 'a \<Rightarrow> bool" and ys
    by (induction ys) auto
  then show ?thesis by (simp add: sort_cmp_def)
qed

text \<open>What a comparator has to satisfy; \<open>localeCompare\<close> is one.\<close>

locale comparator =
  fixes cmp :: "'a \<Rightarrow> 'a \<Rightarrow> int"
  assumes cmp_sym: "cmp a b < 0 \<longleftrightarrow> 0 < cmp b a"
    and cmp_trans: "cmp a b \<le> 0 \<Longrightarrow> cmp b c \<le> 0 \<Longrightarrow> cmp a c \<le> 0"
begin

lemma cmp_refl: "cmp a a = 0"
  using cmp_sym [of a a] by linarith

lemma cmp_eq_sym: "cmp a b = 0 \<longleftrightarrow> cmp b a = 0"
  using cmp_sym [of a b] cmp_sym [of b a] by linarith

lemma cmp_less_trans: "cmp a b < 0 \<Longrightarrow> cmp b c \<le> 0 \<Longrightarrow> cmp a c < 0"
  using cmp_trans [of b c a] cmp_sym [of a b] cmp_sym [of a c] by linarith

lemma cmp_le_less_trans: "cmp a b \<le> 0 \<Longrightarrow> cmp b c < 0 \<Longrightarrow> cmp a c < 0"
  using cmp_trans [of c a b] cmp_sym [of b c] cmp_sym [of a c] by linarith

lemma cmp_eq_trans: "cmp a b = 0 \<Longrightarrow> cmp b c = 0 \<Longrightarrow> cmp a c = 0"
  using cmp_trans [of a b c] cmp_trans [of c b a] cmp_eq_sym [of a b] cmp_eq_sym [of b c]
    cmp_sym [of a c] by linarith

lemma sorted_sort_cmp: "sorted_wrt (\<lambda>a b. cmp a b \<le> 0) (sort_cmp cmp xs)"
  unfolding sort_cmp_def
proof (rule sorted_wrt_sort_by)
  show "transp (\<lambda>a b. cmp a b \<le> 0)" by (rule transpI) (rule cmp_trans)
  show "cmp b a \<le> 0" if "\<not> cmp a b \<le> 0" for a b using that cmp_sym [of b a] by linarith
qed

lemma sort_cmp_unique:
  assumes "distinct xs" "distinct ys" "set xs = set ys"
    "\<And>a b. a \<in> set xs \<Longrightarrow> b \<in> set xs \<Longrightarrow> cmp a b = 0 \<Longrightarrow> a = b"
  shows "sort_cmp cmp xs = sort_cmp cmp ys"
proof -
  have "us = vs" if "sorted_wrt (\<lambda>a b. cmp a b \<le> 0) us" "sorted_wrt (\<lambda>a b. cmp a b \<le> 0) vs"
    "distinct us" "distinct vs" "set us = set vs" "set us \<subseteq> set xs" for us vs
    using that
  proof (induction us arbitrary: vs)
    case (Cons u us)
    then obtain v vs' where vs: "vs = v # vs'" by (cases vs) auto
    have mem: "u = v \<or> u \<in> set vs'" "u = v \<or> v \<in> set us" using Cons.prems(5) vs by auto
    have "cmp u v \<le> 0" using mem(2) Cons.prems(1) by (auto simp: cmp_refl)
    moreover have "cmp v u \<le> 0" using mem(1) Cons.prems(2) vs by (auto simp: cmp_refl)
    ultimately have "cmp u v = 0" using cmp_sym [of u v] by linarith
    moreover have "u \<in> set xs" "v \<in> set xs" using Cons.prems(5,6) vs by auto
    ultimately have "u = v" using assms(4) by blast
    moreover from this have "set us = set vs'" using Cons.prems(3-5) vs by (auto simp: insert_ident)
    ultimately show ?case using Cons.IH [of vs'] Cons.prems vs by auto
  qed simp
  then show ?thesis
    using assms using sorted_sort_cmp [of xs] sorted_sort_cmp [of ys] by (simp add: sort_cmp_def)
qed

end

lemma comparator_cmp_num: "comparator cmp_num"
  by unfold_locales (auto simp: cmp_num_def split: if_splits)

lemma comparator_on: "comparator cmp \<Longrightarrow> comparator (cmp_on f cmp)"
  unfolding comparator_def cmp_on_def by blast

lemma comparator_rev: "comparator cmp \<Longrightarrow> comparator (cmp_rev cmp)"
  unfolding comparator_def cmp_rev_def by blast

lemma comparator_then:
  assumes "comparator f" "comparator g"
  shows "comparator (cmp_then f g)"
proof
  show "cmp_then f g a b < 0 \<longleftrightarrow> 0 < cmp_then f g b a" for a b
    using comparator.cmp_sym [OF assms(1), of a b] comparator.cmp_sym [OF assms(2), of a b]
      comparator.cmp_eq_sym [OF assms(1), of a b]
    by (auto simp: cmp_then_def)
  show "cmp_then f g a c \<le> 0" if "cmp_then f g a b \<le> 0" "cmp_then f g b c \<le> 0" for a b c
    using that comparator.cmp_less_trans [OF assms(1), of a b c] comparator.cmp_le_less_trans [OF assms(1), of a b c]
      comparator.cmp_eq_trans [OF assms(1), of a b c] comparator.cmp_trans [OF assms(2), of a b c]
    by (auto simp: cmp_then_def split: if_splits)
qed

lemmas comparator_intros = comparator_then comparator_on comparator_rev comparator_cmp_num

interpretation num: comparator "cmp_num :: 'a :: linorder \<Rightarrow> _"
  by (rule comparator_cmp_num)

lemmas js_defs = starts_with_def ends_with_def trim_def lower_def lower_char_def is_upper_def
  is_lower_def is_ws_def is_digit_def

section \<open>Transition systems\<close>

text \<open>
  A component whose operations are called in any order by an environment: initial states, the guard of
  each action and its effect. The states it can get into are the least set closed under enabled steps.
\<close>

inductive reachable ::
  "('s \<Rightarrow> bool) \<Rightarrow> ('a \<Rightarrow> 's \<Rightarrow> bool) \<Rightarrow> ('a \<Rightarrow> 's \<Rightarrow> 's) \<Rightarrow> 's \<Rightarrow> bool"
  for init enabled step where
  start: "init s \<Longrightarrow> reachable init enabled step s"
| next_step: "reachable init enabled step s \<Longrightarrow> enabled a s \<Longrightarrow> reachable init enabled step (step a s)"

text \<open>Running a sequence of actions, each of which must be enabled; \<open>None\<close> when one is not.\<close>

fun run :: "('a \<Rightarrow> 's \<Rightarrow> bool) \<Rightarrow> ('a \<Rightarrow> 's \<Rightarrow> 's) \<Rightarrow> 'a list \<Rightarrow> 's \<Rightarrow> 's option" where
  "run enabled step [] s = Some s"
| "run enabled step (a # as) s = (if enabled a s then run enabled step as (step a s) else None)"

lemma run_reachable:
  "reachable init enabled step s \<Longrightarrow> run enabled step as s = Some t \<Longrightarrow> reachable init enabled step t"
  by (induction as arbitrary: s) (auto split: if_splits intro: reachable.next_step)

lemma run_always: "run (\<lambda>_ _. True) step as s = Some (fold step as s)"
  by (induction as arbitrary: s) simp_all

locale invariant_machine =
  fixes init :: "'s \<Rightarrow> bool"
    and enabled :: "'a \<Rightarrow> 's \<Rightarrow> bool"
    and step :: "'a \<Rightarrow> 's \<Rightarrow> 's"
    and inv :: "'s \<Rightarrow> bool"
  assumes inv_init: "init s \<Longrightarrow> inv s"
    and inv_step: "inv s \<Longrightarrow> enabled a s \<Longrightarrow> inv (step a s)"
begin

lemma inv_reachable: "reachable init enabled step s \<Longrightarrow> inv s"
  by (induction rule: reachable.induct) (auto intro: inv_init inv_step)

lemma inv_run: "inv s \<Longrightarrow> run enabled step as s = Some t \<Longrightarrow> inv t"
  by (induction as arbitrary: s) (auto split: if_splits intro: inv_step)

end

text \<open>Comparing strings by code units, the order of \<open>sort()\<close> without a comparator.\<close>

fun cmp_units :: "string \<Rightarrow> string \<Rightarrow> int" where
  "cmp_units [] [] = 0"
| "cmp_units [] (d # t) = - 1"
| "cmp_units (c # s) [] = 1"
| "cmp_units (c # s) (d # t) = (if c = d then cmp_units s t else if code c < code d then - 1 else 1)"

lemma cmp_units_eq: "cmp_units x y = 0 \<Longrightarrow> x = y"
  by (induction x y rule: cmp_units.induct) (auto split: if_splits)

lemma comparator_cmp_units: "comparator cmp_units"
proof
  show "cmp_units a b < 0 \<longleftrightarrow> 0 < cmp_units b a" for a b
    by (induction a b rule: cmp_units.induct) (auto simp: not_less order_le_less)
  show "cmp_units a c \<le> 0" if "cmp_units a b \<le> 0" "cmp_units b c \<le> 0" for a b c
    using that
  proof (induction a b arbitrary: c rule: cmp_units.induct)
    case (2 d t)
    then show ?case by (cases c) auto
  next
    case (4 x s d t)
    then show ?case by (cases c) (auto split: if_splits)
  qed auto
qed

end
