(* ===== verification/LiveSocket.thy ===== *)
theory LiveSocket
  imports JsPrelude
begin

text \<open>
  The shared live-event connection of \<open>hooks/useWebSocket.ts\<close>: class \<open>SharedSocket\<close>, the registry
  of sockets and the listener a hook registers. The state holds the fields of the class and the part
  of the browser it talks to: the WebSocket objects it created (their \<open>readyState\<close> and whether their
  handlers are still attached), the pending timers and the clock. Callbacks and frames are appended to
  \<open>trace\<close> in the order the code issues them. A callback does not call back into the socket: a listener
  that does is a later step.
\<close>

section \<open>State\<close>

datatype ready_state = CONNECTING | OPEN | CLOSING | CLOSED

datatype timer_kind = ReconnectTimer | PingTimer | IdleTimer

record listener =
  lid :: nat
  ltopics :: "string list"

record socket_settings =
  reconnect :: bool
  reconnectInterval :: int
  reconnectAttempts :: nat
  pingInterval :: int

datatype socket_output =
    SendSubscribe "string list"
  | SendData json
  | SendPing int
  | CallOpen nat
  | CallClose nat
  | CallError nat
  | CallMessage nat json
  | WarnNotConnected
  | LogCreateFailed
  | LogParseFailed

record shared_socket =
  ws :: "nat option"
  listeners :: "listener list"
  reconnectCount :: nat
  reconnectTimer :: "nat option"
  pingTimer :: "nat option"
  idleTimer :: "nat option"
  subscribed :: string
  opened :: bool
  lastPong :: int
  connected :: bool
  url :: string
  settings :: socket_settings
  registered :: bool
  ready :: "nat \<Rightarrow> ready_state"
  attached :: "nat \<Rightarrow> bool"
  nextWs :: nat
  timers :: "(nat \<times> timer_kind \<times> int) list"
  nextTimer :: nat
  now :: int
  url_ok :: bool
  told :: "string list"
  trace :: "socket_output list"

text \<open>
  \<open>registered\<close>: the registry \<open>sockets\<close> holds this socket. \<open>url_ok\<close>: the WebSocket constructor
  accepts the address (it throws otherwise). \<open>told\<close>: the topics of the last subscribe frame sent on the
  open connection.
\<close>

section \<open>The browser\<close>

definition set_timer :: "timer_kind \<Rightarrow> int \<Rightarrow> shared_socket \<Rightarrow> nat \<times> shared_socket" where
  "set_timer k delay s =
     (nextTimer s, s\<lparr>timers := timers s @ [(nextTimer s, k, now s + delay)],
                     nextTimer := Suc (nextTimer s)\<rparr>)"

definition clear_timer :: "nat option \<Rightarrow> shared_socket \<Rightarrow> shared_socket" where
  "clear_timer h s = s\<lparr>timers := filter (\<lambda>x. Some (fst x) \<noteq> h) (timers s)\<rparr>"

definition emit :: "socket_output list \<Rightarrow> shared_socket \<Rightarrow> shared_socket" where
  "emit os s = s\<lparr>trace := trace s @ os\<rparr>"

definition close_ws :: "nat \<Rightarrow> shared_socket \<Rightarrow> shared_socket" where
  "close_ws i s =
     (if ready s i = CONNECTING \<or> ready s i = OPEN then s\<lparr>ready := (ready s)(i := CLOSING)\<rparr> else s)"

definition is_open :: "shared_socket \<Rightarrow> bool" where
  "is_open s = (case ws s of None \<Rightarrow> False | Some i \<Rightarrow> ready s i = OPEN)"

section \<open>The operations of SharedSocket\<close>

fun str_le :: "string \<Rightarrow> string \<Rightarrow> bool" where
  "str_le [] t \<longleftrightarrow> True"
| "str_le (c # s) [] \<longleftrightarrow> False"
| "str_le (c # s) (d # t) \<longleftrightarrow> code c < code d \<or> c = d \<and> str_le s t"

definition all_topics :: "listener list \<Rightarrow> string list" where
  "all_topics ls = sort_by str_le (dedup (concat (map ltopics ls)))"

definition topics_key :: "string list \<Rightarrow> string" where
  "topics_key ts = join ''|'' ts"

definition subscribe :: "shared_socket \<Rightarrow> shared_socket" where
  "subscribe s =
     (if \<not> is_open s then s
      else
        (let topics = all_topics (listeners s); key = topics_key topics in
         if key = subscribed s then s
         else emit [SendSubscribe topics] (s\<lparr>subscribed := key, told := topics\<rparr>)))"

definition socket_send :: "json \<Rightarrow> shared_socket \<Rightarrow> shared_socket" where
  "socket_send d s = (if is_open s then emit [SendData d] s else emit [WarnNotConnected] s)"

definition connect :: "shared_socket \<Rightarrow> shared_socket" where
  "connect s =
     (if (case ws s of None \<Rightarrow> False | Some i \<Rightarrow> ready s i = OPEN \<or> ready s i = CONNECTING) then s
      else
        (let s1 = (clear_timer (reconnectTimer s) s)\<lparr>reconnectTimer := None\<rparr> in
         if \<not> url_ok s1 then emit [LogCreateFailed] s1
         else s1\<lparr>ws := Some (nextWs s1),
                 ready := (ready s1)(nextWs s1 := CONNECTING),
                 attached := (attached s1)(nextWs s1 := True),
                 nextWs := Suc (nextWs s1)\<rparr>))"

definition add_listener :: "listener \<Rightarrow> shared_socket \<Rightarrow> shared_socket" where
  "add_listener l s =
     (let s1 = (clear_timer (idleTimer s) s)\<lparr>idleTimer := None\<rparr>;
          s2 = (if lid l \<in> lid ` set (listeners s1) then s1 else s1\<lparr>listeners := listeners s1 @ [l]\<rparr>)
      in if connected s2 then subscribe (emit [CallOpen (lid l)] s2) else connect s2)"

definition IDLE_CLOSE_MS :: int where
  "IDLE_CLOSE_MS = 2000"

definition remove_listener :: "nat \<Rightarrow> shared_socket \<Rightarrow> shared_socket" where
  "remove_listener i s =
     (let s1 = s\<lparr>listeners := filter (\<lambda>l. lid l \<noteq> i) (listeners s)\<rparr> in
      if listeners s1 = []
      then (let (t, s2) = set_timer IdleTimer IDLE_CLOSE_MS s1 in s2\<lparr>idleTimer := Some t\<rparr>)
      else subscribe s1)"

definition RESYNC_EVENT :: json where
  "RESYNC_EVENT = JObj [(''type'', JStr ''resync''), (''event'', JStr ''job_resync'')]"

definition on_open :: "nat \<Rightarrow> shared_socket \<Rightarrow> shared_socket" where
  "on_open i s =
     (if ws s \<noteq> Some i then s
      else
        (let reconnected = opened s;
             s1 = subscribe (s\<lparr>opened := True, connected := True, reconnectCount := 0,
                               lastPong := now s, subscribed := '''', told := []\<rparr>);
             s2 = emit (concat (map (\<lambda>l. CallOpen (lid l) #
                     (if reconnected then [CallMessage (lid l) RESYNC_EVENT] else [])) (listeners s1))) s1;
             s3 = clear_timer (pingTimer s2) s2;
             (t, s4) = set_timer PingTimer (pingInterval (settings s3)) s3
         in s4\<lparr>pingTimer := Some t\<rparr>))"

text \<open>\<open>JSON.parse\<close> of the frame is \<open>None\<close> when it throws; reading \<open>null.type\<close> throws too.\<close>

definition on_message :: "nat \<Rightarrow> json option \<Rightarrow> shared_socket \<Rightarrow> shared_socket" where
  "on_message i parsed s =
     (if ws s \<noteq> Some i then s
      else
        (let s1 = s\<lparr>lastPong := now s\<rparr> in
         case parsed of
           None \<Rightarrow> emit [LogParseFailed] s1
         | Some data \<Rightarrow>
             let ty = (case data of JObj ob \<Rightarrow> oget ob ''type'' | _ \<Rightarrow> JUndef) in
             if data = JNull then s1
             else if ty = JStr ''pong'' \<or> ty = JStr ''subscribed'' then s1
             else emit (map (\<lambda>l. CallMessage (lid l) data) (listeners s1)) s1))"

definition on_close :: "nat \<Rightarrow> shared_socket \<Rightarrow> shared_socket" where
  "on_close i s =
     (if ws s \<noteq> Some i then s
      else
        (let s1 = s\<lparr>ws := None\<rparr>;
             s2 = (if listeners s1 = [] then s1\<lparr>attached := (attached s1)(i := False)\<rparr> else s1);
             s3 = (clear_timer (pingTimer s2) (s2\<lparr>connected := False, subscribed := ''''\<rparr>))\<lparr>pingTimer := None\<rparr>;
             s4 = emit (map (\<lambda>l. CallClose (lid l)) (listeners s3)) s3
         in if listeners s4 \<noteq> [] \<and> reconnect (settings s4)
               \<and> reconnectCount s4 < reconnectAttempts (settings s4)
            then (let s5 = s4\<lparr>reconnectCount := reconnectCount s4 + 1\<rparr>;
                      (t, s6) = set_timer ReconnectTimer (reconnectInterval (settings s5)) s5
                  in s6\<lparr>reconnectTimer := Some t\<rparr>)
            else s4))"

definition on_error :: "nat \<Rightarrow> shared_socket \<Rightarrow> shared_socket" where
  "on_error i s =
     (if ws s \<noteq> Some i then s else emit (map (\<lambda>l. CallError (lid l)) (listeners s)) s)"

definition stale :: "shared_socket \<Rightarrow> bool" where
  "stale s \<longleftrightarrow> now s - lastPong s > pingInterval (settings s) * 2"

definition ping :: "shared_socket \<Rightarrow> shared_socket" where
  "ping s =
     (case ws s of
        None \<Rightarrow> s
      | Some i \<Rightarrow>
          if ready s i \<noteq> OPEN then s
          else if stale s then close_ws i s
          else emit [SendPing (now s)] s)"

definition revive :: "bool \<Rightarrow> shared_socket \<Rightarrow> shared_socket" where
  "revive force s =
     (if listeners s = [] then s
      else if force \<or> \<not> is_open s \<or> stale s
      then (let s1 = s\<lparr>reconnectCount := 0\<rparr> in
            if is_open s1 then close_ws (the (ws s1)) s1 else connect s1)
      else ping s)"

definition shutdown :: "shared_socket \<Rightarrow> shared_socket" where
  "shutdown s =
     (let s1 = s\<lparr>idleTimer := None\<rparr> in
      if listeners s1 \<noteq> [] then s1
      else
        (let s2 = clear_timer (pingTimer s1) (clear_timer (reconnectTimer s1) (s1\<lparr>registered := False\<rparr>));
             s3 = s2\<lparr>ws := None\<rparr>
         in case ws s2 of
              None \<Rightarrow> s3
            | Some i \<Rightarrow> close_ws i (s3\<lparr>attached := (attached s3)(i := False)\<rparr>)))"

definition closeIfUnused :: "shared_socket \<Rightarrow> shared_socket" where
  "closeIfUnused s =
     (if listeners s \<noteq> [] then s else shutdown (clear_timer (idleTimer s) s))"

section \<open>The registry\<close>

definition new_socket :: "string \<Rightarrow> socket_settings \<Rightarrow> bool \<Rightarrow> int \<Rightarrow> shared_socket" where
  "new_socket u st ok t =
     \<lparr>ws = None, listeners = [], reconnectCount = 0, reconnectTimer = None, pingTimer = None,
      idleTimer = None, subscribed = '''', opened = False, lastPong = t, connected = False,
      url = u, settings = st, registered = True, ready = (\<lambda>_. CLOSED), attached = (\<lambda>_. False),
      nextWs = 0, timers = [], nextTimer = 0, now = t, url_ok = ok, told = [], trace = []\<rparr>"

text \<open>\<open>sharedSocket(url, settings)\<close>: the socket of that address, created on first use.\<close>

definition sharedSocket ::
  "string \<Rightarrow> socket_settings \<Rightarrow> bool \<Rightarrow> int \<Rightarrow> shared_socket list \<Rightarrow> shared_socket list" where
  "sharedSocket u st ok t socks =
     (if u \<in> url ` set socks then socks else socks @ [new_socket u st ok t])"

definition on_visible :: "shared_socket list \<Rightarrow> shared_socket list" where
  "on_visible socks = map (revive False) socks"

definition on_online :: "shared_socket list \<Rightarrow> shared_socket list" where
  "on_online socks = map (revive True) socks"

definition closeUnusedSockets :: "shared_socket list \<Rightarrow> shared_socket list" where
  "closeUnusedSockets socks = filter registered (map closeIfUnused socks)"

text \<open>
  The topics a hook hands to its listener: the sorted topics are joined into an effect key and split
  again inside the effect.
\<close>

definition hook_topics :: "string list \<Rightarrow> string list" where
  "hook_topics ts =
     (let key = topics_key (sort_by str_le ts) in if key = '''' then [] else split_on (CHR ''|'') key)"

section \<open>Steps\<close>

text \<open>
  What can happen next to a socket: a hook mounts or unmounts, the browser reports an event of one of
  the WebSockets, a due timer fires, the tab becomes visible or goes online, time passes.
\<close>

datatype action =
    AddHook nat "string list"
  | RemoveHook nat
  | SendFrame json
  | WsOpens nat
  | WsMessage nat "json option"
  | WsCloses nat
  | WsError nat
  | TimerFires nat
  | Revive bool
  | CloseIfUnused
  | TimePasses nat

definition find_timer :: "nat \<Rightarrow> shared_socket \<Rightarrow> (timer_kind \<times> int) option" where
  "find_timer t s = map_of (timers s) t"

definition fire :: "nat \<Rightarrow> shared_socket \<Rightarrow> shared_socket" where
  "fire t s =
     (case find_timer t s of
        None \<Rightarrow> s
      | Some (k, due) \<Rightarrow>
          let rest = s\<lparr>timers := filter (\<lambda>x. fst x \<noteq> t) (timers s)\<rparr> in
          case k of
            ReconnectTimer \<Rightarrow> connect rest
          | IdleTimer \<Rightarrow> shutdown rest
          | PingTimer \<Rightarrow>
              ping (s\<lparr>timers := map (\<lambda>x. if fst x = t then (t, k, now s + pingInterval (settings s)) else x)
                                  (timers s)\<rparr>))"

text \<open>The topics of the type \<open>EventTopic\<close>.\<close>

definition event_topic :: "string \<Rightarrow> bool" where
  "event_topic t \<longleftrightarrow>
     t \<in> {''jobs'', ''logs'', ''chats'', ''system'', ''api_hooks'', ''favourites'', ''profiles''}
     \<or> starts_with ''job:'' t"

text \<open>The guard: a hook joins a registered socket once, leaves it once, and the browser delivers an
  event only to a WebSocket in the right state.\<close>

definition enabled :: "action \<Rightarrow> shared_socket \<Rightarrow> bool" where
  "enabled a s = (case a of
      AddHook i ts \<Rightarrow> registered s \<and> i \<notin> lid ` set (listeners s) \<and> (\<forall>t \<in> set ts. event_topic t)
    | RemoveHook i \<Rightarrow> i \<in> lid ` set (listeners s)
    | WsOpens i \<Rightarrow> ready s i = CONNECTING
    | WsMessage i _ \<Rightarrow> ready s i = OPEN
    | WsCloses i \<Rightarrow> ready s i \<noteq> CLOSED
    | WsError i \<Rightarrow> ready s i \<noteq> CLOSED
    | TimerFires t \<Rightarrow> (case find_timer t s of None \<Rightarrow> False | Some (_, due) \<Rightarrow> due \<le> now s)
    | _ \<Rightarrow> True)"

definition socket_step :: "action \<Rightarrow> shared_socket \<Rightarrow> shared_socket" where
  "socket_step a s = (case a of
      AddHook i ts \<Rightarrow> add_listener \<lparr>lid = i, ltopics = hook_topics ts\<rparr> s
    | RemoveHook i \<Rightarrow> remove_listener i s
    | SendFrame d \<Rightarrow> socket_send d s
    | WsOpens i \<Rightarrow>
        (let s1 = s\<lparr>ready := (ready s)(i := OPEN)\<rparr> in if attached s1 i then on_open i s1 else s1)
    | WsMessage i d \<Rightarrow> if attached s i then on_message i d s else s
    | WsCloses i \<Rightarrow>
        (let s1 = s\<lparr>ready := (ready s)(i := CLOSED)\<rparr> in if attached s1 i then on_close i s1 else s1)
    | WsError i \<Rightarrow> if attached s i then on_error i s else s
    | TimerFires t \<Rightarrow> fire t s
    | Revive force \<Rightarrow> revive force s
    | CloseIfUnused \<Rightarrow> closeIfUnused s
    | TimePasses d \<Rightarrow> s\<lparr>now := now s + int d\<rparr>)"

definition socket_init :: "string \<Rightarrow> socket_settings \<Rightarrow> bool \<Rightarrow> shared_socket \<Rightarrow> bool" where
  "socket_init u st ok s \<longleftrightarrow> (\<exists>t. s = new_socket u st ok t)"

abbreviation reachable_socket :: "string \<Rightarrow> socket_settings \<Rightarrow> bool \<Rightarrow> shared_socket \<Rightarrow> bool" where
  "reachable_socket u st ok \<equiv> reachable (socket_init u st ok) enabled socket_step"

section \<open>What each operation leaves alone\<close>

lemma emit_frame [simp]:
  "ws (emit os s) = ws s" "listeners (emit os s) = listeners s"
  "reconnectCount (emit os s) = reconnectCount s" "reconnectTimer (emit os s) = reconnectTimer s"
  "pingTimer (emit os s) = pingTimer s" "idleTimer (emit os s) = idleTimer s"
  "subscribed (emit os s) = subscribed s" "opened (emit os s) = opened s"
  "lastPong (emit os s) = lastPong s" "connected (emit os s) = connected s"
  "settings (emit os s) = settings s" "registered (emit os s) = registered s"
  "ready (emit os s) = ready s" "attached (emit os s) = attached s" "nextWs (emit os s) = nextWs s"
  "timers (emit os s) = timers s" "nextTimer (emit os s) = nextTimer s" "now (emit os s) = now s"
  "url_ok (emit os s) = url_ok s" "told (emit os s) = told s" "url (emit os s) = url s"
  by (simp_all add: emit_def)

lemma subscribe_frame [simp]:
  "ws (subscribe s) = ws s" "listeners (subscribe s) = listeners s"
  "reconnectCount (subscribe s) = reconnectCount s" "reconnectTimer (subscribe s) = reconnectTimer s"
  "pingTimer (subscribe s) = pingTimer s" "idleTimer (subscribe s) = idleTimer s"
  "opened (subscribe s) = opened s" "connected (subscribe s) = connected s"
  "settings (subscribe s) = settings s" "registered (subscribe s) = registered s"
  "ready (subscribe s) = ready s" "attached (subscribe s) = attached s"
  "nextWs (subscribe s) = nextWs s" "timers (subscribe s) = timers s"
  "nextTimer (subscribe s) = nextTimer s" "now (subscribe s) = now s" "url_ok (subscribe s) = url_ok s"
  by (simp_all add: subscribe_def Let_def)

lemma clear_timer_frame [simp]:
  "ws (clear_timer h s) = ws s" "listeners (clear_timer h s) = listeners s"
  "reconnectCount (clear_timer h s) = reconnectCount s"
  "reconnectTimer (clear_timer h s) = reconnectTimer s"
  "pingTimer (clear_timer h s) = pingTimer s" "idleTimer (clear_timer h s) = idleTimer s"
  "subscribed (clear_timer h s) = subscribed s" "told (clear_timer h s) = told s"
  "opened (clear_timer h s) = opened s" "connected (clear_timer h s) = connected s"
  "settings (clear_timer h s) = settings s" "registered (clear_timer h s) = registered s"
  "ready (clear_timer h s) = ready s" "attached (clear_timer h s) = attached s"
  "nextWs (clear_timer h s) = nextWs s" "nextTimer (clear_timer h s) = nextTimer s"
  "now (clear_timer h s) = now s" "url_ok (clear_timer h s) = url_ok s"
  "timers (clear_timer h s) = filter (\<lambda>x. Some (fst x) \<noteq> h) (timers s)"
  by (simp_all add: clear_timer_def)

lemma close_ws_frame [simp]:
  "ws (close_ws i s) = ws s" "listeners (close_ws i s) = listeners s"
  "reconnectCount (close_ws i s) = reconnectCount s" "reconnectTimer (close_ws i s) = reconnectTimer s"
  "pingTimer (close_ws i s) = pingTimer s" "idleTimer (close_ws i s) = idleTimer s"
  "subscribed (close_ws i s) = subscribed s" "told (close_ws i s) = told s"
  "opened (close_ws i s) = opened s" "connected (close_ws i s) = connected s"
  "settings (close_ws i s) = settings s" "registered (close_ws i s) = registered s"
  "attached (close_ws i s) = attached s" "nextWs (close_ws i s) = nextWs s"
  "timers (close_ws i s) = timers s" "nextTimer (close_ws i s) = nextTimer s"
  "url_ok (close_ws i s) = url_ok s"
  by (simp_all add: close_ws_def)

section \<open>Invariants\<close>

text \<open>The WebSocket objects: the current one is the only one that is or may become open, its handlers
  are attached, and the flags agree with it.\<close>

definition live :: "ready_state \<Rightarrow> bool" where
  "live r \<longleftrightarrow> r = CONNECTING \<or> r = OPEN"

lemma live_simps [simp]: "live CONNECTING" "live OPEN" "\<not> live CLOSING" "\<not> live CLOSED"
  by (simp_all add: live_def)

definition ws_inv :: "shared_socket \<Rightarrow> bool" where
  "ws_inv s \<longleftrightarrow>
     (\<forall>i \<ge> nextWs s. ready s i = CLOSED)
     \<and> (\<forall>i. live (ready s i) \<longrightarrow> ws s = Some i)
     \<and> (\<forall>i. ws s = Some i \<longrightarrow> ready s i \<noteq> CLOSED \<and> attached s i)
     \<and> (\<forall>i. ws s = Some i \<and> ready s i = OPEN \<longrightarrow> connected s \<and> opened s)
     \<and> (registered s \<and> ws s = None \<longrightarrow> \<not> connected s)
     \<and> (\<not> registered s \<longrightarrow> ws s = None \<and> listeners s = [])
     \<and> distinct (map lid (listeners s))"

lemma ws_inv_live:
  assumes "ws_inv s" "live (ready s i)"
  shows "ws s = Some i" "registered s"
proof -
  show w: "ws s = Some i"
    using assms unfolding ws_inv_def by blast
  then show "registered s"
    using assms unfolding ws_inv_def by fastforce
qed

lemma ws_inv_known: "ws_inv s \<Longrightarrow> ready s i \<noteq> CLOSED \<Longrightarrow> i < nextWs s"
  unfolding ws_inv_def using linorder_not_less by blast

lemma ws_inv_emit [simp]: "ws_inv (emit os s) = ws_inv s"
  by (simp add: ws_inv_def)

lemma ws_inv_subscribe [simp]: "ws_inv (subscribe s) = ws_inv s"
  by (simp add: ws_inv_def)

lemma ws_inv_clear [simp]: "ws_inv (clear_timer h s) = ws_inv s"
  by (simp add: ws_inv_def)

lemma ws_inv_timers [simp]:
  "ws_inv (s\<lparr>timers := x\<rparr>) = ws_inv s" "ws_inv (s\<lparr>idleTimer := y\<rparr>) = ws_inv s"
  "ws_inv (s\<lparr>pingTimer := y\<rparr>) = ws_inv s" "ws_inv (s\<lparr>reconnectTimer := y\<rparr>) = ws_inv s"
  "ws_inv (s\<lparr>reconnectCount := n\<rparr>) = ws_inv s" "ws_inv (s\<lparr>lastPong := z\<rparr>) = ws_inv s"
  "ws_inv (s\<lparr>now := z\<rparr>) = ws_inv s" "ws_inv (s\<lparr>nextTimer := m\<rparr>) = ws_inv s"
  by (simp_all add: ws_inv_def)

lemma ws_inv_close [intro]: "ws_inv s \<Longrightarrow> ws_inv (close_ws i s)"
  unfolding ws_inv_def by (auto simp: close_ws_def)

lemma ws_inv_connect [intro]: "ws_inv s \<Longrightarrow> registered s \<Longrightarrow> ws_inv (connect s)"
  unfolding connect_def Let_def
  by (auto simp: ws_inv_def live_def split: option.splits if_splits)


lemma ws_inv_add: "ws_inv s \<Longrightarrow> registered s \<Longrightarrow> ws_inv (add_listener l s)"
proof -
  assume inv: "ws_inv s" "registered s"
  let ?s1 = "(clear_timer (idleTimer s) s)\<lparr>idleTimer := None\<rparr>"
  let ?s2 = "if lid l \<in> lid ` set (listeners ?s1) then ?s1 else ?s1\<lparr>listeners := listeners ?s1 @ [l]\<rparr>"
  have "ws_inv ?s2" "registered ?s2"
    using inv by (auto simp: ws_inv_def)
  then show ?thesis
    unfolding add_listener_def Let_def by (simp add: ws_inv_connect)
qed

lemma ws_inv_remove: "ws_inv s \<Longrightarrow> ws_inv (remove_listener i s)"
  by (auto simp: remove_listener_def Let_def set_timer_def ws_inv_def distinct_map_filter)

lemma ws_inv_ping: "ws_inv s \<Longrightarrow> ws_inv (ping s)"
  by (auto simp: ping_def split: option.splits)

lemma ws_inv_revive: "ws_inv s \<Longrightarrow> ws_inv (revive f s)"
  unfolding revive_def Let_def
  by (cases "registered s") (auto intro: ws_inv_ping simp: ws_inv_def[of s])

lemma shutdown_used: "listeners s \<noteq> [] \<Longrightarrow> shutdown s = s\<lparr>idleTimer := None\<rparr>"
  by (simp add: shutdown_def)

lemma shutdown_fields:
  assumes "listeners s = []"
  shows "ws (shutdown s) = None" "\<not> registered (shutdown s)" "listeners (shutdown s) = []"
    "nextWs (shutdown s) = nextWs s" "nextTimer (shutdown s) = nextTimer s"
    "idleTimer (shutdown s) = None" "pingTimer (shutdown s) = pingTimer s"
    "reconnectTimer (shutdown s) = reconnectTimer s"
    "settings (shutdown s) = settings s" "reconnectCount (shutdown s) = reconnectCount s"
    "ready (shutdown s) =
       (case ws s of None \<Rightarrow> ready s
        | Some i \<Rightarrow> if live (ready s i) then (ready s)(i := CLOSING) else ready s)"
    "timers (shutdown s) =
       filter (\<lambda>x. Some (fst x) \<noteq> pingTimer s) (filter (\<lambda>x. Some (fst x) \<noteq> reconnectTimer s) (timers s))"
  using assms
  by (simp_all add: shutdown_def Let_def close_ws_def live_def clear_timer_def split: option.split)

lemma ws_inv_shutdown: "ws_inv s \<Longrightarrow> ws_inv (shutdown s)"
proof (cases "listeners s = []")
  case True
  assume inv: "ws_inv s"
  show ?thesis
  proof (cases "ws s")
    case None
    with inv True show ?thesis
      by (auto simp: ws_inv_def shutdown_fields)
  next
    case (Some i)
    have 1: "\<forall>j \<ge> nextWs s. ready s j = CLOSED" "ready s i \<noteq> CLOSED"
      and 2: "\<forall>j. j \<noteq> i \<longrightarrow> \<not> live (ready s j)"
      using inv Some by (auto simp: ws_inv_def)
    then have "i < nextWs s"
      by (meson leI)
    with 1 2 show ?thesis
      unfolding ws_inv_def by (simp add: shutdown_fields [OF True] Some) metis
  qed
qed (simp add: shutdown_used)

lemma on_open_other: "ws s \<noteq> Some i \<Longrightarrow> on_open i s = s"
  by (simp add: on_open_def)

lemma on_open_fields:
  assumes "ws s = Some i"
  shows "ws (on_open i s) = Some i" "listeners (on_open i s) = listeners s"
    "registered (on_open i s) = registered s" "nextWs (on_open i s) = nextWs s"
    "ready (on_open i s) = ready s" "attached (on_open i s) = attached s"
    "connected (on_open i s)" "opened (on_open i s)" "reconnectCount (on_open i s) = 0"
    "settings (on_open i s) = settings s" "url_ok (on_open i s) = url_ok s"
    "reconnectTimer (on_open i s) = reconnectTimer s" "idleTimer (on_open i s) = idleTimer s"
    "pingTimer (on_open i s) = Some (nextTimer s)" "nextTimer (on_open i s) = Suc (nextTimer s)"
    "timers (on_open i s) = filter (\<lambda>x. Some (fst x) \<noteq> pingTimer s) (timers s)
        @ [(nextTimer s, PingTimer, now s + pingInterval (settings s))]"
  using assms by (simp_all add: on_open_def Let_def set_timer_def)

lemma on_close_fields:
  assumes "ws s = Some i"
  shows "ws (on_close i s) = None" "listeners (on_close i s) = listeners s"
    "registered (on_close i s) = registered s" "nextWs (on_close i s) = nextWs s"
    "ready (on_close i s) = ready s" "\<not> connected (on_close i s)"
    "opened (on_close i s) = opened s"
    "settings (on_close i s) = settings s" "url_ok (on_close i s) = url_ok s"
    "idleTimer (on_close i s) = idleTimer s" "pingTimer (on_close i s) = None"
  using assms by (simp_all add: on_close_def Let_def set_timer_def)

lemma ws_inv_opens:
  assumes "ws_inv s" "ready s i = CONNECTING"
  shows "ws_inv (on_open i (s\<lparr>ready := (ready s)(i := OPEN)\<rparr>))"
proof -
  have "ws s = Some i"
    using assms by (auto simp: ws_inv_def)
  with assms show ?thesis
    by (auto simp: ws_inv_def on_open_fields)
qed

lemma ws_inv_closes:
  assumes "ws_inv s"
  shows "ws_inv (on_close i (s\<lparr>ready := (ready s)(i := CLOSED)\<rparr>))"
proof (cases "ws s = Some i")
  case True
  with assms show ?thesis
    by (auto simp: ws_inv_def on_close_fields)
next
  case False
  with assms show ?thesis
    by (auto simp: ws_inv_def on_close_def)
qed

lemma ws_inv_fire: "ws_inv s \<Longrightarrow> (timers s \<noteq> [] \<Longrightarrow> registered s) \<Longrightarrow> ws_inv (fire t s)"
  by (cases "timers s = []")
    (auto simp: fire_def find_timer_def Let_def intro: ws_inv_shutdown ws_inv_ping
      split: option.split timer_kind.split)

text \<open>The timer table: the pending timers, the handle the socket keeps per kind, the next id.\<close>

type_synonym timer_table = "(nat \<times> timer_kind \<times> int) list"

definition pending :: "timer_kind \<Rightarrow> timer_table \<Rightarrow> bool" where
  "pending k ts \<longleftrightarrow> (\<exists>t due. (t, k, due) \<in> set ts)"

definition table_ok :: "timer_table \<Rightarrow> (timer_kind \<Rightarrow> nat option) \<Rightarrow> nat \<Rightarrow> bool" where
  "table_ok ts h n \<longleftrightarrow>
     distinct (map fst ts) \<and> (\<forall>t k due. (t, k, due) \<in> set ts \<longrightarrow> h k = Some t)
     \<and> (\<forall>k t. h k = Some t \<longrightarrow> t < n) \<and> (\<forall>k k' t. h k = Some t \<longrightarrow> h k' = Some t \<longrightarrow> k = k')"

definition without :: "nat option \<Rightarrow> timer_table \<Rightarrow> timer_table" where
  "without h ts = filter (\<lambda>x. Some (fst x) \<noteq> h) ts"

lemma table_okD:
  assumes "table_ok ts h n" "(t, k, due) \<in> set ts"
  shows "h k = Some t" "t < n"
  using assms unfolding table_ok_def by blast+

lemma table_ok_without:
  assumes "table_ok ts h n"
  shows "table_ok (without x ts) h n" "table_ok (without (h k) ts) (h(k := None)) n"
proof -
  have "distinct (map fst (without x ts))" for x
    using assms by (auto simp: without_def table_ok_def distinct_map_filter)
  moreover have "(t, k', due) \<in> set (without x ts) \<Longrightarrow> h k' = Some t" for t k' due x
    using table_okD [OF assms] by (auto simp: without_def)
  moreover have "(t, k', due) \<in> set (without (h k) ts) \<Longrightarrow> k' \<noteq> k" for t k' due
    using table_okD [OF assms] by (auto simp: without_def)
  ultimately show "table_ok (without x ts) h n" "table_ok (without (h k) ts) (h(k := None)) n"
    using assms unfolding table_ok_def by (auto 0 4)
qed

lemma pending_without [simp]:
  assumes "table_ok ts h n"
  shows "pending k' (without (h k) ts) \<longleftrightarrow> pending k' ts \<and> k' \<noteq> k"
proof -
  have "(t, k', due) \<in> set ts \<Longrightarrow> Some t \<noteq> h k \<longleftrightarrow> k' \<noteq> k" for t due
    using assms table_okD [OF assms] unfolding table_ok_def by metis
  then show ?thesis by (auto simp: pending_def without_def)
qed

lemma table_ok_set:
  assumes "table_ok ts h n" "\<not> pending k ts"
  shows "table_ok (ts @ [(n, k, due)]) (h(k := Some n)) (Suc n)"
proof -
  have "n \<notin> fst ` set ts"
    using table_okD [OF assms(1)] by force
  moreover have "h k' = Some t \<Longrightarrow> t \<noteq> n" for k' t
    using assms(1) unfolding table_ok_def by blast
  ultimately show ?thesis
    using assms unfolding table_ok_def pending_def by (auto simp: less_Suc_eq)
qed

lemma pending_append [simp]: "pending k (ts @ [(n, k', due)]) \<longleftrightarrow> pending k ts \<or> k = k'"
  by (auto simp: pending_def)

lemma pending_Nil [simp]: "\<not> pending k []"
  by (simp add: pending_def)

lemma table_empty:
  assumes "table_ok ts h n" "\<And>k. \<not> pending k ts"
  shows "ts = []"
  using assms(2) by (cases ts) (auto simp: pending_def)

definition handles :: "shared_socket \<Rightarrow> timer_kind \<Rightarrow> nat option" where
  "handles s = (\<lambda>k. case k of ReconnectTimer \<Rightarrow> reconnectTimer s | PingTimer \<Rightarrow> pingTimer s
                         | IdleTimer \<Rightarrow> idleTimer s)"

lemma handles_eqI:
  "reconnectTimer s = reconnectTimer t \<Longrightarrow> pingTimer s = pingTimer t \<Longrightarrow> idleTimer s = idleTimer t \<Longrightarrow>
   handles s = handles t"
  unfolding handles_def by (simp only:)

lemma handles_frame [simp]:
  "handles (emit os s) = handles s" "handles (subscribe s) = handles s"
  "handles (clear_timer h s) = handles s" "handles (close_ws i s) = handles s"
  by (rule handles_eqI; simp)+

lemma handles_update [simp]:
  "handles (s\<lparr>ws := a\<rparr>) = handles s" "handles (s\<lparr>listeners := b\<rparr>) = handles s"
  "handles (s\<lparr>reconnectCount := c\<rparr>) = handles s" "handles (s\<lparr>ready := d\<rparr>) = handles s"
  "handles (s\<lparr>attached := e\<rparr>) = handles s" "handles (s\<lparr>nextWs := c\<rparr>) = handles s"
  "handles (s\<lparr>timers := ts\<rparr>) = handles s" "handles (s\<lparr>registered := f\<rparr>) = handles s"
  "handles (s\<lparr>nextTimer := c\<rparr>) = handles s" "handles (s\<lparr>now := j\<rparr>) = handles s"
  "handles (s\<lparr>lastPong := j\<rparr>) = handles s" "handles (s\<lparr>connected := f\<rparr>) = handles s"
  "handles (s\<lparr>subscribed := u\<rparr>) = handles s" "handles (s\<lparr>told := v\<rparr>) = handles s"
  by (rule handles_eqI; simp)+

lemma handles_set [simp]:
  "handles (s\<lparr>reconnectTimer := x\<rparr>) = (handles s)(ReconnectTimer := x)"
  "handles (s\<lparr>pingTimer := x\<rparr>) = (handles s)(PingTimer := x)"
  "handles (s\<lparr>idleTimer := x\<rparr>) = (handles s)(IdleTimer := x)"
  by (auto simp: handles_def fun_eq_iff split: timer_kind.splits)

lemma handles_get:
  "reconnectTimer s = handles s ReconnectTimer" "pingTimer s = handles s PingTimer"
  "idleTimer s = handles s IdleTimer"
  by (simp_all add: handles_def)

text \<open>Who is waiting for what: an idle timer runs exactly while a used socket has no listeners, and a
  socket with listeners and no connection waits for its next attempt unless it gave up.\<close>

definition owner_inv :: "shared_socket \<Rightarrow> bool" where
  "owner_inv s \<longleftrightarrow>
     (ws s \<noteq> None \<longrightarrow> \<not> pending ReconnectTimer (timers s))
     \<and> (listeners s \<noteq> [] \<longrightarrow> \<not> pending IdleTimer (timers s))
     \<and> (registered s \<and> listeners s = [] \<and> 0 < nextWs s \<longrightarrow> pending IdleTimer (timers s))
     \<and> (registered s \<and> listeners s \<noteq> [] \<and> ws s = None \<and> url_ok s \<longrightarrow>
           pending ReconnectTimer (timers s) \<or> \<not> reconnect (settings s)
           \<or> reconnectCount s = reconnectAttempts (settings s))
     \<and> (pending ReconnectTimer (timers s) \<longrightarrow> 0 < nextWs s)
     \<and> (\<not> registered s \<longrightarrow> timers s = [])"

definition timer_inv :: "shared_socket \<Rightarrow> bool" where
  "timer_inv s \<longleftrightarrow> table_ok (timers s) (handles s) (nextTimer s) \<and> owner_inv s"

lemma timer_inv_frame [simp]:
  "timer_inv (emit os s) = timer_inv s" "timer_inv (subscribe s) = timer_inv s"
  "timer_inv (close_ws i s) = timer_inv s" "timer_inv (s\<lparr>now := j\<rparr>) = timer_inv s"
  "timer_inv (s\<lparr>lastPong := j\<rparr>) = timer_inv s" "timer_inv (s\<lparr>ready := r\<rparr>) = timer_inv s"
  by (simp_all add: timer_inv_def owner_inv_def)

lemma connect_cases:
  obtains (busy) i where "ws s = Some i" "live (ready s i)" "connect s = s"
  | (idle) "\<not> (\<exists>i. ws s = Some i \<and> live (ready s i))"
      "timers (connect s) = without (reconnectTimer s) (timers s)"
      "handles (connect s) = (handles s)(ReconnectTimer := None)"
      "nextTimer (connect s) = nextTimer s" "listeners (connect s) = listeners s"
      "registered (connect s) = registered s" "settings (connect s) = settings s"
      "url_ok (connect s) = url_ok s" "reconnectCount (connect s) = reconnectCount s"
      "url_ok s \<Longrightarrow> ws (connect s) = Some (nextWs s)" "url_ok s \<Longrightarrow> nextWs (connect s) = Suc (nextWs s)"
      "\<not> url_ok s \<Longrightarrow> ws (connect s) = ws s" "\<not> url_ok s \<Longrightarrow> nextWs (connect s) = nextWs s"
      "\<not> url_ok s \<Longrightarrow> ready (connect s) = ready s"
      "url_ok s \<Longrightarrow> ready (connect s) = (ready s)(nextWs s := CONNECTING)"
proof (cases "\<exists>i. ws s = Some i \<and> live (ready s i)")
  case True
  then show ?thesis by (auto simp: connect_def live_def intro: busy)
next
  case False
  then show ?thesis
    by (intro idle) (auto simp: connect_def live_def Let_def without_def split: option.splits)
qed

lemma timer_inv_connect:
  assumes "table_ok (timers s) (handles s) (nextTimer s)" "registered s"
    "pending IdleTimer (timers s) \<longleftrightarrow> listeners s = []"
    "ws s \<noteq> None \<longrightarrow> \<not> pending ReconnectTimer (timers s)"
    "pending ReconnectTimer (timers s) \<longrightarrow> 0 < nextWs s"
  shows "timer_inv (connect s)"
proof (cases rule: connect_cases [of s])
  case (busy i)
  with assms show ?thesis by (auto simp: timer_inv_def owner_inv_def)
next
  case idle
  with assms show ?thesis
    by (auto simp: timer_inv_def owner_inv_def handles_get table_ok_without pending_without [OF assms(1)])
qed

lemma timer_inv_add:
  assumes "timer_inv s" "registered s" "ws_inv s"
  shows "timer_inv (add_listener l s)"
proof -
  let ?s1 = "(clear_timer (idleTimer s) s)\<lparr>idleTimer := None\<rparr>"
  let ?s2 = "if lid l \<in> lid ` set (listeners ?s1) then ?s1 else ?s1\<lparr>listeners := listeners ?s1 @ [l]\<rparr>"
  have t: "timers ?s2 = without (idleTimer s) (timers s)" 
    and ne: "listeners ?s2 \<noteq> []" and f: "registered ?s2" "ws ?s2 = ws s" "url_ok ?s2 = url_ok s"
    "nextTimer ?s2 = nextTimer s" "handles ?s2 = (handles s)(IdleTimer := None)" "connected ?s2 = connected s" "nextWs ?s2 = nextWs s"
    "settings ?s2 = settings s" "reconnectCount ?s2 = reconnectCount s"
    using assms by (auto simp: without_def)
  have ok0: "table_ok (timers s) (handles s) (nextTimer s)"
    using assms(1) by (simp add: timer_inv_def)
  have ok: "table_ok (timers ?s2) (handles ?s2) (nextTimer ?s2)"
    using ok0 unfolding t f by (auto simp: handles_get table_ok_without)
  have p: "pending k (timers ?s2) \<longleftrightarrow> pending k (timers s) \<and> k \<noteq> IdleTimer" for k
    unfolding t using pending_without [OF ok0, of k IdleTimer] by (simp only: handles_get)
  show ?thesis
  proof (cases "connected s")
    case True
    then have "ws s \<noteq> None" using assms by (auto simp: ws_inv_def)
    with ok ne f True assms(1) have "timer_inv ?s2"
      unfolding timer_inv_def owner_inv_def p by auto
    then show ?thesis using f True unfolding add_listener_def Let_def by simp
  next
    case False
    have "timer_inv (connect ?s2)"
      by (rule timer_inv_connect [OF ok f(1)]; unfold p)
        (use assms(1) ne f in \<open>auto simp: timer_inv_def owner_inv_def\<close>)
    then show ?thesis using f False unfolding add_listener_def Let_def by simp
  qed
qed

lemma timer_inv_remove:
  assumes "timer_inv s" "registered s" "i \<in> lid ` set (listeners s)"
  shows "timer_inv (remove_listener i s)"
proof -
  have ne: "listeners s \<noteq> []" using assms by auto
  let ?s1 = "s\<lparr>listeners := filter (\<lambda>l. lid l \<noteq> i) (listeners s)\<rparr>"
  show ?thesis
  proof (cases "listeners ?s1 = []")
    case True
    have "table_ok (timers s @ [(nextTimer s, IdleTimer, now s + IDLE_CLOSE_MS)])
       ((handles s)(IdleTimer := Some (nextTimer s))) (Suc (nextTimer s))"
      using assms(1) ne by (intro table_ok_set) (auto simp: timer_inv_def owner_inv_def)
    then show ?thesis
      using True assms(1,2) unfolding remove_listener_def Let_def set_timer_def
      by (auto simp: timer_inv_def owner_inv_def)
  next
    case False
    then have "timer_inv ?s1" using assms(1) ne by (auto simp: timer_inv_def owner_inv_def)
    then show ?thesis using False unfolding remove_listener_def Let_def by simp
  qed
qed

lemma handles_on_open: "ws s = Some i \<Longrightarrow> handles (on_open i s) = (handles s)(PingTimer := Some (nextTimer s))"
  by (auto simp: handles_def on_open_fields fun_eq_iff split: timer_kind.splits)

lemma timer_inv_opens:
  assumes "timer_inv s" "ws s = Some i" "registered s"
  shows "timer_inv (on_open i s)"
proof -
  have ok: "table_ok (timers s) (handles s) (nextTimer s)" using assms by (simp add: timer_inv_def)
  have t: "timers (on_open i s) = without (handles s PingTimer) (timers s)
      @ [(nextTimer s, PingTimer, now s + pingInterval (settings s))]"
    using assms(2) by (simp add: on_open_fields without_def handles_get)
  have "table_ok (timers (on_open i s)) (handles (on_open i s)) (nextTimer (on_open i s))"
    unfolding t handles_on_open [OF assms(2)] on_open_fields [OF assms(2)]
    by (intro table_ok_set table_ok_without(1) ok) (simp add: pending_without [OF ok])
  moreover have "owner_inv (on_open i s)"
    using assms unfolding timer_inv_def owner_inv_def t by (auto simp: on_open_fields pending_without [OF ok])
  ultimately show ?thesis by (simp add: timer_inv_def)
qed

lemma on_close_timers:
  assumes "ws s = Some i"
  defines "retry \<equiv> listeners s \<noteq> [] \<and> reconnect (settings s) \<and> reconnectCount s < reconnectAttempts (settings s)"
  shows "timers (on_close i s) = without (handles s PingTimer) (timers s) @
      (if retry then [(nextTimer s, ReconnectTimer, now s + reconnectInterval (settings s))] else [])"
    "handles (on_close i s) = (if retry then (handles s)(PingTimer := None, ReconnectTimer := Some (nextTimer s))
        else (handles s)(PingTimer := None))"
    "nextTimer (on_close i s) = (if retry then Suc (nextTimer s) else nextTimer s)"
    "reconnectCount (on_close i s) = (if retry then Suc (reconnectCount s) else reconnectCount s)"
  using assms unfolding on_close_def Let_def set_timer_def
  by (auto simp: without_def handles_get)

lemma timer_inv_closes:
  assumes "timer_inv s" "ws s = Some i" "reconnectCount s \<le> reconnectAttempts (settings s)" "registered s"
    "0 < nextWs s"
  shows "timer_inv (on_close i s)"
proof -
  let ?r = "listeners s \<noteq> [] \<and> reconnect (settings s) \<and> reconnectCount s < reconnectAttempts (settings s)"
  let ?ts = "without (handles s PingTimer) (timers s)"
  have ok: "table_ok (timers s) (handles s) (nextTimer s)" and np: "\<not> pending ReconnectTimer (timers s)"
    using assms by (auto simp: timer_inv_def owner_inv_def)
  then have 1: "table_ok ?ts ((handles s)(PingTimer := None)) (nextTimer s)" "\<not> pending ReconnectTimer ?ts"
    by (auto simp: table_ok_without pending_without [OF ok])
  then have 2: "table_ok (?ts @ [(nextTimer s, ReconnectTimer, d)])
      ((handles s)(PingTimer := None, ReconnectTimer := Some (nextTimer s))) (Suc (nextTimer s))" for d
    by (rule table_ok_set)
  show ?thesis
    using assms ok 1 2 unfolding timer_inv_def owner_inv_def
    by (cases ?r) (auto simp: on_close_timers on_close_fields pending_without [OF ok])
qed

lemma timer_inv_shutdown:
  assumes "table_ok (timers s) (handles s) (nextTimer s)" "\<not> pending IdleTimer (timers s)" "owner_inv s \<or> listeners s = []"
  shows "timer_inv (shutdown s)"
proof (cases "listeners s = []")
  case True
  let ?ts = "without (pingTimer s) (without (reconnectTimer s) (timers s))"
  have ok1: "table_ok (without (reconnectTimer s) (timers s)) (handles s) (nextTimer s)"
    using assms(1) by (rule table_ok_without)
  then have ok: "table_ok ?ts (handles s) (nextTimer s)"
    by (rule table_ok_without)
  have np: "pending k ?ts \<longleftrightarrow> pending k (timers s) \<and> k \<noteq> ReconnectTimer \<and> k \<noteq> PingTimer" for k
    unfolding handles_get
    using pending_without [OF assms(1)] pending_without [OF ok1 [unfolded handles_get]] by auto
  have "\<not> pending k ?ts" for k
    using assms(2) by (cases k) (auto simp: np)
  then have "?ts = []" using ok by (intro table_empty)
  then have "timers (shutdown s) = []"
    using True by (simp add: shutdown_fields without_def)
  moreover have "handles (shutdown s) = (handles s)(IdleTimer := None)"
    by (auto simp: handles_def shutdown_fields [OF True] fun_eq_iff split: timer_kind.splits)
  then have "table_ok [] (handles (shutdown s)) (nextTimer (shutdown s))"
    using assms(1) True by (auto simp: table_ok_def shutdown_fields)
  ultimately show ?thesis using True by (simp add: timer_inv_def owner_inv_def shutdown_fields)
next
  case False
  with assms show ?thesis
    by (auto simp: shutdown_used timer_inv_def owner_inv_def table_ok_def pending_def)
qed

lemma timer_inv_ping [simp]: "timer_inv (ping s) = timer_inv s"
  by (auto simp: ping_def split: option.split)

lemma timer_inv_revive:
  assumes "timer_inv s" "registered s \<or> listeners s = []" "reconnectCount s \<le> reconnectAttempts (settings s)"
  shows "timer_inv (revive f s)"
proof -
  have r: "timer_inv (close_ws i (s\<lparr>reconnectCount := 0\<rparr>))" if "ws s = Some i" for i
    using assms(1) that by (auto simp: timer_inv_def owner_inv_def)
  have c: "timer_inv (connect (s\<lparr>reconnectCount := 0\<rparr>))" if "listeners s \<noteq> []"
    using assms(1,2) that by (intro timer_inv_connect) (auto simp: timer_inv_def owner_inv_def)
  show ?thesis
    using assms r c unfolding revive_def Let_def
    by (auto simp: is_open_def split: option.splits)
qed

lemma timer_inv_closeIfUnused:
  assumes "timer_inv s"
  shows "timer_inv (closeIfUnused s)"
proof (cases "listeners s = []")
  case True
  have ok: "table_ok (timers s) (handles s) (nextTimer s)"
    using assms by (simp add: timer_inv_def)
  have "timer_inv (shutdown (clear_timer (idleTimer s) s))"
  proof (rule timer_inv_shutdown)
    show "table_ok (timers (clear_timer (idleTimer s) s)) (handles (clear_timer (idleTimer s) s)) (nextTimer (clear_timer (idleTimer s) s))"
      using table_ok_without(1) [OF ok, of "idleTimer s"] by (simp add: without_def)
    show "\<not> pending IdleTimer (timers (clear_timer (idleTimer s) s))"
      using pending_without [OF ok, of IdleTimer IdleTimer] by (simp add: without_def handles_get)
  qed (use True in simp)
  then show ?thesis using True by (simp add: closeIfUnused_def)
qed (use assms in \<open>simp add: closeIfUnused_def\<close>)

lemma fired_table:
  assumes "table_ok ts h n" "(t, k, due) \<in> set ts"
  shows "filter (\<lambda>x. fst x \<noteq> t) ts = without (h k) ts"
  using table_okD [OF assms] by (auto simp: without_def intro!: filter_cong)

lemma rearmed_table:
  fixes due' :: int
  assumes "table_ok ts h n" "(t, k, due) \<in> set ts"
  defines "ts' \<equiv> map (\<lambda>x. if fst x = t then (t, k, due') else x) ts"
  shows "table_ok ts' h n" "pending k' ts' \<longleftrightarrow> pending k' ts"
proof -
  have u: "(t, k'', d) \<in> set ts \<Longrightarrow> k'' = k" for k'' d
    using assms(1,2) table_okD [OF assms(1)] unfolding table_ok_def by blast
  have "map fst ts' = map fst ts"
    by (auto simp: ts'_def)
  moreover have mem: "(\<exists>d. (t', k'', d) \<in> set ts') \<longleftrightarrow> (\<exists>d. (t', k'', d) \<in> set ts)" for t' k''
  proof (cases "t' = t")
    case True
    have "(t, k, due') \<in> set ts'"
      using assms(2) by (force simp: ts'_def)
    moreover have "(t, k'', d) \<in> set ts' \<Longrightarrow> k'' = k" for d
      by (auto simp: ts'_def split: if_splits)
    ultimately show ?thesis
      using True assms(2) u by blast
  next
    case False
    then show ?thesis
      by (auto simp: ts'_def image_iff split: if_splits)
  qed
  ultimately show "table_ok ts' h n"
    using assms(1) unfolding table_ok_def by (simp del: map_map)
  show "pending k' ts' \<longleftrightarrow> pending k' ts"
    using mem by (simp add: pending_def)
qed

lemma timer_inv_fire:
  assumes "timer_inv s" "registered s \<or> listeners s = []"
  shows "timer_inv (fire t s)"
proof (cases "find_timer t s")
  case None
  then show ?thesis using assms by (simp add: fire_def)
next
  case (Some p)
  then obtain k due where p: "find_timer t s = Some (k, due)" by (cases p) auto
  then have mem: "(t, k, due) \<in> set (timers s)"
    by (auto simp: find_timer_def dest: map_of_SomeD)
  have ok: "table_ok (timers s) (handles s) (nextTimer s)"
    using assms by (simp add: timer_inv_def)
  have reg: "registered s" using assms(1) mem by (auto simp: timer_inv_def owner_inv_def)
  note w = fired_table [OF ok mem]
  let ?rest = "s\<lparr>timers := without (handles s k) (timers s)\<rparr>"
  show ?thesis
  proof (cases k)
    case ReconnectTimer
    have "ws s = None" using assms(1) mem ReconnectTimer by (auto simp: timer_inv_def owner_inv_def pending_def)
    have "timer_inv (connect ?rest)"
    proof (rule timer_inv_connect)
      have "pending ReconnectTimer (timers s)"
        using mem ReconnectTimer by (auto simp: pending_def)
      then show "pending IdleTimer (timers ?rest) \<longleftrightarrow> listeners ?rest = []"
        using assms(1) reg ReconnectTimer
        by (auto simp: timer_inv_def owner_inv_def pending_without [OF ok])
    qed (use reg ok ReconnectTimer in \<open>auto simp: table_ok_without pending_without [OF ok]\<close>)
    then show ?thesis using p ReconnectTimer w by (simp add: fire_def)
  next
    case PingTimer
    let ?ts = "map (\<lambda>x. if fst x = t then (t, k, now s + pingInterval (settings s)) else x) (timers s)"
    have "timer_inv (s\<lparr>timers := ?ts\<rparr>)"
      using assms(1) rearmed_table [OF ok mem, where due' = "now s + pingInterval (settings s)"] reg
      unfolding timer_inv_def owner_inv_def by simp
    then show ?thesis
      unfolding PingTimer using p PingTimer by (simp add: fire_def)
  next
    case IdleTimer
    have "listeners s = []"
      using assms(1) IdleTimer mem unfolding timer_inv_def owner_inv_def pending_def by blast
    then have "timer_inv (shutdown ?rest)"
      using table_ok_without(1) [OF ok] IdleTimer
      by (intro timer_inv_shutdown) (simp_all add: pending_without [OF ok])
    then show ?thesis using p IdleTimer w by (simp add: fire_def)
  qed
qed

subsection \<open>Topics\<close>

text \<open>A topic list the effect key can encode: no separator inside a topic, not only empty topics.\<close>

definition topic_list_ok :: "string list \<Rightarrow> bool" where
  "topic_list_ok ts \<longleftrightarrow> (\<forall>t \<in> set ts. CHR ''|'' \<notin> set t) \<and> (ts = [] \<or> (\<exists>t \<in> set ts. t \<noteq> []))"

lemma topics_key_inj:
  assumes "topic_list_ok xs" "topic_list_ok ys" "topics_key xs = topics_key ys"
  shows "xs = ys"
proof -
  have e: "topics_key zs = [] \<longleftrightarrow> zs = []" if "topic_list_ok zs" for zs
    using that by (cases zs; cases "tl zs") (auto simp: topic_list_ok_def topics_key_def)
  show ?thesis
  proof (cases "xs = [] \<or> ys = []")
    case True
    with assms e show ?thesis by metis
  next
    case False
    have "split_on (CHR ''|'') (topics_key zs) = zs" if "topic_list_ok zs" "zs \<noteq> []" for zs
      using that unfolding topics_key_def topic_list_ok_def by (intro split_on_join) simp_all
    with assms False show ?thesis by metis
  qed
qed

lemma event_topic_head: "event_topic t \<Longrightarrow> \<exists>c \<in> set t. c \<noteq> CHR ''|''"
proof -
  assume "event_topic t"
  then have "t \<noteq> [] \<and> hd t \<noteq> CHR ''|''"
    by (cases t) (auto simp: event_topic_def starts_with_def)
  then show ?thesis by (metis hd_in_set)
qed

lemma topic_list_ok_hook:
  assumes "\<forall>t \<in> set ts. event_topic t"
  shows "topic_list_ok (hook_topics ts)"
proof (cases "hook_topics ts = []")
  case False
  let ?key = "topics_key (sort_by str_le ts)"
  have h: "hook_topics ts = split_on (CHR ''|'') ?key" and "?key \<noteq> []"
    using False by (auto simp: hook_topics_def Let_def split: if_splits)
  then obtain t where t: "t \<in> set ts"
    by (cases ts) (auto simp: topics_key_def)
  with assms obtain c where c: "c \<in> set t" "c \<noteq> CHR ''|''"
    using event_topic_head by blast
  then have "c \<in> set ?key"
    using t in_set_join [of t "sort_by str_le ts" "''|''"] by (auto simp: topics_key_def)
  moreover have "set ?key \<subseteq> insert (CHR ''|'') (\<Union>w \<in> set (hook_topics ts). set w)"
    unfolding h using set_join [of "CHR ''|''" "split_on (CHR ''|'') ?key"] by (simp only: join_split_on)
  ultimately have "\<exists>w \<in> set (hook_topics ts). c \<in> set w"
    using c(2) by blast
  then have "\<exists>w \<in> set (hook_topics ts). w \<noteq> []"
    by (metis empty_iff empty_set)
  then show ?thesis
    using split_on_no_sep h unfolding topic_list_ok_def by metis
qed (simp add: topic_list_ok_def)

definition topic_inv :: "shared_socket \<Rightarrow> bool" where
  "topic_inv s \<longleftrightarrow>
     (\<forall>l \<in> set (listeners s). topic_list_ok (ltopics l))
     \<and> topic_list_ok (told s)
     \<and> (is_open s \<longrightarrow> subscribed s = topics_key (told s))
     \<and> (is_open s \<and> listeners s \<noteq> [] \<longrightarrow> told s = all_topics (listeners s))"

lemma topic_list_ok_all: "\<forall>l \<in> set ls. topic_list_ok (ltopics l) \<Longrightarrow> topic_list_ok (all_topics ls)"
proof -
  assume ok: "\<forall>l \<in> set ls. topic_list_ok (ltopics l)"
  have mem: "set (all_topics ls) = (\<Union>l \<in> set ls. set (ltopics l))"
    by (simp add: all_topics_def)
  show ?thesis
  proof (cases "all_topics ls = []")
    case False
    then obtain l where "l \<in> set ls" "ltopics l \<noteq> []"
      using mem by (metis UN_E list.set_intros(1) list.exhaust empty_iff set_empty)
    with ok mem show ?thesis unfolding topic_list_ok_def by blast
  qed (simp add: topic_list_ok_def)
qed

text \<open>After \<open>subscribe\<close> on an open connection the server knows the union of the topics.\<close>

lemma subscribe_told:
  assumes "\<forall>l \<in> set (listeners s). topic_list_ok (ltopics l)" "topic_list_ok (told s)"
    "is_open s \<longrightarrow> subscribed s = topics_key (told s)"
  shows "topic_inv (subscribe s)"
proof -
  have o: "is_open (subscribe s) = is_open s" by (simp add: is_open_def split: option.split)
  have a: "topic_list_ok (all_topics (listeners s))"
    using assms(1) by (rule topic_list_ok_all)
  show ?thesis
  proof (cases "is_open s")
    case True
    then have "told (subscribe s) = all_topics (listeners s) \<and> subscribed (subscribe s) = topics_key (told (subscribe s))"
      using topics_key_inj [OF assms(2) a] assms(3) by (auto simp: subscribe_def Let_def)
    with assms(1) a show ?thesis by (simp add: topic_inv_def)
  next
    case False
    with assms show ?thesis unfolding topic_inv_def o by (simp add: subscribe_def)
  qed
qed

lemma topic_inv_not_open:
  "\<not> is_open s \<Longrightarrow> topic_inv s \<longleftrightarrow> (\<forall>l \<in> set (listeners s). topic_list_ok (ltopics l)) \<and> topic_list_ok (told s)"
  by (auto simp: topic_inv_def)

lemma topic_inv_cong:
  "listeners t = listeners s \<Longrightarrow> told t = told s \<Longrightarrow> subscribed t = subscribed s \<Longrightarrow> (is_open t \<Longrightarrow> is_open s) \<Longrightarrow>
   topic_inv s \<Longrightarrow> topic_inv t"
  by (auto simp: topic_inv_def)

lemma topic_inv_fewer:
  "set (listeners t) \<subseteq> set (listeners s) \<Longrightarrow> told t = told s \<Longrightarrow> \<not> is_open t \<Longrightarrow> topic_inv s \<Longrightarrow> topic_inv t"
  by (auto simp: topic_inv_def)

lemma connect_topics [simp]:
  "listeners (connect s) = listeners s" "told (connect s) = told s" "subscribed (connect s) = subscribed s"
  "registered (connect s) = registered s"
  by (auto simp: connect_def Let_def split: option.split)

lemma is_open_iff: "is_open s \<longleftrightarrow> (\<exists>i. ws s = Some i \<and> ready s i = OPEN)"
  by (simp add: is_open_def split: option.split)

lemma is_open_connect: "is_open (connect s) \<Longrightarrow> is_open s"
  by (cases rule: connect_cases [of s]; cases "url_ok s") (auto simp: is_open_iff)

lemma is_open_frame [simp]:
  "is_open (emit os s) = is_open s" "is_open (clear_timer h s) = is_open s" "is_open (subscribe s) = is_open s"
  "is_open (s\<lparr>timers := ts\<rparr>) = is_open s" "is_open (s\<lparr>reconnectCount := n\<rparr>) = is_open s"
  "is_open (s\<lparr>idleTimer := h\<rparr>) = is_open s" "is_open (s\<lparr>listeners := ls\<rparr>) = is_open s"
  "is_open (s\<lparr>lastPong := j\<rparr>) = is_open s" "is_open (s\<lparr>now := j\<rparr>) = is_open s"
  by (simp_all add: is_open_def split: option.split)

lemma is_open_close_ws: "is_open (close_ws i s) \<Longrightarrow> is_open s"
  by (auto simp: is_open_def close_ws_def split: option.splits if_splits)

lemma topic_inv_frame [simp]:
  "topic_inv (emit os s) = topic_inv s" "topic_inv (clear_timer h s) = topic_inv s"
  "topic_inv (s\<lparr>timers := ts\<rparr>) = topic_inv s" "topic_inv (s\<lparr>reconnectCount := n\<rparr>) = topic_inv s"
  "topic_inv (s\<lparr>idleTimer := h'\<rparr>) = topic_inv s"
  "topic_inv (s\<lparr>lastPong := j\<rparr>) = topic_inv s" "topic_inv (s\<lparr>now := j\<rparr>) = topic_inv s"
  by (simp_all add: topic_inv_def)

lemma topic_inv_close_ws: "topic_inv s \<Longrightarrow> topic_inv (close_ws i s)"
  by (rule topic_inv_cong) (auto dest: is_open_close_ws)

lemma topic_inv_connect: "topic_inv s \<Longrightarrow> topic_inv (connect s)"
  by (rule topic_inv_cong) (auto dest: is_open_connect)

lemma topic_inv_add:
  assumes "topic_inv s" "ws_inv s" "topic_list_ok (ltopics l)"
  shows "topic_inv (add_listener l s)"
proof -
  let ?s1 = "(clear_timer (idleTimer s) s)\<lparr>idleTimer := None\<rparr>"
  let ?s2 = "if lid l \<in> lid ` set (listeners ?s1) then ?s1 else ?s1\<lparr>listeners := listeners ?s1 @ [l]\<rparr>"
  have f: "\<forall>l \<in> set (listeners ?s2). topic_list_ok (ltopics l)" "topic_list_ok (told ?s2)"
    "is_open ?s2 \<longrightarrow> subscribed ?s2 = topics_key (told ?s2)" "connected ?s2 = connected s" "is_open ?s2 = is_open s"
    using assms by (auto simp: topic_inv_def)
  show ?thesis
  proof (cases "connected s")
    case True
    have "topic_inv (subscribe (emit [CallOpen (lid l)] ?s2))"
      by (rule subscribe_told) (use f in simp_all)
    with True f show ?thesis unfolding add_listener_def Let_def by simp
  next
    case False
    then have "\<not> is_open s" using assms(2) by (auto simp: ws_inv_def is_open_iff)
    then have "topic_inv (connect ?s2)"
      using f by (intro topic_inv_connect) (simp_all add: topic_inv_not_open)
    with False f show ?thesis unfolding add_listener_def Let_def by simp
  qed
qed

lemma topic_inv_remove:
  assumes "topic_inv s"
  shows "topic_inv (remove_listener i s)"
proof -
  let ?s1 = "s\<lparr>listeners := filter (\<lambda>l. lid l \<noteq> i) (listeners s)\<rparr>"
  have "topic_inv (subscribe ?s1)"
    by (rule subscribe_told) (use assms in \<open>auto simp: topic_inv_def\<close>)
  then show ?thesis
    using assms unfolding remove_listener_def Let_def set_timer_def
    by (auto simp: topic_inv_def is_open_iff)
qed

lemma topic_inv_ping: "topic_inv s \<Longrightarrow> topic_inv (ping s)"
  by (auto simp: ping_def topic_inv_close_ws split: option.split)

lemma topic_inv_revive: "topic_inv s \<Longrightarrow> topic_inv (revive f s)"
  by (auto simp: revive_def Let_def topic_inv_ping topic_inv_close_ws topic_inv_connect)

lemma topic_inv_shutdown: "topic_inv s \<Longrightarrow> topic_inv (shutdown s)"
proof (cases "listeners s = []")
  case True
  moreover have "told (shutdown s) = told s"
    by (simp add: shutdown_def Let_def split: option.split)
  ultimately show "topic_inv s \<Longrightarrow> topic_inv (shutdown s)"
    by (auto simp: topic_inv_def is_open_iff shutdown_fields)
qed (simp add: shutdown_used)

lemma topic_inv_opens:
  assumes "topic_inv s" "ws s = Some i"
  shows "topic_inv (on_open i (s\<lparr>ready := (ready s)(i := OPEN)\<rparr>))"
proof -
  let ?t = "(s\<lparr>ready := (ready s)(i := OPEN), opened := True, connected := True, reconnectCount := 0,
      lastPong := now s, subscribed := [], told := []\<rparr>)"
  have "topic_inv (subscribe ?t)"
    by (rule subscribe_told) (use assms in \<open>auto simp: topic_inv_def topic_list_ok_def topics_key_def\<close>)
  then show ?thesis
    using assms(2) unfolding on_open_def Let_def set_timer_def
    by (auto simp: topic_inv_def is_open_iff)
qed

lemma topic_inv_closes:
  assumes "topic_inv s"
  shows "topic_inv (on_close i (s\<lparr>ready := (ready s)(i := CLOSED)\<rparr>))"
proof (cases "ws s = Some i")
  case True
  moreover have "told (on_close i t) = told t" for t
    by (simp add: on_close_def Let_def set_timer_def)
  ultimately show ?thesis
    using assms by (auto simp: topic_inv_def is_open_iff on_close_fields)
next
  case False
  with assms show ?thesis
    by (auto simp: on_close_def topic_inv_def is_open_def split: option.splits)
qed

lemma topic_inv_fire: "topic_inv s \<Longrightarrow> topic_inv (fire t s)"
  by (auto simp: fire_def Let_def topic_inv_ping topic_inv_connect topic_inv_shutdown
      split: option.split timer_kind.split)

section \<open>All invariants together\<close>

definition socket_inv :: "shared_socket \<Rightarrow> bool" where
  "socket_inv s \<longleftrightarrow> ws_inv s \<and> timer_inv s \<and> topic_inv s
     \<and> reconnectCount s \<le> reconnectAttempts (settings s)"


lemma socket_inv_new: "socket_inv (new_socket u st ok t)"
proof -
  have "ws_inv (new_socket u st ok t)"
    by (simp add: ws_inv_def new_socket_def)
  moreover have "timer_inv (new_socket u st ok t)"
    by (simp add: timer_inv_def owner_inv_def table_ok_def new_socket_def handles_def split: timer_kind.split)
  moreover have "topic_inv (new_socket u st ok t)"
    by (simp add: topic_inv_def new_socket_def is_open_def topic_list_ok_def)
  ultimately show ?thesis by (simp add: socket_inv_def new_socket_def)
qed

lemma count_frame [simp]:
  "reconnectCount (connect s) = reconnectCount s" "settings (connect s) = settings s"
  by (auto simp: connect_def Let_def split: option.split)

lemma socket_inv_message: "socket_inv s \<Longrightarrow> socket_inv (on_message i d s)"
  by (auto simp: socket_inv_def on_message_def Let_def split: option.split)

lemma socket_inv_opens:
  assumes "socket_inv s" "ready s i = CONNECTING"
  shows "socket_inv (on_open i (s\<lparr>ready := (ready s)(i := OPEN)\<rparr>))"
proof -
  have w: "ws s = Some i" "registered s"
    using assms ws_inv_live [of s i] by (simp_all add: socket_inv_def)
  have "timer_inv (on_open i (s\<lparr>ready := (ready s)(i := OPEN)\<rparr>))"
    using assms(1) w by (intro timer_inv_opens) (simp_all add: socket_inv_def)
  then show ?thesis
    using assms w unfolding socket_inv_def
    by (simp add: ws_inv_opens topic_inv_opens on_open_fields)
qed

lemma socket_inv_closes:
  assumes "socket_inv s" "ready s i \<noteq> CLOSED"
  shows "socket_inv (on_close i (s\<lparr>ready := (ready s)(i := CLOSED)\<rparr>))" (is "socket_inv (on_close i ?t)")
proof -
  have inv: "ws_inv s" "timer_inv s" "topic_inv s" "reconnectCount s \<le> reconnectAttempts (settings s)"
    using assms(1) by (simp_all add: socket_inv_def)
  have "timer_inv (on_close i ?t) \<and> reconnectCount (on_close i ?t) \<le> reconnectAttempts (settings (on_close i ?t))"
  proof (cases "ws s = Some i")
    case True
    with inv assms(2) have "registered s" "0 < nextWs s"
      by (auto simp: ws_inv_def intro: gr0I)
    then have "timer_inv (on_close i ?t)"
      using inv True by (intro timer_inv_closes) simp_all
    then show ?thesis
      using inv True by (simp add: on_close_timers on_close_fields)
  next
    case False
    then show ?thesis using inv by (simp add: on_close_def)
  qed
  then show ?thesis
    using inv by (simp add: socket_inv_def ws_inv_closes topic_inv_closes)
qed

lemma socket_inv_ready_other:
  "socket_inv s \<Longrightarrow> \<not> attached s i \<Longrightarrow> \<not> live r \<Longrightarrow> i < nextWs s \<Longrightarrow> socket_inv (s\<lparr>ready := (ready s)(i := r)\<rparr>)"
  by (auto simp: socket_inv_def ws_inv_def topic_inv_def is_open_iff)

lemma revive_count: 
  "reconnectCount s \<le> n \<Longrightarrow> reconnectCount (revive f s) \<le> n" "settings (revive f s) = settings s"
  by (auto simp: revive_def Let_def ping_def split: option.split)

lemma fire_count: "reconnectCount (fire t s) = reconnectCount s" "settings (fire t s) = settings s"
  by (cases "listeners s = []"; auto simp: fire_def Let_def ping_def shutdown_used shutdown_fields split: option.split timer_kind.split)+

lemma socket_inv_step:
  assumes "socket_inv s" "enabled a s"
  shows "socket_inv (socket_step a s)"
proof -
  have inv: "ws_inv s" "timer_inv s" "topic_inv s" "reconnectCount s \<le> reconnectAttempts (settings s)"
    using assms(1) by (simp_all add: socket_inv_def)
  have reg: "registered s \<or> listeners s = []" "timers s \<noteq> [] \<Longrightarrow> registered s"
    using inv by (auto simp: ws_inv_def timer_inv_def owner_inv_def)
  show ?thesis
  proof (cases a)
    case (AddHook i ts)
    then have "registered s" "topic_list_ok (hook_topics ts)"
      using assms(2) by (auto simp: enabled_def topic_list_ok_hook)
    then show ?thesis
      using inv unfolding AddHook socket_step_def socket_inv_def
      by (simp add: ws_inv_add timer_inv_add topic_inv_add) (simp add: add_listener_def Let_def)
  next
    case (RemoveHook i)
    then have "i \<in> lid ` set (listeners s)" "registered s"
      using assms(2) reg by (auto simp: enabled_def)
    then show ?thesis
      using inv unfolding RemoveHook socket_step_def socket_inv_def
      by (simp add: ws_inv_remove timer_inv_remove topic_inv_remove)
        (simp add: remove_listener_def Let_def set_timer_def)
  next
    case (SendFrame d)
    then show ?thesis using assms by (simp add: socket_step_def socket_inv_def socket_send_def)
  next
    case (WsOpens i)
    then have "ready s i = CONNECTING" "attached s i"
      using assms(2) inv(1) by (auto simp: enabled_def ws_inv_def)
    then show ?thesis
      using assms(1) WsOpens by (simp add: socket_step_def socket_inv_opens)
  next
    case (WsMessage i d)
    then show ?thesis using assms(1) by (simp add: socket_step_def socket_inv_message)
  next
    case (WsCloses i)
    then have "ready s i \<noteq> CLOSED" using assms(2) by (simp add: enabled_def)
    moreover from this have "i < nextWs s" using inv(1) by (simp add: ws_inv_known)
    ultimately show ?thesis
      using assms(1) WsCloses
      by (cases "attached s i") (simp_all add: socket_step_def socket_inv_closes socket_inv_ready_other)
  next
    case (WsError i)
    then show ?thesis using assms(1) by (simp add: socket_step_def socket_inv_def on_error_def)
  next
    case (TimerFires t)
    then show ?thesis
      using inv reg by (simp add: socket_step_def socket_inv_def ws_inv_fire timer_inv_fire topic_inv_fire fire_count)
  next
    case (Revive f)
    then show ?thesis
      using inv reg by (simp add: socket_step_def socket_inv_def ws_inv_revive timer_inv_revive topic_inv_revive revive_count)
  next
    case CloseIfUnused
    then show ?thesis
      using inv unfolding CloseIfUnused socket_step_def socket_inv_def
      by (simp add: timer_inv_closeIfUnused)
        (simp add: closeIfUnused_def ws_inv_shutdown topic_inv_shutdown shutdown_fields)
  next
    case (TimePasses d)
    then show ?thesis using assms(1) by (simp add: socket_step_def socket_inv_def)
  qed
qed

interpretation sock: invariant_machine "socket_init u st ok" enabled socket_step socket_inv
  for u st ok
  by unfold_locales (auto simp: socket_init_def socket_inv_new socket_inv_step)

section \<open>What the connection guarantees\<close>

text \<open>
  C1. Topics in sync. In every reachable state where the connection is open and some hook listens, the
  last subscribe frame the server got on this connection names exactly the union of the topics of the
  hooks listening now, each once.
\<close>

theorem socket_topics_in_sync:
  assumes "reachable_socket u st ok s" "is_open s" "listeners s \<noteq> []"
  shows "told s = all_topics (listeners s)
    \<and> set (told s) = (\<Union>l \<in> set (listeners s). set (ltopics l)) \<and> distinct (told s)"
proof -
  have "topic_inv s"
    using sock.inv_reachable [OF assms(1)] by (simp add: socket_inv_def)
  then have "told s = all_topics (listeners s)"
    using assms(2,3) by (simp add: topic_inv_def)
  then show ?thesis
    by (simp add: all_topics_def distinct_sort_by)
qed

definition demo_settings :: socket_settings where
  "demo_settings = \<lparr>reconnect = True, reconnectInterval = 3000, reconnectAttempts = 10, pingInterval = 25000\<rparr>"

definition demo_run :: "action list \<Rightarrow> shared_socket" where
  "demo_run as = the (run enabled socket_step as (new_socket ''/api/v1/ws'' demo_settings True 0))"

lemma demo_reachable:
  assumes "run enabled socket_step as (new_socket ''/api/v1/ws'' demo_settings True 0) \<noteq> None"
  shows "reachable_socket ''/api/v1/ws'' demo_settings True (demo_run as)"
proof -
  have "reachable_socket ''/api/v1/ws'' demo_settings True (new_socket ''/api/v1/ws'' demo_settings True 0)"
    by (rule reachable.start) (auto simp: socket_init_def)
  then show ?thesis
    using assms run_reachable unfolding demo_run_def by fastforce
qed

lemmas socket_eval = demo_run_def enabled_def socket_step_def add_listener_def hook_topics_def
  topics_key_def event_topic_def starts_with_def connect_def on_open_def subscribe_def is_open_def
  emit_def set_timer_def clear_timer_def all_topics_def new_socket_def demo_settings_def
  remove_listener_def closeIfUnused_def shutdown_def close_ws_def find_timer_def fire_def revive_def
  ping_def stale_def on_close_def

theorem socket_topics_in_sync_witness:
  "let s = demo_run [AddHook 1 [''system'', ''jobs''], WsOpens 0, AddHook 2 [''logs'', ''jobs'']]
   in is_open s \<and> listeners s \<noteq> [] \<and> told s = [''jobs'', ''logs'', ''system'']"
proof -
  let ?as = "[AddHook 1 [''system'', ''jobs''], WsOpens 0, AddHook 2 [''logs'', ''jobs'']]"
  have r: "reachable_socket ''/api/v1/ws'' demo_settings True (demo_run ?as)"
    by (rule demo_reachable) (simp add: socket_eval Let_def)
  have o: "is_open (demo_run ?as)" "listeners (demo_run ?as) \<noteq> []"
    by (simp_all add: socket_eval Let_def)
  have "all_topics (listeners (demo_run ?as)) = [''jobs'', ''logs'', ''system'']"
    by (simp add: socket_eval Let_def)
  then show ?thesis
    using socket_topics_in_sync [OF r o] o by (simp add: Let_def)
qed

text \<open>
  C2. One live connection. In every reachable state at most one of the WebSockets the socket ever created
  is open or connecting, and it is the current one: replacing a connection never leaves another behind.
\<close>

theorem socket_single_live:
  assumes "reachable_socket u st ok s" "live (ready s i)"
  shows "ws s = Some i \<and> (\<forall>j. live (ready s j) \<longrightarrow> j = i)"
proof -
  have "ws_inv s"
    using sock.inv_reachable [OF assms(1)] by (simp add: socket_inv_def)
  then show ?thesis
    by (metis assms(2) ws_inv_live(1) option.inject)
qed

theorem socket_single_live_witness:
  "let s = demo_run [AddHook 1 [''jobs''], WsOpens 0, TimePasses 60000, TimerFires 0, Revive False]
   in live (ready s 1) \<and> ws s = Some 1 \<and> ready s 0 = CLOSING"
proof -
  let ?as = "[AddHook 1 [''jobs''], WsOpens 0, TimePasses 60000, TimerFires 0, Revive False]"
  have r: "reachable_socket ''/api/v1/ws'' demo_settings True (demo_run ?as)"
    by (rule demo_reachable) (simp add: socket_eval Let_def)
  have l: "live (ready (demo_run ?as) 1)" "ready (demo_run ?as) 0 = CLOSING"
    by (simp_all add: socket_eval Let_def)
  then show ?thesis
    using socket_single_live [OF r l(1)] by (simp add: Let_def)
qed



text \<open>
  C5. Nothing leaks. A socket that left the registry has no pending timer and no open or connecting
  WebSocket; a registered socket that was used and has no listeners left has its idle timer pending.
\<close>

theorem socket_no_leak:
  assumes "reachable_socket u st ok s"
  shows "(\<not> registered s \<longrightarrow> timers s = [] \<and> (\<forall>i. \<not> live (ready s i)))
    \<and> (registered s \<and> listeners s = [] \<and> 0 < nextWs s \<longrightarrow> pending IdleTimer (timers s))"
proof -
  have inv: "ws_inv s" "timer_inv s"
    using sock.inv_reachable [OF assms(1)] by (simp_all add: socket_inv_def)
  have "\<not> registered s \<longrightarrow> (\<forall>i. \<not> live (ready s i))"
    using ws_inv_live(2) [OF inv(1)] by blast
  then show ?thesis
    using inv(2) by (simp add: timer_inv_def owner_inv_def)
qed

theorem socket_no_leak_witness:
  "let s = demo_run [AddHook 1 [''jobs''], WsOpens 0, RemoveHook 1, CloseIfUnused]
   in \<not> registered s \<and> timers s = [] \<and> \<not> live (ready s 0)"
proof -
  let ?as = "[AddHook 1 [''jobs''], WsOpens 0, RemoveHook 1, CloseIfUnused]"
  have r: "reachable_socket ''/api/v1/ws'' demo_settings True (demo_run ?as)"
    by (rule demo_reachable) (simp add: socket_eval Let_def)
  have "\<not> registered (demo_run ?as)"
    by (simp add: socket_eval Let_def)
  then show ?thesis
    using socket_no_leak [OF r] by (simp add: Let_def)
qed

lemma topics_key_Nil: "topic_list_ok ts \<Longrightarrow> topics_key ts = [] \<longleftrightarrow> ts = []"
  using topics_key_inj [of ts "[]"] by (auto simp: topics_key_def topic_list_ok_def)

text \<open>
  Resync after a reconnect. When the WebSocket of a socket that had been open before opens again, the
  code first subscribes to the current topics (if there are any) and then, hook by hook, reports the
  open connection and sends the resync event, so that every view refetches what it missed.
\<close>

lemma socket_resync:
  assumes "reachable_socket u st ok s" "enabled (WsOpens i) s" "opened s"
  shows "trace (socket_step (WsOpens i) s) = trace s
    @ (if all_topics (listeners s) = [] then [] else [SendSubscribe (all_topics (listeners s))])
    @ concat (map (\<lambda>l. [CallOpen (lid l), CallMessage (lid l) RESYNC_EVENT]) (listeners s))"
proof -
  have inv: "ws_inv s" "topic_inv s"
    using sock.inv_reachable [OF assms(1)] by (simp_all add: socket_inv_def)
  have c: "ready s i = CONNECTING"
    using assms(2) by (simp add: enabled_def)
  then have "ws s = Some i" "attached s i"
    using ws_inv_live(1) [OF inv(1), of i] inv(1) by (auto simp: ws_inv_def)
  moreover have "topics_key (all_topics (listeners s)) = [] \<longleftrightarrow> all_topics (listeners s) = []"
    using inv(2) by (intro topics_key_Nil topic_list_ok_all) (simp add: topic_inv_def)
  ultimately show ?thesis
    using assms(3)
    by (simp add: socket_step_def on_open_def Let_def set_timer_def clear_timer_def subscribe_def
        is_open_def emit_def)
qed

lemma socket_resync_witness:
  "let s = demo_run [AddHook 7 [''jobs''], WsOpens 0, WsCloses 0, TimePasses 3000, TimerFires 1]
   in trace (socket_step (WsOpens 1) s)
      = trace s @ [SendSubscribe [''jobs''], CallOpen 7, CallMessage 7 RESYNC_EVENT]"
proof -
  let ?as = "[AddHook 7 [''jobs''], WsOpens 0, WsCloses 0, TimePasses 3000, TimerFires 1]"
  have r: "reachable_socket ''/api/v1/ws'' demo_settings True (demo_run ?as)"
    by (rule demo_reachable) (simp add: socket_eval Let_def)
  have h: "enabled (WsOpens 1) (demo_run ?as)" "opened (demo_run ?as)"
    "all_topics (listeners (demo_run ?as)) = [''jobs'']" "map lid (listeners (demo_run ?as)) = [7]"
    by (simp_all add: socket_eval Let_def)
  then obtain l where "listeners (demo_run ?as) = [l]" "lid l = 7"
    by (cases "listeners (demo_run ?as)") auto
  then show ?thesis
    using socket_resync [OF r h(1,2)] h(3) by (simp add: Let_def)
qed

text \<open>
  The connected flag can be wrong. When a stale connection is being closed and the tab becomes visible
  before its close event, the socket starts a new WebSocket; the old close event is then ignored, so
  \<open>connected\<close> stays true without an open connection, no hook is told about the loss, and a hook mounting
  now is told that the connection is open.
\<close>

lemma socket_connected_stale:
  "\<exists>s. reachable_socket ''/api/v1/ws'' demo_settings True s \<and> connected s \<and> \<not> is_open s
     \<and> CallClose 1 \<notin> set (trace s) \<and> last (trace s) = CallOpen 2 \<and> ready s 0 = CLOSED"
proof -
  let ?as = "[AddHook 1 [''jobs''], WsOpens 0, TimePasses 60000, TimerFires 0, Revive False, WsCloses 0,
              AddHook 2 [''jobs'']]"
  have "reachable_socket ''/api/v1/ws'' demo_settings True (demo_run ?as)"
    by (rule demo_reachable) (simp add: socket_eval Let_def)
  moreover have "connected (demo_run ?as) \<and> \<not> is_open (demo_run ?as)
     \<and> CallClose 1 \<notin> set (trace (demo_run ?as)) \<and> last (trace (demo_run ?as)) = CallOpen 2
     \<and> ready (demo_run ?as) 0 = CLOSED"
    by (simp add: socket_eval Let_def)
  ultimately show ?thesis by blast
qed

text \<open>
  Switching backends closes exactly the unused sockets: \<open>closeUnusedSockets\<close> keeps the sockets that
  have listeners, unchanged and in order, and drops every other one from the registry.
\<close>

lemma closeUnusedSockets_keeps_used:
  "(\<forall>s \<in> set socks. registered s) \<Longrightarrow>
   closeUnusedSockets socks = filter (\<lambda>s. listeners s \<noteq> []) socks"
proof (induction socks)
  case (Cons s socks)
  have "registered (closeIfUnused s) \<longleftrightarrow> listeners s \<noteq> []"
    using Cons.prems by (simp add: closeIfUnused_def shutdown_fields)
  moreover have "listeners s \<noteq> [] \<Longrightarrow> closeIfUnused s = s"
    by (simp add: closeIfUnused_def)
  ultimately show ?case
    using Cons by (auto simp: closeUnusedSockets_def)
qed (simp add: closeUnusedSockets_def)

lemma closeUnusedSockets_keeps_used_witness:
  "map url (closeUnusedSockets [new_socket ''a'' demo_settings True 0,
     add_listener \<lparr>lid = 1, ltopics = [''jobs'']\<rparr> (new_socket ''b'' demo_settings True 0)]) = [''b'']"
proof -
  let ?socks = "[new_socket ''a'' demo_settings True 0,
     add_listener \<lparr>lid = 1, ltopics = [''jobs'']\<rparr> (new_socket ''b'' demo_settings True 0)]"
  have "\<forall>s \<in> set ?socks. registered s"
    by (simp add: socket_eval Let_def)
  from closeUnusedSockets_keeps_used [OF this] show ?thesis
    by (simp add: socket_eval Let_def)
qed

text \<open>
  C3. A lost connection comes back. From every reachable state of a registered socket with listeners, an accepted
  address, no WebSocket and a pending reconnect, the timer can fire once it is due, and when the new WebSocket
  opens the socket is connected, its attempts start over, its listeners are the same and the server is told
  exactly their topics.
\<close>

theorem socket_recovers:
  assumes "reachable_socket u st ok s" "registered s" "listeners s \<noteq> []" "url_ok s" "ws s = None" "pending ReconnectTimer (timers s)"
  shows "\<exists>d t i s'. run enabled socket_step [TimePasses d, TimerFires t, WsOpens i] s = Some s' \<and> is_open s' \<and> connected s'
    \<and> reconnectCount s' = 0 \<and> listeners s' = listeners s \<and> told s' = all_topics (listeners s)"
proof -
  have inv: "timer_inv s" "ws_inv s"
    using sock.inv_reachable [OF assms(1)] by (simp_all add: socket_inv_def)
  obtain t due where due: "find_timer t s = Some (ReconnectTimer, due)"
    using assms(6) inv(1) by (auto simp: pending_def timer_inv_def table_ok_def find_timer_def intro: map_of_is_SomeI)
  let ?d = "nat (due - now s)"
  let ?s1 = "socket_step (TimePasses ?d) s"
  let ?s2 = "socket_step (TimerFires t) ?s1"
  let ?s3 = "socket_step (WsOpens (nextWs s)) ?s2"
  have fire: "find_timer t ?s1 = Some (ReconnectTimer, due)" "due \<le> now ?s1" "ws ?s1 = None" "url_ok ?s1" "nextWs ?s1 = nextWs s"
    "listeners ?s1 = listeners s"
    using due assms(4,5) by (simp_all add: socket_step_def find_timer_def)
  have conn: "ready ?s2 (nextWs s) = CONNECTING" "attached ?s2 (nextWs s)" "ws ?s2 = Some (nextWs s)" "listeners ?s2 = listeners s"
    using fire by (simp_all add: socket_step_def [of "TimerFires t"] fire_def connect_def Let_def)
  have opn: "is_open ?s3" "connected ?s3" "reconnectCount ?s3 = 0" "listeners ?s3 = listeners s"
    using conn by (simp_all add: socket_step_def [of "WsOpens _"] on_open_def Let_def set_timer_def is_open_def)
  have run: "run enabled socket_step [TimePasses ?d, TimerFires t, WsOpens (nextWs s)] s = Some ?s3"
    using fire conn by (simp add: enabled_def)
  then have "reachable_socket u st ok ?s3" by (rule run_reachable [OF assms(1)])
  then have "topic_inv ?s3" using sock.inv_reachable by (auto simp: socket_inv_def)
  then have "told ?s3 = all_topics (listeners s)"
    using opn assms(3) by (simp add: topic_inv_def)
  with run opn show ?thesis by blast
qed

theorem socket_recovers_witness:
  "let s = demo_run [AddHook 1 [''jobs''], WsOpens 0, WsCloses 0]
   in \<exists>d t i s'. run enabled socket_step [TimePasses d, TimerFires t, WsOpens i] s = Some s' \<and> is_open s' \<and> connected s'
    \<and> reconnectCount s' = 0 \<and> listeners s' = listeners s \<and> told s' = all_topics (listeners s)"
proof -
  let ?as = "[AddHook 1 [''jobs''], WsOpens 0, WsCloses 0]"
  have r: "reachable_socket ''/api/v1/ws'' demo_settings True (demo_run ?as)"
    by (rule demo_reachable) (simp add: socket_eval Let_def)
  have h: "registered (demo_run ?as)" "listeners (demo_run ?as) \<noteq> []" "url_ok (demo_run ?as)"
    "ws (demo_run ?as) = None" "pending ReconnectTimer (timers (demo_run ?as))"
    by (simp_all add: socket_eval pending_def Let_def)
  show ?thesis unfolding Let_def by (rule socket_recovers [OF r h])
qed

end
