(* ===== verification/JsRegex.thy ===== *)
theory JsRegex
  imports JsPrelude
begin

text \<open>
  The regular expressions of the modelled source: a backtracking matcher with JavaScript's priority
  order (left alternative first, greedy repetition), capture groups, the anchors \<open>^\<close> and \<open>$\<close> and the
  word boundary. \<open>rx_run\<close> returns every way to match at a position, in the order the engine tries
  them; \<open>rx_find\<close> returns the first match, from the leftmost start, as \<open>RegExp.prototype.exec\<close> does.
\<close>

datatype rx =
    RChr "char \<Rightarrow> bool"
  | REps
  | RSeq rx rx
  | RAlt rx rx
  | RStar rx
  | RCap nat rx
  | RBos
  | REos
  | RWordB

text \<open>A matcher state: the character before the position, the rest of the input, the captures.\<close>

type_synonym rxstate = "char option \<times> string \<times> (nat \<times> string) list"

abbreviation rx_rest :: "rxstate \<Rightarrow> string" where
  "rx_rest st \<equiv> fst (snd st)"

definition is_word :: "char \<Rightarrow> bool" where
  "is_word c \<longleftrightarrow> is_alpha c \<or> is_digit c \<or> c = CHR ''_''"

definition at_word_boundary :: "char option \<Rightarrow> string \<Rightarrow> bool" where
  "at_word_boundary p s \<longleftrightarrow>
     (case p of None \<Rightarrow> False | Some c \<Rightarrow> is_word c) \<noteq> (s \<noteq> [] \<and> is_word (hd s))"

function rx_run :: "rx \<Rightarrow> rxstate \<Rightarrow> rxstate list" where
  "rx_run (RChr P) (p, s, cs) =
     (case s of [] \<Rightarrow> [] | c # t \<Rightarrow> if P c then [(Some c, t, cs)] else [])"
| "rx_run REps st = [st]"
| "rx_run (RSeq a b) st = concat (map (rx_run b) (rx_run a st))"
| "rx_run (RAlt a b) st = rx_run a st @ rx_run b st"
| "rx_run (RStar a) (p, s, cs) =
     concat (map (\<lambda>(p', s', cs'). if length s' < length s then rx_run (RStar a) (p', s', cs') else [])
              (rx_run a (p, s, cs))) @ [(p, s, cs)]"
| "rx_run (RCap n a) (p, s, cs) =
     map (\<lambda>(p', s', cs'). (p', s', (n, take (length s - length s') s) # cs')) (rx_run a (p, s, cs))"
| "rx_run RBos (p, s, cs) = (if p = None then [(p, s, cs)] else [])"
| "rx_run REos (p, s, cs) = (if s = [] then [(p, s, cs)] else [])"
| "rx_run RWordB (p, s, cs) = (if at_word_boundary p s then [(p, s, cs)] else [])"
  by pat_completeness auto
termination
  by (relation "measures [\<lambda>(r, st). size r, \<lambda>(r, st). length (rx_rest st)]") auto

declare rx_run.simps(5) [simp del]

text \<open>The leftmost match at or after a position: the text it starts at and the final state.\<close>

fun rx_find :: "rx \<Rightarrow> char option \<Rightarrow> string \<Rightarrow> (string \<times> rxstate) option" where
  "rx_find r p [] = (case rx_run r (p, [], []) of [] \<Rightarrow> None | st # _ \<Rightarrow> Some ([], st))"
| "rx_find r p (c # s) =
     (case rx_run r (p, c # s, []) of [] \<Rightarrow> rx_find r (Some c) s | st # _ \<Rightarrow> Some (c # s, st))"

definition rx_test :: "rx \<Rightarrow> string \<Rightarrow> bool" where
  "rx_test r s \<longleftrightarrow> rx_find r None s \<noteq> None"

text \<open>\<open>r.exec(s)[n]\<close> of a successful match: \<open>None\<close> for a group that did not take part.\<close>

definition rx_group :: "nat \<Rightarrow> rxstate \<Rightarrow> string option" where
  "rx_group n st = map_of (snd (snd st)) n"

definition rx_exec :: "rx \<Rightarrow> string \<Rightarrow> rxstate option" where
  "rx_exec r s = map_option snd (rx_find r None s)"

subsection \<open>Building expressions\<close>

definition rx_lit :: "string \<Rightarrow> rx" where
  "rx_lit s = foldr (\<lambda>c. RSeq (RChr (\<lambda>d. d = c))) s REps"

text \<open>A literal under the \<open>i\<close> flag.\<close>

definition rx_lit_ci :: "string \<Rightarrow> rx" where
  "rx_lit_ci s = foldr (\<lambda>c. RSeq (RChr (\<lambda>d. lower_char d = lower_char c))) s REps"

definition rx_plus :: "rx \<Rightarrow> rx" where
  "rx_plus r = RSeq r (RStar r)"

definition rx_opt :: "rx \<Rightarrow> rx" where
  "rx_opt r = RAlt r REps"

fun rx_seq :: "rx list \<Rightarrow> rx" where
  "rx_seq [] = REps"
| "rx_seq [r] = r"
| "rx_seq (r # rs) = RSeq r (rx_seq rs)"

lemmas rx_defs = rx_lit_def rx_lit_ci_def rx_plus_def rx_opt_def rx_test_def rx_exec_def rx_group_def

subsection \<open>A match consumes a prefix\<close>

lemma rx_run_suffix: "st' \<in> set (rx_run r st) \<Longrightarrow> suffix (rx_rest st') (rx_rest st)"
proof (induction r st arbitrary: st' rule: rx_run.induct)
  case (1 P p s cs)
  then show ?case by (auto split: list.splits if_splits simp: suffix_ConsI)
next
  case (3 a b st)
  then obtain m where "m \<in> set (rx_run a st)" "st' \<in> set (rx_run b m)"
    by auto
  with 3 show ?case by (meson suffix_order.order_trans)
next
  case (5 a p s cs)
  consider "st' = (p, s, cs)"
    | p' s' cs' where "(p', s', cs') \<in> set (rx_run a (p, s, cs))" "length s' < length s"
        "st' \<in> set (rx_run (RStar a) (p', s', cs'))"
    using 5(3) [unfolded rx_run.simps(5) [of a p s cs]] by (auto split: if_splits)
  then show ?case
  proof cases
    case 2
    have "suffix s' s"
      using 5(1) [OF 2(1)] by (simp only: fst_conv snd_conv)
    moreover have "suffix (rx_rest st') s'"
      using 5(2) [OF 2(1) refl refl 2(2) 2(3)] by (simp only: fst_conv snd_conv)
    ultimately show ?thesis by (metis suffix_order.order_trans fst_conv snd_conv)
  qed simp
next
  case (6 n a p s cs)
  then obtain p' s' cs' where "(p', s', cs') \<in> set (rx_run a (p, s, cs))" "rx_rest st' = s'"
    by auto
  then show ?case using 6(1) [of "(p', s', cs')"] by simp
qed (auto split: if_splits)

lemma rx_run_prefix:
  assumes "(p', t, cs') \<in> set (rx_run r (p, s, cs))"
  obtains u where "s = u @ t"
  using rx_run_suffix [OF assms] by (auto simp: suffix_def)

lemma rx_find_suffix:
  "rx_find r p s = Some (t, st) \<Longrightarrow> suffix t s \<and> suffix (rx_rest st) t"
proof (induction r p s rule: rx_find.induct)
  case (1 r p)
  then show ?case
    using rx_run_suffix [of st r "(p, [], [])"] by (auto split: list.splits)
next
  case (2 r p c s)
  then show ?case
    using rx_run_suffix [of st r "(p, c # s, [])"]
    by (auto split: list.splits intro: suffix_ConsI)
qed

subsection \<open>What a group captures\<close>

text \<open>Every character the expression can consume satisfies \<open>P\<close>; every group \<open>n\<close> in it is such an expression.\<close>

fun rx_chars :: "(char \<Rightarrow> bool) \<Rightarrow> rx \<Rightarrow> bool" where
  "rx_chars P (RChr Q) \<longleftrightarrow> (\<forall>c. Q c \<longrightarrow> P c)"
| "rx_chars P (RSeq a b) \<longleftrightarrow> rx_chars P a \<and> rx_chars P b"
| "rx_chars P (RAlt a b) \<longleftrightarrow> rx_chars P a \<and> rx_chars P b"
| "rx_chars P (RStar a) \<longleftrightarrow> rx_chars P a"
| "rx_chars P (RCap n a) \<longleftrightarrow> rx_chars P a"
| "rx_chars P r \<longleftrightarrow> True"

fun rx_caps :: "nat \<Rightarrow> (char \<Rightarrow> bool) \<Rightarrow> rx \<Rightarrow> bool" where
  "rx_caps n P (RSeq a b) \<longleftrightarrow> rx_caps n P a \<and> rx_caps n P b"
| "rx_caps n P (RAlt a b) \<longleftrightarrow> rx_caps n P a \<and> rx_caps n P b"
| "rx_caps n P (RStar a) \<longleftrightarrow> rx_caps n P a"
| "rx_caps n P (RCap m a) \<longleftrightarrow> (m = n \<longrightarrow> rx_chars P a) \<and> rx_caps n P a"
| "rx_caps n P r \<longleftrightarrow> True"

lemma rx_star_cases:
  assumes "st' \<in> set (rx_run (RStar a) (p, s, cs))"
  obtains "st' = (p, s, cs)"
    | p' s' cs' where "(p', s', cs') \<in> set (rx_run a (p, s, cs))" "length s' < length s"
        "st' \<in> set (rx_run (RStar a) (p', s', cs'))"
  using assms [unfolded rx_run.simps(5) [of a p s cs]] by (auto split: if_splits)

lemma rx_run_chars:
  "st' \<in> set (rx_run r st) \<Longrightarrow> rx_chars P r \<Longrightarrow> \<exists>u. rx_rest st = u @ rx_rest st' \<and> (\<forall>c \<in> set u. P c)"
proof (induction r st arbitrary: st' rule: rx_run.induct)
  case (1 Q p s cs)
  then show ?case by (cases s) (auto split: if_splits)
next
  case (3 a b st)
  then obtain m where m: "m \<in> set (rx_run a st)" "st' \<in> set (rx_run b m)"
    by auto
  obtain u v where "rx_rest st = u @ rx_rest m" "\<forall>c \<in> set u. P c" "rx_rest m = v @ rx_rest st'" "\<forall>c \<in> set v. P c"
    using 3(1) [OF m(1)] 3(2) [OF m] 3(4) by auto
  then show ?case by (intro exI [of _ "u @ v"]) auto
next
  case (5 a p s cs)
  from 5(3) show ?case
  proof (cases rule: rx_star_cases)
    case (2 p' s' cs')
    obtain u v where "s = u @ s'" "\<forall>c \<in> set u. P c" "s' = v @ rx_rest st'" "\<forall>c \<in> set v. P c"
      using 5(1) [OF 2(1)] 5(2) [OF 2(1) refl refl 2(2,3)] 5(4) by auto
    then show ?thesis by (intro exI [of _ "u @ v"]) auto
  qed simp
next
  case (6 n a p s cs)
  then obtain p' s' cs' where "(p', s', cs') \<in> set (rx_run a (p, s, cs))" "rx_rest st' = s'"
    by auto
  then show ?case using 6(1) [of "(p', s', cs')"] 6(3) by simp
qed (auto split: if_splits)

lemma rx_run_caps:
  "st' \<in> set (rx_run r st) \<Longrightarrow> rx_caps n P r \<Longrightarrow> (n, g) \<in> set (snd (snd st')) \<Longrightarrow>
   (n, g) \<in> set (snd (snd st)) \<or> (\<forall>c \<in> set g. P c)"
proof (induction r st arbitrary: st' rule: rx_run.induct)
  case (1 Q p s cs)
  then show ?case by (cases s) (auto split: if_splits)
next
  case (3 a b st)
  then obtain m where m: "m \<in> set (rx_run a st)" "st' \<in> set (rx_run b m)"
    by auto
  then show ?case using 3(1) [OF m(1)] 3(2) [OF m] 3(4,5) by auto
next
  case (5 a p s cs)
  from 5(3) show ?case
  proof (cases rule: rx_star_cases)
    case (2 p' s' cs')
    then show ?thesis
      using 5(1) [OF 2(1)] 5(2) [OF 2(1) refl refl 2(2,3)] 5(4,5) by auto
  qed (use 5 in auto)
next
  case (6 m a p s cs)
  then obtain p' s' cs' where r: "(p', s', cs') \<in> set (rx_run a (p, s, cs))"
    and st': "st' = (p', s', (m, take (length s - length s') s) # cs')"
    by auto
  have "m = n \<Longrightarrow> \<forall>c \<in> set (take (length s - length s') s). P c"
    using rx_run_chars [OF r, of P] 6(3) by auto
  then show ?case using 6(1) [OF r] 6(3,4) st' by auto
qed (auto split: if_splits)

lemma rx_find_caps:
  "rx_find r p s = Some (t, st) \<Longrightarrow> rx_caps n P r \<Longrightarrow> (n, g) \<in> set (snd (snd st)) \<Longrightarrow> \<forall>c \<in> set g. P c"
proof (induction r p s rule: rx_find.induct)
  case (1 r p)
  then show ?case
    using rx_run_caps [of st r "(p, [], [])" n P g] by (auto split: list.splits)
next
  case (2 r p c s)
  then show ?case
    using rx_run_caps [of st r "(p, c # s, [])" n P g] by (auto split: list.splits)
qed

lemma rx_group_chars:
  "rx_exec r s = Some st \<Longrightarrow> rx_caps n P r \<Longrightarrow> rx_group n st = Some g \<Longrightarrow> \<forall>c \<in> set g. P c"
  by (fastforce simp: rx_exec_def rx_group_def dest!: map_of_SomeD dest: rx_find_caps)

lemma rx_caps_lit [simp]: "rx_caps n P (rx_lit s)" "rx_caps n P (rx_lit_ci s)"
  by (induction s) (auto simp: rx_lit_def rx_lit_ci_def)

lemma rx_caps_plus [simp]: "rx_caps n P (rx_plus r) \<longleftrightarrow> rx_caps n P r" "rx_caps n P (rx_opt r) \<longleftrightarrow> rx_caps n P r"
  by (auto simp: rx_plus_def rx_opt_def)

lemma rx_chars_plus [simp]: "rx_chars P (rx_plus r) \<longleftrightarrow> rx_chars P r"
  by (auto simp: rx_plus_def)

end
