(* ===== verification/JsJson.thy ===== *)
theory JsJson
  imports JsPrelude
begin

text \<open>
  Values as text: \<open>String(v)\<close>, \<open>JSON.stringify\<close>, \<open>JSON.parse(JSON.stringify(v))\<close> and \<open>parseFloat\<close>.
\<close>

section \<open>Printing\<close>

text \<open>\<open>v?.k\<close> on any value: only an object has the keys the code reads.\<close>

definition jget :: "json \<Rightarrow> string \<Rightarrow> json" where
  "jget v k = (case v of JObj ob \<Rightarrow> oget ob k | _ \<Rightarrow> JUndef)"

definition is_object :: "json \<Rightarrow> bool" where
  "is_object v \<longleftrightarrow> (case v of JObj _ \<Rightarrow> True | JArr _ \<Rightarrow> True | _ \<Rightarrow> False)"

text \<open>
  \<open>String(v)\<close> and \<open>JSON.stringify(v, null, 2)\<close>. Integral numbers below \<open>10 ^ 21\<close> are printed here;
  \<open>fs\<close> prints the other finite numbers, as the engine does (shortest decimal, exponent notation).
\<close>

definition js_num_str :: "(rat \<Rightarrow> string) \<Rightarrow> jsnum \<Rightarrow> string" where
  "js_num_str fs n = (case n of
      Fin q \<Rightarrow> if is_integral q \<and> \<bar>q\<bar> < 10 ^ 21 then show_int \<lfloor>q\<rfloor> else fs q
    | PosInf \<Rightarrow> ''Infinity'' | NegInf \<Rightarrow> ''-Infinity'' | NaN \<Rightarrow> ''NaN'')"

fun js_String :: "(rat \<Rightarrow> string) \<Rightarrow> json \<Rightarrow> string" where
  "js_String fs JUndef = ''undefined''"
| "js_String fs JNull = ''null''"
| "js_String fs (JBool b) = (if b then ''true'' else ''false'')"
| "js_String fs (JNum n) = js_num_str fs n"
| "js_String fs (JStr s) = s"
| "js_String fs (JArr xs) = join '','' (map (\<lambda>x. if nullish x then [] else js_String fs x) xs)"
| "js_String fs (JObj ob) = ''[object Object]''"

text \<open>\<open>Number(v)\<close>\<close>

definition number_of :: "(rat \<Rightarrow> string) \<Rightarrow> json \<Rightarrow> jsnum" where
  "number_of fs v = (case v of
      JUndef \<Rightarrow> NaN | JNull \<Rightarrow> Fin 0 | JBool b \<Rightarrow> Fin (if b then 1 else 0) | JNum n \<Rightarrow> n
    | _ \<Rightarrow> js_Number (js_String fs v))"

definition hex_digit :: "nat \<Rightarrow> char" where
  "hex_digit n = (if n < 10 then char_of (48 + n) else char_of (87 + n))"

definition quote_char :: "char \<Rightarrow> string" where
  "quote_char c =
     (if c = CHR 0x22 then [CHR 0x5C, CHR 0x22]
      else if c = CHR 0x5C then [CHR 0x5C, CHR 0x5C]
      else if c = CHR 0x08 then [CHR 0x5C, CHR ''b'']
      else if c = CHR 0x0C then [CHR 0x5C, CHR ''f'']
      else if c = CHR 0x0A then [CHR 0x5C, CHR ''n'']
      else if c = CHR 0x0D then [CHR 0x5C, CHR ''r'']
      else if c = CHR 0x09 then [CHR 0x5C, CHR ''t'']
      else if code c < 32 then [CHR 0x5C, CHR ''u'', CHR ''0'', CHR ''0'', hex_digit (code c div 16), hex_digit (code c mod 16)]
      else [c])"

definition quote_string :: "string \<Rightarrow> string" where
  "quote_string s = CHR 0x22 # concat (map quote_char s) @ [CHR 0x22]"

definition newline_indent :: "nat \<Rightarrow> string" where
  "newline_indent d = CHR 0x0A # replicate (2 * d) (CHR '' '')"

text \<open>Members whose value is \<open>undefined\<close> are left out; \<open>undefined\<close> in an array prints as \<open>null\<close>.\<close>

fun stringify :: "(rat \<Rightarrow> string) \<Rightarrow> nat \<Rightarrow> json \<Rightarrow> string" where
  "stringify fs d JUndef = ''null''"
| "stringify fs d JNull = ''null''"
| "stringify fs d (JBool b) = (if b then ''true'' else ''false'')"
| "stringify fs d (JNum n) = (case n of Fin q \<Rightarrow> js_num_str fs n | _ \<Rightarrow> ''null'')"
| "stringify fs d (JStr s) = quote_string s"
| "stringify fs d (JArr xs) =
     (if xs = [] then ''[]''
      else ''['' @ join '','' (map (\<lambda>x. newline_indent (Suc d) @ stringify fs (Suc d) x) xs)
           @ newline_indent d @ '']'')"
| "stringify fs d (JObj ob) =
     (let shown = filter (\<lambda>m. snd m \<noteq> JUndef) ob in
      if shown = [] then ''{}''
      else ''{'' @ join '','' (map (\<lambda>m. newline_indent (Suc d) @ quote_string (fst m) @ '': ''
                                     @ stringify fs (Suc d) (snd m)) shown)
           @ newline_indent d @ ''}'')"

text \<open>
  \<open>JSON.parse(JSON.stringify(v))\<close>: members that are \<open>undefined\<close> disappear, \<open>undefined\<close> in an array and
  the numbers that are not finite become \<open>null\<close>. Two values print alike exactly when their copies are
  equal.
\<close>

fun json_copy :: "json \<Rightarrow> json" where
  "json_copy JUndef = JNull"
| "json_copy JNull = JNull"
| "json_copy (JBool b) = JBool b"
| "json_copy (JNum n) = (case n of Fin q \<Rightarrow> JNum (Fin q) | _ \<Rightarrow> JNull)"
| "json_copy (JStr s) = JStr s"
| "json_copy (JArr xs) = JArr (map json_copy xs)"
| "json_copy (JObj ob) =
     JObj (map (\<lambda>m. (fst m, json_copy (snd m))) (filter (\<lambda>m. snd m \<noteq> JUndef) ob))"

text \<open>
  \<open>parseFloat(s)\<close>: white space, a sign, then the longest prefix that is a decimal number, with an
  exponent only when digits follow it.
\<close>

definition exponent_prefix :: "string \<Rightarrow> string" where
  "exponent_prefix s =
     (case s of
        [] \<Rightarrow> []
      | c # r \<Rightarrow>
          if c \<noteq> CHR ''e'' \<and> c \<noteq> CHR ''E'' then []
          else (let sign = (if starts_with ''-'' r \<or> starts_with ''+'' r then take 1 r else []);
                    ds = takeWhile is_digit (drop (length sign) r)
                in if ds = [] then [] else c # sign @ ds))"

definition unsigned_prefix :: "string \<Rightarrow> string" where
  "unsigned_prefix s =
     (if starts_with ''Infinity'' s then ''Infinity''
      else
        (let ip = takeWhile is_digit s;
             r = dropWhile is_digit s;
             fp = (if starts_with ''.'' r then takeWhile is_digit (tl r) else []);
             dot = (if starts_with ''.'' r \<and> (ip \<noteq> [] \<or> fp \<noteq> []) then ''.'' else []);
             rest = drop (length (dot @ fp)) r
         in ip @ dot @ fp @ exponent_prefix rest))"

definition parse_float :: "string \<Rightarrow> jsnum" where
  "parse_float str =
     (let s = dropWhile is_ws str;
          neg = starts_with ''-'' s;
          r = (if neg \<or> starts_with ''+'' s then tl s else s);
          n = read_unsigned (unsigned_prefix r)
      in if neg then neg_num n else n)"

lemma json_copy_neq_JUndef [simp]: "json_copy v \<noteq> JUndef"
  by (cases v) (auto split: jsnum.split)

lemma json_copy_idem [simp]: "json_copy (json_copy v) = json_copy v"
  by (induction v rule: json_copy.induct) (auto split: jsnum.split simp: json_copy_neq_JUndef comp_def)

end
