(* ===== verification/AuthImport.thy ===== *)
theory AuthImport
  imports JsRegex JsJson
begin

text \<open>
  Pasting credentials: \<open>features/auths/lib/authsUtils.ts\<close>. A pasted text is a cURL command or a JSON or
  Python object literal; \<open>parsePythonOrJson\<close> reads the latter, \<open>normalizeToAuthJson\<close> rewrites it to the
  fields the backend expects. The parser's index into the text is modelled by the rest of the text, its
  exceptions by the left side of a sum; its recursion carries fuel, which \<open>parse_value_enough\<close> shows is
  never exhausted.
\<close>

section \<open>Accounts\<close>

record auth_credential =
  ac_site :: string
  ac_active :: bool
  ac_age_verification_required :: "bool option"
  ac_is_age_verified :: "bool option"

datatype auth_state_filter = AnyState | EnabledOnly | DisabledOnly

definition matchesStateFilter :: "auth_credential \<Rightarrow> auth_state_filter \<Rightarrow> bool" where
  "matchesStateFilter a f =
     (case f of AnyState \<Rightarrow> True | EnabledOnly \<Rightarrow> ac_active a | DisabledOnly \<Rightarrow> \<not> ac_active a)"

definition isOnlyFansAuth :: "auth_credential \<Rightarrow> bool" where
  "isOnlyFansAuth a \<longleftrightarrow> lower (ac_site a) = ''onlyfans''"

definition needsAgeVerification :: "auth_credential \<Rightarrow> bool" where
  "needsAgeVerification a \<longleftrightarrow>
     isOnlyFansAuth a \<and> ac_age_verification_required a = Some True \<and> ac_is_age_verified a \<noteq> Some True"

datatype email_preference = EmailUnset | EmailEnabled | EmailDisabled

definition parseEmailNotificationPreference :: "email_preference \<Rightarrow> bool option" where
  "parseEmailNotificationPreference p =
     (case p of EmailEnabled \<Rightarrow> Some True | EmailDisabled \<Rightarrow> Some False | EmailUnset \<Rightarrow> None)"

section \<open>Cookies\<close>

record cookie_values =
  cv_authId :: "string option"
  cv_sess :: "string option"
  cv_authUid :: "string option"

text \<open>\<open>(?:^|;\s*)NAME=([^;]+)\<close> under the \<open>i\<close> flag.\<close>

definition cookie_start :: rx where
  "cookie_start = RAlt RBos (RSeq (RChr (\<lambda>c. c = CHR '';'')) (RStar (RChr is_ws)))"

definition cookie_rx :: "string \<Rightarrow> rx" where
  "cookie_rx name =
     rx_seq [cookie_start, rx_lit_ci (name @ ''=''), RCap 1 (rx_plus (RChr (\<lambda>c. c \<noteq> CHR '';'')))]"

text \<open>\<open>(?:^|;\s*)auth_uid(?:_([0-9]+))?=([^;]*)\<close> under the \<open>i\<close> flag.\<close>

definition auth_uid_rx :: rx where
  "auth_uid_rx =
     rx_seq [cookie_start, rx_lit_ci ''auth_uid'',
       rx_opt (RSeq (rx_lit ''_'') (RCap 1 (rx_plus (RChr is_digit)))),
       rx_lit ''='', RCap 2 (RStar (RChr (\<lambda>c. c \<noteq> CHR '';'')))]"

text \<open>The trimmed group of a match, when it is not empty.\<close>

definition cookie_value :: "string \<Rightarrow> string \<Rightarrow> string option" where
  "cookie_value name cookie =
     (case rx_exec (cookie_rx name) cookie of
        None \<Rightarrow> None
      | Some m \<Rightarrow> (case rx_group 1 m of None \<Rightarrow> None | Some g \<Rightarrow> nonempty (trim g)))"

definition extractCookieValues :: "string option \<Rightarrow> cookie_values" where
  "extractCookieValues cookie =
     (case cookie of
        None \<Rightarrow> \<lparr>cv_authId = None, cv_sess = None, cv_authUid = None\<rparr>
      | Some c \<Rightarrow>
          if c = [] then \<lparr>cv_authId = None, cv_sess = None, cv_authUid = None\<rparr>
          else
            (let authId = cookie_value ''auth_id'' c;
                 sess1 = cookie_value ''sess'' c;
                 fansly = cookie_value ''session_active_session'' c;
                 sess = (if fansly = None then sess1 else fansly);
                 uid = (case rx_exec auth_uid_rx c of
                          None \<Rightarrow> None
                        | Some m \<Rightarrow>
                            let v = trim (case rx_group 2 m of None \<Rightarrow> [] | Some g \<Rightarrow> g) in
                            if v \<noteq> [] then Some v
                            else (case rx_group 1 m of None \<Rightarrow> None | Some k \<Rightarrow> nonempty k))
             in \<lparr>cv_authId = authId, cv_sess = sess,
                 cv_authUid = (if uid = None then authId else uid)\<rparr>))"

section \<open>The parser\<close>

datatype parse_error =
    UnexpectedEnd
  | UnterminatedEscape
  | UnterminatedString
  | InvalidNumber string
  | UnexpectedIdentifier string
  | UnterminatedObject
  | ExpectedKey
  | ExpectedColon string
  | ExpectedCommaOrBrace
  | ExpectedCommaOrBracket
  | UnterminatedArray
  | OutOfFuel

text \<open>White space, and comments from \<open>#\<close> or \<open>//\<close> to the end of the line.\<close>

function skipWhitespace :: "string \<Rightarrow> string" where
  "skipWhitespace [] = []"
| "skipWhitespace (c # s) =
     (if is_ws c then skipWhitespace s
      else if c = CHR ''#'' \<or> (c = CHR ''/'' \<and> starts_with ''/'' s)
      then skipWhitespace (dropWhile (\<lambda>d. d \<noteq> CHR 0x0A) s)
      else c # s)"
  by pat_completeness auto
termination
  by (relation "measure length") (auto intro: le_imp_less_Suc length_dropWhile_le)

definition stripLeadingCommentsAndWhitespace :: "string \<Rightarrow> string" where
  "stripLeadingCommentsAndWhitespace s = skipWhitespace s"

definition unescape :: "char \<Rightarrow> char \<Rightarrow> char" where
  "unescape quote next =
     (if next = quote then quote
      else if next = CHR ''n'' then CHR 0x0A
      else if next = CHR ''r'' then CHR 0x0D
      else if next = CHR ''t'' then CHR 0x09
      else next)"

text \<open>The body of \<open>parseString\<close>, after the opening quote.\<close>

fun parse_string_body :: "char \<Rightarrow> string \<Rightarrow> parse_error + string \<times> string" where
  "parse_string_body q [] = Inl UnterminatedString"
| "parse_string_body q (c # s) =
     (if c = CHR 0x5C then
        (case s of
           [] \<Rightarrow> Inl UnterminatedEscape
         | n # t \<Rightarrow>
             (case parse_string_body q t of
                Inl e \<Rightarrow> Inl e
              | Inr (r, rest) \<Rightarrow> Inr (unescape q n # r, rest)))
      else if c = q then Inr ([], s)
      else (case parse_string_body q s of
              Inl e \<Rightarrow> Inl e
            | Inr (r, rest) \<Rightarrow> Inr (c # r, rest)))"

definition parseString :: "string \<Rightarrow> parse_error + string \<times> string" where
  "parseString s = (case s of [] \<Rightarrow> Inl UnterminatedString | q # t \<Rightarrow> parse_string_body q t)"

definition parseNumber :: "string \<Rightarrow> parse_error + json \<times> string" where
  "parseNumber s =
     (let sign = (if starts_with ''-'' s \<or> starts_with ''+'' s then take 1 s else []);
          r = drop (length sign) s;
          numStr = sign @ takeWhile (\<lambda>c. is_digit c \<or> c = CHR ''.'') r;
          rest = dropWhile (\<lambda>c. is_digit c \<or> c = CHR ''.'') r;
          num = js_Number numStr
      in if num = NaN then Inl (InvalidNumber numStr) else Inr (JNum num, rest))"

definition is_ident :: "char \<Rightarrow> bool" where
  "is_ident c \<longleftrightarrow> is_alpha c \<or> is_digit c \<or> c = CHR ''_'' \<or> c = CHR ''$''"

definition parseIdentifier :: "string \<Rightarrow> parse_error + json \<times> string" where
  "parseIdentifier s =
     (let ident = takeWhile is_ident s; rest = dropWhile is_ident s in
      if ident = ''None'' \<or> ident = ''null'' then Inr (JNull, rest)
      else if ident = ''True'' \<or> ident = ''true'' then Inr (JBool True, rest)
      else if ident = ''False'' \<or> ident = ''false'' then Inr (JBool False, rest)
      else if ident = ''undefined'' then Inr (JUndef, rest)
      else Inl (UnexpectedIdentifier ident))"

definition is_key_char :: "char \<Rightarrow> bool" where
  "is_key_char c \<longleftrightarrow> is_ident c \<or> c = CHR ''-''"

definition is_quote :: "char \<Rightarrow> bool" where
  "is_quote c \<longleftrightarrow> c = CHR 0x22 \<or> c = CHR 0x27"

definition parse_key :: "string \<Rightarrow> parse_error + string \<times> string" where
  "parse_key s =
     (if s \<noteq> [] \<and> is_quote (hd s) then parseString s
      else (let key = takeWhile is_key_char s in
            if key = [] then Inl ExpectedKey else Inr (key, dropWhile is_key_char s)))"

text \<open>
  \<open>parseValue\<close>, and the loops of \<open>parseObject\<close> and \<open>parseArray\<close> after the opening bracket with the
  members read so far.
\<close>

fun parse_value :: "nat \<Rightarrow> string \<Rightarrow> parse_error + json \<times> string"
  and parse_members :: "nat \<Rightarrow> jsobject \<Rightarrow> string \<Rightarrow> parse_error + json \<times> string"
  and parse_elements :: "nat \<Rightarrow> json list \<Rightarrow> string \<Rightarrow> parse_error + json \<times> string" where
  "parse_value 0 s = Inl OutOfFuel"
| "parse_value (Suc n) s =
     (case skipWhitespace s of
        [] \<Rightarrow> Inl UnexpectedEnd
      | c # t \<Rightarrow>
          if c = CHR ''{'' then
            (case skipWhitespace t of
               d # u \<Rightarrow> if d = CHR ''}'' then Inr (JObj [], u) else parse_members n [] (d # u)
             | [] \<Rightarrow> parse_members n [] [])
          else if c = CHR ''['' then
            (case skipWhitespace t of
               d # u \<Rightarrow> if d = CHR '']'' then Inr (JArr [], u) else parse_elements n [] (d # u)
             | [] \<Rightarrow> parse_elements n [] [])
          else if is_quote c then
            (case parseString (c # t) of Inl e \<Rightarrow> Inl e | Inr (str, rest) \<Rightarrow> Inr (JStr str, rest))
          else if c = CHR ''-'' \<or> c = CHR ''+'' \<or> is_digit c then parseNumber (c # t)
          else parseIdentifier (c # t))"
| "parse_members 0 ob s = Inl OutOfFuel"
| "parse_members (Suc n) ob s =
     (case skipWhitespace s of
        [] \<Rightarrow> Inl UnterminatedObject
      | c # t \<Rightarrow>
          (case parse_key (c # t) of
             Inl e \<Rightarrow> Inl e
           | Inr (key, r1) \<Rightarrow>
               (case skipWhitespace r1 of
                  [] \<Rightarrow> Inl (ExpectedColon key)
                | d # r2 \<Rightarrow>
                    if d \<noteq> CHR '':'' then Inl (ExpectedColon key)
                    else
                      (case parse_value n r2 of
                         Inl e \<Rightarrow> Inl e
                       | Inr (v, r3) \<Rightarrow>
                           let ob' = oset key v ob in
                           (case skipWhitespace r3 of
                              [] \<Rightarrow> Inl ExpectedCommaOrBrace
                            | f # r4 \<Rightarrow>
                                if f = CHR '','' then
                                  (case skipWhitespace r4 of
                                     [] \<Rightarrow> Inl UnterminatedObject
                                   | g # r5 \<Rightarrow>
                                       if g = CHR ''}'' then Inr (JObj ob', r5)
                                       else parse_members n ob' (g # r5))
                                else if f = CHR ''}'' then Inr (JObj ob', r4)
                                else Inl ExpectedCommaOrBrace)))))"
| "parse_elements 0 xs s = Inl OutOfFuel"
| "parse_elements (Suc n) xs s =
     (if s = [] then Inl UnterminatedArray
      else
        (case parse_value n s of
           Inl e \<Rightarrow> Inl e
         | Inr (v, r1) \<Rightarrow>
             (case skipWhitespace r1 of
                [] \<Rightarrow> Inl ExpectedCommaOrBracket
              | d # r2 \<Rightarrow>
                  if d = CHR '','' then
                    (case skipWhitespace r2 of
                       [] \<Rightarrow> Inl UnterminatedArray
                     | f # r3 \<Rightarrow>
                         if f = CHR '']'' then Inr (JArr (xs @ [v]), r3)
                         else parse_elements n (xs @ [v]) (f # r3))
                  else if d = CHR '']'' then Inr (JArr (xs @ [v]), r2)
                  else Inl ExpectedCommaOrBracket)))"

definition parse_fuel :: "string \<Rightarrow> nat" where
  "parse_fuel s = 2 * length s + 1"

definition parsePythonOrJson :: "string \<Rightarrow> parse_error + json" where
  "parsePythonOrJson input =
     (let str = trim input in
      case parse_value (parse_fuel str) str of Inl e \<Rightarrow> Inl e | Inr (v, _) \<Rightarrow> Inr v)"

section \<open>Normalising\<close>

definition normal_key :: "string \<Rightarrow> string" where
  "normal_key k = replace_char (CHR ''-'') (CHR ''_'') (lower k)"

definition AUTH_KEYS :: "string list" where
  "AUTH_KEYS = [''cookie'', ''sess'', ''session'', ''auth_id'', ''auth_uid'', ''auth_uid_'', ''x_bc'',
     ''user_agent'', ''authorization'', ''app_token'', ''id'', ''user_id'']"

definition HANDLED_KEYS :: "string list" where
  "HANDLED_KEYS = [''auth_id'', ''user_id'', ''id'', ''sess'', ''session'', ''auth_uid_'', ''auth_uid'',
     ''user_agent'', ''x_bc'', ''app_token'', ''authorization'', ''cookie'']"

definition looks_like_object :: "string \<Rightarrow> bool" where
  "looks_like_object value =
     (let cleaned = stripLeadingCommentsAndWhitespace value in
      cleaned \<noteq> [] \<and> \<not> starts_with ''curl'' (lower cleaned) \<and> starts_with ''{'' cleaned)"

definition canNormalizeToAuthJson :: "string \<Rightarrow> bool" where
  "canNormalizeToAuthJson value =
     (looks_like_object value \<and>
      (case parsePythonOrJson value of
         Inr (JObj ob) \<Rightarrow> \<exists>k \<in> set (map (normal_key \<circ> fst) ob). k \<in> set AUTH_KEYS
       | _ \<Rightarrow> False))"

text \<open>
  \<open>obj.k !== undefined && obj.k !== null && String(obj.k).trim() !== ''\<close>, then the trimmed text; the
  first such key of a list.
\<close>

definition text_of :: "(rat \<Rightarrow> string) \<Rightarrow> json \<Rightarrow> string option" where
  "text_of fs v = (if nullish v then None else nonempty (trim (js_String fs v)))"

fun first_text :: "(rat \<Rightarrow> string) \<Rightarrow> jsobject \<Rightarrow> string list \<Rightarrow> string option" where
  "first_text fs ob [] = None"
| "first_text fs ob (k # ks) =
     (case text_of fs (oget ob k) of Some t \<Rightarrow> Some t | None \<Rightarrow> first_text fs ob ks)"

definition cookie_of :: "jsobject \<Rightarrow> string option" where
  "cookie_of ob = (case oget ob ''cookie'' of
      JStr s \<Rightarrow> Some (trim s)
    | _ \<Rightarrow> (case oget ob ''Cookie'' of JStr s \<Rightarrow> Some (trim s) | _ \<Rightarrow> None))"

definition authId_of :: "(rat \<Rightarrow> string) \<Rightarrow> jsobject \<Rightarrow> string option" where
  "authId_of fs ob =
     (case first_text fs ob [''auth_id'', ''user_id''] of
        Some t \<Rightarrow> Some t
      | None \<Rightarrow>
          (case (if oget ob ''id'' = JNum (Fin 0) then None else text_of fs (oget ob ''id'')) of
             Some t \<Rightarrow> Some t
           | None \<Rightarrow> cv_authId (extractCookieValues (cookie_of ob))))"

definition sess_of :: "(rat \<Rightarrow> string) \<Rightarrow> jsobject \<Rightarrow> string option" where
  "sess_of fs ob = coalesce (first_text fs ob [''sess'', ''session''])
     (cv_sess (extractCookieValues (cookie_of ob)))"

definition authUid_of :: "(rat \<Rightarrow> string) \<Rightarrow> jsobject \<Rightarrow> string option" where
  "authUid_of fs ob =
     (case first_text fs ob [''auth_uid_'', ''auth_uid''] of
        Some t \<Rightarrow> Some t
      | None \<Rightarrow> or_opt (cv_authUid (extractCookieValues (cookie_of ob))) (authId_of fs ob))"

definition set_text :: "string \<Rightarrow> string option \<Rightarrow> jsobject \<Rightarrow> jsobject" where
  "set_text k v ob = (case v of None \<Rightarrow> ob | Some t \<Rightarrow> if t = [] then ob else oset k (JStr t) ob)"

definition keep_other :: "string \<times> json \<Rightarrow> jsobject \<Rightarrow> jsobject" where
  "keep_other m ob =
     (if normal_key (fst m) \<notin> set HANDLED_KEYS \<and> \<not> nullish (snd m) \<and> snd m \<noteq> JStr []
      then oset (fst m) (snd m) ob else ob)"

definition normalize_object :: "(rat \<Rightarrow> string) \<Rightarrow> jsobject \<Rightarrow> jsobject" where
  "normalize_object fs ob =
     fold keep_other ob
      (set_text ''cookie'' (cookie_of ob)
      (set_text ''authorization'' (first_text fs ob [''authorization'', ''Authorization''])
      (set_text ''app-token'' (first_text fs ob [''app-token'', ''app_token'', ''appToken''])
      (set_text ''x_bc'' (first_text fs ob [''x_bc'', ''x-bc'', ''xBc''])
      (set_text ''user_agent'' (first_text fs ob [''user_agent'', ''user-agent'', ''userAgent''])
      (set_text ''auth_uid_'' (authUid_of fs ob)
      (set_text ''sess'' (sess_of fs ob)
      (set_text ''auth_id'' (authId_of fs ob) []))))))))"

definition normalizeToAuthJson :: "(rat \<Rightarrow> string) \<Rightarrow> string \<Rightarrow> string" where
  "normalizeToAuthJson fs value =
     (if \<not> looks_like_object value then value
      else
        (case parsePythonOrJson value of
           Inr (JObj ob) \<Rightarrow> stringify fs 0 (JObj (normalize_object fs ob))
         | _ \<Rightarrow> value))"

datatype import_tab = CurlTab | JsonTab

definition detectAuthImportType :: "string \<Rightarrow> import_tab option" where
  "detectAuthImportType value =
     (let trimmed = trim value in
      if trimmed = [] then None
      else if starts_with ''curl'' (lower trimmed) then Some CurlTab
      else if canNormalizeToAuthJson trimmed \<or> starts_with ''{'' trimmed then Some JsonTab
      else None)"

definition isSupportedAuthImportInput :: "string \<Rightarrow> import_tab \<Rightarrow> bool" where
  "isSupportedAuthImportInput value tab =
     (let trimmed = trim value in
      if trimmed = [] then False
      else (case tab of
              CurlTab \<Rightarrow> starts_with ''curl'' (lower trimmed)
            | JsonTab \<Rightarrow> starts_with ''{'' trimmed \<or> canNormalizeToAuthJson trimmed))"

definition spenderTypeLabel :: "string option \<Rightarrow> string" where
  "spenderTypeLabel t =
     (if t = Some ''free'' then ''free only''
      else if t = Some ''paid'' then ''paid only'' else ''any price'')"

section \<open>Properties of the parser\<close>

subsection \<open>The parser always returns\<close>

lemma length_skipWhitespace [js_len]: "length (skipWhitespace s) \<le> length s"
proof (induction s rule: skipWhitespace.induct)
  case (2 c s)
  have "length (dropWhile (\<lambda>d. d \<noteq> CHR 0x0A) s) \<le> length s" by (rule length_dropWhile_le)
  with 2 show ?case by (auto intro: le_SucI le_trans)
qed simp

declare parse_string_body.simps(2) [simp del]

lemma parse_string_body_escape [simp]:
  "parse_string_body q (CHR 0x5C # n # t) =
     map_sum id (map_prod (\<lambda>r. unescape q n # r) id) (parse_string_body q t)"
  by (simp add: parse_string_body.simps(2) split: sum.split prod.split)

lemma parse_string_body_dangling [simp]: "parse_string_body q [CHR 0x5C] = Inl UnterminatedEscape"
  by (simp add: parse_string_body.simps(2))

lemma parse_string_body_quote [simp]: "q \<noteq> CHR 0x5C \<Longrightarrow> parse_string_body q (q # s) = Inr ([], s)"
  by (simp add: parse_string_body.simps(2))

lemma parse_string_body_plain [simp]:
  "c \<noteq> CHR 0x5C \<Longrightarrow> c \<noteq> q \<Longrightarrow>
   parse_string_body q (c # s) = map_sum id (map_prod (\<lambda>r. c # r) id) (parse_string_body q s)"
  by (simp add: parse_string_body.simps(2) split: sum.split prod.split)

text \<open>The result of a parser on a text of length \<open>k\<close>: fuel was left, and some of the text is consumed.\<close>

definition progress :: "nat \<Rightarrow> parse_error + 'a \<times> string \<Rightarrow> bool" where
  "progress k x \<longleftrightarrow> x \<noteq> Inl OutOfFuel \<and> (\<forall>v r. x = Inr (v, r) \<longrightarrow> length r < k)"

lemma progress_Inl: "e \<noteq> OutOfFuel \<Longrightarrow> progress k (Inl e)"
  by (simp add: progress_def)

lemma progress_Inr: "length r < k \<Longrightarrow> progress k (Inr (v, r))"
  by (simp add: progress_def)

lemma progress_weaken: "progress m x \<Longrightarrow> m \<le> k \<Longrightarrow> progress k x"
  by (fastforce simp: progress_def)

lemma progress_map: "progress k x \<Longrightarrow> progress k (map_sum id (map_prod f id) x)"
  by (cases x) (auto simp: progress_def)

lemma progress_bind:
  "progress m x \<Longrightarrow> (\<And>v r. length r < m \<Longrightarrow> progress k (f v r)) \<Longrightarrow>
   progress k (case x of Inl e \<Rightarrow> Inl e | Inr p \<Rightarrow> (case p of (v, r) \<Rightarrow> f v r))"
  by (cases x) (auto simp: progress_def)

lemma progress_skip:
  "progress k a \<Longrightarrow> (\<And>c t. length (c # t) \<le> length s \<Longrightarrow> progress k (f c t)) \<Longrightarrow>
   progress k (case skipWhitespace s of [] \<Rightarrow> a | c # t \<Rightarrow> f c t)"
  using length_skipWhitespace [of s] by (auto split: list.split)

lemma progress_if: "(b \<Longrightarrow> progress k x) \<Longrightarrow> (\<not> b \<Longrightarrow> progress k y) \<Longrightarrow> progress k (if b then x else y)"
  by simp

lemma progress_string_body: "progress (length s) (parse_string_body q s)"
proof (induction q s rule: parse_string_body.induct)
  case (2 q c s)
  consider (dangling) "c = CHR 0x5C" "s = []" | (escape) n t where "c = CHR 0x5C" "s = n # t"
    | (close) "c \<noteq> CHR 0x5C" "c = q" | (plain) "c \<noteq> CHR 0x5C" "c \<noteq> q"
    by (cases s) auto
  then show ?case
  proof cases
    case escape
    then show ?thesis using 2(1) [OF escape] by (auto intro: progress_map progress_weaken)
  next
    case plain
    then show ?thesis using 2(2) [OF plain] by (auto intro: progress_map progress_weaken)
  qed (auto simp: progress_Inl progress_Inr)
qed (simp add: progress_Inl)

lemma progress_parseString: "progress (length s) (parseString s)"
  by (cases s) (auto simp: parseString_def progress_Inl intro: progress_weaken [OF progress_string_body])

lemma dropWhile_shorter: "takeWhile P s \<noteq> [] \<Longrightarrow> length (dropWhile P s) < length s"
  by (cases s) (auto simp: le_imp_less_Suc length_dropWhile_le split: if_splits)

lemma progress_parseNumber:
  assumes "s = c # t" "c = CHR ''-'' \<or> c = CHR ''+'' \<or> is_digit c"
  shows "progress (length s) (parseNumber s)"
proof -
  let ?P = "\<lambda>c. is_digit c \<or> c = CHR ''.''"
  have "length (dropWhile ?P t) < length s"
    using assms(1) length_dropWhile_le [of ?P t] by simp
  then show ?thesis
    using assms by (auto simp: parseNumber_def Let_def starts_with_def progress_def)
qed

lemma progress_parseIdentifier: "progress (length s) (parseIdentifier s)"
  using dropWhile_shorter [of is_ident s]
  by (auto simp: parseIdentifier_def Let_def progress_def)

lemma progress_parse_key: "progress (length s) (parse_key s)"
  using dropWhile_shorter [of is_key_char s] progress_parseString [of s]
  by (auto simp: parse_key_def Let_def progress_def)

lemmas progress_rules = progress_skip progress_if progress_bind progress_Inl progress_Inr

lemma progress_parse:
  "(2 * length s + 1 \<le> n \<longrightarrow> progress (length s) (parse_value n s)) \<and>
   (2 * length s + 1 \<le> n \<longrightarrow> progress (length s) (parse_members n ob s)) \<and>
   (2 * length s + 2 \<le> n \<longrightarrow> progress (length s) (parse_elements n xs s))"
proof (induction n arbitrary: s ob xs)
  case (Suc n)
  have v: "progress (length s) (parse_value n s)" if "2 * length s + 1 \<le> n" for s
    using Suc.IH that by blast
  have m: "progress k (parse_members n ob s)" if "2 * length s + 1 \<le> n" "length s \<le> k" for s ob k
    using Suc.IH that by (blast intro: progress_weaken)
  have e: "progress k (parse_elements n xs s)" if "2 * length s + 2 \<le> n" "length s \<le> k" for s xs k
    using Suc.IH that by (blast intro: progress_weaken)
  have str: "progress k (parseString s)" if "length s \<le> k" for s k
    using progress_parseString that by (rule progress_weaken)
  have num: "progress k (parseNumber (c # t))"
    if "c = CHR ''-'' \<or> c = CHR ''+'' \<or> is_digit c" "Suc (length t) \<le> k" for c t k
    using progress_parseNumber [OF refl that(1)] that(2) by (auto intro: progress_weaken)
  have idn: "progress k (parseIdentifier s)" if "length s \<le> k" for s k
    using progress_parseIdentifier that by (rule progress_weaken)
  have "progress (length s) (parse_value (Suc n) s)" if "2 * length s + 1 \<le> Suc n"
    unfolding parse_value.simps
    apply (intro progress_skip progress_if progress_Inl progress_Inr m e num idn progress_bind [OF progress_parseString])
    using that by auto
  moreover have "progress (length s) (parse_members (Suc n) ob s)" if "2 * length s + 1 \<le> Suc n"
    unfolding parse_members.simps Let_def
    apply (intro progress_skip progress_if progress_Inl progress_Inr m progress_bind [OF progress_parse_key]
        progress_bind [OF v])
    using that by auto
  moreover have "progress (length s) (parse_elements (Suc n) xs s)" if "2 * length s + 2 \<le> Suc n"
    unfolding parse_elements.simps Let_def
    apply (intro progress_skip progress_if progress_Inl progress_Inr e progress_bind [OF v])
    using that by auto
  ultimately show ?case by blast
qed simp


lemma parse_value_enough: "parse_value (parse_fuel s) s \<noteq> Inl OutOfFuel"
  using progress_parse [of s "parse_fuel s"] by (simp add: parse_fuel_def progress_def)

text \<open>
  C6. The parser always returns. On every text \<open>parsePythonOrJson\<close> gives a value or one of the source's
  parse errors; the recursion of \<open>parseValue\<close>, \<open>parseObject\<close> and \<open>parseArray\<close> ends because each call
  that succeeds consumes text.
\<close>

theorem parsePythonOrJson_total: "parsePythonOrJson input \<noteq> Inl OutOfFuel"
  using parse_value_enough [of "trim input"] by (auto simp: parsePythonOrJson_def Let_def split: sum.splits)

subsection \<open>Printed values are read back\<close>

definition plain_char :: "char \<Rightarrow> bool" where
  "plain_char c \<longleftrightarrow> 32 \<le> code c \<or> c \<in> {CHR 0x0A, CHR 0x0D, CHR 0x09}"

fun plain :: "json \<Rightarrow> bool" where
  "plain JUndef \<longleftrightarrow> False"
| "plain JNull \<longleftrightarrow> True"
| "plain (JBool b) \<longleftrightarrow> True"
| "plain (JNum n) \<longleftrightarrow> is_safe_integer n"
| "plain (JStr s) \<longleftrightarrow> (\<forall>c \<in> set s. plain_char c)"
| "plain (JArr xs) \<longleftrightarrow> (\<forall>x \<in> set xs. plain x)"
| "plain (JObj ob) \<longleftrightarrow>
     js_ordered ob \<and> (\<forall>m \<in> set ob. (\<forall>c \<in> set (fst m). plain_char c) \<and> plain (snd m))"

definition ends_value :: "string \<Rightarrow> bool" where
  "ends_value s \<longleftrightarrow> (case s of [] \<Rightarrow> True | c # _ \<Rightarrow> \<not> is_ident c \<and> c \<noteq> CHR ''.'')"

definition starts_token :: "char \<Rightarrow> bool" where
  "starts_token c \<longleftrightarrow> \<not> is_ws c \<and> c \<noteq> CHR ''#'' \<and> c \<noteq> CHR ''/''"

lemma skipWhitespace_token [simp]: "starts_token c \<Longrightarrow> skipWhitespace (c # s) = c # s"
  by (simp add: starts_token_def)

lemma skipWhitespace_blank [simp]: "is_ws c \<Longrightarrow> skipWhitespace (c # s) = skipWhitespace s"
  by simp

lemma skipWhitespace_indent [simp]: "skipWhitespace (newline_indent d @ s) = skipWhitespace s"
proof -
  have "skipWhitespace (replicate n (CHR '' '') @ s) = skipWhitespace s" for n
    by (induction n) (simp_all add: is_ws_def)
  then show ?thesis by (simp add: newline_indent_def is_ws_def)
qed

lemma parse_quote_char:
  "plain_char c \<Longrightarrow> parse_string_body (CHR 0x22) (quote_char c @ s) =
     map_sum id (map_prod (\<lambda>r. c # r) id) (parse_string_body (CHR 0x22) s)"
  by (auto simp: quote_char_def plain_char_def unescape_def)

lemma parse_quoted:
  "\<forall>c \<in> set s. plain_char c \<Longrightarrow>
   parse_string_body (CHR 0x22) (concat (map quote_char s) @ CHR 0x22 # rest) = Inr (s, rest)"
  by (induction s) (simp_all add: parse_quote_char)

lemma parseString_quote [simp]:
  "\<forall>c \<in> set s. plain_char c \<Longrightarrow> parseString (quote_string s @ rest) = Inr (s, rest)"
  by (simp add: parseString_def quote_string_def parse_quoted)

lemma takeWhile_ends:
  "\<forall>c \<in> set ds. P c \<Longrightarrow> (case rest of [] \<Rightarrow> True | c # _ \<Rightarrow> \<not> P c) \<Longrightarrow>
   takeWhile P (ds @ rest) = ds \<and> dropWhile P (ds @ rest) = rest"
  by (cases rest) (auto simp: takeWhile_append dropWhile_append takeWhile_eq_all_conv)

lemma show_nat_Cons: "\<exists>c t. show_nat n = c # t \<and> is_digit c"
  by (metis list.exhaust list.set_intros(1) show_nat_digits show_nat_neq_Nil)

lemma parseNumber_show_int:
  assumes "ends_value rest"
  shows "parseNumber (show_int k @ rest) = Inr (JNum (Fin (of_int k)), rest)"
proof -
  let ?P = "\<lambda>c. is_digit c \<or> c = CHR ''.''"
  have "takeWhile ?P (show_nat n @ rest) = show_nat n \<and> dropWhile ?P (show_nat n @ rest) = rest" for n
    using assms by (intro takeWhile_ends) (auto simp: ends_value_def is_ident_def dest: show_nat_digits split: list.splits)
  moreover have "\<not> starts_with ''-'' (show_nat n @ rest)" "\<not> starts_with ''+'' (show_nat n @ rest)" for n
    using show_nat_Cons [of n] by (auto simp: starts_with_def is_digit_def)
  ultimately show ?thesis
    using js_Number_show_int [of k]
    by (cases "k < 0") (simp_all add: parseNumber_def Let_def show_int_def starts_with_def)
qed

lemma parseIdentifier_word:
  assumes "ends_value rest" "w \<in> {''null'', ''true'', ''false''}"
  shows "parseIdentifier (w @ rest) =
     Inr (if w = ''null'' then JNull else JBool (w = ''true''), rest)"
proof -
  have "\<forall>c \<in> set ''nulltruefalse''. is_ident c" by code_simp
  then have "\<forall>c \<in> set w. is_ident c" using assms(2) by auto
  moreover have "case rest of [] \<Rightarrow> True | c # _ \<Rightarrow> \<not> is_ident c"
    using assms(1) by (simp add: ends_value_def split: list.splits)
  ultimately have "takeWhile is_ident (w @ rest) = w \<and> dropWhile is_ident (w @ rest) = rest"
    by (rule takeWhile_ends)
  then show ?thesis using assms(2) by (auto simp: parseIdentifier_def Let_def)
qed

lemma show_int_head:
  "\<exists>c t. show_int k = c # t \<and> (c = CHR ''-'' \<or> is_digit c)"
  using show_nat_Cons by (simp add: show_int_def) metis

lemma is_digit_token: "is_digit c \<Longrightarrow> starts_token c \<and> c \<noteq> CHR ''{'' \<and> c \<noteq> CHR ''['' \<and> \<not> is_quote c"
  by (auto simp: starts_token_def is_digit_def is_quote_def)

lemma stringify_head:
  assumes "plain v"
  shows "\<exists>c t. stringify fs d v = c # t \<and> starts_token c \<and> c \<noteq> CHR '']'' \<and> c \<noteq> CHR ''}''"
proof (cases v)
  case (JNum n)
  with assms obtain q where "n = Fin q" "is_integral q" "\<bar>q\<bar> < 10 ^ 21"
    by (cases n) (auto simp: is_safe_integer_def)
  with JNum show ?thesis
    using show_int_head [of "\<lfloor>q\<rfloor>"] is_digit_token
    by (auto simp: js_num_str_def starts_token_def is_ws_def is_digit_def)
qed (use assms in \<open>auto simp: starts_token_def is_ws_def quote_string_def Let_def\<close>)

lemma skipWhitespace_idem [simp]: "skipWhitespace (skipWhitespace s) = skipWhitespace s"
  by (induction s rule: skipWhitespace.induct) auto

declare skipWhitespace.simps(2) [simp del]

lemma parse_value_skip [simp]: "parse_value n (skipWhitespace s) = parse_value n s"
  by (cases n) simp_all

lemma parse_members_skip [simp]: "parse_members n ob (skipWhitespace s) = parse_members n ob s"
  by (cases n) simp_all

lemma parse_elements_skip:
  "skipWhitespace s \<noteq> [] \<Longrightarrow> parse_elements n xs (skipWhitespace s) = parse_elements n xs s"
  by (cases n) auto

definition reads :: "(rat \<Rightarrow> string) \<Rightarrow> nat \<Rightarrow> json \<Rightarrow> bool" where
  "reads fs d v \<longleftrightarrow> (\<forall>n rest. ends_value rest \<longrightarrow> 2 * length (stringify fs d v) + 1 \<le> n \<longrightarrow>
     parse_value n (stringify fs d v @ rest) = Inr (v, rest))"

lemma parse_value_indent [simp]: "parse_value n (newline_indent d @ s) = parse_value n s"
  by (metis parse_value_skip skipWhitespace_indent)

lemma parse_value_blank [simp]: "parse_value n (CHR '' '' # s) = parse_value n s"
  by (cases n) (simp_all add: is_ws_def)

lemma ends_value_simps [simp]:
  "ends_value (CHR '','' # s)" "ends_value (newline_indent d @ s)" "ends_value []"
  by (auto simp: ends_value_def is_ident_def is_alpha_def is_lower_def is_upper_def is_digit_def newline_indent_def)

lemma skipWhitespace_punct [simp]:
  "skipWhitespace (CHR '','' # s) = CHR '','' # s" "skipWhitespace (CHR '']'' # s) = CHR '']'' # s"
  "skipWhitespace (CHR ''}'' # s) = CHR ''}'' # s" "skipWhitespace (CHR '':'' # s) = CHR '':'' # s"
  "skipWhitespace (CHR 0x22 # s) = CHR 0x22 # s"
  "skipWhitespace (CHR ''{'' # s) = CHR ''{'' # s" "skipWhitespace (CHR ''['' # s) = CHR ''['' # s"
  by (simp_all add: starts_token_def is_ws_def)

definition item_text :: "(rat \<Rightarrow> string) \<Rightarrow> nat \<Rightarrow> json \<Rightarrow> string" where
  "item_text fs d x = newline_indent (Suc d) @ stringify fs (Suc d) x"

definition member_text :: "(rat \<Rightarrow> string) \<Rightarrow> nat \<Rightarrow> string \<times> json \<Rightarrow> string" where
  "member_text fs d m = newline_indent (Suc d) @ quote_string (fst m) @ '': '' @ stringify fs (Suc d) (snd m)"

lemma item_text_neq_Nil [simp]: "item_text fs d x \<noteq> []"
  by (simp add: item_text_def newline_indent_def)

lemma join_head: "\<exists>t. join sep (map f (x # xs)) @ s = f x @ t"
  by (cases xs) auto

lemma skip_items:
  assumes "plain x"
  shows "\<exists>c t. skipWhitespace (join '','' (map (item_text fs d) (x # xs)) @ s) = c # t \<and> c \<noteq> CHR '']''"
proof -
  obtain t where "join '','' (map (item_text fs d) (x # xs)) @ s = item_text fs d x @ t"
    using join_head by metis
  then show ?thesis
    using stringify_head [OF assms, of fs "Suc d"] by (auto simp: item_text_def)
qed

lemma parse_elements_printed:
  assumes "\<forall>x \<in> set ys. reads fs (Suc d) x \<and> plain x" "ys \<noteq> []"
    "2 * length (join '','' (map (item_text fs d) ys)) + 2 \<le> n"
  shows "parse_elements n xs (join '','' (map (item_text fs d) ys) @ newline_indent d @ CHR '']'' # rest)
     = Inr (JArr (xs @ ys), rest)"
  using assms
proof (induction ys arbitrary: n xs)
  case (Cons y ys)
  then obtain k where n: "n = Suc k" by (cases n) auto
  have y: "parse_value k (item_text fs d y @ r) = Inr (y, r)" if "ends_value r" for r
    using Cons.prems that n unfolding reads_def item_text_def by (cases ys) auto
  show ?case
  proof (cases ys)
    case Nil
    then show ?thesis by (simp add: n y)
  next
    case (Cons z zs)
    let ?r = "join '','' (map (item_text fs d) ys) @ newline_indent d @ CHR '']'' # rest"
    obtain c t where "skipWhitespace ?r = c # t" "c \<noteq> CHR '']''"
      using skip_items [of z] Cons.prems Cons by fastforce
    moreover have "parse_elements k (xs @ [y]) ?r = Inr (JArr (xs @ y # ys), rest)"
      using Cons.IH [of k "xs @ [y]"] Cons.prems Cons n by simp
    ultimately show ?thesis
      using parse_elements_skip [of ?r k "xs @ [y]"] Cons by (simp add: n y)
  qed
qed simp

lemma skip_members:
  "\<exists>t. skipWhitespace (join '','' (map (member_text fs d) (m # ms)) @ s) = CHR 0x22 # t"
proof -
  obtain t where "join '','' (map (member_text fs d) (m # ms)) @ s = member_text fs d m @ t"
    using join_head by metis
  then show ?thesis by (simp add: member_text_def quote_string_def)
qed

lemma parse_members_printed:
  assumes "\<forall>m \<in> set ms. reads fs (Suc d) (snd m) \<and> (\<forall>c \<in> set (fst m). plain_char c)" "ms \<noteq> []"
    "js_ordered (ob @ ms)" "2 * length (join '','' (map (member_text fs d) ms)) + 2 \<le> n"
  shows "parse_members n ob (join '','' (map (member_text fs d) ms) @ newline_indent d @ CHR ''}'' # rest)
     = Inr (JObj (ob @ ms), rest)"
  using assms
proof (induction ms arbitrary: n ob)
  case (Cons m ms)
  then obtain k where n: "n = Suc k" by (cases n) auto
  have m: "parse_value k (stringify fs (Suc d) (snd m) @ r) = Inr (snd m, r)" if "ends_value r" for r
    using Cons.prems that n unfolding reads_def member_text_def by (cases ms) auto
  have key: "parse_key (CHR 0x22 # concat (map quote_char (fst m)) @ CHR 0x22 # r) = Inr (fst m, r)" for r
    using Cons.prems parseString_quote [of "fst m" r]
    by (simp add: parse_key_def is_quote_def quote_string_def)
  have set: "oset (fst m) (snd m) ob = ob @ [m]"
    using Cons.prems(3) js_ordered_append [of "ob @ [m]" ms] oset_snoc [of ob "fst m" "snd m"] by simp
  show ?case
  proof (cases ms)
    case Nil
    then show ?thesis by (simp add: n member_text_def quote_string_def key set m)
  next
    case (Cons z zs)
    let ?r = "join '','' (map (member_text fs d) ms) @ newline_indent d @ CHR ''}'' # rest"
    obtain t where t: "skipWhitespace ?r = CHR 0x22 # t"
      using skip_members Cons by metis
    have "parse_members k (ob @ [m]) ?r = Inr (JObj (ob @ m # ms), rest)"
      using Cons.IH [of "ob @ [m]" k] Cons.prems Cons n by simp
    then have "parse_members k (ob @ [m]) (CHR 0x22 # t) = Inr (JObj (ob @ m # ms), rest)"
      using t parse_members_skip [of k "ob @ [m]" ?r] by simp
    then show ?thesis
      using t Cons by (simp add: n member_text_def [of fs d m] quote_string_def [of "fst m"] key set m Let_def)
  qed
qed simp

lemma stringify_arr: "xs \<noteq> [] \<Longrightarrow>
    stringify fs d (JArr xs) = CHR ''['' # join '','' (map (item_text fs d) xs) @ newline_indent d @ '']''"
  by (simp add: item_text_def [abs_def])

lemma stringify_obj: "ob \<noteq> [] \<Longrightarrow> \<forall>m \<in> set ob. snd m \<noteq> JUndef \<Longrightarrow>
    stringify fs d (JObj ob) = CHR ''{'' # join '','' (map (member_text fs d) ob) @ newline_indent d @ ''}''"
  by (simp add: member_text_def [abs_def] Let_def filter_id_conv [THEN iffD2])

lemma readsI:
  "(\<And>k rest. ends_value rest \<Longrightarrow> 2 * length (stringify fs d v) \<le> k \<Longrightarrow>
     parse_value (Suc k) (stringify fs d v @ rest) = Inr (v, rest)) \<Longrightarrow> reads fs d v"
  unfolding reads_def by (metis Suc_eq_plus1 Suc_le_D Suc_le_mono)

lemma parse_value_word:
  assumes "ends_value rest" "w \<in> {''null'', ''true'', ''false''}"
  shows "parse_value (Suc k) (w @ rest) = Inr (if w = ''null'' then JNull else JBool (w = ''true''), rest)"
proof -
  obtain c t where "w = c # t" "c \<in> {CHR ''n'', CHR ''t'', CHR ''f''}" using assms(2) by auto
  then show ?thesis
    using parseIdentifier_word [OF assms]
    by (auto simp: starts_token_def is_ws_def is_quote_def is_digit_def)
qed

lemma plain_reads: "plain v \<Longrightarrow> reads fs d v"
proof (induction v arbitrary: d)
  case (JNum x)
  then obtain q where x: "x = Fin q" "is_integral q" "\<bar>q\<bar> < 10 ^ 21"
    by (cases x) (auto simp: is_safe_integer_def)
  obtain c t where c: "show_int \<lfloor>q\<rfloor> = c # t" "c = CHR ''-'' \<or> is_digit c"
    using show_int_head by blast
  have tok: "starts_token c \<and> c \<noteq> CHR ''{'' \<and> c \<noteq> CHR ''['' \<and> \<not> is_quote c"
    using c(2) is_digit_token by (auto simp: starts_token_def is_ws_def is_quote_def)
  have q: "of_int \<lfloor>q\<rfloor> = q" using x by (simp add: is_integral_def)
  have num: "parseNumber (c # t @ rest) = Inr (JNum (Fin q), rest)" if "ends_value rest" for rest
    using parseNumber_show_int [OF that, of "\<lfloor>q\<rfloor>"] c(1) q by simp
  have str: "stringify fs d (JNum x) = c # t" using x c by (simp add: js_num_str_def)
  show ?case
    by (rule readsI) (use tok num c(2) str x in \<open>auto simp del: stringify.simps\<close>)
next
  case (JStr x)
  then have "parseString (CHR 0x22 # concat (map quote_char x) @ CHR 0x22 # rest) = Inr (x, rest)" for rest
    using parseString_quote [of x rest] by (simp add: quote_string_def)
  then show ?case by (intro readsI) (simp add: quote_string_def is_quote_def)
next
  case (JArr xs)
  show ?case
  proof (cases xs)
    case (Cons y ys)
    have all: "\<forall>x \<in> set xs. reads fs (Suc d) x \<and> plain x" using JArr by auto
    show ?thesis
    proof (rule readsI)
      fix k rest
      let ?t = "join '','' (map (item_text fs d) xs) @ newline_indent d @ CHR '']'' # rest"
      assume k: "2 * length (stringify fs d (JArr xs)) \<le> k"
      then have "parse_elements k [] ?t = Inr (JArr xs, rest)"
        using parse_elements_printed [OF all, where n = k and xs = "[]" and rest = rest] Cons
        by (simp add: stringify_arr del: stringify.simps)
      moreover obtain c t where "skipWhitespace ?t = c # t" "c \<noteq> CHR '']''"
        using skip_items [of y fs d ys] all Cons by fastforce
      ultimately show "parse_value (Suc k) (stringify fs d (JArr xs) @ rest) = Inr (JArr xs, rest)"
        using parse_elements_skip [of ?t k "[]"] Cons by (simp add: stringify_arr del: stringify.simps)
    qed
  qed (auto intro!: readsI)
next
  case (JObj ob)
  show ?case
  proof (cases ob)
    case (Cons y ys)
    have all: "\<forall>m \<in> set ob. reads fs (Suc d) (snd m) \<and> (\<forall>c \<in> set (fst m). plain_char c)"
      and def: "\<forall>m \<in> set ob. snd m \<noteq> JUndef" and ord: "js_ordered ob"
      using JObj by (auto intro: snds.intros)
    show ?thesis
    proof (rule readsI)
      fix k rest
      let ?t = "join '','' (map (member_text fs d) ob) @ newline_indent d @ CHR ''}'' # rest"
      assume k: "2 * length (stringify fs d (JObj ob)) \<le> k"
      then have "parse_members k [] ?t = Inr (JObj ob, rest)"
        using parse_members_printed [OF all, where ob = "[]" and n = k and rest = rest] Cons def ord
        by (simp add: stringify_obj del: stringify.simps)
      moreover obtain t where "skipWhitespace ?t = CHR 0x22 # t"
        using skip_members Cons by metis
      ultimately show "parse_value (Suc k) (stringify fs d (JObj ob) @ rest) = Inr (JObj ob, rest)"
        using parse_members_skip [of k "[]" ?t] Cons def by (simp add: stringify_obj del: stringify.simps)
    qed
  qed (auto intro!: readsI)
qed (use parse_value_word [of _ "''null''"] parse_value_word [of _ "''true''"] parse_value_word [of _ "''false''"]
     in \<open>auto intro!: readsI simp del: parse_value.simps\<close>)


lemma show_int_no_ws: "c \<in> set (show_int k) \<Longrightarrow> \<not> is_ws c"
  by (auto simp: show_int_def is_ws_def is_digit_def dest!: show_nat_digits split: if_splits)

lemma trim_stringify:
  assumes "plain v"
  shows "trim (stringify fs d v) = stringify fs d v"
proof (cases v)
  case (JNum n)
  with assms obtain q where "n = Fin q" "is_integral q" "\<bar>q\<bar> < 10 ^ 21"
    by (cases n) (auto simp: is_safe_integer_def)
  with JNum show ?thesis
    using show_int_no_ws by (auto simp: js_num_str_def intro!: trim_no_ws)
next
  case (JStr s)
  then show ?thesis by (intro trim_eq_self) (simp_all add: quote_string_def is_ws_def)
next
  case (JArr xs)
  then show ?thesis by (intro trim_eq_self) (simp_all add: is_ws_def)
next
  case (JObj ob)
  then show ?thesis by (intro trim_eq_self) (simp_all add: Let_def is_ws_def)
qed (use assms in \<open>auto intro!: trim_no_ws simp: is_ws_def\<close>)

text \<open>
  C7. Printed values are read back. The parser reads what \<open>JSON.stringify\<close> prints for a value of null,
  booleans, safe integers, strings without control characters other than newline, carriage return and
  tab, arrays and objects of such values: it returns exactly that value, key order included.
\<close>

theorem parse_print:
  assumes "plain v"
  shows "parsePythonOrJson (stringify fs d v) = Inr v"
proof -
  let ?s = "stringify fs d v"
  have "parse_value (parse_fuel ?s) (?s @ []) = Inr (v, [])"
    using plain_reads [OF assms, of fs d] ends_value_simps(3) unfolding reads_def parse_fuel_def by blast
  then show ?thesis
    unfolding parsePythonOrJson_def trim_stringify [OF assms] Let_def append_Nil2 by simp
qed

subsection \<open>Normalising twice\<close>

definition ordered_result :: "parse_error + json \<times> string \<Rightarrow> bool" where
  "ordered_result x \<longleftrightarrow> (\<forall>ob r. x = Inr (JObj ob, r) \<longrightarrow> js_ordered ob)"

lemma ordered_result_simps [simp]:
  "ordered_result (Inl e)" "ordered_result (Inr (JObj ob, r)) \<longleftrightarrow> js_ordered ob"
  "ordered_result (Inr (JArr xs, r))" "ordered_result (Inr (JStr str, r))"
  by (auto simp: ordered_result_def)

lemma ordered_result_bind:
  "(\<And>v r. ordered_result (f v r)) \<Longrightarrow>
   ordered_result (case x of Inl e \<Rightarrow> Inl e | Inr p \<Rightarrow> (case p of (v, r) \<Rightarrow> f v r))"
  by (auto split: sum.split)

lemma ordered_result_list:
  "ordered_result a \<Longrightarrow> (\<And>c t. ordered_result (f c t)) \<Longrightarrow>
   ordered_result (case s of [] \<Rightarrow> a | c # t \<Rightarrow> f c t)"
  by (cases s) auto

lemma ordered_result_if: "ordered_result x \<Longrightarrow> ordered_result y \<Longrightarrow> ordered_result (if b then x else y)"
  by simp

lemma parse_members_ordered: "js_ordered ob \<Longrightarrow> ordered_result (parse_members n ob s)"
proof (induction n arbitrary: ob s)
  case (Suc n)
  then show ?case
    unfolding parse_members.simps Let_def
    by (intro ordered_result_list ordered_result_bind ordered_result_if) auto
qed simp

lemma parse_elements_ordered: "ordered_result (parse_elements n xs s)"
proof (induction n arbitrary: xs s)
  case (Suc n)
  then show ?case
    unfolding parse_elements.simps
    by (intro ordered_result_list ordered_result_bind ordered_result_if) auto
qed simp

lemma parse_leaf_ordered: "ordered_result (parseNumber s)" "ordered_result (parseIdentifier s)"
  by (auto simp: ordered_result_def parseNumber_def parseIdentifier_def Let_def split: if_splits)

lemma parse_value_ordered: "ordered_result (parse_value n s)"
proof (cases n)
  case (Suc m)
  then show ?thesis
    unfolding Suc parse_value.simps
    by (intro ordered_result_list ordered_result_bind ordered_result_if parse_members_ordered
        parse_elements_ordered parse_leaf_ordered) auto
qed simp

lemma parsePythonOrJson_ordered: "parsePythonOrJson s = Inr (JObj ob) \<Longrightarrow> js_ordered ob"
  using parse_value_ordered [of "parse_fuel (trim s)" "trim s"]
  by (auto simp: parsePythonOrJson_def Let_def ordered_result_def split: sum.splits)

lemma oget_set_text:
  "oget (set_text k v ob) k' = (if k' = k \<and> v \<noteq> None \<and> v \<noteq> Some [] then JStr (the v) else oget ob k')"
  by (cases v) (auto simp: set_text_def oget_oset)

definition kept :: "string \<times> json \<Rightarrow> bool" where
  "kept m \<longleftrightarrow> normal_key (fst m) \<notin> set HANDLED_KEYS \<and> \<not> nullish (snd m) \<and> snd m \<noteq> JStr []"

lemma fold_keep_other:
  "fold keep_other ob acc = fold (\<lambda>m. oset (fst m) (snd m)) (filter kept ob) acc"
  by (induction ob arbitrary: acc) (simp_all add: keep_other_def kept_def)

definition clean :: "string option \<Rightarrow> bool" where
  "clean v \<longleftrightarrow> (case v of None \<Rightarrow> True | Some t \<Rightarrow> t \<noteq> [] \<and> trim t = t)"

lemma clean_nonempty_trim [simp]: "clean (nonempty (trim s))"
  by (simp add: clean_def nonempty_def)

lemma clean_None [simp]: "clean None"
  by (simp add: clean_def)

lemma clean_text_of [simp]: "clean (text_of fs v)"
  by (simp add: text_of_def)

lemma clean_first_text [simp]: "clean (first_text fs ob ks)"
  by (induction ks) (auto split: option.splits, metis clean_text_of)

lemma clean_cookie_value [simp]: "clean (cookie_value n c)"
  by (auto simp: cookie_value_def split: option.splits)

lemma auth_uid_key_digits:
  "rx_exec auth_uid_rx c = Some m \<Longrightarrow> rx_group 1 m = Some k \<Longrightarrow> trim k = k"
  by (drule rx_group_chars [of _ _ _ 1 is_digit k])
     (auto simp: auth_uid_rx_def cookie_start_def intro: trim_no_ws)

lemma clean_extract [simp]:
  "clean (cv_authId (extractCookieValues c))" "clean (cv_sess (extractCookieValues c))"
  "clean (cv_authUid (extractCookieValues c))"
proof -
  have "clean (nonempty k)" if "rx_exec auth_uid_rx c' = Some m" "rx_group 1 m = Some k" for c' m k
    using auth_uid_key_digits [OF that] by (simp add: clean_def nonempty_def)
  then show "clean (cv_authId (extractCookieValues c))" "clean (cv_sess (extractCookieValues c))"
    "clean (cv_authUid (extractCookieValues c))"
    by (auto simp: extractCookieValues_def Let_def clean_def [of "Some _"] split: option.splits)
qed

lemma clean_cases: "clean (case v of None \<Rightarrow> w | Some t \<Rightarrow> Some t) \<longleftrightarrow> (if v = None then clean w else clean v)"
  by (cases v) simp_all

lemma clean_coalesce [simp]: "clean v \<Longrightarrow> clean w \<Longrightarrow> clean (coalesce v w)"
  by (auto simp: coalesce_def split: option.splits)

lemma clean_or_opt [simp]: "clean v \<Longrightarrow> clean w \<Longrightarrow> clean (or_opt v w)"
  by (auto simp: or_opt_def split: option.splits)

lemma clean_fields [simp]:
  "clean (authId_of fs ob)" "clean (sess_of fs ob)" "clean (authUid_of fs ob)"
  by (simp_all add: authId_of_def sess_of_def authUid_of_def clean_cases)

definition auth_base :: "(rat \<Rightarrow> string) \<Rightarrow> jsobject \<Rightarrow> jsobject" where
  "auth_base fs ob =
      (set_text ''cookie'' (cookie_of ob)
      (set_text ''authorization'' (first_text fs ob [''authorization'', ''Authorization''])
      (set_text ''app-token'' (first_text fs ob [''app-token'', ''app_token'', ''appToken''])
      (set_text ''x_bc'' (first_text fs ob [''x_bc'', ''x-bc'', ''xBc''])
      (set_text ''user_agent'' (first_text fs ob [''user_agent'', ''user-agent'', ''userAgent''])
      (set_text ''auth_uid_'' (authUid_of fs ob)
      (set_text ''sess'' (sess_of fs ob)
      (set_text ''auth_id'' (authId_of fs ob) []))))))))"

lemma normalize_object_base:
  "normalize_object fs ob = fold (\<lambda>m. oset (fst m) (snd m)) (filter kept ob) (auth_base fs ob)"
  by (simp add: normalize_object_def auth_base_def fold_keep_other)

lemma oget_normalize:
  assumes "js_ordered ob"
  shows "oget (normalize_object fs ob) k = (if kept (k, oget ob k) then oget ob k else oget (auth_base fs ob) k)"
proof -
  have d: "distinct (map fst ob)" using assms by (simp add: js_ordered_def)
  have "map_of (filter kept ob) k = (if kept (k, oget ob k) then Some (oget ob k) else None)"
    by (simp add: lookup_filtered [OF d] oget_def kept_def nullish_def split: option.split)
  then show ?thesis
    by (simp add: normalize_object_base oget_fold_oset distinct_map_filter [OF d])
qed

lemma handled_not_kept: "normal_key k \<in> set HANDLED_KEYS \<Longrightarrow> \<not> kept (k, v)"
  by (simp add: kept_def)

lemma text_of_clean: "clean (Some t) \<Longrightarrow> text_of fs (JStr t) = Some t"
  by (simp add: text_of_def nullish_def clean_def nonempty_def)

lemma text_of_set_text:
  "clean v \<Longrightarrow> text_of fs (oget ob k) = None \<Longrightarrow> text_of fs (oget (set_text k v ob) k) = v"
  by (cases v) (auto simp: oget_set_text text_of_clean clean_def)

lemma text_of_kept: "text_of fs (if kept (k, v) then v else JUndef) =
    (if normal_key k \<in> set HANDLED_KEYS then None else text_of fs v)"
  by (auto simp: kept_def text_of_def nullish_def nonempty_def)

lemma text_of_JUndef [simp]: "text_of fs JUndef = None"
  by (simp add: text_of_def nullish_def)

lemma normal_keys:
  "normal_key ''auth_id'' \<in> set HANDLED_KEYS" "normal_key ''user_id'' \<in> set HANDLED_KEYS"
  "normal_key ''id'' \<in> set HANDLED_KEYS" "normal_key ''sess'' \<in> set HANDLED_KEYS"
  "normal_key ''session'' \<in> set HANDLED_KEYS" "normal_key ''auth_uid_'' \<in> set HANDLED_KEYS"
  "normal_key ''auth_uid'' \<in> set HANDLED_KEYS" "normal_key ''user_agent'' \<in> set HANDLED_KEYS"
  "normal_key ''user-agent'' \<in> set HANDLED_KEYS" "normal_key ''x_bc'' \<in> set HANDLED_KEYS"
  "normal_key ''x-bc'' \<in> set HANDLED_KEYS" "normal_key ''app-token'' \<in> set HANDLED_KEYS"
  "normal_key ''app_token'' \<in> set HANDLED_KEYS" "normal_key ''authorization'' \<in> set HANDLED_KEYS"
  "normal_key ''Authorization'' \<in> set HANDLED_KEYS" "normal_key ''cookie'' \<in> set HANDLED_KEYS"
  "normal_key ''Cookie'' \<in> set HANDLED_KEYS"
  "normal_key ''userAgent'' \<notin> set HANDLED_KEYS" "normal_key ''xBc'' \<notin> set HANDLED_KEYS"
  "normal_key ''appToken'' \<notin> set HANDLED_KEYS"
  by code_simp+

lemma normalize_handled:
  assumes "js_ordered ob"
  shows "normal_key k \<in> set HANDLED_KEYS \<Longrightarrow> oget (normalize_object fs ob) k = oget (auth_base fs ob) k"
  by (simp add: oget_normalize [OF assms] handled_not_kept)

lemma normalize_unhandled:
  assumes "js_ordered ob" "oget (auth_base fs ob) k = JUndef" "normal_key k \<notin> set HANDLED_KEYS"
  shows "text_of fs (oget (normalize_object fs ob) k) = text_of fs (oget ob k)"
  using text_of_kept [of fs k "oget ob k"] assms by (auto simp: oget_normalize [OF assms(1)])

lemma clean_not_empty: "clean v \<Longrightarrow> v \<noteq> Some []"
  by (auto simp: clean_def)

lemma text_of_the: "clean v \<Longrightarrow> v \<noteq> None \<Longrightarrow> text_of fs (JStr (the v)) = v"
  by (auto simp: text_of_clean)

lemma auth_base_texts:
  "text_of fs (oget (auth_base fs ob) ''auth_id'') = authId_of fs ob"
  "text_of fs (oget (auth_base fs ob) ''sess'') = sess_of fs ob"
  "text_of fs (oget (auth_base fs ob) ''auth_uid_'') = authUid_of fs ob"
  "text_of fs (oget (auth_base fs ob) ''user_agent'') = first_text fs ob [''user_agent'', ''user-agent'', ''userAgent'']"
  "text_of fs (oget (auth_base fs ob) ''x_bc'') = first_text fs ob [''x_bc'', ''x-bc'', ''xBc'']"
  "text_of fs (oget (auth_base fs ob) ''app-token'') = first_text fs ob [''app-token'', ''app_token'', ''appToken'']"
  "text_of fs (oget (auth_base fs ob) ''authorization'') = first_text fs ob [''authorization'', ''Authorization'']"
  "oget (auth_base fs ob) ''cookie'' = (case cookie_of ob of None \<Rightarrow> JUndef | Some t \<Rightarrow> if t = [] then JUndef else JStr t)"
  by (simp_all add: auth_base_def oget_set_text clean_not_empty text_of_the del: first_text.simps not_None_eq)
     (simp split: option.split)

lemma auth_base_others:
  "oget (auth_base fs ob) ''user_id'' = JUndef" "oget (auth_base fs ob) ''id'' = JUndef"
  "oget (auth_base fs ob) ''session'' = JUndef" "oget (auth_base fs ob) ''auth_uid'' = JUndef"
  "oget (auth_base fs ob) ''user-agent'' = JUndef" "oget (auth_base fs ob) ''userAgent'' = JUndef"
  "oget (auth_base fs ob) ''x-bc'' = JUndef" "oget (auth_base fs ob) ''xBc'' = JUndef"
  "oget (auth_base fs ob) ''app_token'' = JUndef" "oget (auth_base fs ob) ''appToken'' = JUndef"
  "oget (auth_base fs ob) ''Authorization'' = JUndef" "oget (auth_base fs ob) ''Cookie'' = JUndef"
  by (simp_all add: auth_base_def oget_set_text)

lemmas normalize_texts = normal_keys auth_base_texts auth_base_others normalize_handled normalize_unhandled

lemma extract_cookie_normalized:
  assumes "js_ordered ob"
  shows "extractCookieValues (cookie_of (normalize_object fs ob)) = extractCookieValues (cookie_of ob)"
    "set_text k (cookie_of (normalize_object fs ob)) acc = set_text k (cookie_of ob) acc"
proof -
  have "trim t = t" if "cookie_of ob = Some t" for t
    using that by (auto simp: cookie_of_def split: json.splits)
  then have "cookie_of (normalize_object fs ob) = (if cookie_of ob = Some [] then None else cookie_of ob)"
    using assms by (simp add: cookie_of_def [of "normalize_object fs ob"] normalize_texts split: option.split)
  then show "extractCookieValues (cookie_of (normalize_object fs ob)) = extractCookieValues (cookie_of ob)"
    "set_text k (cookie_of (normalize_object fs ob)) acc = set_text k (cookie_of ob) acc"
    by (auto simp: extractCookieValues_def set_text_def)
qed

lemma fields_normalized:
  assumes "js_ordered ob"
  shows "authId_of fs (normalize_object fs ob) = authId_of fs ob"
    "sess_of fs (normalize_object fs ob) = sess_of fs ob"
    "authUid_of fs (normalize_object fs ob) = authUid_of fs ob"
proof -
  have "authId_of fs ob = None \<Longrightarrow> cv_authId (extractCookieValues (cookie_of ob)) = None"
    by (simp add: authId_of_def split: option.splits)
  then show id: "authId_of fs (normalize_object fs ob) = authId_of fs ob"
    by (simp add: authId_of_def [of fs "normalize_object fs ob"] extract_cookie_normalized [OF assms]
        normalize_texts assms split: option.split)
  have "sess_of fs ob = None \<Longrightarrow> cv_sess (extractCookieValues (cookie_of ob)) = None"
    by (simp add: sess_of_def coalesce_def split: option.splits)
  then show "sess_of fs (normalize_object fs ob) = sess_of fs ob"
    by (auto simp: sess_of_def [of fs "normalize_object fs ob"] extract_cookie_normalized [OF assms]
        normalize_texts assms coalesce_def split: option.split)
  have "authUid_of fs ob = None \<Longrightarrow> or_opt (cv_authUid (extractCookieValues (cookie_of ob))) (authId_of fs ob) = None"
    by (simp add: authUid_of_def split: option.splits)
  then show "authUid_of fs (normalize_object fs ob) = authUid_of fs ob"
    by (simp add: authUid_of_def [of fs "normalize_object fs ob"] extract_cookie_normalized [OF assms] id
        normalize_texts assms split: option.split)
qed

lemma first_text_unset: "first_text fs ob ks = None \<Longrightarrow> k \<in> set ks \<Longrightarrow> text_of fs (oget ob k) = None"
  by (induction ks) (auto split: option.splits)

lemma first_text_normalized:
  assumes "js_ordered ob"
  shows "first_text fs (normalize_object fs ob) [''user_agent'', ''user-agent'', ''userAgent''] =
      first_text fs ob [''user_agent'', ''user-agent'', ''userAgent'']"
    "first_text fs (normalize_object fs ob) [''x_bc'', ''x-bc'', ''xBc''] =
      first_text fs ob [''x_bc'', ''x-bc'', ''xBc'']"
    "first_text fs (normalize_object fs ob) [''app-token'', ''app_token'', ''appToken''] =
      first_text fs ob [''app-token'', ''app_token'', ''appToken'']"
    "first_text fs (normalize_object fs ob) [''authorization'', ''Authorization''] =
      first_text fs ob [''authorization'', ''Authorization'']"
  by (auto simp: first_text.simps(2) [of fs "normalize_object fs ob"] normalize_texts assms
      first_text_unset simp del: first_text.simps(2) split: option.split)

lemma auth_base_normalized:
  assumes "js_ordered ob"
  shows "auth_base fs (normalize_object fs ob) = auth_base fs ob"
  unfolding auth_base_def fields_normalized [OF assms] first_text_normalized [OF assms]
    extract_cookie_normalized(2) [OF assms] ..

lemma keys_set_text: "fst ` set ob \<subseteq> K \<Longrightarrow> k \<in> K \<Longrightarrow> fst ` set (set_text k v ob) \<subseteq> K"
  by (simp add: set_text_def keys_oset split: option.split)

lemma js_ordered_set_text: "js_ordered ob \<Longrightarrow> js_ordered (set_text k v ob)"
  by (simp add: set_text_def split: option.split)

definition BASE_KEYS :: "string list" where
  "BASE_KEYS = [''auth_id'', ''sess'', ''auth_uid_'', ''user_agent'', ''x_bc'', ''app-token'',
     ''authorization'', ''cookie'']"

lemma auth_base_keys: "fst ` set (auth_base fs ob) \<subseteq> set BASE_KEYS"
  unfolding auth_base_def by (intro keys_set_text) (simp_all add: BASE_KEYS_def)

lemma js_ordered_auth_base: "js_ordered (auth_base fs ob)"
  unfolding auth_base_def by (intro js_ordered_set_text js_ordered_Nil)

lemma base_keys: "list_all (\<lambda>k. array_index k = None \<and> normal_key k \<in> set HANDLED_KEYS) BASE_KEYS"
  by code_simp

lemma auth_base_member:
  "m \<in> set (auth_base fs ob) \<Longrightarrow> array_index (fst m) = None \<and> \<not> kept m"
  using auth_base_keys [of fs ob] base_keys by (auto simp: list_all_iff kept_def)

lemma normalize_object_idem:
  assumes "js_ordered ob"
  shows "normalize_object fs (normalize_object fs ob) = normalize_object fs ob"
proof -
  have d: "distinct (map fst ob)" using assms by (simp add: js_ordered_def)
  have "fst m \<notin> fst ` set (auth_base fs ob)" if "kept m" for m
    using that auth_base_keys [of fs ob] base_keys by (auto simp: list_all_iff kept_def)
  then have "fst ` set (auth_base fs ob) \<inter> fst ` set (filter kept ob) = {}"
    unfolding disjoint_iff set_filter image_iff by blast
  then have "distinct (map fst (auth_base fs ob @ filter kept ob))"
    using js_ordered_auth_base [of fs ob] d by (simp add: js_ordered_def distinct_map_filter)
  then show ?thesis
    unfolding normalize_object_base [of fs "normalize_object fs ob"] auth_base_normalized [OF assms]
    unfolding normalize_object_base [of fs ob]
    by (intro fold_oset_again) (auto simp: indexed_def dest: auth_base_member)
qed

lemma looks_like_printed: "looks_like_object (stringify fs d (JObj ob))"
proof -
  obtain t where "stringify fs d (JObj ob) = CHR ''{'' # t"
    by (cases "filter (\<lambda>m. snd m \<noteq> JUndef) ob = []") (simp_all add: Let_def)
  then show ?thesis
    by (simp add: looks_like_object_def stripLeadingCommentsAndWhitespace_def starts_with_def lower_def
        lower_char_def is_upper_def del: stringify.simps)
qed


definition demo_json :: json where
  "demo_json = JObj [(''auth_id'', JStr ''12''), (''active'', JBool True),
     (''n'', JArr [JNull, JNum (Fin (- 3)), JStr [CHR 0x22, CHR 0x0A, CHR 0x5C]]), (''sub'', JObj [])]"

definition demo_paste :: string where
  "demo_paste = ''# creds'' @ [CHR 0x0A] @ ''{user_id: 12, cookie: 'sess=abc; auth_id=12', Extra: True}''"

theorem parse_print_witness:
  "parsePythonOrJson (stringify (\<lambda>_. []) 0 demo_json) = Inr demo_json"
  by (rule parse_print) code_simp

definition demo_object :: jsobject where
  "demo_object = [(''user_id'', JNum (Fin 12)), (''cookie'', JStr ''sess=abc; auth_id=12''), (''Extra'', JBool True)]"

lemma demo_paste_parsed: "parsePythonOrJson demo_paste = Inr (JObj demo_object)"
  by code_simp


lemma lower_starts: "starts_with ''{'' s \<Longrightarrow> \<not> starts_with ''curl'' (lower s)"
  by (cases s) (auto simp: starts_with_def lower_def lower_char_def is_upper_def)

lemma curl_not_json: "starts_with ''curl'' (lower s) \<Longrightarrow> \<not> canNormalizeToAuthJson s"
proof -
  assume *: "starts_with ''curl'' (lower s)"
  then obtain c t where s: "s = c # t" "lower_char c = CHR ''c''"
    by (cases s) (auto simp: starts_with_def lower_def)
  then have "starts_token c"
    by (auto simp: starts_token_def lower_char_def is_upper_def is_ws_def split: if_splits)
  with * s show ?thesis
    by (simp add: canNormalizeToAuthJson_def looks_like_object_def stripLeadingCommentsAndWhitespace_def)
qed

text \<open>
  Detecting and supporting agree. A pasted text is supported by a tab exactly when that tab is the one
  \<open>detectAuthImportType\<close> switches to, so no text is supported by both tabs.
\<close>

lemma detect_supported:
  "detectAuthImportType value = Some tab \<longleftrightarrow> isSupportedAuthImportInput value tab"
  using curl_not_json [of "trim value"] lower_starts [of "trim value"]
  by (cases tab) (auto simp: detectAuthImportType_def isSupportedAuthImportInput_def Let_def)

text \<open>
  What normalising keeps. The rewritten object lists its keys in order without duplicates; every member
  whose key is not one of the credential keys and whose value is not null, undefined or empty is kept
  as it was; and when an account id is known a \<open>auth_uid_\<close> is present too.
\<close>

lemma normalize_object_keeps:
  assumes "parsePythonOrJson value = Inr (JObj ob)"
  shows "js_ordered (normalize_object fs ob)
    \<and> (kept (k, oget ob k) \<longrightarrow> oget (normalize_object fs ob) k = oget ob k)
    \<and> (authId_of fs ob \<noteq> None \<longrightarrow> oget (normalize_object fs ob) ''auth_uid_'' \<noteq> JUndef)"
proof -
  have ord: "js_ordered ob" using assms by (rule parsePythonOrJson_ordered)
  have "js_ordered (normalize_object fs ob)"
    by (simp add: normalize_object_base js_ordered_fold js_ordered_auth_base)
  moreover have "authUid_of fs ob \<noteq> None" if "authId_of fs ob \<noteq> None"
    using that by (auto simp: authUid_of_def or_opt_def split: option.split)
  then have "authId_of fs ob \<noteq> None \<longrightarrow> text_of fs (oget (normalize_object fs ob) ''auth_uid_'') \<noteq> None"
    by (simp add: ord normalize_texts)
  ultimately show ?thesis
    using text_of_JUndef by (metis oget_normalize [OF ord])
qed

lemma normalize_object_keeps_witness:
  "js_ordered (normalize_object (\<lambda>_. []) demo_object)
   \<and> oget (normalize_object (\<lambda>_. []) demo_object) ''Extra'' = JBool True
   \<and> oget (normalize_object (\<lambda>_. []) demo_object) ''auth_uid_'' = JStr ''12''"
proof -
  have "kept (''Extra'', oget demo_object ''Extra'')" "oget demo_object ''Extra'' = JBool True"
    "oget (normalize_object (\<lambda>_. []) demo_object) ''auth_uid_'' = JStr ''12''"
    by code_simp+
  then show ?thesis using normalize_object_keeps [OF demo_paste_parsed, of "\<lambda>_. []" "''Extra''"] by simp
qed

text \<open>
  Header spelling is lost. \<open>canNormalizeToAuthJson\<close> accepts an object whose only credentials are spelled
  like request headers (\<open>User-Agent\<close>, \<open>X-BC\<close>), but normalising reads neither spelling and, because the
  keys count as handled, drops their values: the result is the empty object.
\<close>

lemma normalize_header_keys_lost:
  "normalize_object fs [(''User-Agent'', JStr ua), (''X-BC'', JStr bc)] = []
   \<and> canNormalizeToAuthJson ''{'User-Agent': 'Mozilla', 'X-BC': 'f00'}''"
proof
  have "normal_key ''User-Agent'' \<in> set HANDLED_KEYS" "normal_key ''X-BC'' \<in> set HANDLED_KEYS"
    by code_simp+
  then have "\<not> kept (''User-Agent'', v)" "\<not> kept (''X-BC'', v)" for v
    by (simp_all add: kept_def)
  moreover have "oget [(''User-Agent'', JStr ua), (''X-BC'', JStr bc)] k = JUndef"
    if "k \<notin> {''User-Agent'', ''X-BC''}" for k
    using that by (simp add: oget_def)
  ultimately show "normalize_object fs [(''User-Agent'', JStr ua), (''X-BC'', JStr bc)] = []"
    by (simp add: normalize_object_base auth_base_def set_text_def authId_of_def sess_of_def authUid_of_def
        cookie_of_def extractCookieValues_def coalesce_def or_opt_def)
  show "canNormalizeToAuthJson ''{'User-Agent': 'Mozilla', 'X-BC': 'f00'}''"
    by code_simp
qed

text \<open>
  JSON escapes other than \<open>\n\<close>, \<open>\r\<close> and \<open>\t\<close> are read wrongly: the backslash is dropped, so the escape of
  the letter A is read as \<open>u0041\<close> and \<open>\b\<close> as \<open>b\<close>.
\<close>

lemma parse_unicode_escape:
  "parsePythonOrJson ([CHR 0x22, CHR 0x5C] @ ''u0041'' @ [CHR 0x22]) = Inr (JStr ''u0041'')
   \<and> parsePythonOrJson ([CHR 0x22, CHR 0x5C] @ ''b'' @ [CHR 0x22]) = Inr (JStr ''b'')"
  by code_simp

end
