(* ===== verification/PluginHost.thy ===== *)
theory PluginHost
  imports JsPrelude
begin

text \<open>
  The host of WebUI plugins: class \<open>PluginRegistry\<close> of \<open>features/plugins/lib/pluginHost.ts\<close>. A plugin is
  installed with a fresh generation and an abort controller; the scoped API it gets names that
  generation and refuses to work once the plugin was disabled or replaced. Objects compared by identity
  (registrations, hooks, generations) carry a serial number. Slot components and hook handlers are the
  plugins' code and appear as numbers; \<open>perform\<close> says what a handler returns (\<open>None\<close> when it throws), and
  \<open>lc\<close> is the sign of \<open>localeCompare\<close>.
\<close>

section \<open>State\<close>

definition PLUGIN_SLOTS :: "string list" where
  "PLUGIN_SLOTS = [''users.card.badges'', ''users.table.identity_extra'', ''users.edit_modal.top'',
     ''user.profile.panels'', ''navigation.pages'']"

datatype plugin_mode = NativeMode | SandboxMode | DeclarativeMode

record plugin_access =
  profile_fields :: "string list"
  task_types :: "string list"
  propose_profile_changes :: bool

record plugin_descriptor =
  plugin_id :: string
  plugin_mode :: "plugin_mode option"
  plugin_access :: "plugin_access option"

record registration =
  reg_serial :: nat
  reg_id :: string
  reg_plugin :: string
  reg_component :: nat
  reg_order :: rat

record plugin_hook =
  hook_serial :: nat
  hook_plugin :: string
  hook_handler :: nat

record installation =
  inst_descriptor :: plugin_descriptor
  generation :: nat

text \<open>
  \<open>aborted\<close> lists the generations whose controller was aborted; \<open>pr_calls\<close> records the calls of the
  registry's listeners.
\<close>

record plugin_registry =
  installations :: "(string \<times> installation) list"
  slots :: "string \<Rightarrow> registration list"
  hooks :: "string \<Rightarrow> plugin_hook list"
  pr_listeners :: "nat list"
  revision :: nat
  nextId :: nat
  has_transport :: bool
  serial :: nat
  aborted :: "nat list"
  pr_calls :: "nat list"

definition new_registry :: plugin_registry where
  "new_registry = \<lparr>installations = [], slots = (\<lambda>_. []), hooks = (\<lambda>_. []), pr_listeners = [],
     revision = 0, nextId = 0, has_transport = False, serial = 0, aborted = [], pr_calls = []\<rparr>"

record scoped_api =
  api_plugin :: string
  api_installation :: installation

datatype plugin_error =
    PluginInactive string
  | PluginReplaced string
  | UnknownSlot string
  | DuplicateContribution string
  | OutsideScope
  | NoTransport
  | NoCurrentScript

section \<open>Operations of the registry\<close>

definition setTransport :: "plugin_registry \<Rightarrow> plugin_registry" where
  "setTransport s = s\<lparr>has_transport := True\<rparr>"

definition notify :: "plugin_registry \<Rightarrow> plugin_registry" where
  "notify s = s\<lparr>revision := revision s + 1, pr_calls := pr_calls s @ pr_listeners s\<rparr>"

definition add_registry_listener :: "nat \<Rightarrow> plugin_registry \<Rightarrow> plugin_registry" where
  "add_registry_listener l s =
     (if l \<in> set (pr_listeners s) then s else s\<lparr>pr_listeners := pr_listeners s @ [l]\<rparr>)"

definition drop_registry_listener :: "nat \<Rightarrow> plugin_registry \<Rightarrow> plugin_registry" where
  "drop_registry_listener l s = s\<lparr>pr_listeners := filter (\<lambda>k. k \<noteq> l) (pr_listeners s)\<rparr>"

definition deactivate :: "string \<Rightarrow> plugin_registry \<Rightarrow> plugin_registry" where
  "deactivate p s =
     (let s1 = (case map_of (installations s) p of
                  None \<Rightarrow> s
                | Some i \<Rightarrow> s\<lparr>aborted := aborted s @ [generation i]\<rparr>)
      in notify (s1\<lparr>installations := filter (\<lambda>e. fst e \<noteq> p) (installations s1),
                    slots := (\<lambda>n. filter (\<lambda>r. reg_plugin r \<noteq> p) (slots s1 n)),
                    hooks := (\<lambda>n. filter (\<lambda>h. hook_plugin h \<noteq> p) (hooks s1 n))\<rparr>))"

definition descriptor :: "string \<Rightarrow> plugin_registry \<Rightarrow> plugin_descriptor option" where
  "descriptor p s = map_option inst_descriptor (map_of (installations s) p)"

definition forPlugin :: "string \<Rightarrow> plugin_registry \<Rightarrow> plugin_error + scoped_api" where
  "forPlugin p s =
     (case map_of (installations s) p of
        None \<Rightarrow> Inl (PluginInactive p)
      | Some i \<Rightarrow> Inr \<lparr>api_plugin = p, api_installation = i\<rparr>)"

definition activate ::
  "plugin_descriptor \<Rightarrow> plugin_registry \<Rightarrow> (plugin_error + scoped_api) \<times> plugin_registry" where
  "activate d s =
     (let s1 = deactivate (plugin_id d) s;
          i = \<lparr>inst_descriptor = d, generation = serial s1\<rparr>;
          s2 = notify (s1\<lparr>installations := installations s1 @ [(plugin_id d, i)], serial := Suc (serial s1)\<rparr>)
      in (forPlugin (plugin_id d) s2, s2))"

section \<open>The scoped API\<close>

definition is_active :: "scoped_api \<Rightarrow> plugin_registry \<Rightarrow> bool" where
  "is_active a s \<longleftrightarrow>
     (case map_of (installations s) (api_plugin a) of
        None \<Rightarrow> False
      | Some i \<Rightarrow> generation i = generation (api_installation a))"

definition registerSlot ::
  "scoped_api \<Rightarrow> string \<Rightarrow> nat \<Rightarrow> string option \<Rightarrow> rat option \<Rightarrow> plugin_registry
   \<Rightarrow> (plugin_error + registration) \<times> plugin_registry" where
  "registerSlot a name component rid rorder s =
     (if \<not> is_active a s then (Inl (PluginReplaced (api_plugin a)), s)
      else if name \<notin> set PLUGIN_SLOTS then (Inl (UnknownSlot name), s)
      else
        (let (rid', s1) = (case rid of
                 Some i \<Rightarrow> (i, s)
               | None \<Rightarrow> (show_nat (Suc (nextId s)), s\<lparr>nextId := Suc (nextId s)\<rparr>))
         in if \<exists>r \<in> set (slots s1 name). reg_plugin r = api_plugin a \<and> reg_id r = rid'
            then (Inl (DuplicateContribution rid'), s1)
            else
              (let r = \<lparr>reg_serial = serial s1, reg_id = rid', reg_plugin = api_plugin a,
                        reg_component = component,
                        reg_order = (case rorder of None \<Rightarrow> 0 | Some q \<Rightarrow> q)\<rparr>
               in (Inr r, notify (s1\<lparr>slots := (slots s1)(name := slots s1 name @ [r]),
                                     serial := Suc (serial s1)\<rparr>)))))"

text \<open>The function \<open>registerSlot\<close> returns: it takes that registration back.\<close>

definition undo_slot :: "string \<Rightarrow> registration \<Rightarrow> plugin_registry \<Rightarrow> plugin_registry" where
  "undo_slot name r s =
     notify (s\<lparr>slots := (slots s)(name := filter (\<lambda>x. reg_serial x \<noteq> reg_serial r) (slots s name))\<rparr>)"

definition unregisterSlot ::
  "scoped_api \<Rightarrow> string \<Rightarrow> nat \<Rightarrow> plugin_registry \<Rightarrow> (plugin_error + unit) \<times> plugin_registry" where
  "unregisterSlot a name component s =
     (if \<not> is_active a s then (Inl (PluginReplaced (api_plugin a)), s)
      else (Inr (), notify (s\<lparr>slots := (slots s)(name :=
              filter (\<lambda>r. reg_plugin r \<noteq> api_plugin a \<or> reg_component r \<noteq> component) (slots s name))\<rparr>)))"

definition registerHook ::
  "scoped_api \<Rightarrow> string \<Rightarrow> nat \<Rightarrow> plugin_registry \<Rightarrow> (plugin_error + plugin_hook) \<times> plugin_registry" where
  "registerHook a name handler s =
     (if \<not> is_active a s then (Inl (PluginReplaced (api_plugin a)), s)
      else
        (let h = \<lparr>hook_serial = serial s, hook_plugin = api_plugin a, hook_handler = handler\<rparr>
         in (Inr h, s\<lparr>hooks := (hooks s)(name := hooks s name @ [h]), serial := Suc (serial s)\<rparr>)))"

definition undo_hook :: "string \<Rightarrow> plugin_hook \<Rightarrow> plugin_registry \<Rightarrow> plugin_registry" where
  "undo_hook name h s =
     s\<lparr>hooks := (hooks s)(name := filter (\<lambda>x. hook_serial x \<noteq> hook_serial h) (hooks s name))\<rparr>"

definition triggerHook ::
  "(nat \<Rightarrow> json list \<Rightarrow> json option) \<Rightarrow> scoped_api \<Rightarrow> string \<Rightarrow> json list \<Rightarrow> plugin_registry
   \<Rightarrow> plugin_error + json list" where
  "triggerHook perform a name args s =
     (if \<not> is_active a s then Inl (PluginReplaced (api_plugin a))
      else Inr (map (\<lambda>h. case perform (hook_handler h) args of Some v \<Rightarrow> v | None \<Rightarrow> JUndef)
                 (filter (\<lambda>h. hook_plugin h = api_plugin a) (hooks s name))))"

text \<open>
  \<open>call\<close>, behind \<open>invoke\<close> and \<open>submitTask\<close>: what happens before the transport is awaited, and when its
  answer arrives in a later state.
\<close>

definition call_start :: "scoped_api \<Rightarrow> string \<Rightarrow> plugin_registry \<Rightarrow> plugin_error + unit" where
  "call_start a task s =
     (if \<not> is_active a s then Inl (PluginReplaced (api_plugin a))
      else
        (case plugin_access (inst_descriptor (api_installation a)) of
           Some acc \<Rightarrow>
             if task \<notin> set (task_types acc) then Inl OutsideScope
             else if \<not> has_transport s then Inl NoTransport else Inr ()
         | None \<Rightarrow> if \<not> has_transport s then Inl NoTransport else Inr ()))"

definition call_finish :: "scoped_api \<Rightarrow> json \<Rightarrow> plugin_registry \<Rightarrow> plugin_error + json" where
  "call_finish a result s =
     (if \<not> is_active a s then Inl (PluginReplaced (api_plugin a)) else Inr result)"

section \<open>Reading contributions\<close>

definition reg_cmp :: "(string \<Rightarrow> string \<Rightarrow> int) \<Rightarrow> registration \<Rightarrow> registration \<Rightarrow> int" where
  "reg_cmp lc = cmp_then (cmp_on reg_order cmp_num) (cmp_then (cmp_on reg_plugin lc) (cmp_on reg_id lc))"

definition getRegistrations ::
  "(string \<Rightarrow> string \<Rightarrow> int) \<Rightarrow> string \<Rightarrow> plugin_registry \<Rightarrow> registration list" where
  "getRegistrations lc name s = sort_cmp (reg_cmp lc) (slots s name)"

text \<open>A value of a component's context: data, or a function.\<close>

datatype context_value = Data json | Callback nat

type_synonym plugin_context = "(string \<times> context_value) list"

text \<open>\<open>Object.entries\<close> of an object or an array.\<close>

definition entries_of :: "json \<Rightarrow> jsobject option" where
  "entries_of v = (case v of
      JObj ob \<Rightarrow> Some ob
    | JArr xs \<Rightarrow> Some (zip (map show_nat [0..<length xs]) xs)
    | _ \<Rightarrow> None)"

definition project_fields :: "plugin_access \<Rightarrow> jsobject \<Rightarrow> jsobject" where
  "project_fields acc members =
     fold (\<lambda>f. oset (fst f) (snd f)) (filter (\<lambda>f. fst f \<in> set (profile_fields acc)) members) []"

definition project_member ::
  "plugin_mode option \<Rightarrow> plugin_access \<Rightarrow> string \<times> context_value \<Rightarrow> plugin_context \<Rightarrow> plugin_context" where
  "project_member m acc e ctx =
     (let key = fst e; projected = (case snd e of Data v \<Rightarrow> entries_of v | Callback _ \<Rightarrow> None) in
      if (key = ''user'' \<or> key = ''item'') \<and> projected \<noteq> None
      then oset key (Data (JObj (project_fields acc (the projected)))) ctx
      else if key = ''formValues'' \<and> propose_profile_changes acc then oset key (snd e) ctx
      else if key = ''setFieldValue'' \<and> propose_profile_changes acc \<and> m = Some DeclarativeMode
      then oset key (snd e) ctx
      else ctx)"

definition contextFor :: "string \<Rightarrow> plugin_context \<Rightarrow> plugin_registry \<Rightarrow> plugin_context" where
  "contextFor p context s =
     (case descriptor p s of
        None \<Rightarrow> []
      | Some d \<Rightarrow>
          (case plugin_access d of
             None \<Rightarrow> context
           | Some acc \<Rightarrow>
               if plugin_mode d = Some NativeMode then context
               else fold (project_member (plugin_mode d) acc) context []))"

text \<open>\<open>current()\<close> of \<open>initPluginHost\<close>: the plugin named on the running script element.\<close>

definition current_api :: "string option \<Rightarrow> plugin_registry \<Rightarrow> plugin_error + scoped_api" where
  "current_api script s =
     (case script of
        None \<Rightarrow> Inl NoCurrentScript
      | Some p \<Rightarrow> if p = [] then Inl NoCurrentScript else forPlugin p s)"

section \<open>Steps\<close>

text \<open>
  What can happen to the registry. The scoped API and the registrations in a step are any values, also
  ones handed out long ago: the guards of the code itself decide.
\<close>

datatype registry_action =
    Activate plugin_descriptor
  | Deactivate string
  | RegisterSlot scoped_api string nat "string option" "rat option"
  | UndoSlot string registration
  | UnregisterSlot scoped_api string nat
  | RegisterHook scoped_api string nat
  | UndoHook string plugin_hook
  | SetTransport
  | Listen nat
  | Unlisten nat

definition registry_step :: "registry_action \<Rightarrow> plugin_registry \<Rightarrow> plugin_registry" where
  "registry_step act s = (case act of
      Activate d \<Rightarrow> snd (activate d s)
    | Deactivate p \<Rightarrow> deactivate p s
    | RegisterSlot a n c i q \<Rightarrow> snd (registerSlot a n c i q s)
    | UndoSlot n r \<Rightarrow> undo_slot n r s
    | UnregisterSlot a n c \<Rightarrow> snd (unregisterSlot a n c s)
    | RegisterHook a n h \<Rightarrow> snd (registerHook a n h s)
    | UndoHook n h \<Rightarrow> undo_hook n h s
    | SetTransport \<Rightarrow> setTransport s
    | Listen l \<Rightarrow> add_registry_listener l s
    | Unlisten l \<Rightarrow> drop_registry_listener l s)"

abbreviation reachable_registry :: "plugin_registry \<Rightarrow> bool" where
  "reachable_registry \<equiv> reachable (\<lambda>s. s = new_registry) (\<lambda>_ _. True) registry_step"

section \<open>Invariant\<close>

definition gens :: "plugin_registry \<Rightarrow> nat list" where
  "gens s = map (generation \<circ> snd) (installations s)"

text \<open>
  Every contribution belongs to an installed plugin and a known slot; within a slot, serials and pairs of
  plugin and id are unique; the generations installed are distinct, older than the next serial and not
  aborted.
\<close>

definition slots_ok :: "(string \<Rightarrow> bool) \<Rightarrow> nat \<Rightarrow> (string \<Rightarrow> registration list) \<Rightarrow> bool" where
  "slots_ok ins k sl \<longleftrightarrow>
     (\<forall>n r. r \<in> set (sl n) \<longrightarrow> ins (reg_plugin r) \<and> n \<in> set PLUGIN_SLOTS \<and> reg_serial r < k)
     \<and> (\<forall>n. distinct (map (\<lambda>r. (reg_plugin r, reg_id r)) (sl n)))
     \<and> (\<forall>n. distinct (map reg_serial (sl n)))"

definition hooks_ok :: "(string \<Rightarrow> bool) \<Rightarrow> nat \<Rightarrow> (string \<Rightarrow> plugin_hook list) \<Rightarrow> bool" where
  "hooks_ok ins k hs \<longleftrightarrow> (\<forall>n h. h \<in> set (hs n) \<longrightarrow> ins (hook_plugin h) \<and> hook_serial h < k)"

definition installs_ok :: "nat \<Rightarrow> nat list \<Rightarrow> (string \<times> installation) list \<Rightarrow> bool" where
  "installs_ok k ab is \<longleftrightarrow>
     distinct (map fst is) \<and> (\<forall>e \<in> set is. generation (snd e) < k \<and> generation (snd e) \<notin> set ab)
     \<and> distinct (map (generation \<circ> snd) is) \<and> (\<forall>g \<in> set ab. g < k)"

definition installed :: "plugin_registry \<Rightarrow> string \<Rightarrow> bool" where
  "installed s p \<longleftrightarrow> p \<in> fst ` set (installations s)"

definition registry_inv :: "plugin_registry \<Rightarrow> bool" where
  "registry_inv s \<longleftrightarrow>
     slots_ok (installed s) (serial s) (slots s) \<and> hooks_ok (installed s) (serial s) (hooks s)
     \<and> installs_ok (serial s) (aborted s) (installations s)"

lemma slots_ok_filter: "slots_ok ins k sl \<Longrightarrow> slots_ok ins k (sl(n := filter P (sl n)))"
  by (auto simp: slots_ok_def distinct_map_filter)

lemma registry_inv_cong:
  "installations s = installations t \<Longrightarrow> slots s = slots t \<Longrightarrow> hooks s = hooks t \<Longrightarrow> serial s = serial t \<Longrightarrow>
   aborted s = aborted t \<Longrightarrow> registry_inv s = registry_inv t"
  by (simp add: registry_inv_def installed_def [abs_def])

lemma inv_notify [simp]: "registry_inv (notify s) = registry_inv s"
  by (rule registry_inv_cong) (simp_all add: notify_def)

lemma installed_update: "installed (s\<lparr>slots := x\<rparr>) = installed s" "installed (s\<lparr>hooks := y\<rparr>) = installed s"
  by (simp_all add: installed_def fun_eq_iff)

lemma inv_slots_filter: "registry_inv s \<Longrightarrow> registry_inv (s\<lparr>slots := (slots s)(n := filter P (slots s n))\<rparr>)"
  by (simp add: registry_inv_def slots_ok_filter installed_update)

lemma inv_undo_slot: "registry_inv s \<Longrightarrow> registry_inv (undo_slot n r s)"
  by (simp add: undo_slot_def inv_slots_filter)

lemma inv_unregisterSlot: "registry_inv s \<Longrightarrow> registry_inv (snd (unregisterSlot a n c s))"
  by (simp add: unregisterSlot_def inv_slots_filter)

lemma inv_undo_hook: "registry_inv s \<Longrightarrow> registry_inv (undo_hook n h s)"
  by (auto simp: undo_hook_def registry_inv_def hooks_ok_def installed_update)

lemma active_installed: "is_active a s \<Longrightarrow> installed s (api_plugin a)"
  by (force simp: is_active_def installed_def dest: map_of_SomeD split: option.splits)

lemma slots_ok_Suc: "slots_ok ins k sl \<Longrightarrow> slots_ok ins (Suc k) sl"
  by (auto simp: slots_ok_def less_SucI)

lemma hooks_ok_Suc: "hooks_ok ins k sl \<Longrightarrow> hooks_ok ins (Suc k) sl"
  by (auto simp: hooks_ok_def less_SucI)

lemma installs_ok_Suc: "installs_ok k ab is \<Longrightarrow> installs_ok (Suc k) ab is"
  by (auto simp: installs_ok_def less_SucI)

lemma slots_ok_add:
  assumes "slots_ok ins k sl" "ins (reg_plugin r)" "n \<in> set PLUGIN_SLOTS" "reg_serial r = k"
    "\<not> (\<exists>x \<in> set (sl n). reg_plugin x = reg_plugin r \<and> reg_id x = reg_id r)"
  shows "slots_ok ins (Suc k) (sl(n := sl n @ [r]))"
proof -
  have "\<forall>m x. x \<in> set ((sl(n := sl n @ [r])) m) \<longrightarrow>
      ins (reg_plugin x) \<and> m \<in> set PLUGIN_SLOTS \<and> reg_serial x < Suc k"
    using assms by (auto simp: slots_ok_def less_Suc_eq)
  moreover have "distinct (map (\<lambda>r. (reg_plugin r, reg_id r)) (sl n @ [r]))"
    using assms by (auto simp: slots_ok_def)
  moreover have "distinct (map reg_serial (sl n @ [r]))"
    using assms by (force simp: slots_ok_def)
  ultimately show ?thesis
    using assms(1) by (simp add: slots_ok_def)
qed

lemma inv_nextId [simp]: "registry_inv (s\<lparr>nextId := k\<rparr>) = registry_inv s"
  by (rule registry_inv_cong) simp_all

lemma inv_add_slot:
  assumes "registry_inv s" "installed s (reg_plugin r)" "n \<in> set PLUGIN_SLOTS" "reg_serial r = serial s"
    "\<not> (\<exists>x \<in> set (slots s n). reg_plugin x = reg_plugin r \<and> reg_id x = reg_id r)"
  shows "registry_inv (s\<lparr>slots := (slots s)(n := slots s n @ [r]), serial := Suc (serial s)\<rparr>)"
  using assms
  by (simp add: registry_inv_def slots_ok_add hooks_ok_Suc installs_ok_Suc installed_def [abs_def])

lemma inv_registerSlot:
  assumes "registry_inv s"
  shows "registry_inv (snd (registerSlot a n c i q s))"
proof -
  have "installed (s\<lparr>nextId := k\<rparr>) = installed s" for k by (simp add: installed_def fun_eq_iff)
  then show ?thesis
    using assms active_installed [of a s]
      inv_add_slot [of "s\<lparr>nextId := Suc (nextId s)\<rparr>"] inv_add_slot [of s]
    by (cases i) (simp_all add: registerSlot_def Let_def)
qed

lemma inv_registerHook: "registry_inv s \<Longrightarrow> registry_inv (snd (registerHook a n h s))"
  using active_installed [of a s]
  by (auto simp: registerHook_def registry_inv_def Let_def slots_ok_Suc installs_ok_Suc installed_def [abs_def]
      hooks_ok_def less_SucI)

lemma deactivate_fields:
  "installations (deactivate p s) = filter (\<lambda>e. fst e \<noteq> p) (installations s)"
  "slots (deactivate p s) = (\<lambda>n. filter (\<lambda>r. reg_plugin r \<noteq> p) (slots s n))"
  "hooks (deactivate p s) = (\<lambda>n. filter (\<lambda>h. hook_plugin h \<noteq> p) (hooks s n))"
  "serial (deactivate p s) = serial s"
  "aborted (deactivate p s) = aborted s @ (case map_of (installations s) p of None \<Rightarrow> [] | Some i \<Rightarrow> [generation i])"
  by (simp_all add: deactivate_def notify_def Let_def split: option.split)

lemma installs_ok_remove:
  assumes "installs_ok k ab is"
  shows "installs_ok k (ab @ (case map_of is p of None \<Rightarrow> [] | Some i \<Rightarrow> [generation i]))
    (filter (\<lambda>e. fst e \<noteq> p) is)"
proof (cases "map_of is p")
  case (Some i)
  then have i: "(p, i) \<in> set is" by (rule map_of_SomeD)
  have "generation (snd e) \<noteq> generation i" if "e \<in> set is" "fst e \<noteq> p" for e
    using that i assms inj_onD [of "generation \<circ> snd" "set is" e "(p, i)"]
    by (auto simp: installs_ok_def distinct_map)
  with assms i Some show ?thesis
    by (auto simp: installs_ok_def distinct_map_filter comp_def)
next
  case None
  with assms show ?thesis by (auto simp: installs_ok_def distinct_map_filter comp_def)
qed

lemma inv_deactivate:
  assumes "registry_inv s"
  shows "registry_inv (deactivate p s)"
proof -
  have "installed (deactivate p s) q \<longleftrightarrow> q \<noteq> p \<and> installed s q" for q
    by (auto simp: installed_def deactivate_fields)
  then show ?thesis
    using assms installs_ok_remove [of "serial s" "aborted s" "installations s" p]
    by (auto simp: registry_inv_def deactivate_fields slots_ok_def hooks_ok_def distinct_map_filter)
qed

lemma activate_state:
  "snd (activate d s) = notify ((deactivate (plugin_id d) s)
     \<lparr>installations := installations (deactivate (plugin_id d) s) @
        [(plugin_id d, \<lparr>inst_descriptor = d, generation = serial s\<rparr>)], serial := Suc (serial s)\<rparr>)"
  by (simp add: activate_def Let_def deactivate_fields)

lemma inv_activate:
  assumes "registry_inv s"
  shows "registry_inv (snd (activate d s))"
proof -
  let ?t = "deactivate (plugin_id d) s" and ?e = "(plugin_id d, \<lparr>inst_descriptor = d, generation = serial s\<rparr>)"
  let ?u = "?t\<lparr>installations := installations ?t @ [?e], serial := Suc (serial s)\<rparr>"
  have t: "registry_inv ?t" using assms by (rule inv_deactivate)
  have ins: "installed ?u q \<longleftrightarrow> q = plugin_id d \<or> installed ?t q" for q
    by (auto simp: installed_def)
  have "plugin_id d \<notin> fst ` set (installations ?t)" by (auto simp: deactivate_fields)
  then have "installs_ok (Suc (serial s)) (aborted ?t) (installations ?t @ [?e])"
    using t by (fastforce simp: registry_inv_def installs_ok_def deactivate_fields(4))
  moreover have "slots_ok (installed ?u) (Suc (serial s)) (slots ?t)"
    using t ins by (auto simp: registry_inv_def slots_ok_def deactivate_fields(4) less_SucI)
  moreover have "hooks_ok (installed ?u) (Suc (serial s)) (hooks ?t)"
    using t ins by (auto simp: registry_inv_def hooks_ok_def deactivate_fields(4) less_SucI)
  ultimately have "registry_inv ?u" by (simp add: registry_inv_def)
  then show ?thesis by (simp add: activate_state)
qed

interpretation reg: invariant_machine "\<lambda>s. s = new_registry" "\<lambda>_ _. True" registry_step registry_inv
proof
  fix s assume "s = new_registry"
  then show "registry_inv s"
    by (simp add: registry_inv_def new_registry_def slots_ok_def hooks_ok_def installs_ok_def)
next
  fix s a assume "registry_inv s"
  then show "registry_inv (registry_step a s)"
    by (cases a) (auto simp: registry_step_def inv_activate inv_deactivate inv_registerSlot inv_undo_slot inv_unregisterSlot
       inv_registerHook inv_undo_hook setTransport_def add_registry_listener_def drop_registry_listener_def
       intro: registry_inv_cong [THEN iffD1, rotated 5])
qed


section \<open>Properties\<close>

text \<open>
  C10. Contributions belong to active plugins. In every reachable state each slot contribution and each hook
  belongs to an installed plugin, contributions sit in known slots only, and no plugin has two
  contributions with the same id in one slot.
\<close>

theorem contributions_of_active_plugins:
  assumes "reachable_registry s"
  shows "(\<forall>n r. r \<in> set (slots s n) \<longrightarrow> installed s (reg_plugin r) \<and> n \<in> set PLUGIN_SLOTS)
    \<and> (\<forall>n h. h \<in> set (hooks s n) \<longrightarrow> installed s (hook_plugin h))
    \<and> (\<forall>n. distinct (map (\<lambda>r. (reg_plugin r, reg_id r)) (slots s n)))"
  using reg.inv_reachable [OF assms] by (auto simp: registry_inv_def slots_ok_def hooks_ok_def)

definition demo_descriptor :: plugin_descriptor where
  "demo_descriptor = \<lparr>plugin_id = ''demo'', plugin_mode = Some SandboxMode,
     plugin_access = Some \<lparr>profile_fields = [''username''], task_types = [''sync''],
       propose_profile_changes = False\<rparr>\<rparr>"

definition demo_installed :: plugin_registry where
  "demo_installed = registry_step (Activate demo_descriptor) new_registry"

definition demo_api :: scoped_api where
  "demo_api = \<lparr>api_plugin = ''demo'', api_installation = \<lparr>inst_descriptor = demo_descriptor, generation = 0\<rparr>\<rparr>"

definition demo_registry :: plugin_registry where
  "demo_registry = fold registry_step
     [RegisterSlot demo_api ''navigation.pages'' 7 (Some ''b'') None,
      RegisterSlot demo_api ''navigation.pages'' 8 (Some ''a'') None] demo_installed"

definition demo_registry' :: plugin_registry where
  "demo_registry' = fold registry_step
     [RegisterSlot demo_api ''navigation.pages'' 7 (Some ''b'') None,
      RegisterSlot demo_api ''navigation.pages'' 8 (Some ''a'') None, SetTransport,
      RegisterHook demo_api ''save'' 3] demo_installed"

lemma registry_demo_reachable:
  "reachable_registry demo_installed" "reachable_registry demo_registry" "reachable_registry demo_registry'"
proof -
  show i: "reachable_registry demo_installed"
    unfolding demo_installed_def by (intro reachable.next_step reachable.start refl TrueI)
  show "reachable_registry demo_registry" "reachable_registry demo_registry'"
    unfolding demo_registry_def demo_registry'_def by (rule run_reachable [OF i run_always])+
qed

theorem contributions_of_active_plugins_witness:
  "length (slots demo_registry ''navigation.pages'') = 2
   \<and> list_all (\<lambda>r. installed demo_registry (reg_plugin r)) (slots demo_registry ''navigation.pages'')"
proof -
  have "length (slots demo_registry ''navigation.pages'') = 2" by code_simp
  then show ?thesis
    using contributions_of_active_plugins [OF registry_demo_reachable(2)] by (simp add: list_all_iff)
qed

subsection \<open>An API that was replaced stays dead\<close>

definition gone :: "nat \<Rightarrow> plugin_registry \<Rightarrow> bool" where
  "gone g s \<longleftrightarrow> g < serial s \<and> (\<forall>e \<in> set (installations s). generation (snd e) \<noteq> g)"

lemma serial_step: "serial s \<le> serial (registry_step act s)"
  by (auto simp: registry_step_def activate_state deactivate_fields notify_def registerSlot_def undo_slot_def
      unregisterSlot_def registerHook_def undo_hook_def setTransport_def add_registry_listener_def
      drop_registry_listener_def Let_def split: registry_action.split option.split)

lemma installations_step:
  "e \<in> set (installations (registry_step act s)) \<Longrightarrow> e \<in> set (installations s) \<or> generation (snd e) = serial s"
  by (auto simp: registry_step_def activate_state deactivate_fields notify_def registerSlot_def undo_slot_def
      unregisterSlot_def registerHook_def undo_hook_def setTransport_def add_registry_listener_def
      drop_registry_listener_def Let_def split: registry_action.splits option.splits if_splits)

lemma gone_step: "gone g s \<Longrightarrow> gone g (registry_step act s)"
  using serial_step [of s act] installations_step [of _ act s] by (fastforce simp: gone_def)

lemma gone_run: "gone g s \<Longrightarrow> run (\<lambda>_ _. True) registry_step acts s = Some t \<Longrightarrow> gone g t"
  by (induction acts arbitrary: s) (auto intro: gone_step)

lemma gone_inactive:
  assumes "gone (generation (api_installation a)) s"
  shows "\<not> is_active a s"
proof
  assume "is_active a s"
  then obtain i where "map_of (installations s) (api_plugin a) = Some i"
    "generation i = generation (api_installation a)"
    by (auto simp: is_active_def split: option.splits)
  then show False using assms by (auto simp: gone_def dest!: map_of_SomeD)
qed

lemma aborted_step: "set (aborted s) \<subseteq> set (aborted (registry_step act s))"
  by (auto simp: registry_step_def activate_state deactivate_fields notify_def registerSlot_def undo_slot_def
      unregisterSlot_def registerHook_def undo_hook_def setTransport_def add_registry_listener_def
      drop_registry_listener_def Let_def split: registry_action.split option.split)

lemma aborted_run:
  "run (\<lambda>_ _. True) registry_step acts s = Some t \<Longrightarrow> set (aborted s) \<subseteq> set (aborted t)"
  by (induction acts arbitrary: s) (auto dest: subsetD [OF aborted_step])

lemma replaced_gone:
  assumes "registry_inv s" "forPlugin p s = Inr a" "act = Deactivate p \<or> act = Activate d \<and> plugin_id d = p"
  shows "gone (generation (api_installation a)) (registry_step act s)
    \<and> generation (api_installation a) \<in> set (aborted (registry_step act s)) \<and> api_plugin a = p"
proof -
  have i: "map_of (installations s) p = Some (api_installation a)" "api_plugin a = p"
    using assms(2) by (auto simp: forPlugin_def split: option.splits)
  then have "(p, api_installation a) \<in> set (installations s)" by (blast dest: map_of_SomeD)
  moreover have ok: "installs_ok (serial s) (aborted s) (installations s)"
    using assms(1) by (simp add: registry_inv_def)
  ultimately have old: "generation (api_installation a) < serial s"
    by (auto simp: installs_ok_def)
  have "\<forall>q i. (q, i) \<in> set (installations s) \<longrightarrow> q \<noteq> p \<longrightarrow> generation i \<noteq> generation (api_installation a)"
    using installs_ok_remove [OF ok, of p] i unfolding installs_ok_def by fastforce
  then show ?thesis
    using assms(3) i old
    by (auto simp: registry_step_def gone_def activate_state deactivate_fields notify_def)
qed

text \<open>
  C9. A replaced plugin is locked out for good. Once a plugin is disabled or activated anew, the API handed
  out before fails on every call, now and after any further steps, changes nothing, and its abort
  signal stays raised; an answer of the transport that arrives late is not delivered.
\<close>

theorem replaced_api_is_dead:
  assumes "reachable_registry s" "forPlugin p s = Inr a"
    "act = Deactivate p \<or> act = Activate d \<and> plugin_id d = p"
    "run (\<lambda>_ _. True) registry_step acts (registry_step act s) = Some t"
  shows "registerSlot a n c i q t = (Inl (PluginReplaced p), t)
    \<and> unregisterSlot a n c t = (Inl (PluginReplaced p), t)
    \<and> registerHook a n h t = (Inl (PluginReplaced p), t)
    \<and> triggerHook perform a n args t = Inl (PluginReplaced p)
    \<and> call_start a task t = Inl (PluginReplaced p)
    \<and> call_finish a result t = Inl (PluginReplaced p)
    \<and> generation (api_installation a) \<in> set (aborted t)"
proof -
  have "gone (generation (api_installation a)) (registry_step act s)" and ab:
    "generation (api_installation a) \<in> set (aborted (registry_step act s))" and p: "api_plugin a = p"
    using replaced_gone [OF reg.inv_reachable [OF assms(1)] assms(2,3)] by auto
  then have "\<not> is_active a t"
    using gone_run [OF _ assms(4)] gone_inactive by blast
  with ab p aborted_run [OF assms(4)] show ?thesis
    by (auto simp: registerSlot_def unregisterSlot_def registerHook_def triggerHook_def call_start_def
        call_finish_def)
qed

theorem replaced_api_is_dead_witness:
  "call_start demo_api ''sync'' (setTransport demo_installed) = Inr ()
   \<and> call_start demo_api ''sync'' (registry_step SetTransport (registry_step (Activate demo_descriptor) demo_installed))
       = Inl (PluginReplaced ''demo'')"
proof -
  have "forPlugin ''demo'' demo_installed = Inr demo_api" "plugin_id demo_descriptor = ''demo''"
    "call_start demo_api ''sync'' (setTransport demo_installed) = Inr ()"
    by code_simp+
  then show ?thesis
    using replaced_api_is_dead [OF registry_demo_reachable(1), of "''demo''" demo_api "Activate demo_descriptor" demo_descriptor
        "[SetTransport]" "registry_step SetTransport (registry_step (Activate demo_descriptor) demo_installed)"]
    by simp
qed

subsection \<open>What a sandboxed plugin sees\<close>

lemma set_oset: "set (oset k v ob) \<subseteq> insert (k, v) (set ob)"
proof -
  have "set (replace_key k v ob) \<subseteq> insert (k, v) (set ob)"
    by (induction k v ob rule: replace_key.induct) auto
  then show ?thesis by (auto simp: oset_def set_insert_key)
qed

lemma set_fold_oset_subset: "set (fold (\<lambda>f. oset (fst f) (snd f)) xs acc) \<subseteq> set acc \<union> set xs"
proof (induction xs arbitrary: acc)
  case (Cons x xs)
  show ?case using Cons [of "oset (fst x) (snd x) acc"] set_oset [of "fst x" "snd x" acc] by auto
qed simp

definition may_see :: "plugin_mode option \<Rightarrow> plugin_access \<Rightarrow> plugin_context \<Rightarrow> string \<times> context_value \<Rightarrow> bool" where
  "may_see m acc ctx e \<longleftrightarrow>
     (fst e \<in> {''user'', ''item''} \<and> (\<exists>ob src. snd e = Data (JObj ob) \<and> (fst e, Data src) \<in> set ctx
        \<and> (\<forall>f \<in> set ob. fst f \<in> set (profile_fields acc) \<and> f \<in> set (the (entries_of src)))))
     \<or> (e \<in> set ctx \<and> propose_profile_changes acc
        \<and> (fst e = ''formValues'' \<or> fst e = ''setFieldValue'' \<and> m = Some DeclarativeMode))"

lemma project_fields_sees:
  "f \<in> set (project_fields acc members) \<Longrightarrow> fst f \<in> set (profile_fields acc) \<and> f \<in> set members"
  using set_fold_oset_subset [of "filter (\<lambda>f. fst f \<in> set (profile_fields acc)) members" "[]"]
  by (auto simp: project_fields_def)

lemma project_member_shape:
  assumes "x \<in> set ctx"
  obtains "project_member m acc x out = out"
  | w where "project_member m acc x out = oset (fst x) w out" "may_see m acc ctx (fst x, w)"
proof (cases "(fst x = ''user'' \<or> fst x = ''item'') \<and> (\<exists>src. snd x = Data src \<and> entries_of src \<noteq> None)")
  case True
  then obtain src where src: "x = (fst x, Data src)" "entries_of src \<noteq> None" by (metis prod.collapse)
  let ?w = "Data (JObj (project_fields acc (the (entries_of src))))"
  have "project_member m acc x out = oset (fst x) ?w out"
    using True src by (cases x) (auto simp: project_member_def)
  moreover have "may_see m acc ctx (fst x, ?w)"
    using True src assms project_fields_sees unfolding may_see_def by force
  ultimately show ?thesis by (rule that(2))
next
  case False
  then have "project_member m acc x out =
     (if propose_profile_changes acc \<and> (fst x = ''formValues'' \<or> fst x = ''setFieldValue'' \<and> m = Some DeclarativeMode)
      then oset (fst x) (snd x) out else out)"
    by (cases "snd x") (auto simp: project_member_def)
  then show ?thesis
    using that assms by (cases x) (auto simp: may_see_def split: if_splits)
qed

lemma fold_project_sees:
  "set xs \<subseteq> set ctx \<Longrightarrow> \<forall>e \<in> set out. may_see m acc ctx e \<Longrightarrow>
   \<forall>e \<in> set (fold (project_member m acc) xs out). may_see m acc ctx e"
proof (induction xs arbitrary: out)
  case (Cons x xs)
  then have "x \<in> set ctx" by simp
  then have "\<forall>e \<in> set (project_member m acc x out). may_see m acc ctx e"
    by (rule project_member_shape [of x ctx m acc out])
       (use Cons.prems(2) set_oset in \<open>simp, metis insertE subsetD\<close>)
  with Cons show ?case by simp
qed simp

text \<open>
  C11. A sandboxed plugin sees only what it declared. The context given to a plugin with access scopes that
  is not native has, of the user and item, only fields it declared, with their values; the form values
  only if it may propose changes; the setter only if it is declarative as well; and nothing else. A
  plugin that is not installed sees nothing.
\<close>

theorem contextFor_projects:
  assumes "descriptor p s = Some d" "plugin_access d = Some acc" "plugin_mode d \<noteq> Some NativeMode"
    "e \<in> set (contextFor p ctx s)"
  shows "(fst e \<in> {''user'', ''item''} \<and> (\<exists>ob src. snd e = Data (JObj ob) \<and> (fst e, Data src) \<in> set ctx
        \<and> (\<forall>f \<in> set ob. fst f \<in> set (profile_fields acc) \<and> f \<in> set (the (entries_of src)))))
     \<or> (e \<in> set ctx \<and> propose_profile_changes acc
        \<and> (fst e = ''formValues'' \<or> fst e = ''setFieldValue'' \<and> plugin_mode d = Some DeclarativeMode))"
proof -
  have "e \<in> set (fold (project_member (plugin_mode d) acc) ctx [])"
    using assms by (simp add: contextFor_def)
  then have "may_see (plugin_mode d) acc ctx e"
    using fold_project_sees [of ctx ctx "[]"] by auto
  then show ?thesis by (simp add: may_see_def)
qed


definition demo_context :: plugin_context where
  "demo_context = [(''user'', Data (JObj [(''username'', JStr ''ann''), (''email'', JStr ''a@b'')])),
     (''formValues'', Data (JObj [])), (''setFieldValue'', Callback 1)]"

theorem contextFor_projects_witness:
  "contextFor ''demo'' demo_context demo_installed = [(''user'', Data (JObj [(''username'', JStr ''ann'')]))]
   \<and> (\<exists>src. (''user'', Data src) \<in> set demo_context)"
proof -
  have c: "contextFor ''demo'' demo_context demo_installed = [(''user'', Data (JObj [(''username'', JStr ''ann'')]))]"
    "descriptor ''demo'' demo_installed = Some demo_descriptor" "plugin_mode demo_descriptor \<noteq> Some NativeMode"
    "plugin_access demo_descriptor = Some \<lparr>profile_fields = [''username''], task_types = [''sync''],
       propose_profile_changes = False\<rparr>"
    by code_simp+
  then show ?thesis
    using contextFor_projects [OF c(2,4,3), of "(''user'', Data (JObj [(''username'', JStr ''ann'')]))" demo_context]
    by auto
qed

subsection \<open>The order of contributions\<close>

lemma comparator_reg_cmp: "comparator lc \<Longrightarrow> comparator (reg_cmp lc)"
  unfolding reg_cmp_def by (intro comparator_intros)

text \<open>
  The order of contributions does not depend on when they were registered. \<open>getRegistrations\<close> lists
  exactly the contributions of the slot, sorted by order, then plugin, then id; two reachable states
  holding the same contributions list them alike, provided the collation tells their plugins and ids
  apart.
\<close>

lemma getRegistrations_deterministic:
  assumes "comparator lc" "reachable_registry s" "reachable_registry t" "set (slots s n) = set (slots t n)"
    "\<And>x y. lc x y = 0 \<Longrightarrow> x = y"
  shows "getRegistrations lc n s = getRegistrations lc n t
    \<and> set (getRegistrations lc n s) = set (slots s n)
    \<and> sorted_wrt (\<lambda>a b. reg_cmp lc a b \<le> 0) (getRegistrations lc n s)"
proof -
  have "slots_ok (installed s) (serial s) (slots s)" "slots_ok (installed t) (serial t) (slots t)"
    using reg.inv_reachable [OF assms(2)] reg.inv_reachable [OF assms(3)] by (auto simp: registry_inv_def)
  then have d: "distinct (slots s n)" "distinct (slots t n)"
    and u: "inj_on (\<lambda>r. (reg_plugin r, reg_id r)) (set (slots s n))"
    by (auto simp: slots_ok_def distinct_map)
  have "a = b" if "a \<in> set (slots s n)" "b \<in> set (slots s n)" "reg_cmp lc a b = 0" for a b
    using that assms(5) inj_onD [OF u _ that(1,2)]
    by (auto simp: reg_cmp_def cmp_then_def cmp_on_def split: if_splits)
  then have "sort_cmp (reg_cmp lc) (slots s n) = sort_cmp (reg_cmp lc) (slots t n)"
    by (intro comparator.sort_cmp_unique [OF comparator_reg_cmp [OF assms(1)]]) (use d assms(4) in auto)
  moreover have "sorted_wrt (\<lambda>a b. reg_cmp lc a b \<le> 0) (sort_cmp (reg_cmp lc) (slots s n))"
    by (rule comparator.sorted_sort_cmp) (rule comparator_reg_cmp [OF assms(1)])
  ultimately show ?thesis
    by (simp add: getRegistrations_def assms(4))
qed

lemma getRegistrations_deterministic_witness:
  "getRegistrations cmp_units ''navigation.pages'' demo_registry
     = getRegistrations cmp_units ''navigation.pages'' demo_registry'
   \<and> map reg_id (getRegistrations cmp_units ''navigation.pages'' demo_registry) = [''a'', ''b'']"
proof -
  have "set (slots demo_registry ''navigation.pages'') = set (slots demo_registry' ''navigation.pages'')"
    "map reg_id (getRegistrations cmp_units ''navigation.pages'' demo_registry) = [''a'', ''b'']"
    by code_simp+
  then show ?thesis
    using getRegistrations_deterministic [OF comparator_cmp_units registry_demo_reachable(2,3) _ cmp_units_eq] by blast
qed

end
