(* ===== verification/SettingsMerge.thy ===== *)
theory SettingsMerge
  imports JsJson
begin

text \<open>
  Saving settings and merging after a conflict: \<open>features/settings/lib/settingsUtils.ts\<close> and the two
  handlers of \<open>useSettingsPageController.ts\<close> that build what is sent, \<open>handleSave\<close> and
  \<open>handleMergeConflict\<close>. The values are what the API returns and the form holds: parsed JSON, with
  \<open>undefined\<close> where a member is missing. The requests themselves are not modelled.
\<close>

section \<open>Copying and comparing\<close>

definition isPlainObject :: "json \<Rightarrow> bool" where
  "isPlainObject v \<longleftrightarrow> (case v of JObj _ \<Rightarrow> True | _ \<Rightarrow> False)"

definition deepClone :: "json \<Rightarrow> json" where
  "deepClone v = (if v = JUndef \<or> v = JNull then v else json_copy v)"

text \<open>\<open>JSON.stringify(undefined)\<close> is \<open>undefined\<close> itself, so it equals only itself.\<close>

definition valuesEqual :: "json \<Rightarrow> json \<Rightarrow> bool" where
  "valuesEqual l r \<longleftrightarrow> l = r \<or> (l \<noteq> JUndef \<and> r \<noteq> JUndef \<and> json_copy l = json_copy r)"

definition formatJson :: "(rat \<Rightarrow> string) \<Rightarrow> json \<Rightarrow> string" where
  "formatJson fs v = (case v of JStr s \<Rightarrow> s | _ \<Rightarrow> if nullish v then ''null'' else stringify fs 0 v)"

section \<open>Nested objects\<close>

definition obj_of :: "json \<Rightarrow> jsobject" where
  "obj_of v = (case v of JObj ob \<Rightarrow> ob | _ \<Rightarrow> [])"

text \<open>\<open>mergePlainObjects\<close>, and its loop over the members of the patch.\<close>

function mergePlainObjects :: "jsobject \<Rightarrow> jsobject \<Rightarrow> jsobject"
  and merge_members :: "jsobject \<Rightarrow> jsobject \<Rightarrow> jsobject" where
  "mergePlainObjects base patch = merge_members (obj_of (deepClone (JObj base))) patch"
| "merge_members acc [] = acc"
| "merge_members acc ((key, value) # patch) =
     (let merged = (case (value, oget acc key) of
                      (JObj pv, JObj cv) \<Rightarrow> JObj (mergePlainObjects cv pv)
                    | _ \<Rightarrow> deepClone value)
      in merge_members (oset key merged acc) patch)"
  by pat_completeness auto
termination
  by (relation "measure (\<lambda>x. case x of Inl (b, p) \<Rightarrow> 2 * size (JObj p) + 1 | Inr (a, p) \<Rightarrow> 2 * size (JObj p))") auto

fun setNestedObjectValue :: "jsobject \<Rightarrow> string list \<Rightarrow> json \<Rightarrow> jsobject" where
  "setNestedObjectValue target [] value = target"
| "setNestedObjectValue target [k] value = oset k value target"
| "setNestedObjectValue target (k # k' # path) value =
     oset k (JObj (setNestedObjectValue (obj_of (oget target k)) (k' # path) value)) target"

section \<open>The leaves of a conflict\<close>

definition RESERVED_CONFLICT_FIELDS :: "string list" where
  "RESERVED_CONFLICT_FIELDS = [''expected_version'', ''actor_backend_id'', ''request_id'']"

record conflict_leaf =
  leaf_path :: string
  pathParts :: "string list"
  topField :: string
  localValue :: json
  remoteValue :: json
  isConflict :: bool

definition conflict_entry :: "string list \<Rightarrow> json \<Rightarrow> json \<Rightarrow> string list \<Rightarrow> string \<Rightarrow> conflict_leaf" where
  "conflict_entry conflictTop l r path tf =
     \<lparr>leaf_path = join ''.'' path, pathParts = path, topField = tf, localValue = l, remoteValue = r,
      isConflict = (tf \<in> set conflictTop \<and> \<not> valuesEqual l r)\<rparr>"

fun conflict_walk :: "string list \<Rightarrow> json \<Rightarrow> json \<Rightarrow> string list \<Rightarrow> string \<Rightarrow> conflict_leaf list" where
  "conflict_walk ct (JObj ms) r path tf =
     (if ms = [] then [conflict_entry ct (JObj ms) r path tf]
      else concat (map (\<lambda>m. conflict_walk ct (snd m) (oget (obj_of r) (fst m)) (path @ [fst m]) tf) ms))"
| "conflict_walk ct l r path tf = [conflict_entry ct l r path tf]"

definition buildConflictLeafEntries :: "jsobject \<Rightarrow> jsobject \<Rightarrow> string list \<Rightarrow> conflict_leaf list" where
  "buildConflictLeafEntries attemptedPatch currentState conflictingFields =
     concat (map (\<lambda>m. if fst m \<in> set RESERVED_CONFLICT_FIELDS then []
                      else conflict_walk conflictingFields (snd m) (oget currentState (fst m)) [fst m] (fst m))
        attemptedPatch)"

section \<open>What is sent\<close>

text \<open>The payload of \<open>handleSave\<close>: edited sections are merged into the current ones.\<close>

definition saved_timeout :: "(rat \<Rightarrow> string) \<Rightarrow> json \<Rightarrow> json \<Rightarrow> json" where
  "saved_timeout fs raw stored =
     (if \<not> nullish raw
      then (let parsed = (case raw of JNum n \<Rightarrow> n | _ \<Rightarrow> parse_float (js_String fs raw)) in
            case parsed of
              Fin q \<Rightarrow> if q < 1 / 2 then JNum (Fin (7 / 2)) else JNum parsed
            | PosInf \<Rightarrow> JNum parsed
            | _ \<Rightarrow> JNum (Fin (7 / 2)))
      else if stored \<noteq> JUndef then stored
      else JNum (Fin (7 / 2)))"

definition save_payload :: "(rat \<Rightarrow> string) \<Rightarrow> jsobject \<Rightarrow> jsobject \<Rightarrow> jsobject" where
  "save_payload fs current edited =
     (let p1 = fold (\<lambda>m acc.
                 case (snd m, oget current (fst m)) of
                   (JObj v, JObj c) \<Rightarrow> oset (fst m) (JObj (mergePlainObjects c v)) acc
                 | _ \<Rightarrow> acc) edited edited;
          p2 = (case oget p1 ''network'' of
                  JObj net \<Rightarrow> oset ''network'' (JObj (oset ''guest_lookup_timeout''
                     (saved_timeout fs (oget net ''guest_lookup_timeout'')
                        (case oget current ''network'' of
                           JObj cn \<Rightarrow> oget cn ''guest_lookup_timeout'' | _ \<Rightarrow> JUndef)) net)) p1
                | _ \<Rightarrow> p1);
          version = oget current ''config_version''
      in if nullish version then p2 else oset ''expected_version'' version p2)"

datatype merge_choice = LocalChoice | RemoteChoice

text \<open>
  The patch of \<open>handleMergeConflict\<close>. \<open>choices\<close> is the state the dialog keeps per path; a path without a
  choice counts as local.
\<close>

definition choice_of :: "(string \<times> merge_choice) list \<Rightarrow> string \<Rightarrow> merge_choice" where
  "choice_of choices path = (case map_of choices path of None \<Rightarrow> LocalChoice | Some c \<Rightarrow> c)"

definition take_local :: "(string \<times> merge_choice) list \<Rightarrow> conflict_leaf \<Rightarrow> jsobject \<Rightarrow> jsobject" where
  "take_local choices e target =
     (if choice_of choices (leaf_path e) = LocalChoice
      then setNestedObjectValue target (tl (pathParts e)) (deepClone (localValue e)) else target)"

definition merge_field ::
  "conflict_leaf list \<Rightarrow> (string \<times> merge_choice) list \<Rightarrow> jsobject \<Rightarrow> string \<times> json \<Rightarrow> json" where
  "merge_field leaves choices current m =
     (case snd m of
        JObj _ \<Rightarrow>
          (let remoteTop = obj_of (deepClone (JObj (obj_of (oget current (fst m)))));
               own = filter (\<lambda>e. topField e = fst m) leaves;
               whole = filter (\<lambda>e. tl (pathParts e) = [] \<and> choice_of choices (leaf_path e) = LocalChoice) own
           in if whole \<noteq> [] then deepClone (localValue (last whole))
              else JObj (fold (take_local choices) own remoteTop))
      | v \<Rightarrow> if choice_of choices (fst m) = RemoteChoice then oget current (fst m) else v)"

definition merged_patch ::
  "conflict_leaf list \<Rightarrow> (string \<times> merge_choice) list \<Rightarrow> jsobject \<Rightarrow> jsobject \<Rightarrow> json \<Rightarrow> json \<Rightarrow> jsobject" where
  "merged_patch leaves choices attempted current editedRedis currentVersion =
     (let fields = filter (\<lambda>m. fst m \<notin> set RESERVED_CONFLICT_FIELDS) attempted;
          p1 = fold (\<lambda>m acc. oset (fst m) (merge_field leaves choices current m) acc) fields [];
          p2 = (case editedRedis of
                  JObj er \<Rightarrow> oset ''redis'' (JObj (mergePlainObjects (obj_of (oget current ''redis'')) er)) p1
                | _ \<Rightarrow> p1);
          version = jcoalesce currentVersion (oget current ''config_version'')
      in if nullish version then p2 else oset ''expected_version'' version p2)"

section \<open>Looking up nested values\<close>

fun get_path :: "json \<Rightarrow> string list \<Rightarrow> json" where
  "get_path v [] = v"
| "get_path v (k # path) = (case v of JObj ob \<Rightarrow> get_path (oget ob k) path | _ \<Rightarrow> JUndef)"

text \<open>Objects have distinct keys at every level, as parsed ones do.\<close>

fun wf_json :: "json \<Rightarrow> bool" where
  "wf_json (JArr xs) \<longleftrightarrow> (\<forall>x \<in> set xs. wf_json x)"
| "wf_json (JObj ob) \<longleftrightarrow> distinct (map fst ob) \<and> (\<forall>m \<in> set ob. wf_json (snd m))"
| "wf_json v \<longleftrightarrow> True"

definition apart :: "'k list \<Rightarrow> 'k list \<Rightarrow> bool" where
  "apart p q \<longleftrightarrow> \<not> prefix p q \<and> \<not> prefix q p"

lemma apart_sym: "apart p q \<longleftrightarrow> apart q p"
  by (auto simp: apart_def)

lemma apart_append [simp]: "apart (u @ p) (u @ q) \<longleftrightarrow> apart p q"
  by (simp add: apart_def)

lemma apart_Cons [simp]: "apart (k # p) (l # q) \<longleftrightarrow> k \<noteq> l \<or> apart p q"
  by (auto simp: apart_def)

lemma apart_Nil [simp]: "\<not> apart [] q" "\<not> apart p []"
  by (simp_all add: apart_def)

text \<open>A store addressed by paths: what was put at a path is found there, and paths apart from it are untouched.\<close>

locale path_store =
  fixes put :: "'t \<Rightarrow> 'k list \<Rightarrow> 'v \<Rightarrow> 't"
    and get :: "'t \<Rightarrow> 'k list \<Rightarrow> 'v"
  assumes get_put_same: "p \<noteq> [] \<Longrightarrow> get (put t p v) p = v"
    and get_put_apart: "apart p q \<Longrightarrow> get (put t p v) q = get t q"
begin

definition puts :: "('k list \<times> 'v) list \<Rightarrow> 't \<Rightarrow> 't" where
  "puts ups = fold (\<lambda>u t. put t (fst u) (snd u)) ups"

lemma get_puts_apart: "\<forall>u \<in> set ups. apart (fst u) q \<Longrightarrow> get (puts ups t) q = get t q"
  unfolding puts_def by (induction ups arbitrary: t) (auto simp: get_put_apart)

lemma get_puts_in:
  assumes "sorted_wrt (\<lambda>u w. apart (fst u) (fst w)) ups" "(p, v) \<in> set ups" "p \<noteq> []"
  shows "get (puts ups t) p = v"
proof -
  obtain us ws where ups: "ups = us @ (p, v) # ws" using assms(2) by (meson split_list)
  then have "\<forall>u \<in> set ws. apart (fst u) p"
    using assms(1) apart_sym by (auto simp: sorted_wrt_append)
  then have "get (puts ws (put (puts us t) p v)) p = get (put (puts us t) p v) p"
    by (rule get_puts_apart)
  then show ?thesis using ups assms(3) get_put_same by (simp add: puts_def)
qed

end

lemma get_set_same: "p \<noteq> [] \<Longrightarrow> get_path (JObj (setNestedObjectValue t p v)) p = v"
  by (induction t p v rule: setNestedObjectValue.induct) (auto simp: oget_oset)

lemma get_path_obj_of: "get_path (JObj (obj_of v)) (k # q) = get_path v (k # q)"
  by (cases v) (auto simp: obj_of_def, (cases q; simp)+)

lemma get_path_JUndef [simp]: "get_path JUndef q = JUndef"
  by (cases q) auto

lemma get_set_apart: "apart p q \<Longrightarrow> get_path (JObj (setNestedObjectValue t p v)) q = get_path (JObj t) q"
proof (induction t p v arbitrary: q rule: setNestedObjectValue.induct)
  case (2 t k v)
  then show ?case by (cases q) (auto simp: oget_oset)
next
  case (3 t k k' p v)
  then obtain l q' where q: "q = l # q'" by (cases q) auto
  show ?case
  proof (cases "l = k")
    case True
    then have "apart (k' # p) q'" using 3(2) q by simp
    moreover from this obtain m q'' where "q' = m # q''" by (cases q') auto
    ultimately show ?thesis using 3(1) [of q'] q True get_path_obj_of by (simp add: oget_oset)
  next
    case False
    then show ?thesis using q by (simp add: oget_oset)
  qed
qed simp

interpretation nested: path_store setNestedObjectValue "\<lambda>t. get_path (JObj t)"
  by unfold_locales (auto simp: get_set_same get_set_apart)

section \<open>Copies\<close>

lemma oget_copy:
  "distinct (map fst ob) \<Longrightarrow>
   oget (map (\<lambda>m. (fst m, json_copy (snd m))) (filter (\<lambda>m. snd m \<noteq> JUndef) ob)) k = deepClone (oget ob k)"
proof (induction ob)
  case (Cons m ob)
  have "map_of ob (fst m) = None" using Cons.prems by (simp add: map_of_eq_None_iff)
  with Cons show ?case by (cases m) (auto simp: oget_def deepClone_def split: option.splits)
qed (simp add: deepClone_def)

lemma deepClone_copy: "v \<noteq> JUndef \<Longrightarrow> deepClone v = json_copy v"
  by (simp add: deepClone_def)

lemma deepClone_JUndef [simp]: "deepClone JUndef = JUndef"
  by (simp add: deepClone_def)

lemma oget_wf: "wf_json (JObj ob) \<Longrightarrow> wf_json (oget ob k)"
  by (force simp: oget_def dest: map_of_SomeD split: option.split)

lemma get_path_copy: "wf_json v \<Longrightarrow> v \<noteq> JUndef \<Longrightarrow> get_path (json_copy v) q = deepClone (get_path v q)"
proof (induction q arbitrary: v)
  case Nil
  then show ?case by (simp add: deepClone_def)
next
  case (Cons k q)
  show ?case
  proof (cases v)
    case (JObj ob)
    show ?thesis
    proof (cases "oget ob k = JUndef")
      case True
      with JObj Cons.prems show ?thesis by (simp add: oget_copy deepClone_def)
    next
      case False
      then show ?thesis
        using JObj Cons.IH [of "oget ob k"] Cons.prems oget_wf [of ob k] by (simp add: oget_copy deepClone_copy)
    qed
  qed (use Cons.prems in \<open>auto simp: deepClone_def split: jsnum.split\<close>)
qed


section \<open>Leaves\<close>

lemma oget_member: "distinct (map fst ob) \<Longrightarrow> m \<in> set ob \<Longrightarrow> oget ob (fst m) = snd m"
  by (cases m) (simp add: oget_def)

lemma get_path_tail: "get_path (oget (obj_of r) k) q = get_path r (k # q)"
  by (cases r) (simp_all add: obj_of_def)

lemma conflict_walk_leaf:
  "wf_json l \<Longrightarrow> e \<in> set (conflict_walk ct l r path tf) \<Longrightarrow>
   \<exists>q. e = conflict_entry ct (get_path l q) (get_path r q) (path @ q) tf \<and> (q = [] \<longrightarrow> \<not> isPlainObject l \<or> l = JObj [])"
proof (induction ct l r path tf rule: conflict_walk.induct)
  case (1 ct ms r path tf)
  show ?case
  proof (cases "ms = []")
    case True
    with 1 show ?thesis by (intro exI [of _ "[]"]) simp
  next
    case False
    then obtain m where m: "m \<in> set ms"
      "e \<in> set (conflict_walk ct (snd m) (oget (obj_of r) (fst m)) (path @ [fst m]) tf)"
      using 1(3) by auto
    then obtain q where "e = conflict_entry ct (get_path (snd m) q) (get_path (oget (obj_of r) (fst m)) q)
        ((path @ [fst m]) @ q) tf"
      using 1(1) [OF False m(1)] 1(2) by auto
    then show ?thesis
      using m(1) 1(2) by (intro exI [of _ "fst m # q"]) (simp add: get_path_tail oget_member)
  qed
qed (auto simp: isPlainObject_def intro!: exI [of _ "[]"])

definition leaves_apart :: "conflict_leaf list \<Rightarrow> bool" where
  "leaves_apart = sorted_wrt (\<lambda>e f. apart (pathParts e) (pathParts f))"

lemma conflict_walk_path: "e \<in> set (conflict_walk ct l r path tf) \<Longrightarrow> prefix path (pathParts e) \<and> topField e = tf"
proof (induction ct l r path tf rule: conflict_walk.induct)
  case (1 ct ms r path tf)
  show ?case
  proof (cases "ms = []")
    case False
    then obtain m where "m \<in> set ms" "e \<in> set (conflict_walk ct (snd m) (oget (obj_of r) (fst m)) (path @ [fst m]) tf)"
      using 1(2) by auto
    then show ?thesis using 1(1) [OF False] append_prefixD by blast
  qed (use 1 in \<open>simp add: conflict_entry_def\<close>)
qed (auto simp: conflict_entry_def)

lemma conflict_walk_apart: "wf_json l \<Longrightarrow> leaves_apart (conflict_walk ct l r path tf)"
proof (induction ct l r path tf rule: conflict_walk.induct)
  case (1 ct ms r path tf)
  let ?w = "\<lambda>m. conflict_walk ct (snd m) (oget (obj_of r) (fst m)) (path @ [fst m]) tf"
  have "leaves_apart (concat (map ?w ns))" if "set ns \<subseteq> set ms" "distinct (map fst ns)" "ms \<noteq> []" for ns
    using that
  proof (induction ns)
    case (Cons n ns)
    have "apart (pathParts e) (pathParts f)" if e: "e \<in> set (?w n)" and f: "f \<in> set (?w m)" and m: "m \<in> set ns" for e f m
    proof -
      obtain p q where "pathParts e = path @ fst n # p" "pathParts f = path @ fst m # q"
        using conflict_walk_path [OF e] conflict_walk_path [OF f] by (auto elim!: prefixE)
      moreover have "fst n \<noteq> fst m" using Cons.prems(2) m by auto
      ultimately show ?thesis by simp
    qed
    moreover have "leaves_apart (?w n)" using Cons.prems 1 by auto
    ultimately show ?case using Cons by (auto simp: leaves_apart_def sorted_wrt_append)
  qed (simp add: leaves_apart_def)
  then show ?case using 1(2) by (auto simp: leaves_apart_def)
qed (auto simp: leaves_apart_def)

lemma entries_of_field:
  assumes "distinct (map fst attempted)" "(f, v) \<in> set attempted" "f \<notin> set RESERVED_CONFLICT_FIELDS"
  shows "filter (\<lambda>e. topField e = f) (buildConflictLeafEntries attempted current cf)
    = conflict_walk cf v (oget current f) [f] f"
proof -
  have own: "filter (\<lambda>e. topField e = f) (conflict_walk cf w r p g) = (if g = f then conflict_walk cf w r p g else [])"
    for w r p g
    using conflict_walk_path by (auto simp: filter_id_conv filter_empty_conv)
  obtain xs ys where split: "attempted = xs @ (f, v) # ys" using assms(2) by (meson split_list)
  have "filter (\<lambda>e. topField e = f) (buildConflictLeafEntries zs current cf) = []" if "f \<notin> fst ` set zs" for zs
    using that by (induction zs) (auto simp: buildConflictLeafEntries_def own)
  moreover have "f \<notin> fst ` set xs" "f \<notin> fst ` set ys" using assms(1) split by auto
  ultimately show ?thesis
    using assms(3) unfolding split buildConflictLeafEntries_def by (simp add: own)
qed


section \<open>Properties\<close>

lemma sorted_wrt_apart_all:
  "sorted_wrt (\<lambda>e g. apart (P e) (P g)) es \<Longrightarrow> e \<in> set es \<Longrightarrow> g \<in> set es \<Longrightarrow> g \<noteq> e \<Longrightarrow> apart (P g) (P e)"
  by (induction es) (auto simp: apart_sym)

lemma fold_take_local:
  "fold (take_local choices) es t = nested.puts (map (\<lambda>e. (tl (pathParts e), deepClone (localValue e)))
     (filter (\<lambda>e. choice_of choices (leaf_path e) = LocalChoice) es)) t"
  by (induction es arbitrary: t) (simp_all add: take_local_def nested.puts_def)

lemma own_leaf:
  assumes "wf_json (JObj l)" "l \<noteq> []" "e \<in> set (conflict_walk cf (JObj l) r [f] f)"
  shows "\<exists>q. q \<noteq> [] \<and> e = conflict_entry cf (get_path (JObj l) q) (get_path r q) (f # q) f"
  using conflict_walk_leaf [OF assms(1,3)] assms(2) by (auto simp: isPlainObject_def)

lemma own_apart:
  assumes "wf_json (JObj l)" "l \<noteq> []"
  shows "sorted_wrt (\<lambda>e g. apart (tl (pathParts e)) (tl (pathParts g))) (conflict_walk cf (JObj l) r [f] f)"
  using conflict_walk_apart [OF assms(1), of cf r "[f]" f]
  unfolding leaves_apart_def
proof (rule sorted_wrt_mono_rel [rotated])
  let ?own = "conflict_walk cf (JObj l) r [f] f"
  fix x y assume "x \<in> set ?own" "y \<in> set ?own" "apart (pathParts x) (pathParts y)"
  moreover from this obtain p q where "pathParts x = f # p" "pathParts y = f # q"
    using own_leaf [OF assms, of x cf r f] own_leaf [OF assms, of y cf r f] by (auto simp: conflict_entry_def)
  ultimately show "apart (tl (pathParts x)) (tl (pathParts y))" by simp
qed

lemma get_path_remote:
  assumes "wf_json (JObj current)" "q \<noteq> []"
  shows "get_path (JObj (obj_of (deepClone (JObj (obj_of (oget current f)))))) q = deepClone (get_path (oget current f) q)"
proof -
  have "wf_json (JObj (obj_of (oget current f)))"
    using oget_wf [OF assms(1), of f] by (cases "oget current f") (auto simp: obj_of_def)
  then have "get_path (json_copy (JObj (obj_of (oget current f)))) q
      = deepClone (get_path (JObj (obj_of (oget current f))) q)"
    by (rule get_path_copy) simp
  moreover have "get_path (JObj (obj_of (oget current f))) q = get_path (oget current f) q"
    using assms(2) get_path_obj_of by (cases q) auto
  ultimately show ?thesis by (simp add: deepClone_copy obj_of_def)
qed



definition demo_current :: jsobject where
  "demo_current = [(''network'', JObj [(''proxy'', JStr ''off''), (''timeouts'', JObj [(''read'', JNum (Fin 5))]),
     (''mode'', JStr ''auto'')])]"

definition demo_attempted :: jsobject where
  "demo_attempted = [(''network'', JObj [(''proxy'', JStr ''on''), (''timeouts'', JObj [(''read'', JNum (Fin 9))])])]"

definition demo_merged :: json where
  "demo_merged = merge_field (buildConflictLeafEntries demo_attempted demo_current [''network''])
     [(''network.proxy'', RemoteChoice)] demo_current (hd demo_attempted)"


lemma oget_merge_members:
  "distinct (map fst patch) \<Longrightarrow> oget (merge_members acc patch) k =
     (case map_of patch k of
        None \<Rightarrow> oget acc k
      | Some v \<Rightarrow> (case (v, oget acc k) of (JObj pv, JObj cv) \<Rightarrow> JObj (mergePlainObjects cv pv) | _ \<Rightarrow> deepClone v))"
proof (induction patch arbitrary: acc)
  case (Cons m patch)
  have "map_of patch (fst m) = None" using Cons.prems by (simp add: map_of_eq_None_iff)
  with Cons show ?case
    by (cases m) (auto simp: Let_def oget_oset simp del: mergePlainObjects.simps split: option.splits json.splits)
qed simp

text \<open>
  Merging settings. For each key, the merge of a patch into a base has: the base's value, copied, when the
  patch does not name the key; the merge of the two objects when both sides are objects; and otherwise
  a copy of the patch's value.
\<close>

lemma mergePlainObjects_lookup:
  assumes "wf_json (JObj base)" "distinct (map fst patch)"
  shows "oget (mergePlainObjects base patch) k =
     (case map_of patch k of
        None \<Rightarrow> deepClone (oget base k)
      | Some v \<Rightarrow>
          (case (v, oget base k) of
             (JObj pv, JObj cv) \<Rightarrow> JObj (mergePlainObjects cv pv)
           | _ \<Rightarrow> deepClone v))"
proof -
  have base: "oget (obj_of (deepClone (JObj base))) j = deepClone (oget base j)" for j
    using assms(1) by (simp add: deepClone_copy obj_of_def oget_copy)
  have again: "mergePlainObjects ob pv = mergePlainObjects cv pv" if "json_copy (JObj cv) = JObj ob" for ob cv pv
    using that json_copy_idem [of "JObj cv"] by (simp add: deepClone_def)
  have "(case (v, deepClone w) of (JObj pv, JObj cv) \<Rightarrow> JObj (mergePlainObjects cv pv) | _ \<Rightarrow> deepClone v) =
      (case (v, w) of (JObj pv, JObj cv) \<Rightarrow> JObj (mergePlainObjects cv pv) | _ \<Rightarrow> deepClone v)" for v w
    using again by (cases v; cases w)
      (simp_all add: deepClone_def del: mergePlainObjects.simps split: jsnum.split)
  then show ?thesis
    unfolding mergePlainObjects.simps [of base patch] oget_merge_members [OF assms(2)] base
    by (auto split: option.split)
qed

definition timeout_ok :: "json \<Rightarrow> bool" where
  "timeout_ok v \<longleftrightarrow> (case v of JNum n \<Rightarrow> (case n of Fin q \<Rightarrow> 1 / 2 \<le> q | PosInf \<Rightarrow> True | _ \<Rightarrow> False) | _ \<Rightarrow> False)"

lemma timeout_ok_iff: "timeout_ok v \<longleftrightarrow> (\<exists>n. v = JNum n \<and> (n = PosInf \<or> (\<exists>q \<ge> 1 / 2. n = Fin q)))"
  by (cases v) (auto simp: timeout_ok_def split: jsnum.split)

lemma saved_timeout_ok: "timeout_ok (saved_timeout fs raw st) \<or> saved_timeout fs raw st = st"
proof (cases "nullish raw")
  case False
  define n where "n = (case raw of JNum n \<Rightarrow> n | _ \<Rightarrow> parse_float (js_String fs raw))"
  then have "saved_timeout fs raw st = (case n of
      Fin q \<Rightarrow> if q < 1 / 2 then JNum (Fin (7 / 2)) else JNum n | PosInf \<Rightarrow> JNum n | _ \<Rightarrow> JNum (Fin (7 / 2)))"
    unfolding saved_timeout_def Let_def n_def using False by simp
  then show ?thesis by (cases n) (auto simp: timeout_ok_def)
qed (auto simp: saved_timeout_def timeout_ok_def)

lemma save_payload_network:
  assumes "oget (save_payload fs current edited) ''network'' = JObj net"
  shows "\<exists>old. net = oset ''guest_lookup_timeout'' (saved_timeout fs (oget old ''guest_lookup_timeout'')
     (oget (obj_of (oget current ''network'')) ''guest_lookup_timeout'')) old"
proof -
  define p1 where "p1 = fold (\<lambda>m acc. case (snd m, oget current (fst m)) of
       (JObj v, JObj c) \<Rightarrow> oset (fst m) (JObj (mergePlainObjects c v)) acc | _ \<Rightarrow> acc) edited edited"
  have stored: "(case oget current ''network'' of JObj cn \<Rightarrow> oget cn ''guest_lookup_timeout'' | _ \<Rightarrow> JUndef)
      = oget (obj_of (oget current ''network'')) ''guest_lookup_timeout''"
    by (simp add: obj_of_def split: json.split)
  show ?thesis
    using assms unfolding save_payload_def Let_def p1_def [symmetric] stored
    by (cases "oget p1 ''network''") (auto simp: oget_oset split: if_splits)
qed

text \<open>
  The timeout that is saved. In a payload that carries the network section, \<open>guest_lookup_timeout\<close> is a
  number of at least half a second, or, when the form left it empty, exactly the value already stored.
\<close>

lemma save_payload_timeout:
  assumes "oget (save_payload fs current edited) ''network'' = JObj net"
  shows "(\<exists>n. oget net ''guest_lookup_timeout'' = JNum n \<and> (n = PosInf \<or> (\<exists>q \<ge> 1 / 2. n = Fin q)))
    \<or> oget net ''guest_lookup_timeout'' = oget (obj_of (oget current ''network'')) ''guest_lookup_timeout''"
proof -
  let ?st = "oget (obj_of (oget current ''network'')) ''guest_lookup_timeout''"
  obtain old where net: "net = oset ''guest_lookup_timeout'' (saved_timeout fs (oget old ''guest_lookup_timeout'') ?st) old"
    using assms save_payload_network by blast
  then show ?thesis
    using saved_timeout_ok [of fs "oget old ''guest_lookup_timeout''" ?st] timeout_ok_iff by (auto simp: oget_oset)
qed

lemma mergePlainObjects_lookup_witness:
  "oget (mergePlainObjects demo_current demo_attempted) ''network'' =
     JObj (mergePlainObjects (obj_of (oget demo_current ''network'')) (obj_of (oget demo_attempted ''network'')))"
proof -
  have "wf_json (JObj demo_current)" "distinct (map fst demo_attempted)" by code_simp+
  then show ?thesis
    using mergePlainObjects_lookup [of demo_current demo_attempted "''network''"]
    by (simp add: demo_attempted_def demo_current_def oget_def obj_of_def del: mergePlainObjects.simps)
qed

definition demo_saved :: jsobject where
  "demo_saved = [(''proxy'', JStr ''off''), (''timeouts'', JObj [(''read'', JNum (Fin 5))]), (''mode'', JStr ''auto''),
     (''guest_lookup_timeout'', JNum (Fin (7 / 2)))]"

lemma save_payload_timeout_witness:
  "oget (save_payload (\<lambda>_. []) demo_current [(''network'', JObj [(''guest_lookup_timeout'', JStr ''0.1s'')])]) ''network''
     = JObj demo_saved
   \<and> (\<exists>n. oget demo_saved ''guest_lookup_timeout'' = JNum n)"
proof -
  have p: "oget (save_payload (\<lambda>_. []) demo_current [(''network'', JObj [(''guest_lookup_timeout'', JStr ''0.1s'')])]) ''network''
     = JObj demo_saved"
    and "oget (obj_of (oget demo_current ''network'')) ''guest_lookup_timeout'' = JUndef"
    "oget demo_saved ''guest_lookup_timeout'' \<noteq> JUndef"
    by code_simp+
  with save_payload_timeout [OF p] show ?thesis by (metis p)
qed

definition dotted_patch :: jsobject where
  "dotted_patch = [(''sites'', JObj [(''a.b'', JNum (Fin 1)), (''a'', JObj [(''b'', JNum (Fin 2))])])]"

text \<open>
  Paths with dots collide. The dialog keeps one choice per dotted path, so two leaves of a section whose
  keys contain dots share it: choosing the server's value for one takes the server's value for the
  other too.
\<close>

lemma conflict_paths_collide:
  "map pathParts (buildConflictLeafEntries dotted_patch [] []) = [[''sites'', ''a.b''], [''sites'', ''a'', ''b'']]
   \<and> map leaf_path (buildConflictLeafEntries dotted_patch [] []) = [''sites.a.b'', ''sites.a.b'']
   \<and> merge_field (buildConflictLeafEntries dotted_patch [] []) [(''sites.a.b'', RemoteChoice)] [] (hd dotted_patch) = JObj []"
  by code_simp

end
