(* ===== verification/SetupRules.thy ===== *)
theory SetupRules
  imports JsRegex
begin

text \<open>
  The rules of the setup wizard: \<open>features/setup-wizard/lib\<close>, files \<open>componentRules.ts\<close> (which parts of an
  installation may be combined), \<open>imageVersion.ts\<close> (which image to offer) and \<open>nameNewCluster.ts\<close>
  (naming the cluster of a new backend, retrying until it answers).
\<close>

section \<open>Components\<close>

datatype compute_mode = ComputeInstall | ComputeNone
datatype store_mode = StoreInstall | StoreExisting | StoreNone
datatype webui_mode = WebReuse | WebInstall

record component_selection =
  sel_backend :: compute_mode
  sel_worker :: compute_mode
  sel_postgres :: store_mode
  sel_redis :: store_mode
  sel_webui :: webui_mode

definition DEFAULT_COMPONENTS :: component_selection where
  "DEFAULT_COMPONENTS = \<lparr>sel_backend = ComputeInstall, sel_worker = ComputeInstall,
     sel_postgres = StoreInstall, sel_redis = StoreInstall, sel_webui = WebReuse\<rparr>"

datatype component_error =
    NothingInstalled | PostgresRequired | RedisRequired | WorkerNeedsExistingStores | UnusedExistingStore

definition ERROR_MESSAGES :: "component_error \<Rightarrow> string" where
  "ERROR_MESSAGES e = (case e of
      NothingInstalled \<Rightarrow> ''Choose at least one component to install.''
    | PostgresRequired \<Rightarrow> ''Without the bundled PostgreSQL, give the database URL to use.''
    | RedisRequired \<Rightarrow> ''Without the bundled Redis, give the Redis host to use.''
    | WorkerNeedsExistingStores \<Rightarrow>
        ''A worker installed without a backend must use that backend's existing PostgreSQL and Redis.''
    | UnusedExistingStore \<Rightarrow>
        ''Existing PostgreSQL or Redis can only be used when installing a backend or worker.'')"

record 'm card_rule =
  allowed :: "'m list"
  disabled_reasons :: "('m \<times> string) list"
  shared_stores_with_backend :: "bool option"
  requires_backend_connection :: "bool option"
  publishes_port_when_installed :: "bool option"

record all_card_rules =
  rule_backend :: "compute_mode card_rule"
  rule_worker :: "compute_mode card_rule"
  rule_postgres :: "store_mode card_rule"
  rule_redis :: "store_mode card_rule"
  rule_webui :: "webui_mode card_rule"

definition simple_rule :: "'m list \<Rightarrow> ('m \<times> string) list \<Rightarrow> 'm card_rule" where
  "simple_rule al rs = \<lparr>allowed = al, disabled_reasons = rs, shared_stores_with_backend = None,
     requires_backend_connection = None, publishes_port_when_installed = None\<rparr>"

definition CARD_RULES_BY_COMPUTE :: "compute_mode \<Rightarrow> compute_mode \<Rightarrow> all_card_rules" where
  "CARD_RULES_BY_COMPUTE b w =
     (let both = simple_rule [ComputeInstall, ComputeNone] [];
          web = simple_rule [WebReuse, WebInstall] []
      in case (b, w) of
        (ComputeInstall, ComputeInstall) \<Rightarrow>
          \<lparr>rule_backend = both,
           rule_worker = both\<lparr>shared_stores_with_backend := Some True\<rparr>,
           rule_postgres = simple_rule [StoreInstall, StoreExisting] [(StoreNone, ''Backend needs PostgreSQL'')],
           rule_redis = simple_rule [StoreInstall, StoreExisting] [(StoreNone, ''Backend needs Redis'')],
           rule_webui = web\<rparr>
      | (ComputeInstall, ComputeNone) \<Rightarrow>
          \<lparr>rule_backend = both,
           rule_worker = both\<lparr>shared_stores_with_backend := Some False\<rparr>,
           rule_postgres = simple_rule [StoreInstall, StoreExisting] [(StoreNone, ''Backend needs PostgreSQL'')],
           rule_redis = simple_rule [StoreInstall, StoreExisting] [(StoreNone, ''Backend needs Redis'')],
           rule_webui = web\<rparr>
      | (ComputeNone, ComputeInstall) \<Rightarrow>
          \<lparr>rule_backend = both,
           rule_worker = both\<lparr>shared_stores_with_backend := Some False, requires_backend_connection := Some True\<rparr>,
           rule_postgres = simple_rule [StoreExisting]
             [(StoreInstall, ''Worker without a backend must use the existing backend's PostgreSQL''),
              (StoreNone, ''Worker needs PostgreSQL'')],
           rule_redis = simple_rule [StoreExisting]
             [(StoreInstall, ''Worker without a backend must use the existing backend's Redis''),
              (StoreNone, ''Worker needs Redis'')],
           rule_webui = web\<rparr>
      | (ComputeNone, ComputeNone) \<Rightarrow>
          \<lparr>rule_backend = both,
           rule_worker = both\<lparr>shared_stores_with_backend := Some False\<rparr>,
           rule_postgres = (simple_rule [StoreInstall, StoreNone]
             [(StoreExisting, ''Existing PostgreSQL is only used with Backend or Worker'')])
             \<lparr>publishes_port_when_installed := Some True\<rparr>,
           rule_redis = (simple_rule [StoreInstall, StoreNone]
             [(StoreExisting, ''Existing Redis is only used with Backend or Worker'')])
             \<lparr>publishes_port_when_installed := Some True\<rparr>,
           rule_webui = web\<rparr>)"

definition getCardRules :: "component_selection \<Rightarrow> all_card_rules" where
  "getCardRules s = CARD_RULES_BY_COMPUTE (sel_backend s) (sel_worker s)"

text \<open>The error code of the validation, \<open>None\<close> when the selection is valid.\<close>

definition validateComponentModes :: "component_selection \<Rightarrow> component_error option" where
  "validateComponentModes s =
     (let hasCompute = (sel_backend s = ComputeInstall \<or> sel_worker s = ComputeInstall) in
      if hasCompute \<and> sel_postgres s = StoreNone then Some PostgresRequired
      else if hasCompute \<and> sel_redis s = StoreNone then Some RedisRequired
      else if sel_backend s = ComputeNone \<and> sel_worker s = ComputeInstall
              \<and> (sel_postgres s \<noteq> StoreExisting \<or> sel_redis s \<noteq> StoreExisting)
      then Some WorkerNeedsExistingStores
      else if \<not> hasCompute \<and> (sel_postgres s = StoreExisting \<or> sel_redis s = StoreExisting)
      then Some UnusedExistingStore
      else if \<not> (sel_backend s = ComputeInstall \<or> sel_worker s = ComputeInstall
                 \<or> sel_postgres s = StoreInstall \<or> sel_redis s = StoreInstall \<or> sel_webui s = WebInstall)
      then Some NothingInstalled
      else None)"

definition validation_message :: "component_selection \<Rightarrow> string option" where
  "validation_message s = map_option ERROR_MESSAGES (validateComponentModes s)"

datatype card_change =
    SetBackend compute_mode
  | SetWorker compute_mode
  | SetPostgres store_mode
  | SetRedis store_mode
  | SetWebui webui_mode

definition set_card :: "card_change \<Rightarrow> component_selection \<Rightarrow> component_selection" where
  "set_card c s = (case c of
      SetBackend m \<Rightarrow> s\<lparr>sel_backend := m\<rparr>
    | SetWorker m \<Rightarrow> s\<lparr>sel_worker := m\<rparr>
    | SetPostgres m \<Rightarrow> s\<lparr>sel_postgres := m\<rparr>
    | SetRedis m \<Rightarrow> s\<lparr>sel_redis := m\<rparr>
    | SetWebui m \<Rightarrow> s\<lparr>sel_webui := m\<rparr>)"

definition coerce_mode :: "'m list \<Rightarrow> 'm \<Rightarrow> 'm \<Rightarrow> 'm" where
  "coerce_mode al dflt m = (if m \<in> set al then m else if dflt \<in> set al then dflt else hd al)"

definition applyComponentChange ::
  "component_selection \<Rightarrow> card_change \<Rightarrow> store_mode \<times> store_mode \<Rightarrow> component_selection" where
  "applyComponentChange current c defaults =
     (let updated = set_card c current;
          rules = getCardRules updated;
          u1 = updated\<lparr>sel_postgres := coerce_mode (allowed (rule_postgres rules)) (fst defaults) (sel_postgres updated)\<rparr>
      in u1\<lparr>sel_redis := coerce_mode (allowed (rule_redis rules)) (snd defaults) (sel_redis u1)\<rparr>)"

definition change_defaults :: "store_mode \<times> store_mode" where
  "change_defaults = (StoreInstall, StoreInstall)"

datatype compute_choice = ChooseBackend | ChooseWorker | ChooseNone

definition computeChoice :: "component_selection \<Rightarrow> compute_choice" where
  "computeChoice s =
     (if sel_backend s = ComputeInstall then ChooseBackend
      else if sel_worker s = ComputeInstall then ChooseWorker else ChooseNone)"

definition applyComputeChoice ::
  "component_selection \<Rightarrow> compute_choice \<Rightarrow> (store_mode \<times> store_mode) option \<Rightarrow> component_selection" where
  "applyComputeChoice current choice defaults =
     (let backend = (if choice = ChooseBackend then ComputeInstall else ComputeNone);
          worker = (if choice = ChooseNone then ComputeNone else ComputeInstall)
      in applyComponentChange (current\<lparr>sel_backend := backend\<rparr>) (SetWorker worker)
           (case defaults of None \<Rightarrow> change_defaults | Some d \<Rightarrow> d))"

section \<open>Images\<close>

datatype image_source = SourceCopy | SourceTarget | SourceRegistry

record local_release =
  release_version :: string
  release_architecture :: string

record detection =
  host_architecture :: string
  local_images :: "local_release list"
  recommended_image_source :: image_source
  recommended_version :: string

definition versionForSource ::
  "image_source \<Rightarrow> detection option \<Rightarrow> string option \<Rightarrow> string" where
  "versionForSource source det env =
     (let recommended = (case det of None \<Rightarrow> [] | Some d \<Rightarrow> recommended_version d) in
      if source = SourceRegistry
      then (if (case det of None \<Rightarrow> False | Some d \<Rightarrow> recommended_image_source d = SourceRegistry)
               \<and> recommended \<noteq> []
            then recommended else or_str env ''edge'')
      else if (case det of None \<Rightarrow> False | Some d \<Rightarrow> recommended_image_source d \<noteq> SourceRegistry)
              \<and> recommended \<noteq> []
      then recommended
      else
        (let found = (case det of None \<Rightarrow> None
                      | Some d \<Rightarrow> List.find (\<lambda>r. release_architecture r = host_architecture d) (local_images d))
         in or_str (or_opt (map_option release_version found) (or_opt (Some recommended) env)) ''edge''))"

text \<open>\<open>raw.trim().replace(/^https?:\/\//i, '').replace(/\/+$/, '').toLowerCase()\<close>\<close>

definition scheme_rx :: rx where
  "scheme_rx = rx_seq [RBos, rx_lit_ci ''http'', rx_opt (rx_lit_ci ''s''), rx_lit ''://'']"

definition strip_scheme :: "string \<Rightarrow> string" where
  "strip_scheme s = (case rx_exec scheme_rx s of None \<Rightarrow> s | Some st \<Rightarrow> rx_rest st)"

definition strip_slashes :: "string \<Rightarrow> string" where
  "strip_slashes s = rev (dropWhile (\<lambda>c. c = CHR ''/'') (rev s))"

definition normalizeImagePrefix :: "string \<Rightarrow> string" where
  "normalizeImagePrefix raw = lower (strip_slashes (strip_scheme (trim raw)))"

section \<open>Naming a new cluster\<close>

record cluster_info =
  cluster_id :: string
  connection_ids :: "string list"

definition ATTEMPTS :: nat where
  "ATTEMPTS = 5"

text \<open>
  The loop from some attempt on. \<open>answers i\<close> is what \<open>listClusters\<close> returns on attempt \<open>i\<close> (\<open>None\<close> when the
  request fails), \<open>renamed i\<close> whether the rename of that attempt succeeds. The result lists the rename
  requests that were sent.
\<close>

fun name_attempts ::
  "(nat \<Rightarrow> cluster_info list option) \<Rightarrow> (nat \<Rightarrow> bool) \<Rightarrow> string \<Rightarrow> string \<Rightarrow> nat \<Rightarrow> nat \<Rightarrow> bool \<times> (string \<times> string) list" where
  "name_attempts answers renamed conn nm i 0 = (False, [])"
| "name_attempts answers renamed conn nm i (Suc left) =
     (case (case answers i of None \<Rightarrow> None
            | Some cs \<Rightarrow> List.find (\<lambda>c. conn \<in> set (connection_ids c)) cs) of
        None \<Rightarrow> name_attempts answers renamed conn nm (Suc i) left
      | Some c \<Rightarrow>
          if renamed i then (True, [(cluster_id c, nm)])
          else (let (done, sent) = name_attempts answers renamed conn nm (Suc i) left
                in (done, (cluster_id c, nm) # sent)))"

definition nameNewCluster ::
  "(nat \<Rightarrow> cluster_info list option) \<Rightarrow> (nat \<Rightarrow> bool) \<Rightarrow> string \<Rightarrow> string \<Rightarrow> bool \<times> (string \<times> string) list" where
  "nameNewCluster answers renamed conn nm =
     (let cleaned = trim nm in
      if cleaned = [] then (False, []) else name_attempts answers renamed conn cleaned 0 ATTEMPTS)"

section \<open>Properties\<close>

definition modes_allowed :: "component_selection \<Rightarrow> bool" where
  "modes_allowed s \<longleftrightarrow> sel_postgres s \<in> set (allowed (rule_postgres (getCardRules s)))
     \<and> sel_redis s \<in> set (allowed (rule_redis (getCardRules s)))"

definition anything_installed :: "component_selection \<Rightarrow> bool" where
  "anything_installed s \<longleftrightarrow> sel_backend s = ComputeInstall \<or> sel_worker s = ComputeInstall
     \<or> sel_postgres s = StoreInstall \<or> sel_redis s = StoreInstall \<or> sel_webui s = WebInstall"

lemmas rule_defs = getCardRules_def CARD_RULES_BY_COMPUTE_def simple_rule_def Let_def

text \<open>
  The cards and the validation agree. A selection is valid exactly when PostgreSQL and Redis are in modes
  their cards allow for the chosen backend and worker and at least one component is installed; when the
  cards allow the modes, the only error left is that nothing is installed.
\<close>

lemma validate_iff_allowed:
  "(validateComponentModes s = None \<longleftrightarrow> modes_allowed s \<and> anything_installed s)
   \<and> (modes_allowed s \<longrightarrow> validateComponentModes s \<in> {None, Some NothingInstalled})"
  by (cases "sel_backend s"; cases "sel_worker s"; cases "sel_postgres s"; cases "sel_redis s"; cases "sel_webui s")
     (simp_all add: validateComponentModes_def modes_allowed_def anything_installed_def rule_defs)

lemma validate_iff_allowed_witness:
  "modes_allowed DEFAULT_COMPONENTS \<and> validateComponentModes DEFAULT_COMPONENTS = None"
proof -
  have "modes_allowed DEFAULT_COMPONENTS" "anything_installed DEFAULT_COMPONENTS" by code_simp+
  then show ?thesis using validate_iff_allowed [of DEFAULT_COMPONENTS] by simp
qed

lemma coerce_mode_allowed: "al \<noteq> [] \<Longrightarrow> coerce_mode al d m \<in> set al"
  by (simp add: coerce_mode_def)

lemma coerce_mode_id [simp]: "m \<in> set al \<Longrightarrow> coerce_mode al d m = m"
  by (simp add: coerce_mode_def)

lemma allowed_nonempty:
  "allowed (rule_postgres (CARD_RULES_BY_COMPUTE b w)) \<noteq> []" "allowed (rule_redis (CARD_RULES_BY_COMPUTE b w)) \<noteq> []"
  by (cases b; cases w; simp add: rule_defs)+

lemma applyComponentChange_allowed_modes: "modes_allowed (applyComponentChange s c d)"
  by (simp add: modes_allowed_def applyComponentChange_def Let_def getCardRules_def coerce_mode_allowed allowed_nonempty)



text \<open>
  The compute card reads back what was chosen. After \<open>applyComputeChoice\<close> the card shows the choice that
  was made, the stores are in allowed modes, and a worker alone uses the existing stores.
\<close>

lemma computeChoice_applied:
  "computeChoice (applyComputeChoice s ch d) = ch \<and> modes_allowed (applyComputeChoice s ch d)
   \<and> (sel_postgres (applyComputeChoice s ChooseWorker d), sel_redis (applyComputeChoice s ChooseWorker d))
      = (StoreExisting, StoreExisting)"
proof -
  have "computeChoice (applyComputeChoice s ch d) = ch"
    by (cases ch) (simp_all add: computeChoice_def applyComputeChoice_def applyComponentChange_def set_card_def Let_def)
  moreover have "modes_allowed (applyComputeChoice s c d)" for c
    using applyComponentChange_allowed_modes by (simp add: applyComputeChoice_def Let_def)
  moreover have "sel_backend (applyComputeChoice s ChooseWorker d) = ComputeNone"
    "sel_worker (applyComputeChoice s ChooseWorker d) = ComputeInstall"
    by (simp_all add: applyComputeChoice_def applyComponentChange_def set_card_def Let_def)
  ultimately show ?thesis
    using \<open>modes_allowed (applyComputeChoice s ChooseWorker d)\<close>
    by (auto simp: modes_allowed_def rule_defs)
qed

text \<open>
  A registry install is never offered a local tag. The version offered is never empty, and for the registry
  it is the recommendation only when that was made for the registry: otherwise what was found on the
  host plays no part.
\<close>

lemma versionForSource_registry:
  "versionForSource src det env \<noteq> []
   \<and> (versionForSource SourceRegistry (Some d) env = versionForSource SourceRegistry None env
      \<or> recommended_image_source d = SourceRegistry
         \<and> versionForSource SourceRegistry (Some d) env = recommended_version d)"
  by (auto simp: versionForSource_def Let_def or_str_def or_opt_def split: option.split)

definition cluster_listed :: "(nat \<Rightarrow> cluster_info list option) \<Rightarrow> string \<Rightarrow> nat \<Rightarrow> bool" where
  "cluster_listed answers conn i \<longleftrightarrow>
     (case answers i of None \<Rightarrow> False | Some cs \<Rightarrow> \<exists>c \<in> set cs. conn \<in> set (connection_ids c))"

definition found_cluster :: "(nat \<Rightarrow> cluster_info list option) \<Rightarrow> string \<Rightarrow> nat \<Rightarrow> cluster_info option" where
  "found_cluster answers conn i =
     (case answers i of None \<Rightarrow> None | Some cs \<Rightarrow> List.find (\<lambda>c. conn \<in> set (connection_ids c)) cs)"

definition names_cluster :: "(nat \<Rightarrow> cluster_info list option) \<Rightarrow> string \<Rightarrow> string \<Rightarrow> bool" where
  "names_cluster answers conn k \<longleftrightarrow>
     (\<exists>j cs c. answers j = Some cs \<and> c \<in> set cs \<and> conn \<in> set (connection_ids c) \<and> cluster_id c = k)"

lemma found_cluster_listed: "found_cluster answers conn i = None \<longleftrightarrow> \<not> cluster_listed answers conn i"
  by (auto simp: found_cluster_def cluster_listed_def find_None_iff split: option.split)

lemma found_cluster_conn:
  assumes "found_cluster answers conn i = Some c"
  shows "names_cluster answers conn (cluster_id c)"
proof -
  obtain cs where "answers i = Some cs" "List.find (\<lambda>c. conn \<in> set (connection_ids c)) cs = Some c"
    using assms by (auto simp: found_cluster_def split: option.splits)
  then show ?thesis unfolding names_cluster_def by (metis find_Some_iff nth_mem)
qed

lemma name_attempts_found:
  "name_attempts answers renamed conn nm i (Suc left) =
     (case found_cluster answers conn i of
        None \<Rightarrow> name_attempts answers renamed conn nm (Suc i) left
      | Some c \<Rightarrow>
          if renamed i then (True, [(cluster_id c, nm)])
          else (fst (name_attempts answers renamed conn nm (Suc i) left),
                (cluster_id c, nm) # snd (name_attempts answers renamed conn nm (Suc i) left)))"
  by (simp add: found_cluster_def case_prod_beta split: option.split)

lemma name_attempts_result:
  "fst (name_attempts answers renamed conn nm i n) \<longleftrightarrow> (\<exists>j < n. cluster_listed answers conn (i + j) \<and> renamed (i + j))"
proof (induction n arbitrary: i)
  case (Suc n)
  define P where "P j \<longleftrightarrow> cluster_listed answers conn j \<and> renamed j" for j
  have "(\<exists>j < Suc n. P (i + j)) \<longleftrightarrow> P i \<or> (\<exists>j < n. P (Suc i + j))"
    by (metis Suc_less_eq add_0_right add_Suc add_Suc_right less_Suc_eq_0_disj)
  moreover have "fst (name_attempts answers renamed conn nm (Suc i) n) \<longleftrightarrow> (\<exists>j < n. P (Suc i + j))"
    unfolding P_def by (rule Suc)
  moreover have "fst (name_attempts answers renamed conn nm i (Suc n)) \<longleftrightarrow>
      P i \<or> fst (name_attempts answers renamed conn nm (Suc i) n)"
    using found_cluster_listed [of answers conn i] unfolding name_attempts_found
    by (simp add: P_def split: option.split) (metis option.distinct(1))
  ultimately show ?case unfolding P_def by simp
qed simp

lemma name_attempts_sent:
  "length (snd (name_attempts answers renamed conn nm i n)) \<le> n
   \<and> (\<forall>r \<in> set (snd (name_attempts answers renamed conn nm i n)). snd r = nm \<and> names_cluster answers conn (fst r))"
proof (induction n arbitrary: i)
  case (Suc n)
  show ?case
    unfolding name_attempts_found
    using Suc [of "Suc i"] found_cluster_conn [of answers conn i] by (cases "found_cluster answers conn i") auto
qed simp

text \<open>
  Naming a new cluster. The call reports success exactly when the name is not blank and on one of the five
  attempts the cluster of the connection is listed and its rename succeeds; every rename it sends is
  for a listed cluster with that connection, with the trimmed name, and it sends at most five.
\<close>

lemma nameNewCluster_result:
  "(fst (nameNewCluster answers renamed conn nm) \<longleftrightarrow>
      trim nm \<noteq> [] \<and> (\<exists>j < 5. cluster_listed answers conn j \<and> renamed j))
   \<and> length (snd (nameNewCluster answers renamed conn nm)) \<le> 5
   \<and> list_all (\<lambda>r. snd r = trim nm \<and> names_cluster answers conn (fst r)) (snd (nameNewCluster answers renamed conn nm))"
  using name_attempts_result [of answers renamed conn "trim nm" 0 5]
    name_attempts_sent [of answers renamed conn "trim nm" 0 5]
  by (auto simp: nameNewCluster_def Let_def ATTEMPTS_def list_all_iff)

end
