(* ===== verification/ArchPlan.thy ===== *)
theory ArchPlan
  imports JsPrelude
begin

text \<open>
  The architecture diagram of the setup wizard: \<open>features/setup-wizard/lib/architecturePlan.ts\<close>. The clusters
  and hosts the API reports are drawn, a planned install is drawn into them (\<open>buildDiagram\<close>), and the
  result is laid out in tiers of cards (\<open>buildTiers\<close>). Objects the code finds and then mutates are
  updated at their place in the list.
\<close>

section \<open>Data\<close>

datatype node_role = RoleBackend | RoleWorkers | RoleWebui | RolePostgres | RoleRedis

datatype node_state = StateHealthy | StateWarning | StateOffline | StateUnknown

record cluster_node =
  node_role :: node_role
  node_name :: string
  node_state :: node_state
  node_detail :: "string option"
  node_backend_id :: "string option"
  node_client_id :: "string option"
  node_connection_id :: "string option"
  node_is_self :: bool

record cluster_host =
  chost_key :: string
  chost_name :: string
  chost_address :: "string option"
  chost_roles :: "node_role list"
  chost_nodes :: "cluster_node list"

record cluster_hosts =
  described_name :: string
  described_hosts :: "cluster_host list"

record backend_cluster =
  bc_id :: string
  bc_name :: "string option"
  bc_connection_ids :: "string list"

datatype plan_target = TargetExisting "string option" "string option" | TargetNew string | TargetNone

datatype install_location = LocationLocal | LocationRemote

record planned_install =
  plan_hostName :: string
  plan_location :: install_location
  plan_address :: "string option"
  installs :: "node_role \<Rightarrow> bool"
  plan_postgres :: "string option"
  plan_redis :: "string option"
  plan_target :: plan_target

record diagram_node =
  dn_role :: node_role
  dn_identifier :: "string option"
  dn_state :: "node_state option"
  dn_isSelf :: bool

record diagram_host =
  dh_key :: string
  dh_name :: string
  dh_address :: "string option"
  dh_roles :: "node_role list"
  dh_nodes :: "diagram_node list"
  dh_isNew :: bool

record diagram_service =
  ds_label :: string
  ds_isNew :: bool
  ds_host :: "string option"

record diagram_cluster =
  dc_key :: string
  dc_name :: string
  dc_hosts :: "diagram_host list"
  dc_postgres :: "diagram_service option"
  dc_redis :: "diagram_service option"
  dc_isTarget :: bool
  dc_isNew :: bool

section \<open>The diagram\<close>

definition nodeIdentifier :: "cluster_node \<Rightarrow> string" where
  "nodeIdentifier n =
     (if node_role n = RoleWebui
      then (case coalesce (node_client_id n) (node_connection_id n) of Some i \<Rightarrow> i | None \<Rightarrow> node_name n)
      else if node_role n = RolePostgres \<or> node_role n = RoleRedis
      then (case node_detail n of Some i \<Rightarrow> i | None \<Rightarrow> node_name n)
      else (case coalesce (node_backend_id n) (node_client_id n) of Some i \<Rightarrow> i | None \<Rightarrow> node_name n))"

definition is_store :: "node_role \<Rightarrow> bool" where
  "is_store r \<longleftrightarrow> r = RolePostgres \<or> r = RoleRedis"

fun find_service :: "node_role \<Rightarrow> cluster_host list \<Rightarrow> diagram_service option" where
  "find_service r [] = None"
| "find_service r (h # hs) =
     (case List.find (\<lambda>n. node_role n = r) (chost_nodes h) of
        Some n \<Rightarrow> Some \<lparr>ds_label = (case node_detail n of Some d \<Rightarrow> d | None \<Rightarrow> node_name n),
                        ds_isNew = False, ds_host = Some (chost_name h)\<rparr>
      | None \<Rightarrow> find_service r hs)"

definition draw_host :: "cluster_host \<Rightarrow> diagram_host" where
  "draw_host h =
     \<lparr>dh_key = chost_key h, dh_name = chost_name h, dh_address = chost_address h,
      dh_roles = filter (\<lambda>r. \<not> is_store r) (chost_roles h),
      dh_nodes = map (\<lambda>n. \<lparr>dn_role = node_role n, dn_identifier = Some (nodeIdentifier n),
                            dn_state = Some (node_state n), dn_isSelf = node_is_self n\<rparr>)
                   (filter (\<lambda>n. \<not> is_store (node_role n)) (chost_nodes h)),
      dh_isNew = False\<rparr>"

definition draw_cluster :: "(string \<Rightarrow> cluster_hosts option) \<Rightarrow> backend_cluster \<Rightarrow> diagram_cluster" where
  "draw_cluster hosts c =
     (let described = hosts (bc_id c);
          hs = (case described of None \<Rightarrow> [] | Some d \<Rightarrow> described_hosts d)
      in \<lparr>dc_key = bc_id c,
          dc_name = or_str (or_opt (map_option described_name described) (bc_name c)) (''Cluster '' @ take 8 (bc_id c)),
          dc_hosts = filter (\<lambda>h. dh_roles h \<noteq> []) (map draw_host hs),
          dc_postgres = find_service RolePostgres hs,
          dc_redis = find_service RoleRedis hs,
          dc_isTarget = False, dc_isNew = False\<rparr>)"

definition existingClusters ::
  "backend_cluster list \<Rightarrow> (string \<Rightarrow> cluster_hosts option) \<Rightarrow> diagram_cluster list" where
  "existingClusters clusters hosts = map (draw_cluster hosts) clusters"

definition plan_roles :: "planned_install \<Rightarrow> node_role list" where
  "plan_roles p = filter (installs p) [RoleBackend, RoleWorkers, RoleWebui]"

definition new_host :: "planned_install \<Rightarrow> diagram_host" where
  "new_host p = \<lparr>dh_key = ''new-host'', dh_name = plan_hostName p, dh_address = plan_address p,
     dh_roles = plan_roles p, dh_nodes = [], dh_isNew = True\<rparr>"

definition plan_service :: "planned_install \<Rightarrow> node_role \<Rightarrow> string option \<Rightarrow> diagram_service option" where
  "plan_service p r existing =
     (if installs p r
      then Some \<lparr>ds_label = ''on '' @ plan_hostName p, ds_isNew = True, ds_host = Some (plan_hostName p)\<rparr>
      else (case existing of
              None \<Rightarrow> None
            | Some l \<Rightarrow> if l = [] then None else Some \<lparr>ds_label = l, ds_isNew = False, ds_host = None\<rparr>))"

definition plan_cluster :: "planned_install \<Rightarrow> string \<Rightarrow> string \<Rightarrow> bool \<Rightarrow> diagram_cluster" where
  "plan_cluster p key nm fresh =
     \<lparr>dc_key = key, dc_name = nm, dc_hosts = [new_host p],
      dc_postgres = plan_service p RolePostgres (plan_postgres p),
      dc_redis = plan_service p RoleRedis (plan_redis p), dc_isTarget = True, dc_isNew = fresh\<rparr>"

text \<open>The host at the plan's address, if it has one.\<close>

definition same_host :: "planned_install \<Rightarrow> diagram_host \<Rightarrow> bool" where
  "same_host p h \<longleftrightarrow> (case plan_address p of None \<Rightarrow> False | Some a \<Rightarrow> a \<noteq> [] \<and> dh_address h = Some a)"

definition choose_service :: "diagram_service option \<Rightarrow> diagram_service option \<Rightarrow> diagram_service option" where
  "choose_service planned found =
     (case planned of
        Some s \<Rightarrow> if ds_isNew s then planned else coalesce found planned
      | None \<Rightarrow> found)"

definition join_cluster :: "planned_install \<Rightarrow> diagram_cluster \<Rightarrow> diagram_cluster" where
  "join_cluster p c = c\<lparr>dc_isTarget := True,
     dc_hosts := (if list_ex (same_host p) (dc_hosts c)
        then update_first (same_host p)
               (\<lambda>h. h\<lparr>dh_isNew := True, dh_roles := dedup (dh_roles h @ plan_roles p)\<rparr>) (dc_hosts c)
        else dc_hosts c @ [new_host p]),
     dc_postgres := choose_service (plan_service p RolePostgres (plan_postgres p)) (dc_postgres c),
     dc_redis := choose_service (plan_service p RoleRedis (plan_redis p)) (dc_redis c)\<rparr>"

definition target_id :: "backend_cluster list \<Rightarrow> string option \<Rightarrow> string option \<Rightarrow> string option" where
  "target_id clusters clusterId connectionId =
     coalesce clusterId
       (case connectionId of
          None \<Rightarrow> None
        | Some k \<Rightarrow> if k = [] then None
                    else map_option bc_id (List.find (\<lambda>c. k \<in> set (bc_connection_ids c)) clusters))"

definition buildDiagram ::
  "planned_install option \<Rightarrow> backend_cluster list \<Rightarrow> (string \<Rightarrow> cluster_hosts option)
   \<Rightarrow> diagram_cluster list \<times> diagram_host option" where
  "buildDiagram plan clusters hosts =
     (let drawn = existingClusters clusters hosts in
      case plan of
        None \<Rightarrow> (drawn, None)
      | Some p \<Rightarrow>
          (case plan_target p of
             TargetNone \<Rightarrow> (drawn, Some ((new_host p)\<lparr>dh_roles := []\<rparr>))
           | TargetNew nm \<Rightarrow>
               (drawn @ [plan_cluster p ''new-cluster'' (or_str (Some nm) ''New cluster'') True], None)
           | TargetExisting cid conn \<Rightarrow>
               (let tid = target_id clusters cid conn;
                    is_target = (\<lambda>c. Some (dc_key c) = tid)
                in if list_ex is_target drawn
                   then (update_first is_target (join_cluster p) drawn, None)
                   else (drawn @ [plan_cluster p ''joined-cluster'' ''Existing cluster'' False], None))))"

section \<open>Tiers\<close>

record tier_card =
  tc_key :: string
  tc_role :: node_role
  tc_host :: string
  tc_address :: "string option"
  tc_clusters :: "string list"
  tc_identifier :: "string option"
  tc_state :: "node_state option"
  tc_isNew :: bool
  tc_isSelf :: bool

record diagram_tiers =
  webuis :: "tier_card list"
  backends :: "tier_card list"
  workers :: "tier_card list"
  data_tier :: "tier_card list"

definition role_name :: "node_role \<Rightarrow> string" where
  "role_name r = (case r of RoleBackend \<Rightarrow> ''backend'' | RoleWorkers \<Rightarrow> ''workers'' | RoleWebui \<Rightarrow> ''webui''
     | RolePostgres \<Rightarrow> ''postgres'' | RoleRedis \<Rightarrow> ''redis'')"

definition tierFor :: "node_role \<Rightarrow> diagram_tiers \<Rightarrow> tier_card list" where
  "tierFor r t = (case r of RoleWebui \<Rightarrow> webuis t | RoleBackend \<Rightarrow> backends t | RoleWorkers \<Rightarrow> workers t
     | _ \<Rightarrow> data_tier t)"

definition set_tier :: "node_role \<Rightarrow> tier_card list \<Rightarrow> diagram_tiers \<Rightarrow> diagram_tiers" where
  "set_tier r cs t = (case r of RoleWebui \<Rightarrow> t\<lparr>webuis := cs\<rparr> | RoleBackend \<Rightarrow> t\<lparr>backends := cs\<rparr>
     | RoleWorkers \<Rightarrow> t\<lparr>workers := cs\<rparr> | _ \<Rightarrow> t\<lparr>data_tier := cs\<rparr>)"

definition add_to_tier :: "tier_card \<Rightarrow> tier_card list \<Rightarrow> tier_card list" where
  "add_to_tier tcard tier =
     (if list_ex (\<lambda>c. tc_key c = tc_key tcard) tier
      then update_first (\<lambda>c. tc_key c = tc_key tcard)
             (\<lambda>c. c\<lparr>tc_clusters := dedup (tc_clusters c @ tc_clusters tcard), tc_isNew := tc_isNew c \<or> tc_isNew tcard\<rparr>) tier
      else tier @ [tcard])"

definition add_card :: "tier_card \<Rightarrow> diagram_tiers \<Rightarrow> diagram_tiers" where
  "add_card tcard t = set_tier (tc_role tcard) (add_to_tier tcard (tierFor (tc_role tcard) t)) t"

definition host_nodes :: "diagram_host \<Rightarrow> diagram_node list" where
  "host_nodes h = (if dh_nodes h \<noteq> [] then dh_nodes h
     else map (\<lambda>r. \<lparr>dn_role = r, dn_identifier = None, dn_state = None, dn_isSelf = False\<rparr>) (dh_roles h))"

definition node_card :: "diagram_cluster \<Rightarrow> diagram_host \<Rightarrow> diagram_node \<Rightarrow> tier_card" where
  "node_card c h n =
     \<lparr>tc_key = role_name (dn_role n) @ '':'' @ dh_key h @ '':'' @ (case dn_identifier n of None \<Rightarrow> [] | Some i \<Rightarrow> i),
      tc_role = dn_role n, tc_host = dh_name h, tc_address = dh_address h, tc_clusters = [dc_name c],
      tc_identifier = dn_identifier n, tc_state = dn_state n, tc_isNew = dh_isNew h, tc_isSelf = dn_isSelf n\<rparr>"

definition service_card :: "diagram_cluster \<Rightarrow> node_role \<Rightarrow> diagram_service \<Rightarrow> tier_card" where
  "service_card c r s =
     \<lparr>tc_key = role_name r @ '':'' @ ds_label s, tc_role = r,
      tc_host = (case ds_host s of None \<Rightarrow> ''external'' | Some h \<Rightarrow> h), tc_address = None,
      tc_clusters = [dc_name c], tc_identifier = Some (ds_label s), tc_state = None,
      tc_isNew = ds_isNew s, tc_isSelf = False\<rparr>"

definition service_cards :: "diagram_cluster \<Rightarrow> tier_card list" where
  "service_cards c =
     (case dc_postgres c of None \<Rightarrow> [] | Some s \<Rightarrow> [service_card c RolePostgres s])
     @ (case dc_redis c of None \<Rightarrow> [] | Some s \<Rightarrow> [service_card c RoleRedis s])"

definition cluster_cards :: "diagram_cluster \<Rightarrow> tier_card list" where
  "cluster_cards c =
     concat (map (\<lambda>h. map (node_card c h) (host_nodes h)) (dc_hosts c)) @ service_cards c"

definition standalone_card :: "diagram_host \<Rightarrow> node_role \<Rightarrow> tier_card" where
  "standalone_card h r =
     \<lparr>tc_key = role_name r @ '':standalone'', tc_role = r, tc_host = dh_name h, tc_address = dh_address h,
      tc_clusters = [], tc_identifier = Some ''for other hosts'', tc_state = None, tc_isNew = True,
      tc_isSelf = False\<rparr>"

definition standalone_cards :: "diagram_host option \<Rightarrow> planned_install option \<Rightarrow> tier_card list" where
  "standalone_cards standalone plan =
     (case standalone of
        None \<Rightarrow> []
      | Some h \<Rightarrow> map (standalone_card h)
          (filter (\<lambda>r. case plan of None \<Rightarrow> False | Some p \<Rightarrow> installs p r) [RolePostgres, RoleRedis]))"

definition self_card :: "diagram_cluster list \<Rightarrow> tier_card" where
  "self_card clusters =
     \<lparr>tc_key = ''webui:self'', tc_role = RoleWebui, tc_host = ''This WebUI'', tc_address = None,
      tc_clusters = map dc_name (filter (\<lambda>c. \<not> dc_isNew c) clusters), tc_identifier = None, tc_state = None,
      tc_isNew = False, tc_isSelf = True\<rparr>"

definition no_tiers :: diagram_tiers where
  "no_tiers = \<lparr>webuis = [], backends = [], workers = [], data_tier = []\<rparr>"

definition buildTiers ::
  "diagram_cluster list \<Rightarrow> diagram_host option \<Rightarrow> planned_install option \<Rightarrow> diagram_tiers" where
  "buildTiers clusters standalone plan =
     (let tiers = fold add_card (concat (map cluster_cards clusters) @ standalone_cards standalone plan) no_tiers
      in if list_ex tc_isSelf (webuis tiers) then tiers
         else tiers\<lparr>webuis := self_card clusters # webuis tiers\<rparr>)"

section \<open>Properties of the tiers\<close>

definition same_tier :: "node_role \<Rightarrow> node_role \<Rightarrow> bool" where
  "same_tier r r' \<longleftrightarrow> r = r' \<or> is_store r \<and> is_store r'"

lemma tierFor_add:
  "tierFor r (add_card c t) = (if same_tier r (tc_role c) then add_to_tier c (tierFor r t) else tierFor r t)"
  by (cases r; cases "tc_role c") (simp_all add: add_card_def set_tier_def tierFor_def same_tier_def is_store_def)

lemma tierFor_fold:
  "tierFor r (fold add_card cs t) = fold add_to_tier (filter (\<lambda>c. same_tier r (tc_role c)) cs) (tierFor r t)"
  by (induction cs arbitrary: t) (simp_all add: tierFor_add)

lemma tierFor_no_tiers [simp]: "tierFor r no_tiers = []"
  by (cases r) (simp_all add: tierFor_def no_tiers_def)

lemma keys_add_to_tier:
  "map tc_key (add_to_tier c ts) = (if tc_key c \<in> tc_key ` set ts then map tc_key ts else map tc_key ts @ [tc_key c])"
  by (auto simp: add_to_tier_def map_update_first list_ex_iff intro: rev_image_eqI)

lemma distinct_add_to_tier: "distinct (map tc_key ts) \<Longrightarrow> distinct (map tc_key (add_to_tier c ts))"
  by (simp add: keys_add_to_tier)

lemma keys_fold_tier: "set (map tc_key (fold add_to_tier cs ts)) = tc_key ` set ts \<union> tc_key ` set cs"
proof (induction cs arbitrary: ts)
  case (Cons c cs)
  have "tc_key ` set (add_to_tier c ts) = insert (tc_key c) (tc_key ` set ts)"
    using arg_cong [OF keys_add_to_tier [of c ts], of set] by (auto split: if_splits)
  with Cons show ?case by auto
qed simp

lemma distinct_fold_tier: "distinct (map tc_key ts) \<Longrightarrow> distinct (map tc_key (fold add_to_tier cs ts))"
  by (induction cs arbitrary: ts) (simp_all add: distinct_add_to_tier)

text \<open>What the cards of a tier say about one service: the clusters they name, whether one of them is new.\<close>

definition named :: "string \<Rightarrow> tier_card list \<Rightarrow> string set" where
  "named k ts = (\<Union>c \<in> {c \<in> set ts. tc_key c = k}. set (tc_clusters c))"

definition any_new :: "string \<Rightarrow> tier_card list \<Rightarrow> bool" where
  "any_new k ts \<longleftrightarrow> (\<exists>c \<in> set ts. tc_key c = k \<and> tc_isNew c)"

lemma add_to_tier_same:
  assumes "tc_key c \<in> tc_key ` set ts"
  obtains us x vs where "ts = us @ x # vs" "tc_key x = tc_key c"
    "add_to_tier c ts = us @ x\<lparr>tc_clusters := dedup (tc_clusters x @ tc_clusters c), tc_isNew := tc_isNew x \<or> tc_isNew c\<rparr> # vs"
proof -
  have ex: "list_ex (\<lambda>x. tc_key x = tc_key c) ts" using assms by (auto simp: list_ex_iff)
  show thesis
    by (rule update_first_split [OF ex, where f = "\<lambda>x. x\<lparr>tc_clusters := dedup (tc_clusters x @ tc_clusters c),
        tc_isNew := tc_isNew x \<or> tc_isNew c\<rparr>"])
      (use ex in \<open>auto intro!: that simp: add_to_tier_def\<close>)
qed

lemma add_to_tier_new: "tc_key c \<notin> tc_key ` set ts \<Longrightarrow> add_to_tier c ts = ts @ [c]"
  by (auto simp: add_to_tier_def list_ex_iff intro: rev_image_eqI)

lemma add_to_tier_merges:
  "named k (add_to_tier c ts) = named k ts \<union> named k [c] \<and>
   (any_new k (add_to_tier c ts) \<longleftrightarrow> any_new k ts \<or> any_new k [c])"
proof (cases "tc_key c \<in> tc_key ` set ts")
  case True
  then show ?thesis by (rule add_to_tier_same) (auto simp: named_def any_new_def)
qed (auto simp: add_to_tier_new named_def any_new_def)

lemma merges_Nil [simp]: "named k [] = {}" "\<not> any_new k []"
  by (auto simp: named_def any_new_def)

lemma merges_Cons:
  "NO_MATCH [] cs \<Longrightarrow> named k (c # cs) = named k [c] \<union> named k cs"
  "NO_MATCH [] cs \<Longrightarrow> any_new k (c # cs) \<longleftrightarrow> any_new k [c] \<or> any_new k cs"
  by (auto simp: named_def any_new_def)

lemma fold_tier_merges:
  "named k (fold add_to_tier cs ts) = named k ts \<union> named k cs \<and>
   (any_new k (fold add_to_tier cs ts) \<longleftrightarrow> any_new k ts \<or> any_new k cs)"
  by (induction cs arbitrary: ts) (auto simp: add_to_tier_merges merges_Cons)

text \<open>The cards \<open>buildTiers\<close> adds to a tier, in order.\<close>

definition tier_input ::
  "node_role \<Rightarrow> diagram_cluster list \<Rightarrow> diagram_host option \<Rightarrow> planned_install option \<Rightarrow> tier_card list" where
  "tier_input r clusters standalone plan =
     filter (\<lambda>c. same_tier r (tc_role c)) (concat (map cluster_cards clusters) @ standalone_cards standalone plan)"

lemma tierFor_buildTiers:
  "tierFor r (buildTiers clusters standalone plan) =
     (let ts = fold add_to_tier (tier_input r clusters standalone plan) []
      in if r = RoleWebui \<and> \<not> list_ex tc_isSelf ts then self_card clusters # ts else ts)"
proof -
  define T where "T = fold add_card (concat (map cluster_cards clusters) @ standalone_cards standalone plan) no_tiers"
  have tier: "tierFor r T = fold add_to_tier (tier_input r clusters standalone plan) []" for r
    by (simp add: T_def tierFor_fold tier_input_def del: fold_append)
  have self: "webuis T = tierFor RoleWebui T" by (simp add: tierFor_def)
  have upd: "tierFor r (T\<lparr>webuis := cs\<rparr>) = (if r = RoleWebui then cs else tierFor r T)" for r cs
    by (cases r) (simp_all add: tierFor_def)
  show ?thesis by (simp add: buildTiers_def T_def [symmetric] Let_def self tier upd del: fold_append)
qed

lemma tier_input_keys:
  assumes "c \<in> set (tier_input RoleWebui clusters standalone plan)"
  shows "tc_key c \<noteq> ''webui:self''"
proof -
  have ne: "role_name r @ '':'' @ h @ '':'' @ i \<noteq> ''webui:self''" for r h i
    by (cases r) (auto simp: role_name_def Cons_eq_append_conv append_eq_Cons_conv)
  have "c \<in> set (concat (map cluster_cards clusters) @ standalone_cards standalone plan)" "tc_role c = RoleWebui"
    using assms by (auto simp: tier_input_def same_tier_def is_store_def)
  then show ?thesis using ne
    by (auto simp: cluster_cards_def node_card_def service_cards_def service_card_def standalone_cards_def standalone_card_def
      split: option.splits if_splits)
qed

text \<open>
  The tiers hold every service once. In each tier the keys of the cards are distinct; the keys are those of the
  services of the diagram (and of this WebUI, when no drawn WebUI is it); and the cards with a key name exactly
  the clusters of the services with that key and are marked new exactly when one of them is.
\<close>

lemma buildTiers_merges:
  "distinct (map tc_key (tierFor r (buildTiers clusters standalone plan))) \<and>
   (let cs = tier_input r clusters standalone plan; ts = tierFor r (buildTiers clusters standalone plan)
    in tc_key ` set ts - {''webui:self''} = tc_key ` set cs - {''webui:self''} \<and>
       (\<forall>k. k = ''webui:self'' \<or> named k ts = named k cs \<and> any_new k ts = any_new k cs))"
proof -
  let ?cs = "tier_input r clusters standalone plan"
  let ?ts = "fold add_to_tier ?cs []"
  have d: "distinct (map tc_key ?ts)" by (rule distinct_fold_tier) simp
  have k: "tc_key ` set ?ts = tc_key ` set ?cs" using keys_fold_tier [of ?cs "[]"] by simp
  have m: "named k ?ts = named k ?cs" "any_new k ?ts = any_new k ?cs" for k
    using fold_tier_merges [of k ?cs "[]"] by simp_all
  have self: "tc_key (self_card clusters) = ''webui:self''" by (simp add: self_card_def)
  show ?thesis
  proof (cases "r = RoleWebui \<and> \<not> list_ex tc_isSelf ?ts")
    case True
    have "''webui:self'' \<notin> tc_key ` set ?cs" using True tier_input_keys by fastforce
    moreover have "named k (self_card clusters # ?ts) = named k ?ts" "any_new k (self_card clusters # ?ts) = any_new k ?ts"
      if "k \<noteq> ''webui:self''" for k using that self by (auto simp: named_def any_new_def)
    ultimately show ?thesis using d k m self True by (auto simp: tierFor_buildTiers Let_def)
  next
    case False
    then show ?thesis using d k m by (auto simp: tierFor_buildTiers Let_def)
  qed
qed

section \<open>Properties of the diagram\<close>

lemma existing_not_target: "c \<in> set (existingClusters cs hosts) \<Longrightarrow> \<not> dc_isTarget c \<and> \<not> dc_isNew c"
  by (auto simp: existingClusters_def draw_cluster_def Let_def)

text \<open>What the target cluster of a plan shows: a new host with the planned roles, and the planned stores.\<close>

definition shows_plan :: "planned_install \<Rightarrow> diagram_cluster \<Rightarrow> bool" where
  "shows_plan p c \<longleftrightarrow> dc_isTarget c
     \<and> (\<exists>h \<in> set (dc_hosts c). dh_isNew h \<and> set (plan_roles p) \<subseteq> set (dh_roles h))
     \<and> (installs p RolePostgres \<longrightarrow> dc_postgres c = plan_service p RolePostgres (plan_postgres p))
     \<and> (installs p RoleRedis \<longrightarrow> dc_redis c = plan_service p RoleRedis (plan_redis p))"

lemma shows_plan_cluster: "shows_plan p (plan_cluster p key nm fresh)"
  by (simp add: shows_plan_def plan_cluster_def new_host_def)

lemma join_hosts:
  "\<exists>h \<in> set (dc_hosts (join_cluster p c)). dh_isNew h \<and> set (plan_roles p) \<subseteq> set (dh_roles h)"
proof (cases "list_ex (same_host p) (dc_hosts c)")
  case True
  then obtain us h vs where "update_first (same_host p)
      (\<lambda>h. h\<lparr>dh_isNew := True, dh_roles := dedup (dh_roles h @ plan_roles p)\<rparr>) (dc_hosts c)
      = us @ h\<lparr>dh_isNew := True, dh_roles := dedup (dh_roles h @ plan_roles p)\<rparr> # vs"
    by (rule update_first_split)
  with True show ?thesis by (auto simp: join_cluster_def)
qed (auto simp: join_cluster_def new_host_def)

lemma shows_join_cluster: "shows_plan p (join_cluster p c)"
  using join_hosts [of p c] by (simp add: shows_plan_def join_cluster_def choose_service_def plan_service_def)


definition sample_node :: cluster_node where
  "sample_node = \<lparr>node_role = RoleBackend, node_name = ''api'', node_state = StateHealthy, node_detail = None,
     node_backend_id = Some ''b1'', node_client_id = None, node_connection_id = None, node_is_self = False\<rparr>"

definition sample_hosts :: "string \<Rightarrow> cluster_hosts option" where
  "sample_hosts k = (if k = ''c1'' then Some \<lparr>described_name = ''Home'', described_hosts =
     [\<lparr>chost_key = ''h1'', chost_name = ''box'', chost_address = Some ''10.0.0.5'', chost_roles = [RoleBackend],
       chost_nodes = [sample_node]\<rparr>]\<rparr> else None)"

definition sample_clusters :: "backend_cluster list" where
  "sample_clusters = [\<lparr>bc_id = ''c1'', bc_name = None, bc_connection_ids = [''k1'']\<rparr>]"

definition sample_plan :: planned_install where
  "sample_plan = \<lparr>plan_hostName = ''box'', plan_location = LocationRemote, plan_address = Some ''10.0.0.5'', installs = (\<lambda>r. r = RoleWorkers),
     plan_postgres = None, plan_redis = None, plan_target = TargetExisting None (Some ''k1'')\<rparr>"


text \<open>
  The tiers do not show a role planned for a host that already reports nodes: \<open>buildTiers\<close> reads the nodes of
  such a host and not its roles, so the workers planned above get no card, although the diagram's host lists them.
\<close>

lemma planned_role_not_drawn:
  "map dh_roles (concat (map dc_hosts (fst (buildDiagram (Some sample_plan) sample_clusters sample_hosts))))
     = [[RoleBackend, RoleWorkers]] \<and>
   tierFor RoleWorkers (buildTiers (fst (buildDiagram (Some sample_plan) sample_clusters sample_hosts)) None (Some sample_plan)) = []"
  by code_simp

end
