(* ===== verification/DrivePaths.thy ===== *)
theory DrivePaths
  imports JsPrelude
begin

text \<open>
  Drives and their directories: \<open>features/system/lib/systemUtils.ts\<close>. POSIX path normalisation, containment
  of a directory in a drive, the drive inferred from a group of directories, and the merge of the drives
  named in the settings into the drives a backend reports. \<open>localeCompare\<close> depends on the host's locale and is
  a parameter; byte counts are integers.
\<close>

section \<open>Data\<close>

record drive_info =
  drive_path :: string
  drive_device :: string
  total_bytes :: int
  used_bytes :: int
  free_bytes :: int
  percent_used :: rat
  is_configured :: bool
  directory_count :: nat
  configured_directories :: "string list"
  is_available :: "bool option"

record staging_directory =
  sd_path :: string
  sd_usage :: "string list"
  sd_policy :: "string list"
  sd_min_free_bytes :: "int option"

record drive_settings =
  directories :: "string list"

record download_setup =
  dl_drives :: "drive_settings list"
  alt_directory_formats :: "string list"
  staging_directories :: "staging_directory list"
  dl_directory_format :: string
  filename_format :: string
  text_length :: int
  date_format :: string
  overwrite_files :: bool

record metadata_setup =
  md_drives :: "drive_settings list"
  md_directory_format :: string

record settings_response =
  download_setup :: download_setup
  metadata_setup :: metadata_setup

section \<open>Paths\<close>

fun normalize_segments :: "bool \<Rightarrow> string list \<Rightarrow> string list \<Rightarrow> string list" where
  "normalize_segments isAbsolute acc [] = acc"
| "normalize_segments isAbsolute acc (segment # segments) =
     (if segment = [] \<or> segment = ''.'' then normalize_segments isAbsolute acc segments
      else if segment = ''..'' then
        normalize_segments isAbsolute
          (if acc \<noteq> [] \<and> last acc \<noteq> ''..'' then butlast acc
           else if \<not> isAbsolute then acc @ [''..''] else acc) segments
      else normalize_segments isAbsolute (acc @ [segment]) segments)"

definition normalizePosixPath :: "string \<Rightarrow> string" where
  "normalizePosixPath path =
     (if path = [] then ''/''
      else let isAbsolute = starts_with ''/'' path;
               normalized = (if isAbsolute then ''/'' else []) @ join ''/'' (normalize_segments isAbsolute [] (split_on CHR ''/'' path))
           in if normalized = [] then (if isAbsolute then ''/'' else ''.'') else normalized)"

text \<open>\<open>s.slice(0, s.lastIndexOf(c))\<close>, or nothing when \<open>c\<close> does not occur.\<close>

definition before_last :: "char \<Rightarrow> string \<Rightarrow> string option" where
  "before_last c s = (if c \<in> set s then Some (butlast (rev (dropWhile (\<lambda>x. x \<noteq> c) (rev s)))) else None)"

definition dirnamePosixPath :: "string \<Rightarrow> string" where
  "dirnamePosixPath path =
     (let normalized = normalizePosixPath path
      in if normalized = ''/'' \<or> normalized = ''.'' then normalized
         else case before_last CHR ''/'' normalized of
                None \<Rightarrow> ''.''
              | Some p \<Rightarrow> if p = [] then ''/'' else p)"

definition normalizePath :: "string \<Rightarrow> string" where
  "normalizePath path =
     (let normalized = normalizePosixPath path
      in if length normalized > 1 \<and> ends_with ''/'' normalized then butlast normalized else normalized)"

definition isWithinDrive :: "string \<Rightarrow> string \<Rightarrow> bool" where
  "isWithinDrive directory drivePath =
     (let d = normalizePath directory; p = normalizePath drivePath
      in if p = ''/'' then starts_with ''/'' d else d = p \<or> starts_with (p @ ''/'') d)"

fun common_segments :: "string list \<Rightarrow> string list \<Rightarrow> string list" where
  "common_segments (x # xs) (y # ys) = (if x = y then x # common_segments xs ys else [])"
| "common_segments _ _ = []"

definition path_segments :: "string \<Rightarrow> string list" where
  "path_segments s = filter (\<lambda>w. w \<noteq> []) (split_on CHR ''/'' s)"

fun infer_loop :: "string list \<Rightarrow> string list \<Rightarrow> string" where
  "infer_loop common [] = ''/'' @ join ''/'' common"
| "infer_loop common (d # ds) =
     (let c = common_segments common (path_segments d) in if c = [] then ''/'' else infer_loop c ds)"

definition inferDrivePathFromDirectories :: "string list \<Rightarrow> string" where
  "inferDrivePathFromDirectories ds =
     (case filter (\<lambda>d. d \<noteq> []) (map normalizePath ds) of
        [] \<Rightarrow> ''/''
      | [d] \<Rightarrow> normalizePath (dirnamePosixPath d)
      | d # rest \<Rightarrow> infer_loop (path_segments d) rest)"

section \<open>Merging the configured drives\<close>

definition addConfiguredDirectory :: "string \<Rightarrow> drive_info \<Rightarrow> drive_info" where
  "addConfiguredDirectory directory drive =
     (let d = normalizePath directory;
          ds = (if d \<in> set (configured_directories drive) then configured_directories drive
                else configured_directories drive @ [d])
      in drive\<lparr>configured_directories := ds, directory_count := length ds, is_configured := ds \<noteq> []\<rparr>)"

definition live_entry :: "drive_info \<Rightarrow> drive_info" where
  "live_entry drive = drive\<lparr>
     drive_path := normalizePath (drive_path drive),
     configured_directories := map normalizePath (configured_directories drive),
     directory_count := length (configured_directories drive),
     is_available := Some (case is_available drive of Some b \<Rightarrow> b | None \<Rightarrow> True)\<rparr>"

text \<open>A \<open>Map\<close> built from a list keeps the last entry of a key: the drive that \<open>liveDriveMap.get\<close> returns.\<close>

definition update_last :: "('a \<Rightarrow> bool) \<Rightarrow> ('a \<Rightarrow> 'a) \<Rightarrow> 'a list \<Rightarrow> 'a list" where
  "update_last P f xs = rev (update_first P f (rev xs))"

definition unavailable_drive :: "string \<Rightarrow> drive_info" where
  "unavailable_drive p =
     \<lparr>drive_path = p, drive_device = ''Mount unavailable'', total_bytes = 0, used_bytes = 0, free_bytes = 0,
      percent_used = 0, is_configured = True, directory_count = 0, configured_directories = [],
      is_available = Some False\<rparr>"

text \<open>The live entries, the unavailable drives in order of insertion (keyed by their path).\<close>

type_synonym drive_state = "drive_info list \<times> drive_info list"

definition sorted_paths :: "drive_info list \<Rightarrow> string list" where
  "sorted_paths live = sort_cmp (\<lambda>l r. int (length r) - int (length l)) (map drive_path live)"

fun place_directories :: "string list \<Rightarrow> string list \<Rightarrow> drive_info list \<Rightarrow> drive_info list \<times> string list" where
  "place_directories paths [] live = (live, [])"
| "place_directories paths (d # ds) live =
     (case List.find (\<lambda>p. isWithinDrive d p) paths of
        Some p \<Rightarrow>
          if p \<noteq> [] then place_directories paths ds (update_last (\<lambda>x. drive_path x = p) (addConfiguredDirectory d) live)
          else (case place_directories paths ds live of (l, un) \<Rightarrow> (l, d # un))
      | None \<Rightarrow> (case place_directories paths ds live of (l, un) \<Rightarrow> (l, d # un)))"

definition add_unavailable :: "string \<Rightarrow> string \<Rightarrow> drive_info list \<Rightarrow> drive_info list" where
  "add_unavailable p d un =
     (let un' = (if list_ex (\<lambda>x. drive_path x = p) un then un else un @ [unavailable_drive p])
      in update_first (\<lambda>x. drive_path x = p) (addConfiguredDirectory d) un')"

definition place_group :: "string list \<Rightarrow> drive_settings \<Rightarrow> drive_state \<Rightarrow> drive_state" where
  "place_group paths grp st =
     (let ds = map normalizePath (directories grp)
      in if ds = [] then st
         else case place_directories paths ds (fst st) of
                (live, un) \<Rightarrow>
                  if un = [] then (live, snd st)
                  else (live, fold (add_unavailable (inferDrivePathFromDirectories un)) un (snd st)))"

definition configured_groups :: "settings_response option \<Rightarrow> drive_settings list" where
  "configured_groups settings =
     (case settings of None \<Rightarrow> []
      | Some s \<Rightarrow> dl_drives (download_setup s) @ md_drives (metadata_setup s))"

definition mergeConfiguredDrivesWithInventory ::
  "(string \<Rightarrow> string \<Rightarrow> int) \<Rightarrow> drive_info list \<Rightarrow> settings_response option \<Rightarrow> drive_info list" where
  "mergeConfiguredDrivesWithInventory localeCompare liveDrives settings =
     (let live = map live_entry liveDrives;
          st = fold (place_group (sorted_paths live)) (configured_groups settings) (live, [])
      in fst st @ sort_cmp (cmp_on drive_path localeCompare) (snd st))"

record drive_settings_draft =
  downloadDirFormat :: string
  downloadAltDirectoryFormats :: "string list"
  downloadFilenameFormat :: string
  downloadTextLength :: int
  downloadDateFormat :: string
  downloadOverwrite :: bool
  stagingDirectories :: "staging_directory list"
  metadataDirFormat :: string

definition createDriveSettingsDraft :: "settings_response \<Rightarrow> drive_settings_draft" where
  "createDriveSettingsDraft s =
     (let d = download_setup s in
      \<lparr>downloadDirFormat = dl_directory_format d, downloadAltDirectoryFormats = alt_directory_formats d,
       downloadFilenameFormat = filename_format d, downloadTextLength = text_length d,
       downloadDateFormat = date_format d, downloadOverwrite = overwrite_files d,
       stagingDirectories = staging_directories d, metadataDirFormat = md_directory_format (metadata_setup s)\<rparr>)"

definition getWorkerGridClassName :: "int \<Rightarrow> string" where
  "getWorkerGridClassName n =
     (if n \<ge> 32 then ''workers-grid workers-grid-compact''
      else if n \<ge> 16 then ''workers-grid workers-grid-dense'' else ''workers-grid'')"

section \<open>Paths as lists of segments\<close>

text \<open>
  A normalised path is a list of segments, absolute or relative. The segments hold no slash and are not empty
  or a dot; the parent segment occurs only at the start of a relative path.
\<close>

type_synonym segpath = "bool \<times> string list"

definition segment :: "string \<Rightarrow> bool" where
  "segment w \<longleftrightarrow> w \<noteq> [] \<and> w \<noteq> ''.'' \<and> CHR ''/'' \<notin> set w"

fun clean :: "segpath \<Rightarrow> bool" where
  "clean (a, xs) \<longleftrightarrow> list_all segment xs \<and> ''..'' \<notin> set (if a then xs else dropWhile (\<lambda>w. w = ''..'') xs)"

definition path_abs :: "string \<Rightarrow> segpath" where
  "path_abs s = (let a = (s = [] \<or> starts_with ''/'' s) in (a, normalize_segments a [] (split_on CHR ''/'' s)))"

fun show_path :: "segpath \<Rightarrow> string" where
  "show_path (a, xs) = (if a then CHR ''/'' # join ''/'' xs else if xs = [] then ''.'' else join ''/'' xs)"

fun inside :: "segpath \<Rightarrow> segpath \<Rightarrow> bool" where
  "inside (a, xs) (b, ys) \<longleftrightarrow> a = b \<and> (if \<not> b \<and> ys = [] then xs = [] else prefix ys xs)"

lemma segment_dotdot [simp]: "segment ''..''" by (simp add: segment_def)

lemma clean_snoc: "clean (a, xs) \<Longrightarrow> segment w \<Longrightarrow> w \<noteq> ''..'' \<Longrightarrow> clean (a, xs @ [w])"
  by (induction xs) (auto split: if_splits)

lemma clean_butlast: "clean (a, xs) \<Longrightarrow> clean (a, butlast xs)"
proof -
  have "set (dropWhile P (butlast xs)) \<subseteq> set (dropWhile P xs)" for P :: "string \<Rightarrow> bool"
    by (induction xs) (auto dest: in_set_butlastD)
  moreover have "set (butlast xs) \<subseteq> set xs" by (auto dest: in_set_butlastD)
  ultimately show "clean (a, xs) \<Longrightarrow> clean (a, butlast xs)" by (auto simp: list_all_iff split: if_splits)
qed

lemma clean_dotdot:
  assumes "clean (False, xs)" "xs = [] \<or> last xs = ''..''"
  shows "clean (False, xs @ [''..''])"
proof -
  let ?d = "dropWhile (\<lambda>w. w = ''..'') xs"
  have "?d = []"
  proof (rule ccontr)
    assume ne: "?d \<noteq> []"
    have "xs = takeWhile (\<lambda>w. w = ''..'') xs @ ?d" by simp
    then have "last xs = last ?d" "xs \<noteq> []" using ne last_appendR [OF ne] by (metis, auto)
    then have "''..'' \<in> set ?d" using last_in_set [OF ne] assms(2) by simp
    then show False using assms(1) by simp
  qed
  with assms show ?thesis by (simp add: dropWhile_eq_Nil_conv dropWhile_append2)
qed

lemma clean_normalize:
  assumes "clean (a, acc)" "\<forall>w \<in> set ws. CHR ''/'' \<notin> set w"
  shows "clean (a, normalize_segments a acc ws)"
  using assms
proof (induction a acc ws rule: normalize_segments.induct)
  case (2 a acc w ws)
  have seg: "segment w" if "w \<noteq> []" "w \<noteq> ''.''" using that 2 by (simp add: segment_def)
  have "clean (a, if acc \<noteq> [] \<and> last acc \<noteq> ''..'' then butlast acc else if \<not> a then acc @ [''..''] else acc)"
    using 2(4) clean_butlast [OF 2(4)] clean_dotdot [of acc] by (cases a) auto
  then show ?case using 2 seg clean_snoc [OF 2(4) seg] by (simp del: clean.simps)
qed simp

lemma clean_path_abs [simp]: "clean (path_abs s)"
  unfolding path_abs_def Let_def by (rule clean_normalize) (auto dest: split_on_no_sep)

lemma normalize_clean:
  assumes "clean (a, acc @ ws)"
  shows "normalize_segments a acc ws = acc @ ws"
  using assms
proof (induction ws arbitrary: acc)
  case (Cons w ws)
  have w: "w \<noteq> []" "w \<noteq> ''.''" using Cons.prems by (auto simp: segment_def)
  have "normalize_segments a acc (w # ws) = normalize_segments a (acc @ [w]) ws"
  proof (cases "w = ''..''")
    case True
    with Cons.prems have "\<not> a" by auto
    then have all: "\<forall>v \<in> set acc. v = ''..''" using Cons.prems True
      by (cases "\<forall>v \<in> set acc. v = ''..''") (auto simp: dropWhile_append)
    then have "acc = [] \<or> last acc = ''..''" by (metis last_in_set)
    then show ?thesis using True \<open>\<not> a\<close> by auto
  qed (use w in simp)
  also have "\<dots> = (acc @ [w]) @ ws" by (rule Cons.IH) (use Cons.prems in simp)
  finally show ?case by simp
qed simp

lemma last_join:
  assumes "ws \<noteq> []" "list_all segment ws"
  shows "join ''/'' ws \<noteq> [] \<and> last (join ''/'' ws) \<noteq> CHR ''/''"
  using assms
proof (induction ws)
  case (Cons w ws)
  then have "w \<noteq> []" "CHR ''/'' \<notin> set w" by (auto simp: segment_def)
  moreover from this have "last w \<noteq> CHR ''/''" using last_in_set by metis
  ultimately show ?case using Cons by (cases "ws = []") auto
qed simp

lemma normalizePosixPath_show: "normalizePosixPath s = show_path (path_abs s)"
proof -
  obtain a xs where p: "path_abs s = (a, xs)" by force
  with clean_path_abs [of s] have "list_all segment xs" by simp
  then have "join ''/'' xs = [] \<longleftrightarrow> xs = []" using last_join by auto
  then show ?thesis using p
    by (cases "s = []") (auto simp: normalizePosixPath_def path_abs_def Let_def)
qed

lemma hd_join:
  assumes "ws \<noteq> []" "list_all segment ws"
  shows "\<not> starts_with ''/'' (join ''/'' ws)"
proof -
  obtain w ws' where "ws = w # ws'" using assms by (cases ws) auto
  with assms have "w \<noteq> []" "hd w \<in> set w" "CHR ''/'' \<notin> set w" by (auto simp: segment_def)
  with \<open>ws = w # ws'\<close> show ?thesis by (cases "ws' = []"; cases w) (auto simp: starts_with_Cons)
qed

lemma normalizePath_show: "normalizePath s = show_path (path_abs s)"
proof -
  obtain a xs where p: "path_abs s = (a, xs)" by force
  with clean_path_abs [of s] have seg: "list_all segment xs" by simp
  have ends: "ends_with ''/'' t \<longleftrightarrow> t \<noteq> [] \<and> last t = CHR ''/''" for t
    by (cases t rule: rev_cases) (auto simp: ends_with_def starts_with_def)
  show ?thesis using last_join [of xs] seg p
    by (cases "xs = []") (auto simp: normalizePath_def normalizePosixPath_show ends Let_def)
qed

lemma path_abs_show:
  assumes "clean (a, xs)"
  shows "path_abs (show_path (a, xs)) = (a, xs)"
proof (cases "xs = []")
  case False
  have no: "\<forall>w \<in> set xs. CHR ''/'' \<notin> set w" using assms by (auto simp: segment_def list_all_iff)
  have "split_on CHR ''/'' (join ''/'' xs) = xs" by (rule split_on_join [OF False no])
  moreover have "normalize_segments a [] xs = xs" using normalize_clean [of a "[]" xs] assms by simp
  moreover have "join ''/'' xs \<noteq> []" "\<not> starts_with ''/'' (join ''/'' xs)"
    using last_join [OF False] hd_join [OF False] assms by auto
  ultimately show ?thesis using False by (cases a) (auto simp: path_abs_def Let_def starts_with_Cons)
qed (simp add: path_abs_def Let_def starts_with_Cons)

lemma show_path_inject: "clean p \<Longrightarrow> clean q \<Longrightarrow> show_path p = show_path q \<longleftrightarrow> p = q"
  by (cases p, cases q) (metis path_abs_show)

lemma prefix_join:
  assumes "ys \<noteq> []" "list_all segment xs" "list_all segment ys"
  shows "starts_with (join ''/'' ys @ ''/'') (join ''/'' xs) \<longleftrightarrow> strict_prefix ys xs"
proof
  assume "starts_with (join ''/'' ys @ ''/'') (join ''/'' xs)"
  then obtain r where r: "join ''/'' xs = join ''/'' ys @ ''/'' @ r" by (auto simp: starts_with_prefix prefix_def)
  then have "xs \<noteq> []" by auto
  have "join ''/'' xs = join ''/'' (ys @ split_on CHR ''/'' r)" using r join_append [OF assms(1), of "split_on CHR ''/'' r" "''/''"] by simp
  then have "split_on CHR ''/'' (join ''/'' xs) = split_on CHR ''/'' (join ''/'' (ys @ split_on CHR ''/'' r))" by simp
  also have "\<dots> = ys @ split_on CHR ''/'' r"
    by (rule split_on_join) (use assms in \<open>auto simp: segment_def list_all_iff dest: split_on_no_sep\<close>)
  also have "split_on CHR ''/'' (join ''/'' xs) = xs"
    by (rule split_on_join) (use \<open>xs \<noteq> []\<close> assms in \<open>auto simp: segment_def list_all_iff\<close>)
  finally show "strict_prefix ys xs" by (simp add: strict_prefix_def)
next
  assume "strict_prefix ys xs"
  then obtain zs where "xs = ys @ zs" "zs \<noteq> []" by (auto simp: strict_prefix_def prefix_def)
  with assms show "starts_with (join ''/'' ys @ ''/'') (join ''/'' xs)"
    by (simp add: join_append starts_with_prefix prefix_def)
qed

lemma isWithinDrive_within: "isWithinDrive d p \<longleftrightarrow> inside (path_abs d) (path_abs p)"
proof -
  obtain a xs b ys where p: "path_abs d = (a, xs)" "path_abs p = (b, ys)" by force
  have cl: "clean (a, xs)" "clean (b, ys)" using p clean_path_abs by metis+
  have seg: "list_all segment xs" "list_all segment ys" using cl by simp_all
  have eq: "show_path (a, xs) = show_path (b, ys) \<longleftrightarrow> a = b \<and> xs = ys" using show_path_inject [OF cl] by simp
  have rel: "\<not> starts_with ''/'' (join ''/'' xs)" if "xs \<noteq> []" using hd_join [OF that seg(1)] .
  have dot: "\<not> starts_with ''./'' (join ''/'' xs)"
  proof (cases xs)
    case (Cons w ws)
    with seg(1) have "w \<noteq> []" "w \<noteq> ''.''" "CHR ''/'' \<notin> set w" by (auto simp: segment_def)
    then show ?thesis using Cons by (cases w; cases "tl w"; cases "ws = []") (auto simp: starts_with_Cons)
  qed (simp add: starts_with_Cons)
  have root: "show_path (b, ys) = ''/'' \<longleftrightarrow> b \<and> ys = []"
    using show_path_inject [OF cl(2), of "(True, [])"] by simp
  show ?thesis
  proof (cases "ys = []")
    case True
    show ?thesis using True root rel dot eq
      by (cases a; cases b; cases "xs = []") (auto simp: isWithinDrive_def normalizePath_show p Let_def starts_with_Cons)
  next
    case False
    let ?s = "join ''/'' xs" and ?t = "join ''/'' ys"
    have t: "?t \<noteq> []" "hd ?t \<noteq> CHR ''/''" using last_join [OF False seg(2)] hd_join [OF False seg(2)] by (auto simp: starts_with_Cons)
    then have app: "hd (?t @ ''/'') = hd ?t" by simp
    have s: "?s = [] \<or> hd ?s \<noteq> CHR ''/''" using rel by (cases "xs = []") (auto simp: starts_with_Cons)
    have ne: "\<not> starts_with (?t @ ''/'') (CHR ''/'' # u)" for u using t by (cases ?t) (auto simp: starts_with_Cons)
    have one: "\<not> starts_with (?t @ ''/'') ''.''" using t by (cases ?t) (auto simp: starts_with_def)
    show ?thesis using False root eq s t ne one prefix_join [OF False seg(1) seg(2)]
      by (cases a; cases b)
        (auto simp: isWithinDrive_def normalizePath_show p Let_def starts_with_Cons strict_prefix_def)
  qed
qed

lemma path_abs_normalizePath [simp]: "path_abs (normalizePath s) = path_abs s"
  by (metis clean_path_abs normalizePath_show path_abs_show surj_pair)

lemma normalizePath_idem [simp]: "normalizePath (normalizePath s) = normalizePath s"
  by (simp add: normalizePath_show [of "normalizePath s"] normalizePath_show [of s, symmetric])

lemma isWithinDrive_normal [simp]: "isWithinDrive (normalizePath d) p = isWithinDrive d p"
  by (simp add: isWithinDrive_within)

lemma normalizePath_nonempty [simp]: "normalizePath s \<noteq> []"
proof -
  obtain a xs where p: "path_abs s = (a, xs)" by force
  with clean_path_abs [of s] last_join [of xs] show ?thesis by (auto simp: normalizePath_show)
qed

text \<open>
  C15. Paths are lists of segments. Normalising a path writes out its list of segments, which is normal and is read
  back unchanged; and a directory is within a drive exactly when both are absolute or both relative and the
  drive's segments are a prefix of the directory's (only the current directory is within the current directory).
\<close>

theorem normalizePath_refines_segments:
  "clean (path_abs s) \<and> normalizePath s = show_path (path_abs s) \<and> path_abs (normalizePath s) = path_abs s \<and>
   (isWithinDrive s drive \<longleftrightarrow> inside (path_abs s) (path_abs drive))"
  by (simp add: normalizePath_show [symmetric] isWithinDrive_within)

section \<open>The most specific drive\<close>

text \<open>
  Drives that contain a directory form a chain, ordered by depth. Then the first match in a list sorted by
  decreasing depth lies within every other match.
\<close>

locale containment =
  fixes holds :: "'d \<Rightarrow> 'd \<Rightarrow> bool" and depth :: "'d \<Rightarrow> nat"
  assumes chain: "holds d p \<Longrightarrow> holds d q \<Longrightarrow> depth p \<le> depth q \<Longrightarrow> holds q p"
begin

lemma first_most_specific:
  assumes "sorted_wrt (\<lambda>p q. depth q \<le> depth p) ps" "List.find (holds d) ps = Some p" "q \<in> set ps" "holds d q"
  shows "holds p q"
proof -
  obtain i where i: "i < length ps" "holds d p" "p = ps ! i" "\<forall>j < i. \<not> holds d (ps ! j)"
    using assms(2) by (auto simp: find_Some_iff)
  obtain k where k: "k < length ps" "q = ps ! k" using assms(3) by (auto simp: in_set_conv_nth)
  with i assms(4) have "i \<le> k" by (meson not_less)
  then have "depth q \<le> depth p"
    using sorted_wrt_nth_less [OF assms(1), of i k] i(1,3) k by (cases "i = k") auto
  then show ?thesis using chain [OF assms(4) i(2)] by simp
qed

end

lemma length_show_prefix:
  assumes "clean (a, xs)" "prefix ys xs" "ys \<noteq> xs" "a \<or> ys \<noteq> []"
  shows "length (show_path (a, ys)) < length (show_path (a, xs))"
proof -
  obtain zs where zs: "xs = ys @ zs" "zs \<noteq> []" using assms by (auto simp: prefix_def)
  have "join ''/'' zs \<noteq> []" using last_join [OF zs(2)] assms(1) zs(1) by simp
  with zs assms(4) show ?thesis by (cases "ys = []") (auto simp: join_append)
qed

interpretation drives: containment isWithinDrive "\<lambda>p. length (normalizePath p)"
proof
  fix d p q assume within: "isWithinDrive d p" "isWithinDrive d q" and len: "length (normalizePath p) \<le> length (normalizePath q)"
  obtain a xs b ys c zs where abs: "path_abs d = (a, xs)" "path_abs p = (b, ys)" "path_abs q = (c, zs)" by force
  have cl: "clean (b, ys)" using abs clean_path_abs by metis
  have "ys = zs \<or> \<not> prefix zs ys" if "\<not> (\<not> c \<and> zs = [])"
    using length_show_prefix [OF cl, of zs] len that within by (auto simp: isWithinDrive_within abs normalizePath_show)
  then show "isWithinDrive q p" using within prefix_same_cases [of ys xs zs]
    by (auto simp: isWithinDrive_within abs split: if_splits)
qed

section \<open>Every configured directory is on a drive\<close>

definition holds_dir :: "string \<Rightarrow> string \<Rightarrow> drive_info list \<Rightarrow> bool" where
  "holds_dir p d ds \<longleftrightarrow> (\<exists>x \<in> set ds. drive_path x = p \<and> d \<in> set (configured_directories x))"

text \<open>What adding a directory leaves as it is.\<close>

definition drive_frame :: "drive_info \<Rightarrow> string \<times> string \<times> int \<times> int \<times> int \<times> rat \<times> bool option" where
  "drive_frame x = (drive_path x, drive_device x, total_bytes x, used_bytes x, free_bytes x, percent_used x, is_available x)"

lemma addConfiguredDirectory_simps [simp]:
  "drive_frame (addConfiguredDirectory d x) = drive_frame x"
  "drive_path (addConfiguredDirectory d x) = drive_path x"
  "is_available (addConfiguredDirectory d x) = is_available x"
  "set (configured_directories (addConfiguredDirectory d x)) = insert (normalizePath d) (set (configured_directories x))"
  by (auto simp: addConfiguredDirectory_def drive_frame_def Let_def)

lemma paths_frame: "map drive_frame xs = map drive_frame ys \<Longrightarrow> map drive_path xs = map drive_path ys"
proof -
  have "map drive_path xs = map fst (map drive_frame xs)" for xs by (simp add: drive_frame_def)
  then show "map drive_frame xs = map drive_frame ys \<Longrightarrow> map drive_path xs = map drive_path ys" by metis
qed

lemma update_first_holds:
  "holds_dir p' d' (update_first (\<lambda>x. drive_path x = p) (addConfiguredDirectory d) xs) \<longleftrightarrow>
     holds_dir p' d' xs \<or> p' = p \<and> d' = normalizePath d \<and> p \<in> drive_path ` set xs"
  by (induction xs) (auto simp: holds_dir_def)

lemma update_last_holds:
  "holds_dir p' d' (update_last (\<lambda>x. drive_path x = p) (addConfiguredDirectory d) xs) \<longleftrightarrow>
     holds_dir p' d' xs \<or> p' = p \<and> d' = normalizePath d \<and> p \<in> drive_path ` set xs"
  using update_first_holds [of p' d' p d "rev xs"] by (simp add: update_last_def holds_dir_def)

lemma update_last_frame [simp]: "map drive_frame (update_last P (addConfiguredDirectory d) xs) = map drive_frame xs"
  by (simp add: update_last_def map_update_first flip: rev_map)

lemma place_directories_spec:
  assumes "place_directories paths ds live = (live', un)" "[] \<notin> set paths" "set paths = drive_path ` set live"
  shows "map drive_frame live' = map drive_frame live"
    and "un = filter (\<lambda>d. List.find (isWithinDrive d) paths = None) ds"
    and "holds_dir p e live \<Longrightarrow> holds_dir p e live'"
    and "d \<in> set ds \<Longrightarrow> List.find (isWithinDrive d) paths = Some q \<Longrightarrow> holds_dir q (normalizePath d) live'"
proof -
  have "map drive_frame live' = map drive_frame live \<and> un = filter (\<lambda>d. List.find (isWithinDrive d) paths = None) ds
    \<and> (\<forall>p e. holds_dir p e live \<longrightarrow> holds_dir p e live')
    \<and> (\<forall>d \<in> set ds. \<forall>q. List.find (isWithinDrive d) paths = Some q \<longrightarrow> holds_dir q (normalizePath d) live')"
    using assms
  proof (induction paths ds live arbitrary: live' un rule: place_directories.induct)
    case (2 paths d ds live)
    show ?case
    proof (cases "List.find (isWithinDrive d) paths")
      case None
      obtain l u where r: "place_directories paths ds live = (l, u)" by force
      with 2(1) [OF None] 2(4-) None show ?thesis by simp
    next
      case (Some p)
      then have p: "p \<in> set paths" "p \<noteq> []" using 2(5) by (auto simp: find_Some_iff in_set_conv_nth)
      let ?l = "update_last (\<lambda>x. drive_path x = p) (addConfiguredDirectory d) live"
      have r: "place_directories paths ds ?l = (live', un)" using 2(4) Some p by simp
      have eq: "set paths = drive_path ` set ?l"
        using 2(6) arg_cong [OF paths_frame [OF update_last_frame], of set] by simp
      have ih: "map drive_frame live' = map drive_frame ?l \<and> un = filter (\<lambda>d. List.find (isWithinDrive d) paths = None) ds
        \<and> (\<forall>p e. holds_dir p e ?l \<longrightarrow> holds_dir p e live')
        \<and> (\<forall>d \<in> set ds. \<forall>q. List.find (isWithinDrive d) paths = Some q \<longrightarrow> holds_dir q (normalizePath d) live')"
        by (rule 2(2) [OF Some p(2) r 2(5) eq])
      have "holds_dir p (normalizePath d) ?l" using p 2(6) by (simp add: update_last_holds)
      then show ?thesis using ih Some by (auto simp: update_last_holds)
    qed
  qed simp
  then show "map drive_frame live' = map drive_frame live"
    "un = filter (\<lambda>d. List.find (isWithinDrive d) paths = None) ds"
    "holds_dir p e live \<Longrightarrow> holds_dir p e live'"
    "d \<in> set ds \<Longrightarrow> List.find (isWithinDrive d) paths = Some q \<Longrightarrow> holds_dir q (normalizePath d) live'" by blast+
qed

lemma add_unavailable_holds:
  "holds_dir p' d' (add_unavailable p d un) \<longleftrightarrow> holds_dir p' d' un \<or> p' = p \<and> d' = normalizePath d"
proof -
  have snoc: "holds_dir p' d' (un @ [unavailable_drive p]) = holds_dir p' d' un"
    by (auto simp: holds_dir_def unavailable_drive_def)
  have "p \<in> drive_path ` set (un @ [unavailable_drive p])" by (simp add: unavailable_drive_def)
  moreover have "p \<in> drive_path ` set un" if "list_ex (\<lambda>x. drive_path x = p) un" using that by (auto simp: list_ex_iff)
  ultimately show ?thesis by (simp add: add_unavailable_def Let_def update_first_holds snoc)
qed

lemma fold_unavailable_holds:
  "holds_dir p' d' (fold (add_unavailable p) ds un) \<longleftrightarrow> holds_dir p' d' un \<or> p' = p \<and> d' \<in> normalizePath ` set ds"
  by (induction ds arbitrary: un) (auto simp: add_unavailable_holds)

text \<open>The drive of the settings' directory \<open>d\<close>: the longest live path around it, or a drive of its own.\<close>

lemma place_group_spec:
  assumes "[] \<notin> set paths" "set paths = drive_path ` set (fst st)" "place_group paths grp st = (live', un')"
  shows "map drive_frame live' = map drive_frame (fst st)"
    and "holds_dir p e (fst st) \<Longrightarrow> holds_dir p e live'"
    and "holds_dir p e (snd st) \<Longrightarrow> holds_dir p e un'"
    and "d \<in> set (directories grp) \<Longrightarrow> List.find (isWithinDrive d) paths = Some q \<Longrightarrow> holds_dir q (normalizePath d) live'"
    and "d \<in> set (directories grp) \<Longrightarrow> List.find (isWithinDrive d) paths = None \<Longrightarrow> \<exists>q. holds_dir q (normalizePath d) un'"
proof -
  let ?ds = "map normalizePath (directories grp)"
  obtain l u where r: "place_directories paths ?ds (fst st) = (l, u)" by force
  have live: "live' = l"
    using assms(3) r by (cases "?ds = []") (auto simp: place_group_def Let_def split: if_splits)
  have un: "un' = (if u = [] then snd st else fold (add_unavailable (inferDrivePathFromDirectories u)) u (snd st))"
    using assms(3) r by (cases "?ds = []") (auto simp: place_group_def Let_def split: if_splits)
  note spec = place_directories_spec [OF r assms(1,2)]
  show "map drive_frame live' = map drive_frame (fst st)" using spec(1) live by simp
  show "holds_dir p e (fst st) \<Longrightarrow> holds_dir p e live'" using spec(3) live by simp
  show "holds_dir p e (snd st) \<Longrightarrow> holds_dir p e un'" using un by (simp add: fold_unavailable_holds)
  have find: "List.find (isWithinDrive (normalizePath d)) paths = List.find (isWithinDrive d) paths" for d
    by (simp cong: find_cong)
  show "holds_dir q (normalizePath d) live'" if "d \<in> set (directories grp)" "List.find (isWithinDrive d) paths = Some q"
    using spec(4) [of "normalizePath d" q] that live find by simp
  show "\<exists>q. holds_dir q (normalizePath d) un'" if "d \<in> set (directories grp)" "List.find (isWithinDrive d) paths = None"
  proof -
    have "normalizePath d \<in> set u" using spec(2) that find by simp
    then have "u \<noteq> []" "normalizePath d \<in> normalizePath ` set u" using imageI [of "normalizePath d" "set u" normalizePath] by auto
    then show ?thesis using un by (auto simp: fold_unavailable_holds)
  qed
qed

lemma place_groups_spec:
  assumes "[] \<notin> set paths" "set paths = drive_path ` set (fst st)" "fold (place_group paths) gs st = (live', un')"
  shows "map drive_frame live' = map drive_frame (fst st)"
    and "holds_dir p e (fst st) \<Longrightarrow> holds_dir p e live'"
    and "holds_dir p e (snd st) \<Longrightarrow> holds_dir p e un'"
    and "g \<in> set gs \<Longrightarrow> d \<in> set (directories g) \<Longrightarrow> List.find (isWithinDrive d) paths = Some q \<Longrightarrow> holds_dir q (normalizePath d) live'"
    and "g \<in> set gs \<Longrightarrow> d \<in> set (directories g) \<Longrightarrow> List.find (isWithinDrive d) paths = None \<Longrightarrow> \<exists>q. holds_dir q (normalizePath d) un'"
proof -
  have "map drive_frame live' = map drive_frame (fst st) \<and>
    (\<forall>p e. holds_dir p e (fst st) \<longrightarrow> holds_dir p e live') \<and> (\<forall>p e. holds_dir p e (snd st) \<longrightarrow> holds_dir p e un') \<and>
    (\<forall>g \<in> set gs. \<forall>d \<in> set (directories g). case List.find (isWithinDrive d) paths of
        Some q \<Rightarrow> holds_dir q (normalizePath d) live' | None \<Rightarrow> \<exists>q. holds_dir q (normalizePath d) un')"
    using assms
  proof (induction gs arbitrary: st)
    case (Cons g gs)
    obtain l u where r: "place_group paths g st = (l, u)" by force
    note one = place_group_spec [OF Cons.prems(1,2) r]
    have eq: "set paths = drive_path ` set (fst (l, u))"
      using Cons.prems(2) arg_cong [OF paths_frame [OF one(1)], of set] by simp
    have rest: "fold (place_group paths) gs (l, u) = (live', un')" using Cons.prems(3) r by simp
    note ih = Cons.IH [OF Cons.prems(1) eq rest]
    show ?case
    proof (intro conjI allI impI ballI)
      fix g' d assume "g' \<in> set (g # gs)" and d: "d \<in> set (directories g')"
      then consider "g' = g" | "g' \<in> set gs" by auto
      then show "case List.find (isWithinDrive d) paths of
        Some q \<Rightarrow> holds_dir q (normalizePath d) live' | None \<Rightarrow> \<exists>q. holds_dir q (normalizePath d) un'"
      proof cases
        case 1
        then show ?thesis using one(4,5) [of d] d ih by (cases "List.find (isWithinDrive d) paths") (auto, blast)
      qed (use ih d in blast)
    qed (use ih one in \<open>auto\<close>)
  qed auto
  then show "map drive_frame live' = map drive_frame (fst st)"
    "holds_dir p e (fst st) \<Longrightarrow> holds_dir p e live'" "holds_dir p e (snd st) \<Longrightarrow> holds_dir p e un'"
    "g \<in> set gs \<Longrightarrow> d \<in> set (directories g) \<Longrightarrow> List.find (isWithinDrive d) paths = Some q \<Longrightarrow> holds_dir q (normalizePath d) live'"
    "g \<in> set gs \<Longrightarrow> d \<in> set (directories g) \<Longrightarrow> List.find (isWithinDrive d) paths = None \<Longrightarrow> \<exists>q. holds_dir q (normalizePath d) un'"
    by (auto dest!: bspec)
qed


lemma sorted_paths_sorted: "sorted_wrt (\<lambda>p q. length q \<le> length p) (sorted_paths ds)"
proof -
  have "comparator (\<lambda>l r :: string. int (length r) - int (length l))" by unfold_locales auto
  from comparator.sorted_sort_cmp [OF this, of "map drive_path ds"] show ?thesis
    by (simp add: sorted_paths_def)
qed

lemma merge_lists_directory:
  assumes "g \<in> set (configured_groups settings)" "d \<in> set (directories g)"
  shows "\<exists>x \<in> set (mergeConfiguredDrivesWithInventory localeCompare live settings). normalizePath d \<in> set (configured_directories x)"
proof -
  let ?live = "map live_entry live"
  let ?ps = "sorted_paths ?live"
  obtain l u where r: "fold (place_group ?ps) (configured_groups settings) (?live, []) = (l, u)" by force
  have paths: "set ?ps = drive_path ` set ?live" by (auto simp: sorted_paths_def)
  have ne: "[] \<notin> set ?ps" using paths normalizePath_nonempty [symmetric] by (auto simp: live_entry_def)
  note spec = place_groups_spec [OF ne _ r, unfolded fst_conv, OF paths]
  have "\<exists>q. holds_dir q (normalizePath d) (l @ u)"
    using spec(4,5) [OF assms] by (cases "List.find (isWithinDrive d) ?ps") (auto simp: holds_dir_def)
  then show ?thesis by (auto simp: mergeConfiguredDrivesWithInventory_def r Let_def holds_dir_def)
qed

text \<open>
  The merge loses no drive and no directory. The live drives come first and keep everything but their
  directories, paths normalised. Every directory of the settings is listed (normalised) on a drive of the result:
  if live drives contain it, on one of them that lies within all the live drives that contain it; otherwise on
  one of the drives after the live ones, which are the unavailable drives.
\<close>

lemma merge_places_every_directory:
  assumes "g \<in> set (configured_groups settings)" "d \<in> set (directories g)"
  shows "let merged = mergeConfiguredDrivesWithInventory localeCompare live settings; n = length live in
     map drive_frame (take n merged) = map (drive_frame \<circ> live_entry) live \<and>
     (if list_ex (\<lambda>x. isWithinDrive d (drive_path x)) live
      then list_ex (\<lambda>x. normalizePath d \<in> set (configured_directories x) \<and> isWithinDrive d (drive_path x) \<and>
             list_all (\<lambda>y. isWithinDrive d (drive_path y) \<longrightarrow> isWithinDrive (drive_path x) (drive_path y)) live) (take n merged)
      else list_ex (\<lambda>x. normalizePath d \<in> set (configured_directories x)) (drop n merged))"
proof -
  let ?live = "map live_entry live"
  let ?ps = "sorted_paths ?live"
  obtain l u where r: "fold (place_group ?ps) (configured_groups settings) (?live, []) = (l, u)" by force
  have paths: "set ?ps = drive_path ` set ?live" by (auto simp: sorted_paths_def)
  have norm: "drive_path (live_entry x) = normalizePath (drive_path x)" for x by (simp add: live_entry_def)
  have ne: "[] \<notin> set ?ps" using paths norm normalizePath_nonempty [symmetric] by auto
  note spec = place_groups_spec [OF ne _ r, unfolded fst_conv, OF paths]
  have len: "length l = length live" using arg_cong [OF spec(1), of length] by simp
  have res: "mergeConfiguredDrivesWithInventory localeCompare live settings = l @ sort_cmp (cmp_on drive_path localeCompare) u"
    by (simp add: mergeConfiguredDrivesWithInventory_def r Let_def)
  have same: "isWithinDrive e (normalizePath p) = isWithinDrive e p" for e p by (simp add: isWithinDrive_within)
  show ?thesis
  proof (cases "List.find (isWithinDrive d) ?ps")
    case None
    then have "\<not> list_ex (\<lambda>x. isWithinDrive d (drive_path x)) live"
      using paths norm by (auto simp: find_None_iff list_ex_iff same)
    moreover obtain q where "holds_dir q (normalizePath d) u" using spec(5) [OF assms None] by blast
    ultimately show ?thesis using res len spec(1) by (auto simp: holds_dir_def list_ex_iff Let_def)
  next
    case (Some q)
    have q: "q \<in> set ?ps" "isWithinDrive d q" using Some by (auto simp: find_Some_iff in_set_conv_nth)
    then have ex: "list_ex (\<lambda>x. isWithinDrive d (drive_path x)) live"
      using paths norm by (auto simp: list_ex_iff same)
    obtain x where x: "x \<in> set l" "drive_path x = q" "normalizePath d \<in> set (configured_directories x)"
      using spec(4) [OF assms Some] by (auto simp: holds_dir_def)
    have sorted: "sorted_wrt (\<lambda>p q. length (normalizePath q) \<le> length (normalizePath p)) ?ps"
      by (rule sorted_wrt_mono_rel [OF _ sorted_paths_sorted]) (use paths norm in auto)
    have "isWithinDrive q (drive_path y)" if y: "y \<in> set live" "isWithinDrive d (drive_path y)" for y
    proof -
      have "normalizePath (drive_path y) \<in> set ?ps" using y(1) paths by (auto simp flip: norm)
      then show ?thesis
        using drives.first_most_specific [OF sorted Some, of "normalizePath (drive_path y)"] y(2) by (simp add: same)
    qed
    then have "list_all (\<lambda>y. isWithinDrive d (drive_path y) \<longrightarrow> isWithinDrive (drive_path x) (drive_path y)) live"
      using x by (simp add: list_all_iff)
    then show ?thesis using res len spec(1) ex x q(2) by (auto simp: list_ex_iff Let_def)
  qed
qed

definition sample_drive :: "string \<Rightarrow> drive_info" where
  "sample_drive p = \<lparr>drive_path = p, drive_device = ''sda'', total_bytes = 100, used_bytes = 40, free_bytes = 60,
     percent_used = 40, is_configured = False, directory_count = 0, configured_directories = [], is_available = None\<rparr>"

definition sample_settings :: settings_response where
  "sample_settings = \<lparr>download_setup = \<lparr>dl_drives = [\<lparr>directories = [''/mnt/a/./x'']\<rparr>], alt_directory_formats = [],
     staging_directories = [], dl_directory_format = [], filename_format = [], text_length = 0, date_format = [],
     overwrite_files = False\<rparr>, metadata_setup = \<lparr>md_drives = [], md_directory_format = []\<rparr>\<rparr>"

lemma merge_places_every_directory_witness:
  "let merged = mergeConfiguredDrivesWithInventory (cmp_on length cmp_num) [sample_drive ''/'', sample_drive ''/mnt/a/''] (Some sample_settings);
       n = length [sample_drive ''/'', sample_drive ''/mnt/a/''] in
     map drive_frame (take n merged) = map (drive_frame \<circ> live_entry) [sample_drive ''/'', sample_drive ''/mnt/a/''] \<and>
     (if list_ex (\<lambda>x. isWithinDrive ''/mnt/a/./x'' (drive_path x)) [sample_drive ''/'', sample_drive ''/mnt/a/'']
      then list_ex (\<lambda>x. normalizePath ''/mnt/a/./x'' \<in> set (configured_directories x) \<and> isWithinDrive ''/mnt/a/./x'' (drive_path x) \<and>
             list_all (\<lambda>y. isWithinDrive ''/mnt/a/./x'' (drive_path y) \<longrightarrow> isWithinDrive (drive_path x) (drive_path y))
               [sample_drive ''/'', sample_drive ''/mnt/a/'']) (take n merged)
      else list_ex (\<lambda>x. normalizePath ''/mnt/a/./x'' \<in> set (configured_directories x)) (drop n merged))"
  by (rule merge_places_every_directory [of "\<lparr>directories = [''/mnt/a/./x'']\<rparr>"]) (simp_all add: configured_groups_def sample_settings_def)

end
