(* ===== verification/FleetStorage.thy ===== *)
theory FleetStorage
  imports JsRegex DrivePaths
begin

text \<open>
  The fleet register and the storage of its hosts: \<open>features/system/systemFleetRegisterData.ts\<close> (the rows built
  from the local status and the cluster), \<open>lib/storagePool.ts\<close> (capacity with every device counted once),
  \<open>lib/architectureStorage.ts\<close> (the storage rows of a host and what each is used for) and \<open>lib/downloadFlows.ts\<close>
  (the flowchart of a download). \<open>Date.parse\<close>, \<open>toISOString\<close> and \<open>localeCompare\<close> are parameters; times are
  milliseconds, byte counts integers. A row that the code finds and mutates is updated at its place.
\<close>

section \<open>The fleet register\<close>

datatype register_health = Healthy | HealthWarning | HealthOffline

datatype register_worker_state = WorkerRunning | WorkerIdle | WorkerOffline | WorkerWarning

record register_worker =
  rw_workerId :: string
  rw_status :: register_worker_state
  rw_currentJob :: "string option"
  rw_jobsCompleted :: int

record register_mount =
  rm_id :: string
  rm_backendId :: string
  rm_path :: string
  rm_device :: string
  rm_totalBytes :: int
  rm_usedBytes :: int
  rm_freeBytes :: int
  rm_percentUsed :: rat
  rm_configuredDirectories :: "string list"
  rm_isAvailable :: bool
  rm_isConfigured :: bool

record register_backend =
  rb_backendId :: string
  rb_label :: string
  rb_hostname :: string
  rb_status :: string
  rb_version :: string
  rb_maxWorkers :: int
  rb_activeWorkers :: int
  rb_pendingJobs :: int
  rb_lastSeen :: string
  rb_heartbeatAge :: "int option"
  rb_health :: register_health
  rb_isLocal :: bool
  rb_clusterId :: "string option"
  rb_apiUrl :: "string option"
  rb_address :: "string option"
  rb_workers :: "register_worker list"
  rb_mounts :: "register_mount list"

record remote_drive =
  rd_path :: string
  rd_device :: string
  rd_total_bytes :: int
  rd_used_bytes :: int
  rd_free_bytes :: int
  rd_percent_used :: rat
  rd_configured_directories :: "string list"

record remote_worker =
  worker_id :: string
  worker_status :: string
  current_job :: "string option"
  jobs_completed :: int

record remote_backend =
  rmt_backend_id :: string
  rmt_hostname :: string
  rmt_status :: string
  rmt_last_seen :: string
  rmt_max_workers :: int
  rmt_version :: string
  rmt_drives :: "remote_drive list"
  rmt_workers :: "remote_worker list"
  rmt_active_workers :: int
  rmt_pending_jobs :: int
  rmt_cluster_id :: "string option"
  rmt_api_url :: "string option"
  rmt_address :: "string option"

record backend_status =
  st_backend_id :: string
  redis_connected :: bool
  worker_count :: int
  st_active_workers :: int
  st_pending_jobs :: int
  st_workers :: "remote_worker list"

record fleet_cluster =
  local_backend_id :: string
  local_hostname :: string
  cluster_backends :: "remote_backend list"

definition normalizeWorkerState :: "string \<Rightarrow> register_worker_state" where
  "normalizeWorkerState status =
     (let normalized = lower status
      in if normalized = ''busy'' \<or> normalized = ''running'' then WorkerRunning
         else if normalized = ''idle'' \<or> normalized = ''online'' then WorkerIdle
         else if normalized = ''offline'' \<or> normalized = ''stopped'' then WorkerOffline
         else WorkerWarning)"

definition heartbeatAge :: "(string \<Rightarrow> int option) \<Rightarrow> string \<Rightarrow> int \<Rightarrow> int option" where
  "heartbeatAge dateParse lastSeen now_ms =
     (case dateParse lastSeen of None \<Rightarrow> None | Some timestamp \<Rightarrow> Some (max 0 ((now_ms - timestamp) div 1000)))"

definition getBackendHealth :: "string \<Rightarrow> int option \<Rightarrow> bool \<Rightarrow> bool option \<Rightarrow> register_health" where
  "getBackendHealth status age isLocal redisConnected =
     (if isLocal \<and> redisConnected = Some False then HealthWarning
      else let normalized = lower status
           in if normalized = ''offline'' \<or> (case age of Some a \<Rightarrow> a > 60 | None \<Rightarrow> False) then HealthOffline
              else if normalized \<noteq> ''online'' \<or> (\<not> isLocal \<and> (case age of Some a \<Rightarrow> a > 30 | None \<Rightarrow> False)) \<or> age = None
              then HealthWarning
              else Healthy)"

definition toRegisterWorker :: "remote_worker \<Rightarrow> register_worker" where
  "toRegisterWorker w = \<lparr>rw_workerId = worker_id w, rw_status = normalizeWorkerState (worker_status w),
     rw_currentJob = current_job w, rw_jobsCompleted = jobs_completed w\<rparr>"

definition mount_id :: "string \<Rightarrow> string \<Rightarrow> nat \<Rightarrow> string" where
  "mount_id backendId path index = backendId @ '':'' @ path @ '':'' @ show_nat index"

text \<open>\<open>toRegisterMount\<close> on a \<open>DriveInfo\<close>, which says whether it is configured and perhaps whether it is available.\<close>

definition local_mount :: "string \<Rightarrow> nat \<Rightarrow> drive_info \<Rightarrow> register_mount" where
  "local_mount backendId index d =
     \<lparr>rm_id = mount_id backendId (drive_path d) index, rm_backendId = backendId, rm_path = drive_path d,
      rm_device = drive_device d, rm_totalBytes = total_bytes d, rm_usedBytes = used_bytes d,
      rm_freeBytes = free_bytes d, rm_percentUsed = percent_used d,
      rm_configuredDirectories = configured_directories d, rm_isAvailable = (is_available d \<noteq> Some False),
      rm_isConfigured = is_configured d\<rparr>"

text \<open>\<open>toRegisterMount\<close> on a \<open>RemoteBackendDrive\<close>, which has neither field.\<close>

definition remote_mount :: "string \<Rightarrow> nat \<Rightarrow> remote_drive \<Rightarrow> register_mount" where
  "remote_mount backendId index d =
     \<lparr>rm_id = mount_id backendId (rd_path d) index, rm_backendId = backendId, rm_path = rd_path d,
      rm_device = rd_device d, rm_totalBytes = rd_total_bytes d, rm_usedBytes = rd_used_bytes d,
      rm_freeBytes = rd_free_bytes d, rm_percentUsed = rd_percent_used d,
      rm_configuredDirectories = rd_configured_directories d, rm_isAvailable = True,
      rm_isConfigured = (rd_configured_directories d \<noteq> [])\<rparr>"

text \<open>A generated container name: twelve hexadecimal digits, in either case.\<close>

definition container_name :: "string \<Rightarrow> bool" where
  "container_name h \<longleftrightarrow> length h = 12 \<and> list_all (\<lambda>c. is_digit c \<or> lower_char c \<in> set ''abcdef'') h"

definition remote_row :: "(string \<Rightarrow> int option) \<Rightarrow> bool option \<Rightarrow> int \<Rightarrow> remote_backend \<Rightarrow> register_backend" where
  "remote_row dateParse redis now_ms b =
     (let age = heartbeatAge dateParse (rmt_last_seen b) now_ms in
      \<lparr>rb_backendId = rmt_backend_id b,
       rb_label = (if rmt_hostname b \<noteq> [] \<and> \<not> container_name (rmt_hostname b) then rmt_hostname b else rmt_backend_id b),
       rb_hostname = or_str (Some (rmt_hostname b)) ''Hostname unavailable'',
       rb_status = rmt_status b,
       rb_version = or_str (Some (rmt_version b)) ''Version unavailable'',
       rb_maxWorkers = rmt_max_workers b, rb_activeWorkers = rmt_active_workers b,
       rb_pendingJobs = rmt_pending_jobs b, rb_lastSeen = rmt_last_seen b, rb_heartbeatAge = age,
       rb_health = getBackendHealth (rmt_status b) age False redis, rb_isLocal = False,
       rb_clusterId = rmt_cluster_id b, rb_apiUrl = rmt_api_url b, rb_address = rmt_address b,
       rb_workers = map toRegisterWorker (rmt_workers b),
       rb_mounts = map_index (remote_mount (rmt_backend_id b)) 0 (rmt_drives b)\<rparr>)"

definition or_num :: "int option \<Rightarrow> int option \<Rightarrow> int option" where
  "or_num a b = (case a of Some n \<Rightarrow> if n = 0 then b else a | None \<Rightarrow> b)"

definition local_row ::
  "(string \<Rightarrow> int option) \<Rightarrow> (int \<Rightarrow> string) \<Rightarrow> backend_status option \<Rightarrow> fleet_cluster option \<Rightarrow> drive_info list
   \<Rightarrow> int \<Rightarrow> string \<Rightarrow> register_backend option \<Rightarrow> register_backend" where
  "local_row dateParse toISOString localStatus cluster localDrives now_ms localBackendId registered =
     (let lastSeen = or_else (map_option rb_lastSeen registered) (toISOString now_ms);
          age = heartbeatAge dateParse lastSeen now_ms;
          ws = or_else (coalesce (map_option (\<lambda>s. map toRegisterWorker (st_workers s)) localStatus)
                          (map_option rb_workers registered)) [];
          ms = (if localDrives \<noteq> [] then map_index (local_mount localBackendId) 0 localDrives
                else or_else (map_option rb_mounts registered) []);
          redis = map_option redis_connected localStatus;
          status = (if redis = Some False then ''degraded'' else or_else (map_option rb_status registered) ''online'');
          host = map_option local_hostname cluster
      in \<lparr>rb_backendId = localBackendId,
          rb_label = or_else (coalesce (map_option rb_label registered) host) localBackendId,
          rb_hostname = or_else (coalesce (map_option rb_hostname registered) host) ''Local host'',
          rb_status = status,
          rb_version = or_else (map_option rb_version registered) ''Current process'',
          rb_maxWorkers = or_else (or_num (map_option rb_maxWorkers registered)
             (or_num (map_option worker_count localStatus) (Some (int (length ws))))) 0,
          rb_activeWorkers = or_else (coalesce (map_option st_active_workers localStatus) (map_option rb_activeWorkers registered)) 0,
          rb_pendingJobs = or_else (coalesce (map_option st_pending_jobs localStatus) (map_option rb_pendingJobs registered)) 0,
          rb_lastSeen = lastSeen, rb_heartbeatAge = age,
          rb_health = getBackendHealth status age True redis, rb_isLocal = True,
          rb_clusterId = Option.bind registered rb_clusterId, rb_apiUrl = Option.bind registered rb_apiUrl,
          rb_address = Option.bind registered rb_address, rb_workers = ws, rb_mounts = ms\<rparr>)"

definition buildRegisterBackends ::
  "(string \<Rightarrow> int option) \<Rightarrow> (int \<Rightarrow> string) \<Rightarrow> backend_status option \<Rightarrow> fleet_cluster option \<Rightarrow> drive_info list
   \<Rightarrow> int \<Rightarrow> register_backend list" where
  "buildRegisterBackends dateParse toISOString localStatus cluster localDrives now_ms =
     (let remoteRows = map (remote_row dateParse (map_option redis_connected localStatus) now_ms)
            (case cluster of None \<Rightarrow> [] | Some c \<Rightarrow> cluster_backends c)
      in case coalesce (map_option st_backend_id localStatus) (map_option local_backend_id cluster) of
           None \<Rightarrow> remoteRows
         | Some localId \<Rightarrow>
             if localId = [] then remoteRows
             else local_row dateParse toISOString localStatus cluster localDrives now_ms localId
                    (List.find (\<lambda>b. rb_backendId b = localId) remoteRows)
                  # filter (\<lambda>b. rb_backendId b \<noteq> localId) remoteRows)"

section \<open>Storage pools\<close>

record storage_pool_summary =
  pool_totalBytes :: int
  pool_usedBytes :: int
  pool_freeBytes :: int
  mountCount :: nat
  storageCount :: nat

definition network_rx :: rx where
  "network_rx = rx_seq [RBos,
     rx_opt (RSeq (rx_plus (RChr (\<lambda>c. c \<noteq> CHR ''@'' \<and> \<not> is_ws c \<and> c \<noteq> CHR ''/''))) (rx_lit ''@'')),
     RCap 1 (rx_plus (RChr (\<lambda>c. c \<noteq> CHR '':'' \<and> \<not> is_ws c \<and> c \<noteq> CHR ''/''))), rx_lit '':'',
     RCap 2 (RSeq (rx_lit ''/'') (RStar (RChr (\<lambda>c. c \<noteq> CHR 0x0A \<and> c \<noteq> CHR 0x0D)))), REos]"

text \<open>The server and the key of an exported filesystem.\<close>

definition networkSource :: "string \<Rightarrow> (string \<times> string) option" where
  "networkSource device =
     (case rx_exec network_rx device of
        None \<Rightarrow> None
      | Some st \<Rightarrow> let s = or_else (rx_group 1 st) []; e = or_else (rx_group 2 st) [] in Some (s, s @ '':'' @ e))"

definition GIB :: int where
  "GIB = 1024 ^ 3"

definition sameFree :: "int \<Rightarrow> int \<Rightarrow> bool" where
  "sameFree a b \<longleftrightarrow> of_int \<bar>a - b\<bar> \<le> max (of_int GIB) (of_int (max a b) * (5 / 1000 :: rat))"

definition strip_dev :: "string \<Rightarrow> string" where
  "strip_dev device = (if starts_with ''/dev/'' device then drop 5 device else device)"

definition identity :: "register_mount \<Rightarrow> string list" where
  "identity m =
     (case networkSource (rm_device m) of
        Some (server, key) \<Rightarrow>
          [server @ '':'' @ show_int (rm_totalBytes m) @ '':'' @ show_int (rm_usedBytes m) @ '':'' @ show_int (rm_freeBytes m), key]
      | None \<Rightarrow> [rm_backendId m @ '':'' @ strip_dev (rm_device m)])"

type_synonym pools = "(string \<times> register_mount list) list"

definition pool_key :: "pools \<Rightarrow> register_mount \<Rightarrow> string" where
  "pool_key ps m =
     (case networkSource (rm_device m) of
        Some (server, _) \<Rightarrow>
          (case List.find (\<lambda>(key, ms). starts_with (server @ ''|'') key \<and> sameFree (rm_freeBytes (hd ms)) (rm_freeBytes m)) ps of
             Some (key, _) \<Rightarrow> key
           | None \<Rightarrow> server @ ''|'' @ rm_path m)
      | None \<Rightarrow> hd (identity m))"

definition add_to_pool :: "string \<Rightarrow> register_mount \<Rightarrow> pools \<Rightarrow> pools" where
  "add_to_pool key m ps =
     (if list_ex (\<lambda>p. fst p = key) ps
      then update_first (\<lambda>p. fst p = key) (\<lambda>(k, ms). (k, ms @ [m])) ps
      else ps @ [(key, [m])])"

definition pool_step :: "register_mount \<Rightarrow> string set \<times> pools \<Rightarrow> string set \<times> pools" where
  "pool_step m st =
     (if list_ex (\<lambda>k. k \<in> fst st) (identity m) then st
      else (fst st \<union> set (identity m), add_to_pool (pool_key (snd st) m) m (snd st)))"

definition storage_pools :: "register_mount list \<Rightarrow> pools" where
  "storage_pools mounts = snd (fold pool_step mounts ({}, []))"

definition pool_used :: "register_mount list \<Rightarrow> int" where
  "pool_used ms = sum_list (map rm_usedBytes ms)"

definition pool_total :: "register_mount list \<Rightarrow> int" where
  "pool_total ms = (if length ms = 1 then rm_totalBytes (hd ms) else pool_used ms + rm_freeBytes (hd ms))"

definition summarizeStoragePool :: "register_mount list \<Rightarrow> storage_pool_summary" where
  "summarizeStoragePool mounts =
     (let ps = map snd (storage_pools mounts) in
      \<lparr>pool_totalBytes = sum_list (map pool_total ps), pool_usedBytes = sum_list (map pool_used ps),
       pool_freeBytes = sum_list (map (\<lambda>ms. rm_freeBytes (hd ms)) ps), mountCount = length mounts,
       storageCount = length ps\<rparr>)"

section \<open>Storage rows\<close>

datatype flow_target = FlowWebui | FlowBackend | FlowRedis | FlowWorkers | FlowRam | FlowDisk | FlowDrive | FlowPostgres

datatype storage_kind = RamStaging | Staging | Drive | Mount

record storage_row =
  sr_key :: string
  sr_path :: string
  alsoAt :: "string list"
  sr_device :: string
  sr_totalBytes :: "int option"
  sr_percentUsed :: "rat option"
  sr_kind :: storage_kind
  sr_note :: "string option"
  stagingPath :: "string option"
  flowTarget :: "flow_target option"

record storage_group =
  sg_backendId :: string
  sg_host :: string
  sg_clusterId :: "string option"
  sg_rows :: "storage_row list"

definition KIND_ORDER :: "storage_kind \<Rightarrow> int" where
  "KIND_ORDER k = (case k of RamStaging \<Rightarrow> 0 | Staging \<Rightarrow> 1 | Drive \<Rightarrow> 2 | Mount \<Rightarrow> 3)"

definition RAM_DISKS :: "string list" where
  "RAM_DISKS = [''/dev/shm'', ''/run/shm'']"

definition deviceKey :: "register_mount \<Rightarrow> string" where
  "deviceKey m = strip_dev (rm_device m)"

definition inside_point :: "string \<Rightarrow> string \<Rightarrow> bool" where
  "inside_point path point \<longleftrightarrow> path = point \<or> starts_with (if ends_with ''/'' point then point else point @ ''/'') path"

text \<open>The points of the rows, each with the index of its row; and the best of them so far with its length.\<close>

definition row_points :: "storage_row list \<Rightarrow> (nat \<times> string) list" where
  "row_points rows = concat (map_index (\<lambda>i row. map (\<lambda>p. (i, p)) (sr_path row # alsoAt row)) 0 rows)"

definition better_point :: "string \<Rightarrow> nat \<times> string \<Rightarrow> nat option \<times> int \<Rightarrow> nat option \<times> int" where
  "better_point path x b =
     (if inside_point path (snd x) \<and> int (length (snd x)) > snd b then (Some (fst x), int (length (snd x))) else b)"

definition mountFor :: "string \<Rightarrow> storage_row list \<Rightarrow> nat option" where
  "mountFor path rows = fst (fold (better_point path) (row_points rows) (None, -1))"

definition mount_row :: "string \<Rightarrow> register_mount \<Rightarrow> storage_row" where
  "mount_row backendId m =
     \<lparr>sr_key = backendId @ '':'' @ rm_path m, sr_path = rm_path m, alsoAt = [], sr_device = deviceKey m,
      sr_totalBytes = Some (rm_totalBytes m), sr_percentUsed = Some (rm_percentUsed m),
      sr_kind = (if rm_isConfigured m then Drive else Mount),
      sr_note = (if rm_isConfigured m then Some ''download drive'' else None), stagingPath = None, flowTarget = None\<rparr>"

definition fold_mount :: "register_mount \<Rightarrow> storage_row \<Rightarrow> storage_row" where
  "fold_mount m row =
     (let row' = row\<lparr>alsoAt := alsoAt row @ [rm_path m]\<rparr>
      in if rm_isConfigured m \<and> sr_kind row = Mount
         then row'\<lparr>sr_kind := Drive, sr_note := Some ''download drive''\<rparr> else row')"

definition add_mount :: "string \<Rightarrow> register_mount \<Rightarrow> storage_row list \<Rightarrow> storage_row list" where
  "add_mount backendId m rows =
     (if list_ex (\<lambda>r. sr_device r = deviceKey m) rows
      then update_first (\<lambda>r. sr_device r = deviceKey m) (fold_mount m) rows
      else rows @ [mount_row backendId m])"

record staging_state =
  ss_rows :: "storage_row list"
  ramMarked :: bool
  diskMarked :: bool

definition staging_row :: "string \<Rightarrow> string \<Rightarrow> string \<Rightarrow> flow_target option \<Rightarrow> storage_row" where
  "staging_row backendId path note target =
     \<lparr>sr_key = backendId @ '':staging:'' @ path, sr_path = path, alsoAt = [], sr_device = ''tmpfs (RAM)'',
      sr_totalBytes = None, sr_percentUsed = None, sr_kind = RamStaging, sr_note = Some note,
      stagingPath = Some path, flowTarget = target\<rparr>"

definition hold_staging :: "string \<Rightarrow> string \<Rightarrow> flow_target option \<Rightarrow> storage_row \<Rightarrow> storage_row" where
  "hold_staging path note target row = row\<lparr>sr_kind := Staging, sr_note := Some note,
     stagingPath := coalesce (stagingPath row) (Some path), flowTarget := coalesce (flowTarget row) target\<rparr>"

definition staging_target :: "staging_directory \<Rightarrow> staging_state \<Rightarrow> flow_target option" where
  "staging_target dir st =
     (let preferred = ''prefer'' \<in> set (sd_policy dir)
      in if preferred \<and> \<not> ramMarked st then Some FlowRam
         else if \<not> preferred \<and> \<not> diskMarked st then Some FlowDisk else None)"

definition add_staging :: "string \<Rightarrow> staging_directory \<Rightarrow> staging_state \<Rightarrow> staging_state" where
  "add_staging backendId dir st =
     (let preferred = ''prefer'' \<in> set (sd_policy dir);
          target = staging_target dir st;
          note = ''staging '' @ sd_path dir @ (if preferred then '' (preferred)'' else []);
          inRam = list_ex (\<lambda>disk. sd_path dir = disk \<or> starts_with (disk @ ''/'') (sd_path dir)) RAM_DISKS;
          holder = (if inRam then None else mountFor (sd_path dir) (ss_rows st))
      in \<lparr>ss_rows = (case holder of
              Some i \<Rightarrow> (ss_rows st)[i := hold_staging (sd_path dir) note target (ss_rows st ! i)]
            | None \<Rightarrow> ss_rows st @ [staging_row backendId (sd_path dir) note target]),
          ramMarked = (ramMarked st \<or> target = Some FlowRam), diskMarked = (diskMarked st \<or> target = Some FlowDisk)\<rparr>)"

definition roomiest :: "register_mount list \<Rightarrow> register_mount option" where
  "roomiest ms =
     (case sort_cmp (\<lambda>a b. rm_freeBytes b - rm_freeBytes a) (filter rm_isConfigured ms) of [] \<Rightarrow> None | m # _ \<Rightarrow> Some m)"

definition mark_drive :: "register_mount list \<Rightarrow> storage_row list \<Rightarrow> storage_row list" where
  "mark_drive ms rows =
     (case roomiest ms of
        None \<Rightarrow> rows
      | Some m \<Rightarrow> update_first (\<lambda>r. sr_kind r = Drive \<and> (sr_path r = rm_path m \<or> rm_path m \<in> set (alsoAt r)))
                    (\<lambda>r. r\<lparr>flowTarget := Some FlowDrive\<rparr>) rows)"

definition backend_rows :: "register_backend \<Rightarrow> staging_directory list option \<Rightarrow> storage_row list" where
  "backend_rows b staging =
     (let rows = fold (add_mount (rb_backendId b)) (rb_mounts b) []
      in if rb_isLocal b
         then mark_drive (rb_mounts b)
                (ss_rows (fold (add_staging (rb_backendId b)) (or_else staging []) \<lparr>ss_rows = rows, ramMarked = False, diskMarked = False\<rparr>))
         else rows)"

definition row_order :: "(string \<Rightarrow> string \<Rightarrow> int) \<Rightarrow> storage_row \<Rightarrow> storage_row \<Rightarrow> int" where
  "row_order localeCompare = cmp_then (\<lambda>a b. KIND_ORDER (sr_kind a) - KIND_ORDER (sr_kind b)) (cmp_on sr_path localeCompare)"

definition buildStorageGroups ::
  "(string \<Rightarrow> string \<Rightarrow> int) \<Rightarrow> register_backend list \<Rightarrow> staging_directory list option \<Rightarrow> storage_group list" where
  "buildStorageGroups localeCompare bs staging =
     map (\<lambda>b. \<lparr>sg_backendId = rb_backendId b, sg_host = rb_label b, sg_clusterId = rb_clusterId b,
               sg_rows = sort_cmp (row_order localeCompare) (backend_rows b staging)\<rparr>) bs"

text \<open>An active mount: a storage row with the backend, host and cluster of its group.\<close>

type_synonym active_mount = "storage_row \<times> string \<times> string \<times> string option"

definition buildActiveMounts ::
  "(string \<Rightarrow> string \<Rightarrow> int) \<Rightarrow> register_backend list \<Rightarrow> staging_directory list option \<Rightarrow> active_mount list" where
  "buildActiveMounts localeCompare bs staging =
     concat (map (\<lambda>g. map (\<lambda>row. (row, sg_backendId g, sg_host g, sg_clusterId g))
                       (filter (\<lambda>row. sr_kind row \<noteq> Mount) (sg_rows g)))
       (buildStorageGroups localeCompare bs staging))"

section \<open>Download flows\<close>

datatype chart_node = Queued | FitsRam | ChartRam | FitsDisk | ChartDisk | Direct | IsDrm | Decrypt | JoinParts | Move | Record

record flow_step =
  targets :: "flow_target list"
  chart :: "chart_node list"
  caption :: string

record download_flow =
  flow_id :: string
  flow_label :: string
  steps :: "flow_step list"

definition QUEUE :: "flow_step list" where
  "QUEUE =
     [\<lparr>targets = [FlowWebui], chart = [Queued], caption = ''You start a download job in a WebUI.''\<rparr>,
      \<lparr>targets = [FlowBackend, FlowRedis], chart = [Queued],
       caption = ''The backend plans the job and hands its tasks to workers through Redis.''\<rparr>]"

definition RECORD_STEP :: flow_step where
  "RECORD_STEP = \<lparr>targets = [FlowDrive, FlowPostgres], chart = [Move, Record],
     caption = ''The file lands in the performer's folder on a download drive (their existing folder, else the drive with the most room), and PostgreSQL records it as downloaded.''\<rparr>"

definition regular_flow :: download_flow where
  "regular_flow = \<lparr>flow_id = ''regular'', flow_label = ''Regular file'', steps = QUEUE @
     [\<lparr>targets = [FlowWorkers], chart = [FitsRam],
       caption = ''A worker fetches the file from the site CDN in parallel byte ranges, reserving staging space for it.''\<rparr>,
      \<lparr>targets = [FlowRam], chart = [ChartRam], caption = ''It fits, so the parts land in RAM staging.''\<rparr>,
      \<lparr>targets = [FlowWorkers], chart = [IsDrm, JoinParts], caption = ''Not DRM: the worker joins the parts into one file.''\<rparr>,
      RECORD_STEP]\<rparr>"

definition drm_flow :: download_flow where
  "drm_flow = \<lparr>flow_id = ''drm'', flow_label = ''DRM video'', steps = QUEUE @
     [\<lparr>targets = [FlowWorkers], chart = [FitsRam],
       caption = ''A worker fetches the encrypted video and audio streams, reserving twice their size for the decrypted copies.''\<rparr>,
      \<lparr>targets = [FlowRam], chart = [ChartRam], caption = ''It fits, so both streams stage in RAM.''\<rparr>,
      \<lparr>targets = [FlowWorkers], chart = [IsDrm, Decrypt],
       caption = ''DRM: as soon as they land, mp4decrypt decrypts video and audio at once and ffmpeg muxes them, while other items keep downloading.''\<rparr>,
      RECORD_STEP]\<rparr>"

definition overflow_flow :: download_flow where
  "overflow_flow = \<lparr>flow_id = ''overflow'', flow_label = ''RAM full'', steps = QUEUE @
     [\<lparr>targets = [FlowWorkers], chart = [FitsRam], caption = ''A worker fetches a large encrypted video.''\<rparr>,
      \<lparr>targets = [FlowDisk], chart = [FitsDisk, ChartDisk],
       caption = ''RAM headroom is below what the item needs, so the next staging directory takes it. RAM is used again once reservations are released.''\<rparr>,
      \<lparr>targets = [FlowWorkers], chart = [IsDrm, Decrypt], caption = ''Decryption and muxing run on the disk staging copy.''\<rparr>,
      RECORD_STEP]\<rparr>"

definition direct_flow :: download_flow where
  "direct_flow = \<lparr>flow_id = ''direct'', flow_label = ''No staging space'', steps = QUEUE @
     [\<lparr>targets = [FlowWorkers], chart = [FitsRam], caption = ''A worker fetches the file.''\<rparr>,
      \<lparr>targets = [FlowDrive], chart = [FitsDisk, Direct],
       caption = ''No staging directory can hold it, so parts are written beside the final file on the download drive.''\<rparr>,
      \<lparr>targets = [FlowWorkers], chart = [IsDrm, JoinParts], caption = ''The parts are joined in place.''\<rparr>,
      \<lparr>targets = [FlowPostgres], chart = [Move, Record],
       caption = ''It is already on the drive, so nothing moves; PostgreSQL records it as downloaded.''\<rparr>]\<rparr>"

definition DOWNLOAD_FLOWS :: "download_flow list" where
  "DOWNLOAD_FLOWS = [regular_flow, drm_flow, overflow_flow, direct_flow]"

definition push_node :: "chart_node \<Rightarrow> chart_node list \<Rightarrow> chart_node list" where
  "push_node n path = (if path \<noteq> [] \<and> last path = n then path else path @ [n])"

definition chart_path :: "flow_step list \<Rightarrow> chart_node list" where
  "chart_path ss = fold push_node (concat (map chart ss)) []"

text \<open>\<open>None\<close> is the \<open>TypeError\<close> of a step that the flow does not have.\<close>

definition chartProgress :: "download_flow \<Rightarrow> nat \<Rightarrow> (chart_node list \<times> chart_node list) option" where
  "chartProgress flow step =
     (if step < length (steps flow)
      then Some (chart_path (take (Suc step) (steps flow)), chart (steps flow ! step)) else None)"

datatype answer = Yes | No

fun ANSWERS :: "chart_node \<Rightarrow> chart_node \<Rightarrow> answer option" where
  "ANSWERS FitsRam ChartRam = Some Yes"
| "ANSWERS FitsRam FitsDisk = Some No"
| "ANSWERS FitsDisk ChartDisk = Some Yes"
| "ANSWERS FitsDisk Direct = Some No"
| "ANSWERS IsDrm Decrypt = Some Yes"
| "ANSWERS IsDrm JoinParts = Some No"
| "ANSWERS _ _ = None"

fun trail :: "chart_node list \<Rightarrow> (chart_node \<times> answer option) list" where
  "trail [] = []"
| "trail [n] = [(n, None)]"
| "trail (n # m # ns) = (n, ANSWERS n m) # trail (m # ns)"

definition chartTrail :: "download_flow \<Rightarrow> (chart_node \<times> answer option) list option" where
  "chartTrail flow =
     (if steps flow = [] then None
      else map_option (\<lambda>p. trail (fst p)) (chartProgress flow (length (steps flow) - 1)))"

section \<open>Properties of the register\<close>

lemma remote_row_simps [simp]:
  "rb_backendId (remote_row dp r t b) = rmt_backend_id b" "\<not> rb_isLocal (remote_row dp r t b)"
  by (simp_all add: remote_row_def Let_def)

lemma local_row_simps [simp]:
  "rb_backendId (local_row dp to_iso st cl ds t i reg) = i" "rb_isLocal (local_row dp to_iso st cl ds t i reg)"
  by (simp_all add: local_row_def Let_def)

lemma getBackendHealth_healthy:
  "getBackendHealth status age isLocal redis = Healthy \<longleftrightarrow>
     lower status = ''online'' \<and> (\<exists>a. age = Some a \<and> a \<le> (if isLocal then 60 else 30)) \<and> \<not> (isLocal \<and> redis = Some False)"
  by (auto simp: getBackendHealth_def Let_def split: option.splits)

text \<open>When a row may say it is healthy.\<close>

definition health_earned :: "backend_status option \<Rightarrow> register_backend \<Rightarrow> bool" where
  "health_earned localStatus b \<longleftrightarrow> (rb_health b = Healthy \<longrightarrow> lower (rb_status b) = ''online''
     \<and> (\<exists>a. rb_heartbeatAge b = Some a \<and> 0 \<le> a \<and> a \<le> (if rb_isLocal b then 60 else 30))
     \<and> (rb_isLocal b \<longrightarrow> map_option redis_connected localStatus \<noteq> Some False))"

lemma health_earned_rows:
  "health_earned st (remote_row dp (map_option redis_connected st) t b)"
  "health_earned st (local_row dp to_iso st cl ds t i reg)"
proof -
  have age: "heartbeatAge dp s t = Some a \<Longrightarrow> 0 \<le> a" for s a
    by (auto simp: heartbeatAge_def split: option.splits)
  show "health_earned st (remote_row dp (map_option redis_connected st) t b)"
    by (auto simp: health_earned_def remote_row_def Let_def getBackendHealth_healthy dest: age)
  show "health_earned st (local_row dp to_iso st cl ds t i reg)"
    by (auto simp: health_earned_def local_row_def Let_def getBackendHealth_healthy dest: age)
qed

text \<open>
  The register lists every backend once, the local one first. When the local backend is known by an id, the
  first row is local and has that id, no other row is local, and the ids of the rows are the local id and the ids
  of the reported backends; ids reported once are listed once. A row is healthy only if its status is online,
  its heartbeat is at most 30 seconds old (60 for the local backend) and the local Redis is not disconnected.
\<close>

lemma buildRegisterBackends_rows:
  assumes "coalesce (map_option st_backend_id localStatus) (map_option local_backend_id cluster) = Some i" "i \<noteq> []"
    "distinct (map rmt_backend_id (case cluster of None \<Rightarrow> [] | Some c \<Rightarrow> cluster_backends c))"
  shows "\<exists>row rest. buildRegisterBackends dateParse toISOString localStatus cluster drives t = row # rest
    \<and> rb_backendId row = i \<and> rb_isLocal row \<and> list_all (\<lambda>b. \<not> rb_isLocal b) rest
    \<and> distinct (map rb_backendId (row # rest))
    \<and> rb_backendId ` set (row # rest) = insert i (rmt_backend_id ` set (case cluster of None \<Rightarrow> [] | Some c \<Rightarrow> cluster_backends c))
    \<and> list_all (health_earned localStatus) (row # rest)"
proof -
  define bs where "bs = (case cluster of None \<Rightarrow> [] | Some c \<Rightarrow> cluster_backends c)"
  define rem where "rem = map (remote_row dateParse (map_option redis_connected localStatus) t) bs"
  define row where "row = local_row dateParse toISOString localStatus cluster drives t i (List.find (\<lambda>b. rb_backendId b = i) rem)"
  define rest where "rest = filter (\<lambda>b. rb_backendId b \<noteq> i) rem"
  have built: "buildRegisterBackends dateParse toISOString localStatus cluster drives t = row # rest"
    using assms(1,2) by (simp add: buildRegisterBackends_def bs_def rem_def row_def rest_def Let_def)
  have ids: "map rb_backendId rem = map rmt_backend_id bs" by (simp add: rem_def)
  have dist: "distinct (map rb_backendId (row # rest))"
    using assms(3) ids by (auto simp: row_def rest_def bs_def [symmetric] distinct_map_filter)
  have all: "rb_backendId ` set (row # rest) = insert i (rmt_backend_id ` set bs)"
    using arg_cong [OF ids, of set] by (auto simp: row_def rest_def image_iff)
  have ok: "list_all (health_earned localStatus) (row # rest)"
    by (auto simp: row_def rest_def rem_def list_all_iff health_earned_rows)
  have "rb_backendId row = i \<and> rb_isLocal row \<and> list_all (\<lambda>b. \<not> rb_isLocal b) rest"
    by (auto simp: row_def rest_def rem_def list_all_iff)
  then show ?thesis using built dist all ok unfolding bs_def by blast
qed

section \<open>Properties of the storage pools\<close>

lemma seen_mono: "fst st \<subseteq> fst (fold pool_step ms st)"
proof (induction ms arbitrary: st)
  case (Cons m ms)
  have "fst st \<subseteq> fst (pool_step m st)" by (auto simp: pool_step_def)
  with Cons [of "pool_step m st"] show ?case by auto
qed simp

lemma seen_after: "\<exists>k \<in> set (identity m). k \<in> fst (pool_step m st)"
  by (cases "list_ex (\<lambda>k. k \<in> fst st) (identity m)")
    (auto simp: pool_step_def list_ex_iff identity_def split: option.splits)

lemma seen_again:
  assumes "m \<in> set ms"
  shows "list_ex (\<lambda>k. k \<in> fst (fold pool_step ms st)) (identity m)"
  using assms
proof (induction ms arbitrary: st)
  case (Cons x ms)
  show ?case
  proof (cases "x = m")
    case True
    then show ?thesis using seen_after [of m st] seen_mono [of "pool_step m st" ms] by (auto simp: list_ex_iff)
  qed (use Cons in auto)
qed simp

definition pools_ok :: "register_mount list \<Rightarrow> pools \<Rightarrow> bool" where
  "pools_ok ms ps \<longleftrightarrow> distinct (map fst ps) \<and> (\<forall>p \<in> set ps. snd p \<noteq> []) \<and> (\<exists>us. subseq us ms \<and> mset us = mset (concat (map snd ps)))"

lemma add_to_pool_mset: "mset (concat (map snd (add_to_pool k m ps))) = add_mset m (mset (concat (map snd ps)))"
proof -
  have "mset (concat (map snd (update_first (\<lambda>p. fst p = k) (\<lambda>(k, ms). (k, ms @ [m])) ps))) = add_mset m (mset (concat (map snd ps)))"
    if "list_ex (\<lambda>p. fst p = k) ps" using that by (induction ps) (auto split: prod.splits)
  then show ?thesis by (auto simp: add_to_pool_def)
qed

lemma add_to_pool_keys: "map fst (add_to_pool k m ps) = (if k \<in> fst ` set ps then map fst ps else map fst ps @ [k])"
  by (auto simp: add_to_pool_def map_update_first list_ex_iff split: prod.splits intro: rev_image_eqI)

lemma add_to_pool_nonempty: "(\<forall>p \<in> set ps. snd p \<noteq> []) \<Longrightarrow> (\<forall>p \<in> set (add_to_pool k m ps). snd p \<noteq> [])"
proof -
  have "\<forall>p \<in> set (update_first (\<lambda>p. fst p = k) (\<lambda>(k, ms). (k, ms @ [m])) ps). snd p \<noteq> []" if "\<forall>p \<in> set ps. snd p \<noteq> []"
    using that by (induction ps) (auto split: prod.splits)
  then show "(\<forall>p \<in> set ps. snd p \<noteq> []) \<Longrightarrow> (\<forall>p \<in> set (add_to_pool k m ps). snd p \<noteq> [])" by (auto simp: add_to_pool_def)
qed

lemma pool_step_ok: "pools_ok ms (snd st) \<Longrightarrow> pools_ok (ms @ [m]) (snd (pool_step m st))"
proof -
  assume ok: "pools_ok ms (snd st)"
  then obtain us where us: "subseq us ms" "mset us = mset (concat (map snd (snd st)))" by (auto simp: pools_ok_def)
  have "subseq us (ms @ [m])" "subseq (us @ [m]) (ms @ [m])"
    using us(1) by (auto intro: subseq_rev_drop_many list_emb_append_mono)
  then show ?thesis using ok us add_to_pool_nonempty [of "snd st" "pool_key (snd st) m" m]
    by (auto simp: pools_ok_def pool_step_def add_to_pool_mset add_to_pool_keys intro: exI [of _ us] exI [of _ "us @ [m]"])
qed

lemma pools_ok: "pools_ok ms (storage_pools ms)"
proof (induction ms rule: rev_induct)
  case (snoc m ms)
  then show ?case using pool_step_ok by (simp add: storage_pools_def)
qed (simp add: storage_pools_def pools_ok_def)


lemma sum_list_map_concat: "sum_list (map f (concat xss)) = sum_list (map (\<lambda>xs. sum_list (map f xs)) xss)"
  by (induction xss) auto

lemma seen_again_identity:
  assumes "identity m \<in> identity ` set ms"
  shows "pool_step m (fold pool_step ms st) = fold pool_step ms st"
proof -
  obtain x where "x \<in> set ms" "identity m = identity x" using assms by auto
  with seen_again [of x ms st] show ?thesis by (simp add: pool_step_def)
qed

text \<open>
  C16. Every device is counted once. A mount with the identity of an earlier one (the same device of the same
  backend, or the same export with the same figures) changes only the count of mounts, wherever it stands in the
  list. The used bytes are those of a subsequence of the mounts, and there are at most as many pieces of storage
  as mounts.
\<close>

theorem storage_counted_once:
  assumes "identity m \<in> identity ` set ms"
  shows "summarizeStoragePool (ms @ m # ns) =
      (summarizeStoragePool (ms @ ns))\<lparr>mountCount := Suc (mountCount (summarizeStoragePool (ms @ ns)))\<rparr>
    \<and> (\<exists>us. subseq us (ms @ ns) \<and> pool_usedBytes (summarizeStoragePool (ms @ ns)) = sum_list (map rm_usedBytes us))
    \<and> storageCount (summarizeStoragePool (ms @ ns)) \<le> mountCount (summarizeStoragePool (ms @ ns))"
proof -
  have "storage_pools (ms @ m # ns) = storage_pools (ms @ ns)"
    by (simp add: storage_pools_def seen_again_identity [OF assms])
  then have same: "summarizeStoragePool (ms @ m # ns) =
      (summarizeStoragePool (ms @ ns))\<lparr>mountCount := Suc (mountCount (summarizeStoragePool (ms @ ns)))\<rparr>"
    by (simp add: summarizeStoragePool_def Let_def)
  obtain us where us: "subseq us (ms @ ns)" "mset us = mset (concat (map snd (storage_pools (ms @ ns))))"
    and ne: "\<forall>p \<in> set (storage_pools (ms @ ns)). snd p \<noteq> []"
    using pools_ok [of "ms @ ns"] by (auto simp: pools_ok_def)
  have "sum_list (map rm_usedBytes us) = sum_list (map rm_usedBytes (concat (map snd (storage_pools (ms @ ns)))))"
    using us(2) by (metis mset_map sum_mset_sum_list)
  also have "\<dots> = pool_usedBytes (summarizeStoragePool (ms @ ns))"
    by (simp add: summarizeStoragePool_def Let_def pool_used_def sum_list_map_concat comp_def)
  finally have used: "pool_usedBytes (summarizeStoragePool (ms @ ns)) = sum_list (map rm_usedBytes us)" by simp
  have "length ps \<le> length (concat (map snd ps))" if "\<forall>p \<in> set ps. snd p \<noteq> []" for ps :: pools
    using that by (induction ps) (auto simp: neq_Nil_conv)
  from this [OF ne] have "length (storage_pools (ms @ ns)) \<le> length us" using us(2) by (metis size_mset)
  then have "storageCount (summarizeStoragePool (ms @ ns)) \<le> mountCount (summarizeStoragePool (ms @ ns))"
    using list_emb_length [OF us(1)] by (simp add: summarizeStoragePool_def Let_def)
  with same used us(1) show ?thesis by blast
qed

definition sample_mount :: "string \<Rightarrow> string \<Rightarrow> int \<Rightarrow> register_mount" where
  "sample_mount path device used = \<lparr>rm_id = path, rm_backendId = ''b1'', rm_path = path, rm_device = device,
     rm_totalBytes = 1000, rm_usedBytes = used, rm_freeBytes = 600, rm_percentUsed = 40, rm_configuredDirectories = [],
     rm_isAvailable = True, rm_isConfigured = True\<rparr>"

theorem storage_counted_once_witness:
  "summarizeStoragePool ([sample_mount ''/mnt/a'' ''/dev/sda1'' 400] @ sample_mount ''/mnt/b'' ''sda1'' 400 # []) =
      (summarizeStoragePool ([sample_mount ''/mnt/a'' ''/dev/sda1'' 400] @ []))\<lparr>mountCount :=
         Suc (mountCount (summarizeStoragePool ([sample_mount ''/mnt/a'' ''/dev/sda1'' 400] @ [])))\<rparr>
    \<and> (\<exists>us. subseq us ([sample_mount ''/mnt/a'' ''/dev/sda1'' 400] @ []) \<and>
        pool_usedBytes (summarizeStoragePool ([sample_mount ''/mnt/a'' ''/dev/sda1'' 400] @ [])) = sum_list (map rm_usedBytes us))
    \<and> storageCount (summarizeStoragePool ([sample_mount ''/mnt/a'' ''/dev/sda1'' 400] @ []))
        \<le> mountCount (summarizeStoragePool ([sample_mount ''/mnt/a'' ''/dev/sda1'' 400] @ []))"
proof (rule storage_counted_once)
  have "identity (sample_mount ''/mnt/b'' ''sda1'' 400) = identity (sample_mount ''/mnt/a'' ''/dev/sda1'' 400)" by code_simp
  then show "identity (sample_mount ''/mnt/b'' ''sda1'' 400) \<in> identity ` set [sample_mount ''/mnt/a'' ''/dev/sda1'' 400]" by simp
qed

text \<open>
  One export is counted twice when it was first skipped as another path of a filesystem already seen: its own key
  is not recorded then, and a second host whose figures have drifted adds its used bytes again.
\<close>

lemma network_samples:
  "networkSource ''nas:/a'' = Some (''nas'', ''nas:/a'')" "networkSource ''nas:/b'' = Some (''nas'', ''nas:/b'')"
  by code_simp+

lemma figure_samples: "show_nat 1000 = ''1000''" "show_nat 400 = ''400''" "show_nat 401 = ''401''" "show_nat 600 = ''600''"
  by code_simp+

lemma export_counted_twice:
  "pool_usedBytes (summarizeStoragePool [sample_mount ''/mnt/a'' ''nas:/a'' 400, sample_mount ''/mnt/b'' ''nas:/b'' 400]) = 400 \<and>
   pool_usedBytes (summarizeStoragePool [sample_mount ''/mnt/a'' ''nas:/a'' 400, sample_mount ''/mnt/b'' ''nas:/b'' 400,
     sample_mount ''/mnt/b'' ''nas:/b'' 401]) = 801"
  by (simp add: summarizeStoragePool_def storage_pools_def pool_step_def identity_def network_samples sample_mount_def
    pool_key_def add_to_pool_def pool_used_def sameFree_def GIB_def starts_with_def Let_def show_int_def figure_samples)

definition sample_status :: backend_status where
  "sample_status = \<lparr>st_backend_id = ''b1'', redis_connected = True, worker_count = 2, st_active_workers = 1,
     st_pending_jobs = 0, st_workers = []\<rparr>"

lemma buildRegisterBackends_rows_witness:
  "\<exists>row rest. buildRegisterBackends (\<lambda>_. Some 0) (\<lambda>_. ''now'') (Some sample_status) None [] 0 = row # rest
    \<and> rb_backendId row = ''b1'' \<and> rb_isLocal row \<and> list_all (\<lambda>b. \<not> rb_isLocal b) rest
    \<and> distinct (map rb_backendId (row # rest))
    \<and> rb_backendId ` set (row # rest) = insert ''b1'' (rmt_backend_id ` set (case (None :: fleet_cluster option) of None \<Rightarrow> [] | Some c \<Rightarrow> cluster_backends c))
    \<and> list_all (health_earned (Some sample_status)) (row # rest)"
  by (rule buildRegisterBackends_rows) (simp_all add: sample_status_def coalesce_def)

section \<open>Properties of the flowchart\<close>

lemma push_node_prefix: "prefix path (push_node n path)"
  by (simp add: push_node_def)

lemma fold_push_prefix: "prefix path (fold push_node ns path)"
proof (induction ns arbitrary: path)
  case (Cons n ns)
  show ?case using Cons [of "push_node n path"] push_node_prefix [of path n] by (auto intro: prefix_order.trans)
qed simp

lemma chart_progress_grows:
  assumes "chartProgress flow i = Some (p, c)" "chartProgress flow j = Some (q, d)" "i \<le> j"
  shows "prefix p q"
proof -
  have "take (Suc j) (steps flow) = take (Suc i) (steps flow) @ drop (Suc i) (take (Suc j) (steps flow))"
    using assms(3) by (metis append_take_drop_id min.absorb1 not_less_eq_eq take_take less_eq_Suc_le Suc_le_mono)
  then have "chart_path (take (Suc j) (steps flow)) =
      fold push_node (concat (map chart (drop (Suc i) (take (Suc j) (steps flow))))) (chart_path (take (Suc i) (steps flow)))"
    unfolding chart_path_def by (metis concat_append fold_append comp_apply map_append)
  then have "prefix (chart_path (take (Suc i) (steps flow))) (chart_path (take (Suc j) (steps flow)))"
    using fold_push_prefix by metis
  then show ?thesis using assms by (auto simp: chartProgress_def split: if_splits)
qed

text \<open>Every flow starts in the queue, ends with the record, and answers exactly its decisions.\<close>

lemma download_flow_trails:
  "list_all (\<lambda>flow. case chartTrail flow of None \<Rightarrow> False
     | Some t \<Rightarrow> fst (hd t) = Queued \<and> fst (last t) = Record \<and>
         list_all (\<lambda>(n, a). (a \<noteq> None) = (n \<in> {FitsRam, FitsDisk, IsDrm})) t) DOWNLOAD_FLOWS"
  by code_simp

section \<open>Properties of the storage rows\<close>

definition points :: "storage_row list \<Rightarrow> string list" where
  "points rows = concat (map (\<lambda>r. sr_path r # alsoAt r) rows)"

definition marked :: "flow_target \<Rightarrow> storage_row list \<Rightarrow> nat" where
  "marked f rows = length (filter (\<lambda>r. flowTarget r = Some f) rows)"

lemma points_append [simp]: "points (xs @ ys) = points xs @ points ys" "points [] = []"
  "points (r # rows) = sr_path r # alsoAt r @ points rows"
  by (simp_all add: points_def)

lemma marked_append [simp]: "marked f (xs @ ys) = marked f xs + marked f ys" "marked f [] = 0"
  "marked f (r # rows) = (if flowTarget r = Some f then 1 else 0) + marked f rows"
  by (simp_all add: marked_def)

lemma points_mset: "mset (points rows) = (\<Sum>r \<in># mset rows. mset (sr_path r # alsoAt r))"
  by (induction rows) simp_all

lemma marked_mset: "marked f rows = size (filter_mset (\<lambda>r. flowTarget r = Some f) (mset rows))"
  by (simp add: marked_def flip: mset_filter)

lemma map_update_at: "(\<And>x. g (h x) = g x) \<Longrightarrow> map g (xs[i := h (xs ! i)]) = map g xs"
  by (cases "i < length xs") (simp_all add: map_update list_update_beyond list_update_same_conv)

lemma add_mount_points: "mset (points (add_mount k m rows)) = add_mset (rm_path m) (mset (points rows))"
proof -
  have "mset (points (update_first P (fold_mount m) rows)) = add_mset (rm_path m) (mset (points rows))" if "list_ex P rows" for P
    using that by (induction rows) (auto simp: fold_mount_def Let_def)
  then show ?thesis by (simp add: add_mount_def mount_row_def)
qed

lemma add_mount_marked: "marked f (add_mount k m rows) = marked f rows"
proof -
  have "marked f (update_first P (fold_mount m) rows) = marked f rows" for P
    by (induction rows) (auto simp: fold_mount_def Let_def)
  then show ?thesis by (simp add: add_mount_def mount_row_def)
qed

lemma add_mount_devices: "distinct (map sr_device rows) \<Longrightarrow> distinct (map sr_device (add_mount k m rows))"
  by (auto simp: add_mount_def map_update_first fold_mount_def Let_def mount_row_def list_ex_iff)

lemma mounts_rows:
  "mset (points (fold (add_mount k) ms rows)) = mset (map rm_path ms) + mset (points rows)"
  "marked f (fold (add_mount k) ms rows) = marked f rows"
  "distinct (map sr_device rows) \<Longrightarrow> distinct (map sr_device (fold (add_mount k) ms rows))"
  by (induction ms arbitrary: rows) (auto simp: add_mount_points add_mount_marked add_mount_devices)

lemma add_staging_cases:
  obtains n where "ss_rows (add_staging k d st) = ss_rows st @ [staging_row k (sd_path d) n (staging_target d st)]"
  | n i where "ss_rows (add_staging k d st) = (ss_rows st)[i := hold_staging (sd_path d) n (staging_target d st) (ss_rows st ! i)]"
proof -
  let ?h = "if list_ex (\<lambda>disk. sd_path d = disk \<or> starts_with (disk @ ''/'') (sd_path d)) RAM_DISKS then None
            else mountFor (sd_path d) (ss_rows st)"
  show thesis
  proof (cases ?h)
    case None
    show thesis by (rule that(1)) (simp only: add_staging_def Let_def staging_state.simps None option.case)
  next
    case (Some i)
    show thesis by (rule that(2)) (simp only: add_staging_def Let_def staging_state.simps Some option.case)
  qed
qed

lemma add_staging_points: "mset (points (ss_rows st)) \<subseteq># mset (points (ss_rows (add_staging k d st)))"
proof -
  have "points (rows[i := hold_staging p n t (rows ! i)]) = points rows" for rows i p n t
    unfolding points_def
    by (rule arg_cong [where f = concat], rule map_update_at [where g = "\<lambda>r. sr_path r # alsoAt r"]) (simp add: hold_staging_def)
  then show ?thesis by (cases rule: add_staging_cases [of k d st]) auto
qed

lemma marked_update:
  "marked f (rows[i := hold_staging p n t (rows ! i)]) \<le> marked f rows + (if t = Some f then 1 else 0)"
proof (induction rows arbitrary: i)
  case (Cons r rows)
  show ?case using Cons [of "i - 1"] by (cases i) (auto simp: hold_staging_def coalesce_def split: option.splits)
qed simp

text \<open>A flow target is marked only when its flag is set, and then once.\<close>

definition marks_ok :: "staging_state \<Rightarrow> bool" where
  "marks_ok st \<longleftrightarrow> marked FlowRam (ss_rows st) \<le> of_bool (ramMarked st) \<and> marked FlowDisk (ss_rows st) \<le> of_bool (diskMarked st)
     \<and> (\<forall>f. f \<noteq> FlowRam \<and> f \<noteq> FlowDisk \<longrightarrow> marked f (ss_rows st) = 0)"

lemma add_staging_marks:
  assumes "marks_ok st"
  shows "marks_ok (add_staging k d st)"
proof -
  define t where "t = staging_target d st"
  have le: "marked f (ss_rows (add_staging k d st)) \<le> marked f (ss_rows st) + (if t = Some f then 1 else 0)" for f
    unfolding t_def
  proof (cases rule: add_staging_cases [of k d st])
    case (2 n i)
    then show "marked f (ss_rows (add_staging k d st)) \<le> marked f (ss_rows st) + (if staging_target d st = Some f then 1 else 0)"
      using marked_update by metis
  qed (simp add: staging_row_def)
  have flags: "ramMarked (add_staging k d st) = (ramMarked st \<or> t = Some FlowRam)"
    "diskMarked (add_staging k d st) = (diskMarked st \<or> t = Some FlowDisk)"
    by (simp_all add: add_staging_def Let_def t_def)
  have t: "t = Some FlowRam \<Longrightarrow> \<not> ramMarked st" "t = Some FlowDisk \<Longrightarrow> \<not> diskMarked st" "t \<in> {None, Some FlowRam, Some FlowDisk}"
    by (auto simp: t_def staging_target_def Let_def split: if_splits)
  show ?thesis unfolding marks_ok_def
  proof (intro conjI allI impI)
    show "marked FlowRam (ss_rows (add_staging k d st)) \<le> of_bool (ramMarked (add_staging k d st))"
      using le [of FlowRam] assms flags t by (auto simp: marks_ok_def split: if_splits)
    show "marked FlowDisk (ss_rows (add_staging k d st)) \<le> of_bool (diskMarked (add_staging k d st))"
      using le [of FlowDisk] assms flags t by (auto simp: marks_ok_def split: if_splits)
    show "marked f (ss_rows (add_staging k d st)) = 0" if "f \<noteq> FlowRam \<and> f \<noteq> FlowDisk" for f
      using le [of f] assms t(3) that by (auto simp: marks_ok_def split: if_splits)
  qed
qed

interpretation staging: invariant_machine "\<lambda>st. st = st0 \<and> marks_ok st0" "\<lambda>_ _. True" "add_staging k" marks_ok for st0 k
  by unfold_locales (auto intro: add_staging_marks)

lemma staging_fold:
  "marks_ok st \<Longrightarrow> marks_ok (fold (add_staging k) ds st)"
  "mset (points (ss_rows st)) \<subseteq># mset (points (ss_rows (fold (add_staging k) ds st)))"
proof -
  show "marks_ok st \<Longrightarrow> marks_ok (fold (add_staging k) ds st)"
    using staging.inv_run [OF _ run_always] by simp
  show "mset (points (ss_rows st)) \<subseteq># mset (points (ss_rows (fold (add_staging k) ds st)))"
  proof (induction ds arbitrary: st)
    case (Cons d ds)
    show ?case using subset_mset.order_trans [OF add_staging_points Cons] by simp
  qed simp
qed

lemma mark_drive_rows:
  "points (mark_drive ms rows) = points rows"
  "marked f (mark_drive ms rows) \<le> marked f rows + (if f = FlowDrive then 1 else 0)"
proof -
  have "points (update_first P (\<lambda>r. r\<lparr>flowTarget := Some FlowDrive\<rparr>) rows) = points rows" for P
    by (induction rows) auto
  then show "points (mark_drive ms rows) = points rows" by (simp add: mark_drive_def split: option.splits)
  have "marked f (update_first P (\<lambda>r. r\<lparr>flowTarget := Some FlowDrive\<rparr>) rows) \<le> marked f rows + (if f = FlowDrive then 1 else 0)" for P
    by (induction rows) auto
  then show "marked f (mark_drive ms rows) \<le> marked f rows + (if f = FlowDrive then 1 else 0)"
    by (auto simp: mark_drive_def split: option.splits)
qed

lemma backend_rows_spec:
  "mset (map rm_path (rb_mounts b)) \<subseteq># mset (points (backend_rows b staging)) \<and> marked f (backend_rows b staging) \<le> 1"
proof -
  define st where "st = \<lparr>ss_rows = fold (add_mount (rb_backendId b)) (rb_mounts b) [], ramMarked = False, diskMarked = False\<rparr>"
  let ?st = "fold (add_staging (rb_backendId b)) (or_else staging []) st"
  have "marks_ok st" by (simp add: st_def marks_ok_def mounts_rows)
  then have ok: "marks_ok ?st" by (rule staging_fold)
  then have "marked f (ss_rows ?st) + (if f = FlowDrive then 1 else 0) \<le> 1"
    unfolding marks_ok_def by (cases f) (auto simp: of_bool_def split: if_splits)
  then have "marked f (mark_drive (rb_mounts b) (ss_rows ?st)) \<le> 1"
    using mark_drive_rows(2) [of f "rb_mounts b" "ss_rows ?st"] by linarith
  moreover have "mset (map rm_path (rb_mounts b)) \<subseteq># mset (points (ss_rows ?st))"
    using staging_fold(2) [of st] by (simp add: st_def mounts_rows)
  ultimately show ?thesis
    by (simp add: backend_rows_def mark_drive_rows(1) mounts_rows st_def Let_def)
qed


text \<open>
  The storage rows of a host. For every backend there is one group, in order; every mount path of the backend
  is a mount point of one of its rows, as often as it is mounted; at most one row is marked with each part of the
  download flow; and the rows of a remote backend have distinct devices.
\<close>

lemma buildStorageGroups_rows:
  "list_all2 (\<lambda>b g. sg_backendId g = rb_backendId b
     \<and> mset (map rm_path (rb_mounts b)) \<subseteq># mset (points (sg_rows g))
     \<and> (\<forall>f. marked f (sg_rows g) \<le> 1)
     \<and> (rb_isLocal b \<or> distinct (map sr_device (sg_rows g)))) bs (buildStorageGroups localeCompare bs staging)"
proof -
  have "distinct (map sr_device (sort_cmp cmp (backend_rows b staging)))" if "\<not> rb_isLocal b" for cmp b
  proof -
    have "distinct (map sr_device (backend_rows b staging))" using that by (simp add: backend_rows_def mounts_rows)
    moreover have "mset (map sr_device (sort_cmp cmp (backend_rows b staging))) = mset (map sr_device (backend_rows b staging))" by simp
    ultimately show ?thesis by (metis mset_eq_imp_distinct_iff)
  qed
  moreover have "mset (points (sort_cmp cmp rows)) = mset (points rows)" "marked f (sort_cmp cmp rows) = marked f rows" for cmp rows f
    by (simp_all add: points_mset marked_mset)
  ultimately show ?thesis using backend_rows_spec
    by (auto simp: buildStorageGroups_def list_all2_map2 list_all2_same)
qed

lemma better_point_fold:
  assumes "fold (better_point path) xs (b, n) = (b', n')" "-1 \<le> n"
  shows "n \<le> n'" and "list_all (\<lambda>x. int (length (snd x)) \<le> n') (filter (\<lambda>x. inside_point path (snd x)) xs)"
    and "(b', n') = (b, n) \<or> (\<exists>i p. (i, p) \<in> set xs \<and> inside_point path p \<and> b' = Some i \<and> n' = int (length p))"
  using assms
proof (induction xs arbitrary: b n)
  case (Cons x xs)
  {
    case 1
    show ?case using Cons(1) [of "fst (better_point path x (b, n))" "snd (better_point path x (b, n))"] 1
      by (auto simp: better_point_def split: if_splits)
  next
    case 2
    show ?case using Cons(1,2) [of "fst (better_point path x (b, n))" "snd (better_point path x (b, n))"] 2
      by (auto simp: better_point_def split: if_splits)
  next
    case 3
    show ?case using Cons(3) [of "fst (better_point path x (b, n))" "snd (better_point path x (b, n))"] 3
      by (cases x) (auto simp: better_point_def split: if_splits)
  }
qed simp_all

text \<open>
  A path is held by the longest mount point around it. \<open>mountFor\<close> finds no row exactly when no mount point of
  a row contains the path; otherwise the row it finds has a mount point that contains the path, and no mount point
  that contains the path is longer.
\<close>

lemma mountFor_longest:
  "case mountFor path rows of
     None \<Rightarrow> filter (\<lambda>x. inside_point path (snd x)) (row_points rows) = []
   | Some i \<Rightarrow> \<exists>p. (i, p) \<in> set (row_points rows) \<and> inside_point path p
       \<and> list_all (\<lambda>x. length (snd x) \<le> length p) (filter (\<lambda>x. inside_point path (snd x)) (row_points rows))"
proof -
  obtain b n where r: "fold (better_point path) (row_points rows) (None, -1) = (b, n)" by force
  note spec = better_point_fold [OF r]
  show ?thesis
  proof (cases b)
    case None
    with spec(2,3) have "list_all (\<lambda>x. False) (filter (\<lambda>x. inside_point path (snd x)) (row_points rows))" by (simp add: list_all_iff)
    then show ?thesis using None r by (auto simp: mountFor_def list_all_iff filter_empty_conv)
  next
    case (Some i)
    with spec(2,3) obtain p where "(i, p) \<in> set (row_points rows)" "inside_point path p" "n = int (length p)" by auto
    then show ?thesis using spec(2) Some r by (auto simp: mountFor_def)
  qed
qed

end
