(* ===== verification/NetworkTools.thy ===== *)
theory NetworkTools
  imports JsPrelude
begin

text \<open>
  The network page: bulk import and export of proxies (\<open>features/network/lib/proxyParser.ts\<close>), the download
  limits form (\<open>downloadLimits.ts\<close>), the grouping of proxy analyzer results (\<open>networkUtils.ts\<close>), and the adaptive
  batch size of the profile scanner (\<open>features/tools/lib/mpsAdaptiveBatch.ts\<close>). The URL parser of the browser
  (\<open>new URL\<close>), \<open>decodeURIComponent\<close>, \<open>encodeURIComponent\<close> and \<open>toLocaleString\<close> are parameters; a call that
  throws is \<open>None\<close>.
\<close>

section \<open>Proxies\<close>

record url_parts =
  url_protocol :: string
  url_host :: string
  url_hostname :: string
  url_port :: string
  url_username :: string
  url_password :: string

type_synonym url_parser = "string \<Rightarrow> url_parts option"

type_synonym uri_decoder = "string \<Rightarrow> string option"

record proxy =
  proxy_url :: string
  proxy_username :: "string option"
  proxy_password :: "string option"
  proxy_group :: "string option"

record parsed_proxy_line =
  line_id :: string
  line_raw :: string
  line_url :: string
  line_username :: "string option"
  line_password :: "string option"
  line_group :: "string option"
  line_error :: "string option"

text \<open>\<open>s ? decodeURIComponent(s) : null\<close>: the outer option is the exception, the inner one is \<open>null\<close>.\<close>

definition decode_part :: "uri_decoder \<Rightarrow> string \<Rightarrow> string option option" where
  "decode_part decode s = (if s = [] then Some None else map_option Some (decode s))"

text \<open>The body of a \<open>try\<close> block: parse as a URL with the given scheme; every exception falls through.\<close>

definition try_url :: "url_parser \<Rightarrow> uri_decoder \<Rightarrow> string option \<Rightarrow> string \<Rightarrow> string option \<Rightarrow> proxy option" where
  "try_url parseURL decode fixed_scheme text grp =
     (case parseURL text of
        None \<Rightarrow> None
      | Some parsed \<Rightarrow>
          let scheme = or_else fixed_scheme (lower (remove1 CHR '':'' (url_protocol parsed)));
              host = url_hostname parsed; port = url_port parsed
          in case decode_part decode (url_username parsed) of
               None \<Rightarrow> None
             | Some username \<Rightarrow>
                 (case decode_part decode (url_password parsed) of
                    None \<Rightarrow> None
                  | Some password \<Rightarrow>
                      if host = [] then None
                      else Some \<lparr>proxy_url = scheme @ ''://'' @ host @ (if port \<noteq> [] then '':'' @ port else []),
                                 proxy_username = username, proxy_password = password, proxy_group = grp\<rparr>))"

text \<open>The group and the rest of a line: a comment after \<open>#\<close> names the group.\<close>

definition default_group :: "string option \<Rightarrow> string option" where
  "default_group g = Option.bind g (\<lambda>x. nonempty (trim x))"

definition split_comment :: "string \<Rightarrow> string option \<Rightarrow> string \<times> string option" where
  "split_comment raw defaultGroup =
     (case split_on CHR ''#'' raw of
        mainPart # commentPart # _ \<Rightarrow>
          (trim mainPart, if trim commentPart \<noteq> [] then Some (trim commentPart) else default_group defaultGroup)
      | _ \<Rightarrow> (raw, default_group defaultGroup))"

definition valid_port :: "string \<Rightarrow> int option" where
  "valid_port portStr =
     (case parse_int portStr of None \<Rightarrow> None | Some port \<Rightarrow> if port \<le> 0 \<or> port > 65535 then None else Some port)"

definition colon_proxy :: "string \<Rightarrow> string option \<Rightarrow> string + proxy" where
  "colon_proxy raw grp =
     (case split_on CHR '':'' raw of
        [host, portStr, user, pass] \<Rightarrow>
          (case valid_port portStr of
             None \<Rightarrow> Inl (''Invalid port in: '' @ raw)
           | Some port \<Rightarrow> Inr \<lparr>proxy_url = ''http://'' @ host @ '':'' @ show_int port, proxy_username = nonempty user,
                              proxy_password = nonempty pass, proxy_group = grp\<rparr>)
      | [host, portStr] \<Rightarrow>
          (case valid_port portStr of
             None \<Rightarrow> Inl (''Invalid port in: '' @ raw)
           | Some port \<Rightarrow> Inr \<lparr>proxy_url = ''http://'' @ host @ '':'' @ show_int port, proxy_username = None,
                              proxy_password = None, proxy_group = grp\<rparr>)
      | _ \<Rightarrow> Inl (''Unrecognized proxy format: '' @ raw))"

definition parseProxyLine :: "url_parser \<Rightarrow> uri_decoder \<Rightarrow> string \<Rightarrow> string option \<Rightarrow> string + proxy" where
  "parseProxyLine parseURL decode line defaultGroup =
     (if trim line = [] then Inl ''Empty line''
      else case split_comment (trim line) defaultGroup of
        (raw, grp) \<Rightarrow>
          if raw = [] then Inl ''Empty line''
          else
            let with_scheme = (if includes_str ''://'' raw then try_url parseURL decode None raw grp else None);
                with_user = (if CHR ''@'' \<in> set raw then try_url parseURL decode (Some ''http'') (''http://'' @ raw) grp else None)
            in case coalesce with_scheme with_user of
                 Some p \<Rightarrow> Inr p
               | None \<Rightarrow> colon_proxy raw grp)"

definition import_line :: "url_parser \<Rightarrow> uri_decoder \<Rightarrow> string option \<Rightarrow> nat \<Rightarrow> string \<Rightarrow> parsed_proxy_line" where
  "import_line parseURL decode defaultGroup i raw =
     (case parseProxyLine parseURL decode raw defaultGroup of
        Inr parsed \<Rightarrow>
          \<lparr>line_id = ''proxy-import-'' @ show_nat i @ ''-'' @ proxy_url parsed, line_raw = raw,
           line_url = proxy_url parsed, line_username = proxy_username parsed,
           line_password = proxy_password parsed, line_group = proxy_group parsed, line_error = None\<rparr>
      | Inl message \<Rightarrow>
          \<lparr>line_id = ''proxy-import-'' @ show_nat i @ ''-err'', line_raw = raw, line_url = raw, line_username = None,
           line_password = None, line_group = default_group defaultGroup, line_error = Some message\<rparr>)"

fun import_lines :: "url_parser \<Rightarrow> uri_decoder \<Rightarrow> string option \<Rightarrow> nat \<Rightarrow> string list \<Rightarrow> parsed_proxy_line list" where
  "import_lines parseURL decode g i [] = []"
| "import_lines parseURL decode g i (l # ls) =
     (let raw = trim l
      in if raw = [] \<or> starts_with ''//'' raw then import_lines parseURL decode g (Suc i) ls
         else import_line parseURL decode g i raw # import_lines parseURL decode g (Suc i) ls)"

definition parseBulkProxyText :: "url_parser \<Rightarrow> uri_decoder \<Rightarrow> string \<Rightarrow> string option \<Rightarrow> parsed_proxy_line list" where
  "parseBulkProxyText parseURL decode text defaultGroup =
     import_lines parseURL decode defaultGroup 0 (split_on CHR 0x0A text)"

definition formatProxyForText ::
  "url_parser \<Rightarrow> uri_decoder \<Rightarrow> string \<Rightarrow> string option \<Rightarrow> string option \<Rightarrow> string" where
  "formatProxyForText parseURL encode url_text username grp =
     (let line =
        (case Option.bind username nonempty of
           None \<Rightarrow> url_text
         | Some u \<Rightarrow>
             (case parseURL url_text of
                None \<Rightarrow> u @ ''@'' @ url_text
              | Some parsed \<Rightarrow>
                  (case encode u of
                     None \<Rightarrow> u @ ''@'' @ url_text
                   | Some e \<Rightarrow> url_protocol parsed @ ''//'' @ e @ ''@'' @ url_host parsed)))
      in case Option.bind grp nonempty of None \<Rightarrow> line | Some g \<Rightarrow> line @ '' # '' @ g)"

section \<open>Download limits\<close>

record 'a download_limits =
  max_concurrency :: 'a
  per_domain_concurrency :: 'a
  head_concurrency :: 'a

definition toDownloadLimitsDraft :: "int download_limits \<Rightarrow> string download_limits" where
  "toDownloadLimitsDraft l = \<lparr>max_concurrency = show_int (max_concurrency l),
     per_domain_concurrency = show_int (per_domain_concurrency l), head_concurrency = show_int (head_concurrency l)\<rparr>"

definition limit_value :: "string \<Rightarrow> jsnum" where
  "limit_value s = (let raw = trim s in if raw \<noteq> [] \<and> list_all is_digit raw then js_Number raw else NaN)"

definition valid_limit :: "jsnum \<Rightarrow> int option" where
  "valid_limit v =
     (case v of Fin q \<Rightarrow> if is_safe_integer v \<and> \<not> q < 1 then Some \<lfloor>q\<rfloor> else None | _ \<Rightarrow> None)"

definition parseDownloadLimits :: "string download_limits \<Rightarrow> int download_limits option" where
  "parseDownloadLimits draft =
     (case (valid_limit (limit_value (max_concurrency draft)), valid_limit (limit_value (per_domain_concurrency draft)),
            valid_limit (limit_value (head_concurrency draft))) of
        (Some a, Some b, Some c) \<Rightarrow> Some \<lparr>max_concurrency = a, per_domain_concurrency = b, head_concurrency = c\<rparr>
      | _ \<Rightarrow> None)"

section \<open>Analyzer results\<close>

record analyzer_result =
  ar_concurrency :: nat
  ar_requests :: int
  ar_successes :: int
  ar_efficiency_score :: rat

text \<open>\<open>successes / requests\<close>, with the quotients by zero of the language.\<close>

definition success_rate :: "analyzer_result \<Rightarrow> jsnum" where
  "success_rate r =
     (if ar_requests r \<noteq> 0 then Fin (of_int (ar_successes r) / of_int (ar_requests r))
      else if ar_successes r = 0 then NaN else if ar_successes r > 0 then PosInf else NegInf)"

definition rate_ok :: "jsnum \<Rightarrow> bool" where
  "rate_ok n \<longleftrightarrow> (case n of Fin q \<Rightarrow> q \<ge> 95 / 100 | PosInf \<Rightarrow> True | _ \<Rightarrow> False)"

definition rate_low :: "jsnum \<Rightarrow> bool" where
  "rate_low n \<longleftrightarrow> (case n of Fin q \<Rightarrow> q < 95 / 100 | NegInf \<Rightarrow> True | _ \<Rightarrow> False)"

definition better_result :: "analyzer_result \<Rightarrow> analyzer_result \<Rightarrow> analyzer_result" where
  "better_result current best =
     (if rate_ok (success_rate current) \<and> ar_efficiency_score current > ar_efficiency_score best then current
      else if rate_ok (success_rate current) \<and> rate_low (success_rate best) then current
      else best)"

definition findBestAnalyzerResult :: "analyzer_result list \<Rightarrow> analyzer_result" where
  "findBestAnalyzerResult results = fold better_result results (hd results)"

definition group_results :: "analyzer_result list \<Rightarrow> nat \<Rightarrow> analyzer_result list" where
  "group_results results c = filter (\<lambda>r. ar_concurrency r = c) results"

text \<open>The keys of the grouping object are array indices and enumerate in ascending order.\<close>

definition group_keys :: "analyzer_result list \<Rightarrow> nat list" where
  "group_keys results = sort (dedup (map ar_concurrency results))"

definition getGroupedAnalyzerResults :: "analyzer_result list \<Rightarrow> (nat \<times> analyzer_result list \<times> analyzer_result) list" where
  "getGroupedAnalyzerResults results =
     (let best = (\<lambda>c. findBestAnalyzerResult (group_results results c))
      in map (\<lambda>c. (c, group_results results c, best c))
           (sort_cmp (cmp_rev (cmp_on (\<lambda>c. ar_efficiency_score (best c)) cmp_num)) (group_keys results)))"

definition getErrorDetails :: "(string \<times> int) list option \<Rightarrow> (string \<times> int) list" where
  "getErrorDetails counts = (case counts of None \<Rightarrow> [] | Some cs \<Rightarrow> filter (\<lambda>(code, _). \<not> starts_with ''2'' code) cs)"

definition getErrorCount :: "(string \<times> int) list option \<Rightarrow> int" where
  "getErrorCount counts =
     (case counts of None \<Rightarrow> 0 | Some cs \<Rightarrow> sum_list (map snd (filter (\<lambda>(code, _). \<not> starts_with ''2'' code) cs)))"

section \<open>Adaptive batch size\<close>

record analysis =
  range_size :: int
  start_id :: int
  end_id :: int
  candidate_count :: int
  missing_count :: int

record batch_options =
  baseBatchSize :: "int option"
  maxRecommendation :: "int option"
  includeMissingIds :: "bool option"
  routes :: "int option"

record recommendation =
  rec_value :: int
  rec_density :: rat
  rec_title :: string

definition DEFAULT_BASE_BATCH_SIZE :: int where
  "DEFAULT_BASE_BATCH_SIZE = 5000"

definition DEFAULT_MAX_RECOMMENDATION :: int where
  "DEFAULT_MAX_RECOMMENDATION = 1000000"

definition no_candidates :: recommendation where
  "no_candidates = \<lparr>rec_value = 0, rec_density = 0, rec_title = ''No candidates remain in the selected range.''\<rparr>"

definition format_percent :: "rat \<Rightarrow> string" where
  "format_percent p = (if p < 1 / 100 then to_fixed 3 p else if p < 1 then to_fixed 2 p else to_fixed 1 p)"

definition raw_density :: "analysis \<Rightarrow> bool \<Rightarrow> int \<Rightarrow> rat \<times> string" where
  "raw_density a includeMissing totalIds =
     (if includeMissing \<and> missing_count a > 0 then (of_int (missing_count a) / of_int totalIds, ''missing-ID'')
      else if candidate_count a > 0 then (of_int (candidate_count a) / of_int totalIds, ''candidate'')
      else (0, ''missing-ID''))"

definition calculateAdaptiveBatchSize ::
  "(int \<Rightarrow> string) \<Rightarrow> analysis option \<Rightarrow> batch_options option \<Rightarrow> recommendation option" where
  "calculateAdaptiveBatchSize toLocaleString analysis options =
     (case analysis of
        None \<Rightarrow> None
      | Some a \<Rightarrow>
          let totalIds = (if range_size a > 0 then range_size a else end_id a - start_id a + 1)
          in if totalIds \<le> 0 then None
             else
               let base = or_else (Option.bind options baseBatchSize) DEFAULT_BASE_BATCH_SIZE;
                   limit = or_else (Option.bind options maxRecommendation) DEFAULT_MAX_RECOMMENDATION;
                   includeMissing = or_else (Option.bind options includeMissingIds) True;
                   rts = or_else (Option.bind options routes) 1
               in if candidate_count a \<le> 0 then Some no_candidates
                  else case raw_density a includeMissing totalIds of
                    (density, label) \<Rightarrow>
                      if density \<le> 0 then Some no_candidates
                      else
                        let clamped = min 1 (max 0 density);
                            multiplier = max 1 rts;
                            effectiveBase = base * multiplier;
                            effectiveMax = limit * multiplier;
                            rawBatch = \<lceil>of_int effectiveBase / clamped\<rceil>;
                            v = max effectiveBase (min effectiveMax rawBatch);
                            routeLabel = (if multiplier > 1 then [CHR '' '', CHR 0xC3, CHR 0x97, CHR '' ''] @ toLocaleString multiplier @ '' routes'' else [])
                        in Some \<lparr>rec_value = v, rec_density = clamped,
                             rec_title = ''Use adaptive batch size ('' @ format_percent (clamped * 100) @ ''% '' @ label
                               @ '' density'' @ routeLabel @ '' = '' @ toLocaleString v @ '' profiles)''\<rparr>)"

section \<open>Properties of the import\<close>

lemma import_line_raw [simp]: "line_raw (import_line u d g i raw) = raw"
  by (simp add: import_line_def split: sum.splits)

lemma import_line_id: "\<exists>r. line_id (import_line u d g i raw) = ''proxy-import-'' @ show_nat i @ CHR ''-'' # r"
  by (auto simp: import_line_def split: sum.splits)

lemma import_id_inject:
  assumes "line_id (import_line u d g i a) = line_id (import_line u d g j b)"
  shows "i = j"
proof -
  obtain r where r: "line_id (import_line u d g i a) = ''proxy-import-'' @ show_nat i @ CHR ''-'' # r"
    using import_line_id by blast
  obtain t where t: "line_id (import_line u d g j b) = ''proxy-import-'' @ show_nat j @ CHR ''-'' # t"
    using import_line_id by blast
  have "show_nat i @ CHR ''-'' # r = show_nat j @ CHR ''-'' # t" using assms r t by simp
  moreover have "takeWhile is_digit (show_nat n @ CHR ''-'' # t) = show_nat n" for n t
    by (rule takeWhile_tail [THEN trans]) (auto simp: is_digit_def takeWhile_eq_all_conv dest: show_nat_digits)
  ultimately show ?thesis by (metis show_nat_inject)
qed

lemma import_lines_from:
  "r \<in> set (import_lines u d g i ls) \<Longrightarrow> \<exists>j \<ge> i. r = import_line u d g j (line_raw r)"
proof (induction ls arbitrary: i)
  case (Cons l ls)
  have "\<exists>j \<ge> i. r = import_line u d g j (line_raw r)" if "r \<in> set (import_lines u d g (Suc i) ls)"
    using Cons.IH [OF that] Suc_leD by blast
  then show ?case using Cons.prems by (auto simp: Let_def split: if_splits)
qed simp

lemma import_ids_fresh: "line_id (import_line u d g i raw) \<notin> line_id ` set (import_lines u d g (Suc i) ls)"
proof
  assume "line_id (import_line u d g i raw) \<in> line_id ` set (import_lines u d g (Suc i) ls)"
  then obtain r where r: "r \<in> set (import_lines u d g (Suc i) ls)" "line_id (import_line u d g i raw) = line_id r" by blast
  then obtain j where "Suc i \<le> j" "r = import_line u d g j (line_raw r)" using import_lines_from by blast
  then have "i = j" using r(2) import_id_inject by metis
  then show False using \<open>Suc i \<le> j\<close> by simp
qed

lemma import_lines_distinct: "distinct (map line_id (import_lines u d g i ls))"
  by (induction ls arbitrary: i) (simp_all add: Let_def import_ids_fresh)

lemma import_lines_raw:
  "map line_raw (import_lines u d g i ls) = filter (\<lambda>l. l \<noteq> [] \<and> \<not> starts_with ''//'' l) (map trim ls)"
  by (induction ls arbitrary: i) (simp_all add: Let_def)

text \<open>What a line of the result says about the outcome of parsing it.\<close>

definition reports :: "string + proxy \<Rightarrow> parsed_proxy_line \<Rightarrow> bool" where
  "reports res r \<longleftrightarrow>
     (case res of
        Inr p \<Rightarrow> line_error r = None \<and> line_url r = proxy_url p \<and> line_username r = proxy_username p
                 \<and> line_password r = proxy_password p \<and> line_group r = proxy_group p
      | Inl m \<Rightarrow> line_error r = Some m \<and> line_url r = line_raw r)"

lemma import_line_reports: "reports (parseProxyLine u d raw g) (import_line u d g j raw)"
  by (simp add: reports_def import_line_def split: sum.splits)

text \<open>
  The import reports every line. The lines of the text that are not empty and not comments come back in order,
  trimmed, under distinct ids; a line that parses carries the parsed proxy and no error, and a line that does not
  parse carries its message and its own text as the URL.
\<close>

lemma parseBulkProxyText_lines:
  "map line_raw (parseBulkProxyText parseURL decode text g)
     = filter (\<lambda>l. l \<noteq> [] \<and> \<not> starts_with ''//'' l) (map trim (split_on CHR 0x0A text))
   \<and> distinct (map line_id (parseBulkProxyText parseURL decode text g))
   \<and> list_all (\<lambda>r. reports (parseProxyLine parseURL decode (line_raw r) g) r) (parseBulkProxyText parseURL decode text g)"
proof -
  have "reports (parseProxyLine parseURL decode (line_raw r) g) r"
    if r: "r \<in> set (import_lines parseURL decode g 0 (split_on CHR 0x0A text))" for r
    using import_lines_from [OF r] import_line_reports by metis
  then show ?thesis
    unfolding parseBulkProxyText_def list_all_iff by (intro conjI import_lines_raw import_lines_distinct ballI)
qed

section \<open>Properties of the limits\<close>

lemma limit_value_show_int: "limit_value (show_int k) = (if 0 \<le> k then Fin (of_int k) else NaN)"
proof (cases "0 \<le> k")
  case True
  then show ?thesis
    using js_Number_show_nat [of "nat k"] show_nat_digits [of _ "nat k"]
    by (auto simp: limit_value_def show_int_def list_all_iff Let_def)
next
  case False
  then have "trim (show_int k) = show_int k"
    using is_digit_not_ws [OF show_nat_digits] by (intro trim_no_ws) (auto simp: show_int_def, simp add: is_ws_def)
  with False show ?thesis by (simp add: limit_value_def show_int_def is_digit_def Let_def)
qed

lemma valid_limit_show_int:
  "valid_limit (limit_value (show_int k)) = (if 1 \<le> k \<and> k < 2 ^ 53 then Some k else None)"
proof -
  have "is_safe_integer (Fin (of_int k)) \<longleftrightarrow> \<bar>k\<bar> < 2 ^ 53"
    unfolding is_safe_integer_def is_integral_def jsnum.case
    using of_int_le_iff [of "\<bar>k\<bar>" 9007199254740991, where 'a = rat] by auto
  then show ?thesis using of_int_less_iff [of k 1, where 'a = rat] by (auto simp: limit_value_show_int valid_limit_def)
qed

text \<open>
  Limits survive the form. Writing limits into the form and reading them back gives the same limits when each
  is at least 1 and below 2 to the 53, and is refused otherwise.
\<close>

lemma parseDownloadLimits_draft:
  "parseDownloadLimits (toDownloadLimitsDraft l) =
     (if list_all (\<lambda>k. 1 \<le> k \<and> k < 2 ^ 53) [max_concurrency l, per_domain_concurrency l, head_concurrency l]
      then Some l else None)"
  by (simp add: parseDownloadLimits_def toDownloadLimitsDraft_def valid_limit_show_int)

section \<open>Properties of the analyzer\<close>

definition reliable :: "analyzer_result \<Rightarrow> bool" where
  "reliable r \<longleftrightarrow> rate_ok (success_rate r)"

lemma reliable_low: "ar_requests r \<noteq> 0 \<Longrightarrow> rate_low (success_rate r) \<longleftrightarrow> \<not> reliable r"
  by (auto simp: reliable_def success_rate_def rate_ok_def rate_low_def)

text \<open>The running choice: among the results seen so far it is reliable and best if any of them is reliable.\<close>

definition chosen :: "analyzer_result set \<Rightarrow> analyzer_result \<Rightarrow> bool" where
  "chosen R b \<longleftrightarrow> b \<in> R \<and> (\<forall>r \<in> R. reliable r \<longrightarrow> reliable b \<and> ar_efficiency_score r \<le> ar_efficiency_score b)"

lemma chosen_step:
  assumes "chosen R b" "\<forall>r \<in> R. ar_requests r \<noteq> 0"
  shows "chosen (insert r R) (better_result r b)"
proof -
  have b: "rate_low (success_rate b) \<longleftrightarrow> \<not> reliable b" using assms by (auto simp: chosen_def reliable_low)
  show ?thesis using assms(1) b by (auto simp: chosen_def better_result_def reliable_def [symmetric])
qed

lemma chosen_fold:
  assumes "chosen R b" "\<forall>r \<in> R \<union> set rs. ar_requests r \<noteq> 0"
  shows "chosen (R \<union> set rs) (fold better_result rs b)"
  using assms
proof (induction rs arbitrary: R b)
  case (Cons r rs)
  then show ?case using Cons.IH [OF chosen_step [of R b r]] by simp
qed simp

text \<open>
  The best result of a group. Of results that all made requests, the one chosen is among them; and if one of
  them has a success rate of at least 95 percent, then so has the chosen one, and no such result has a higher
  efficiency score.
\<close>

lemma findBestAnalyzerResult_best:
  assumes "rs \<noteq> []" "list_all (\<lambda>r. ar_requests r \<noteq> 0) rs"
  shows "findBestAnalyzerResult rs \<in> set rs \<and>
     (list_ex reliable rs \<longrightarrow> reliable (findBestAnalyzerResult rs) \<and>
        list_all (\<lambda>r. ar_efficiency_score r \<le> ar_efficiency_score (findBestAnalyzerResult rs)) (filter reliable rs))"
proof -
  have "chosen {hd rs} (hd rs)" by (simp add: chosen_def)
  then have "chosen ({hd rs} \<union> set rs) (findBestAnalyzerResult rs)"
    unfolding findBestAnalyzerResult_def by (rule chosen_fold) (use assms in \<open>auto simp: list_all_iff\<close>)
  moreover have "{hd rs} \<union> set rs = set rs" using assms(1) by auto
  ultimately show ?thesis by (auto simp: chosen_def list_ex_iff list_all_iff)
qed

definition sample_result :: "int \<Rightarrow> rat \<Rightarrow> analyzer_result" where
  "sample_result ok score = \<lparr>ar_concurrency = 4, ar_requests = 100, ar_successes = ok, ar_efficiency_score = score\<rparr>"

lemma findBestAnalyzerResult_best_witness:
  "findBestAnalyzerResult [sample_result 50 9, sample_result 99 5] \<in> set [sample_result 50 9, sample_result 99 5] \<and>
   reliable (findBestAnalyzerResult [sample_result 50 9, sample_result 99 5]) \<and>
   list_all (\<lambda>r. ar_efficiency_score r \<le> ar_efficiency_score (findBestAnalyzerResult [sample_result 50 9, sample_result 99 5]))
     (filter reliable [sample_result 50 9, sample_result 99 5])"
proof -
  let ?rs = "[sample_result 50 9, sample_result 99 5]"
  have "list_ex reliable ?rs" by code_simp
  moreover have "?rs \<noteq> []" "list_all (\<lambda>r. ar_requests r \<noteq> 0) ?rs" by (simp_all add: sample_result_def)
  ultimately show ?thesis using findBestAnalyzerResult_best by blast
qed

section \<open>Bounds of the batch size\<close>

text \<open>
  The recommended batch is bounded and large enough. With candidates left and a base that is not negative, the
  recommendation has a density above 0 and at most 1; its size is at least the base size times the routes and at
  most the larger of that and the maximum times the routes; and a batch of that size holds the base number of
  profiles per route at that density, unless it is the largest one allowed.
\<close>

lemma calculateAdaptiveBatchSize_bounds:
  assumes "calculateAdaptiveBatchSize localeString (Some a) options = Some r" "candidate_count a > 0"
    "base = or_else (Option.bind options baseBatchSize) DEFAULT_BASE_BATCH_SIZE * max 1 (or_else (Option.bind options routes) 1)"
    "top_size = or_else (Option.bind options maxRecommendation) DEFAULT_MAX_RECOMMENDATION * max 1 (or_else (Option.bind options routes) 1)"
    "base \<ge> 0"
  shows "0 < rec_density r \<and> rec_density r \<le> 1 \<and> base \<le> rec_value r \<and> rec_value r \<le> max base top_size
    \<and> (of_int base \<le> of_int (rec_value r) * rec_density r \<or> rec_value r = max base top_size)"
proof -
  define total where "total = (if range_size a > 0 then range_size a else end_id a - start_id a + 1)"
  have total: "total > 0" using assms(1) by (auto simp: calculateAdaptiveBatchSize_def total_def Let_def split: if_splits)
  obtain q l where d: "raw_density a (or_else (Option.bind options includeMissingIds) True) total = (q, l)" by force
  have q: "q > 0" using d total assms(2) by (auto simp: raw_density_def split: if_splits)
  define c where "c = min 1 (max 0 q)"
  have c: "0 < c" "c \<le> 1" using q by (auto simp: c_def)
  have r: "rec_density r = c" "rec_value r = max base (min top_size \<lceil>of_int base / c\<rceil>)"
    using assms(1) total q d assms(2)
    by (auto simp: calculateAdaptiveBatchSize_def total_def [symmetric] Let_def c_def assms(3,4))
  have le: "of_int base \<le> of_int \<lceil>of_int base / c\<rceil> * c"
    using iffD1 [OF pos_divide_le_eq [OF c(1)] le_of_int_ceiling] .
  have "of_int base \<le> of_int base / c" using c assms(5) by (simp add: pos_le_divide_eq mult_left_le)
  then have ge: "base \<le> \<lceil>of_int base / c\<rceil>" by linarith
  show ?thesis
  proof (cases "\<lceil>of_int base / c\<rceil> \<le> top_size")
    case True
    then have "rec_value r = \<lceil>of_int base / c\<rceil>" using r(2) ge by simp
    then show ?thesis using r c le ge True by auto
  next
    case False
    then have "rec_value r = max base top_size" using r(2) by simp
    then show ?thesis using r c by simp
  qed
qed

definition sample_analysis :: analysis where
  "sample_analysis = \<lparr>range_size = 1000, start_id = 1, end_id = 1000, candidate_count = 600, missing_count = 500\<rparr>"

lemma calculateAdaptiveBatchSize_bounds_witness:
  "0 < rec_density (the (calculateAdaptiveBatchSize (\<lambda>n. show_int n) (Some sample_analysis) None)) \<and>
   rec_density (the (calculateAdaptiveBatchSize (\<lambda>n. show_int n) (Some sample_analysis) None)) \<le> 1 \<and>
   5000 \<le> rec_value (the (calculateAdaptiveBatchSize (\<lambda>n. show_int n) (Some sample_analysis) None)) \<and>
   rec_value (the (calculateAdaptiveBatchSize (\<lambda>n. show_int n) (Some sample_analysis) None)) \<le> max 5000 1000000 \<and>
   (of_int 5000 \<le> of_int (rec_value (the (calculateAdaptiveBatchSize (\<lambda>n. show_int n) (Some sample_analysis) None)))
        * rec_density (the (calculateAdaptiveBatchSize (\<lambda>n. show_int n) (Some sample_analysis) None))
    \<or> rec_value (the (calculateAdaptiveBatchSize (\<lambda>n. show_int n) (Some sample_analysis) None)) = max 5000 1000000)"
  by (rule calculateAdaptiveBatchSize_bounds [where a = sample_analysis and options = None and localeString = "\<lambda>n. show_int n"])
    (simp_all add: calculateAdaptiveBatchSize_def sample_analysis_def raw_density_def or_else_def Let_def
      DEFAULT_BASE_BATCH_SIZE_def DEFAULT_MAX_RECOMMENDATION_def)

text \<open>The sizes that the comment of the function lists: one and ten routes, by density.\<close>

lemma documented_batch_sizes:
  "map (\<lambda>(n, k). map_option rec_value (calculateAdaptiveBatchSize (\<lambda>n. [])
      (Some \<lparr>range_size = 100, start_id = 1, end_id = 100, candidate_count = n, missing_count = n\<rparr>)
      (Some \<lparr>baseBatchSize = None, maxRecommendation = None, includeMissingIds = None, routes = Some k\<rparr>)))
    [(100, 1), (50, 1), (25, 1), (10, 1), (1, 1), (50, 10)]
   = [Some 5000, Some 10000, Some 20000, Some 50000, Some 500000, Some 100000]"
  by code_simp

end
