(* ===== verification/JobProgress.thy ===== *)
theory JobProgress
  imports JsRegex JsJson
begin

text \<open>
  What the jobs pages show of a job: \<open>features/jobs/lib/jobEta.ts\<close> (elapsed time and estimated completion),
  \<open>jobUtils.ts\<close> (effective status, preparation progress, durations, schedule labels, error messages, counts)
  and \<open>jobLiveRefresh.ts\<close> (which events refresh, when polling waits). Times are integral milliseconds; a date is
  \<open>None\<close> when it is invalid, and so is a number of seconds computed from an invalid date (NaN). The formatting of
  dates and of numbers that are not whole, the time zone and the clock are parameters.
\<close>

section \<open>Durations and estimates\<close>

type_synonym date = "int option"

text \<open>How the host formats and parses dates.\<close>

record clock =
  getTime :: "string \<Rightarrow> date"
  toLocaleTimeString :: "date \<Rightarrow> string"
  toLocaleString_date :: "date \<Rightarrow> string"
  toLocaleDateString :: "date \<Rightarrow> string"
  toISOString :: "int \<Rightarrow> string"
  timezoneOffset :: "int \<Rightarrow> int"

definition formatDuration :: "int option \<Rightarrow> string" where
  "formatDuration seconds =
     (case seconds of
        None \<Rightarrow> ''NaNh''
      | Some s \<Rightarrow>
          if s < 60 then show_int s @ ''s''
          else let mins = s div 60; secs = s mod 60
               in if mins < 60 then (if secs > 0 then show_int mins @ ''m '' @ show_int secs @ ''s'' else show_int mins @ ''m'')
                  else let hrs = mins div 60; remainMins = mins mod 60
                       in if remainMins > 0 then show_int hrs @ ''h '' @ show_int remainMins @ ''m'' else show_int hrs @ ''h'')"

datatype eta_status = EtaPending | EtaRunning | EtaWrappingUp | EtaCompleted | EtaStopped

record job_eta_input =
  in_status :: "string option"
  in_startedAt :: "string option"
  in_completedAt :: "string option"
  in_progressPercent :: "jsnum option"
  in_itemsProcessed :: "rat option"
  in_itemsTotal :: "rat option"
  in_currentTime :: int
  in_smoothedTargetMs :: "rat option"

text \<open>In \<open>elapsedSeconds\<close> the outer option is \<open>null\<close>, the inner one NaN.\<close>

record job_eta_result =
  eta_status :: eta_status
  elapsedSeconds :: "int option option"
  remainingSeconds :: "int option"
  formattedElapsed :: "string option"
  formattedRemaining :: "string option"
  completionDate :: "date option"
  formattedCompletionTime :: "string option"
  eta_label :: string
  eta_tooltip :: string

definition start_ms :: "clock \<Rightarrow> string option \<Rightarrow> date" where
  "start_ms clk startedAt = Option.bind (Option.bind startedAt nonempty) (getTime clk)"

definition rounded_elapsed :: "date \<Rightarrow> date \<Rightarrow> int option option" where
  "rounded_elapsed endMs startMs =
     (case startMs of
        None \<Rightarrow> None
      | Some s \<Rightarrow> Some (map_option (\<lambda>e. max 0 (js_round (of_int (e - s) / 1000))) endMs))"

definition with_duration :: "string \<Rightarrow> string \<Rightarrow> int option option \<Rightarrow> string" where
  "with_duration prefix_text plain elapsed =
     (case elapsed of None \<Rightarrow> plain | Some e \<Rightarrow> prefix_text @ formatDuration e)"

definition completed_eta :: "clock \<Rightarrow> job_eta_input \<Rightarrow> job_eta_result" where
  "completed_eta clk i =
     (let endMs = (case Option.bind (in_completedAt i) nonempty of Some c \<Rightarrow> getTime clk c | None \<Rightarrow> Some (in_currentTime i));
          elapsed = rounded_elapsed endMs (start_ms clk (in_startedAt i))
      in \<lparr>eta_status = EtaCompleted, elapsedSeconds = elapsed, remainingSeconds = Some 0,
          formattedElapsed = map_option formatDuration elapsed, formattedRemaining = Some ''Done'',
          completionDate = Some endMs, formattedCompletionTime = Some (toLocaleTimeString clk endMs),
          eta_label = with_duration ''Completed in '' ''Completed'' elapsed,
          eta_tooltip = with_duration ''Job finished in '' ''Job completed'' elapsed\<rparr>)"

definition stopped_eta :: "clock \<Rightarrow> string \<Rightarrow> job_eta_input \<Rightarrow> job_eta_result" where
  "stopped_eta clk normStatus i =
     (let elapsed = rounded_elapsed (Some (in_currentTime i)) (start_ms clk (in_startedAt i))
      in \<lparr>eta_status = EtaStopped, elapsedSeconds = elapsed, remainingSeconds = Some 0,
          formattedElapsed = map_option formatDuration elapsed,
          formattedRemaining = Some (if normStatus = ''failed'' then ''Failed'' else ''Cancelled''),
          completionDate = None, formattedCompletionTime = None,
          eta_label = with_duration ''Stopped after '' ''Stopped'' elapsed,
          eta_tooltip = with_duration ''Job stopped after '' ''Job stopped'' elapsed\<rparr>)"

definition waiting_eta :: "eta_status \<Rightarrow> string \<Rightarrow> string \<Rightarrow> string \<Rightarrow> job_eta_result" where
  "waiting_eta st remaining lbl tip =
     \<lparr>eta_status = st, elapsedSeconds = None, remainingSeconds = None, formattedElapsed = None,
      formattedRemaining = Some remaining, completionDate = None, formattedCompletionTime = None,
      eta_label = lbl, eta_tooltip = tip\<rparr>"

definition progress_of :: "jsnum option \<Rightarrow> rat" where
  "progress_of p = (case p of Some (Fin q) \<Rightarrow> q | _ \<Rightarrow> 0)"

definition remaining_sec :: "job_eta_input \<Rightarrow> int \<Rightarrow> rat \<Rightarrow> int option" where
  "remaining_sec i effectiveElapsed progress =
     (case in_smoothedTargetMs i of
        Some target \<Rightarrow> Some (max 0 (js_round ((target - of_int (in_currentTime i)) / 1000)))
      | None \<Rightarrow>
          if progress > 0 then Some (max 0 (js_round (of_int effectiveElapsed * (100 - progress) / progress)))
          else case (in_itemsTotal i, in_itemsProcessed i) of
                 (Some items, Some processed) \<Rightarrow>
                   if items \<noteq> 0 \<and> processed \<noteq> 0 \<and> items > processed \<and> processed > 0
                   then let p = processed / items in Some (max 0 (js_round (of_int effectiveElapsed * (1 - p) / p)))
                   else None
               | _ \<Rightarrow> None)"

definition running_eta :: "clock \<Rightarrow> int \<Rightarrow> job_eta_input \<Rightarrow> job_eta_result" where
  "running_eta clk startMs i =
     (let elapsed = max 0 ((in_currentTime i - startMs) div 1000);
          progress = progress_of (in_progressPercent i)
      in if progress \<ge> 100 then
           \<lparr>eta_status = EtaWrappingUp, elapsedSeconds = Some (Some elapsed), remainingSeconds = Some 0,
            formattedElapsed = Some (formatDuration (Some elapsed)), formattedRemaining = Some ''< 5s'',
            completionDate = Some (Some (in_currentTime i)), formattedCompletionTime = Some ''Soon'',
            eta_label = ''Wrapping up'', eta_tooltip = ''Tasks completed, finalizing job results''\<rparr>
         else case remaining_sec i (max 1 elapsed) progress of
           None \<Rightarrow>
             \<lparr>eta_status = EtaRunning, elapsedSeconds = Some (Some elapsed), remainingSeconds = None,
              formattedElapsed = Some (formatDuration (Some elapsed)), formattedRemaining = Some ''Estimating...'',
              completionDate = None, formattedCompletionTime = None, eta_label = ''Calculating ETA...'',
              eta_tooltip = ''Calculating estimated completion time...''\<rparr>
         | Some remaining \<Rightarrow>
             let completion = Some (in_currentTime i + remaining * 1000);
                 time = toLocaleTimeString clk completion;
                 formatted = (if remaining = 0 then ''< 5s'' else formatDuration (Some remaining))
             in \<lparr>eta_status = EtaRunning, elapsedSeconds = Some (Some elapsed), remainingSeconds = Some remaining,
                 formattedElapsed = Some (formatDuration (Some elapsed)), formattedRemaining = Some formatted,
                 completionDate = Some completion, formattedCompletionTime = Some time,
                 eta_label = ''Est. finish '' @ time,
                 eta_tooltip = ''Estimated completion at '' @ time @ '' (~'' @ formatted @ '' left)''\<rparr>)"

definition calculateJobEta :: "clock \<Rightarrow> job_eta_input \<Rightarrow> job_eta_result" where
  "calculateJobEta clk i =
     (let normStatus = lower (or_else (in_status i) [])
      in if Option.bind (in_completedAt i) nonempty \<noteq> None \<or> normStatus = ''completed'' then completed_eta clk i
         else if normStatus = ''failed'' \<or> normStatus = ''cancelled'' \<or> normStatus = ''canceled'' then stopped_eta clk normStatus i
         else if normStatus = ''pending'' \<or> normStatus = ''queued''
         then waiting_eta EtaPending ''Queued'' ''Queued'' ''Job is queued waiting to run''
         else if normStatus = ''claimed''
         then waiting_eta EtaPending ''Starting...'' ''Starting...'' ''Job has been claimed by a worker and is starting''
         else case start_ms clk (in_startedAt i) of
                None \<Rightarrow> waiting_eta EtaRunning ''Estimating...'' ''Estimating ETA...'' ''Calculating estimated completion time...''
              | Some startMs \<Rightarrow> running_eta clk startMs i)"

section \<open>Status and preparation\<close>

record task_stats =
  ts_total :: int
  ts_ready :: int
  ts_blocked :: int
  ts_inflight :: int
  ts_deferred :: int
  ts_completed :: int
  ts_failed :: int

record job_preparation_source =
  jp_status :: "string option"
  materialization_status :: "string option"
  materialized_tasks :: "int option"
  materialization_total :: "int option"
  jp_task_stats :: "task_stats option"

datatype preparation_phase = PhaseQueued | PhaseMaterializing | PhaseFinalizing

record job_preparation_progress =
  jpp_phase :: preparation_phase
  jpp_label :: string
  jpp_completed :: int
  jpp_total :: int
  jpp_percent :: int

definition isJobRunningStatus :: "string option \<Rightarrow> bool" where
  "isJobRunningStatus status \<longleftrightarrow>
     lower (trim (or_else status [])) \<in> set [''running'', ''in_progress'', ''pending'', ''preparing'', ''paused'', ''deleting'', ''wrapping_up'']"

text \<open>The counts of a partial \<open>TaskStats\<close> that the function reads: total, completed, failed.\<close>

definition resolveEffectiveJobStatus ::
  "string option \<Rightarrow> int option \<Rightarrow> int option \<Rightarrow> int option \<Rightarrow> rat option \<Rightarrow> string" where
  "resolveEffectiveJobStatus status totalOpt completedOpt failedOpt overallProgress =
     (let normalized = lower (or_else status [])
      in if normalized = ''failed'' \<and> (case overallProgress of None \<Rightarrow> False | Some p \<Rightarrow> p \<ge> 100) then
           let total = or_else totalOpt 0; completed = or_else completedOpt 0; failed = or_else failedOpt 0
           in if completed > 0 \<and> (total = 0 \<or> completed + failed \<ge> total) then
                let failureRate = (if completed + failed > 0 then of_int failed / of_int (completed + failed) else 0 :: rat)
                in if failureRate < 1 / 2 then ''completed'' else normalized
              else normalized
         else normalized)"

definition phase_of :: "string \<Rightarrow> preparation_phase option" where
  "phase_of s = (if s = ''queued'' then Some PhaseQueued else if s = ''materializing'' then Some PhaseMaterializing
     else if s = ''finalizing'' then Some PhaseFinalizing else None)"

definition prepared_tasks :: "task_stats option \<Rightarrow> int" where
  "prepared_tasks st = (case st of None \<Rightarrow> 0
     | Some t \<Rightarrow> ts_ready t + ts_blocked t + ts_inflight t + ts_deferred t + ts_completed t + ts_failed t)"

definition getJobPreparationProgress :: "job_preparation_source \<Rightarrow> job_preparation_progress option" where
  "getJobPreparationProgress job =
     (let status = lower (or_else (jp_status job) [])
      in case phase_of (lower (or_else (materialization_status job) [])) of
           None \<Rightarrow> None
         | Some phase \<Rightarrow>
             if status \<noteq> ''pending'' \<and> status \<noteq> ''running'' then None
             else
               let total = max 0 (or_else (coalesce (materialization_total job) (map_option ts_total (jp_task_stats job))) 0);
                   completed = min total (max 0 (if phase = PhaseFinalizing then prepared_tasks (jp_task_stats job)
                                                 else or_else (materialized_tasks job) 0));
                   percent = (if total > 0 then min 100 (js_round (of_int completed / of_int total * 100)) else 0)
               in Some \<lparr>jpp_phase = phase,
                    jpp_label = (case phase of PhaseQueued \<Rightarrow> ''Queued'' | PhaseFinalizing \<Rightarrow> ''Finalizing'' | PhaseMaterializing \<Rightarrow> ''Materializing''),
                    jpp_completed = completed, jpp_total = total, jpp_percent = percent\<rparr>)"

section \<open>Messages\<close>

definition inactive_auth_rx :: rx where
  "inactive_auth_rx = rx_seq [rx_lit_ci ''auth'', rx_plus (RChr is_ws), RCap 1 (rx_plus (RChr is_digit)),
     rx_plus (RChr is_ws), rx_lit_ci ''not found in site api'']"

definition parseInactiveAuthId :: "string option \<Rightarrow> rat option" where
  "parseInactiveAuthId message =
     (case Option.bind message nonempty of
        None \<Rightarrow> None
      | Some m \<Rightarrow>
          (case rx_exec inactive_auth_rx m of
             None \<Rightarrow> None
           | Some st \<Rightarrow> (case js_Number (or_else (rx_group 1 st) []) of Fin q \<Rightarrow> Some q | _ \<Rightarrow> None)))"

fun first_inactive :: "string option list \<Rightarrow> rat option" where
  "first_inactive [] = None"
| "first_inactive (e # es) = (case parseInactiveAuthId e of Some a \<Rightarrow> Some a | None \<Rightarrow> first_inactive es)"

text \<open>The result error and message of the details, and the errors of the tasks.\<close>

definition extractInactiveAuthId :: "string option \<Rightarrow> string option \<Rightarrow> string option list option \<Rightarrow> rat option" where
  "extractInactiveAuthId result_error result_message task_errors =
     (case parseInactiveAuthId (or_opt result_error result_message) of
        Some a \<Rightarrow> Some a
      | None \<Rightarrow> first_inactive (or_else task_errors []))"

definition getJobActionErrorMessage :: "json \<Rightarrow> string \<Rightarrow> json" where
  "getJobActionErrorMessage err fallback =
     (if \<not> is_object err then JStr fallback
      else let body = jget (jget err ''response'') ''data'';
               detail = jcoalesce (jcoalesce (jget body ''detail'') (jget body ''message'')) (jget body ''error'')
           in if truthy detail then detail
              else if truthy (jget err ''message'') then jget err ''message'' else JStr fallback)"

definition getRetryErrorMessage :: "json \<Rightarrow> json" where
  "getRetryErrorMessage err = getJobActionErrorMessage err ''Failed to retry job.''"

definition getTemplateErrorMessage :: "json \<Rightarrow> json" where
  "getTemplateErrorMessage err = getJobActionErrorMessage err ''Failed to save template.''"

section \<open>Dates and schedules\<close>

definition formatDateTime :: "clock \<Rightarrow> string option \<Rightarrow> string option" where
  "formatDateTime clk v =
     (case Option.bind v nonempty of
        None \<Rightarrow> None
      | Some s \<Rightarrow> if getTime clk s = None then Some s else Some (toLocaleString_date clk (getTime clk s)))"

definition em_dash :: string where
  "em_dash = [CHR 0xE2, CHR 0x80, CHR 0x94]"

definition timeAgo :: "clock \<Rightarrow> int \<Rightarrow> string option \<Rightarrow> string" where
  "timeAgo clk now_ms v =
     (case Option.bind v nonempty of
        None \<Rightarrow> em_dash
      | Some s \<Rightarrow>
          (case getTime clk s of
             None \<Rightarrow> s
           | Some t \<Rightarrow>
               let diffMs = now_ms - t; seconds = diffMs div 1000; minutes = seconds div 60; hours = minutes div 60; days = hours div 24
               in if diffMs < 0 then ''in the future''
                  else if seconds < 60 then ''just now''
                  else if minutes < 60 then show_int minutes @ ''m ago''
                  else if hours < 24 then show_int hours @ ''h ago''
                  else if days < 30 then show_int days @ ''d ago''
                  else toLocaleDateString clk (Some t)))"

definition getScheduleLabel :: "clock \<Rightarrow> int option \<Rightarrow> string option \<Rightarrow> string option \<Rightarrow> string option" where
  "getScheduleLabel clk interval_seconds cron scheduled_for =
     (case interval_seconds of
        Some secs \<Rightarrow>
          if secs \<noteq> 0 then
            Some (if secs mod 86400 = 0 then ''every '' @ show_int (secs div 86400) @ ''d''
                  else if secs mod 3600 = 0 then ''every '' @ show_int (secs div 3600) @ ''h''
                  else ''every '' @ show_int (js_round (of_int secs / 60)) @ ''m'')
          else (case Option.bind cron nonempty of
                  Some c \<Rightarrow> Some (''cron: '' @ c)
                | None \<Rightarrow> map_option (\<lambda>s. ''at '' @ toLocaleString_date clk (getTime clk s)) (Option.bind scheduled_for nonempty))
      | None \<Rightarrow>
          (case Option.bind cron nonempty of
             Some c \<Rightarrow> Some (''cron: '' @ c)
           | None \<Rightarrow> map_option (\<lambda>s. ''at '' @ toLocaleString_date clk (getTime clk s)) (Option.bind scheduled_for nonempty)))"

definition taskTypeLabel :: "string \<Rightarrow> string" where
  "taskTypeLabel taskType = replace_char CHR ''_'' CHR '' '' taskType"

definition toLocalDateTimeInput :: "clock \<Rightarrow> string option \<Rightarrow> string" where
  "toLocalDateTimeInput clk v =
     (case Option.bind (Option.bind v nonempty) (getTime clk) of
        None \<Rightarrow> []
      | Some t \<Rightarrow> take 16 (toISOString clk (t - timezoneOffset clk t * 60000)))"

datatype interval_unit = Minutes | Hours | Days

definition getIntervalParts :: "int option \<Rightarrow> (int \<times> interval_unit) option" where
  "getIntervalParts intervalSeconds =
     (case intervalSeconds of
        None \<Rightarrow> None
      | Some s \<Rightarrow>
          if s \<le> 0 then None
          else if s mod 86400 = 0 then Some (s div 86400, Days)
          else if s mod 3600 = 0 then Some (s div 3600, Hours)
          else Some (max 1 (js_round (of_int s / 60)), Minutes))"

definition positiveNumber :: "json \<Rightarrow> jsnum option" where
  "positiveNumber v =
     (case v of JNum (Fin q) \<Rightarrow> if q > 0 then Some (Fin q) else None | JNum PosInf \<Rightarrow> Some PosInf | _ \<Rightarrow> None)"

record job_times =
  jt_duration_seconds :: json
  jt_metadata :: json
  jt_started_at :: "string option"
  jt_created_at :: "string option"
  jt_completed_at :: "string option"
  jt_last_ran_at :: "string option"
  jt_last_activity_at :: "string option"
  jt_updated_at :: "string option"

definition computeJobDurationSeconds :: "clock \<Rightarrow> job_times option \<Rightarrow> jsnum" where
  "computeJobDurationSeconds clk job =
     (case job of
        None \<Rightarrow> Fin 1
      | Some j \<Rightarrow>
          (case coalesce (positiveNumber (jt_duration_seconds j)) (positiveNumber (jget (jt_metadata j) ''duration_seconds'')) of
             Some (Fin q) \<Rightarrow> Fin (of_int (max 1 (js_round q)))
           | Some n \<Rightarrow> n
           | None \<Rightarrow>
               let started = or_str (jt_started_at j) (or_str (jt_created_at j) []);
                   finished = or_str (jt_completed_at j) (or_str (jt_last_ran_at j) (or_str (jt_last_activity_at j) (or_str (jt_updated_at j) [])));
                   startMs = (if started \<noteq> [] then getTime clk started else Some 0);
                   endMs = (if finished \<noteq> [] then getTime clk finished else startMs)
               in case (startMs, endMs) of
                    (Some s, Some e) \<Rightarrow> if s > 0 \<and> e > s then Fin (of_int (max 1 (js_round (of_int (e - s) / 1000)))) else Fin 1
                  | _ \<Rightarrow> Fin 1))"

record stream_task =
  task_id :: string
  task_type :: string
  task_site :: "string option"
  task_username :: "string option"
  task_content_type :: "string option"

definition streamTaskKey :: "stream_task \<Rightarrow> string" where
  "streamTaskKey t =
     (if task_id t \<noteq> [] then ''task:'' @ task_id t
      else join ''|'' [''fallback'', task_type t, or_else (task_site t) ''unknown-site'',
             or_else (task_username t) ''unknown-user'', or_else (task_content_type t) ''all''])"

definition getTaskDownloadErrorCount :: "json \<Rightarrow> rat" where
  "getTaskDownloadErrorCount res =
     (if \<not> is_object res then 0
      else case jget (jget res ''metrics'') ''failed'' of
             JNum (Fin q) \<Rightarrow> max 0 q
           | _ \<Rightarrow>
               (case jget (jget res ''output'') ''download_results'' of
                  JArr entries \<Rightarrow> of_nat (length (filter (\<lambda>e. jget e ''status'' = JStr ''failed'') entries))
                | _ \<Rightarrow> 0))"

section \<open>Live refresh\<close>

datatype fetch_status = FetchIdle | Fetching | FetchPaused

definition JOB_LIFECYCLE_REFRESH_EVENTS :: "string list" where
  "JOB_LIFECYCLE_REFRESH_EVENTS =
     [''job_created'', ''job_started'', ''job_claimed'', ''job_tasks_routed'', ''job_materialized'', ''job_completed'',
      ''job_failed'', ''job_cancelled'', ''job_prioritized'', ''job_updated'', ''job_paused'', ''job_resumed'']"

definition isJobLifecycleRefreshEvent :: "string \<Rightarrow> bool" where
  "isJobLifecycleRefreshEvent eventName \<longleftrightarrow> eventName \<in> set JOB_LIFECYCLE_REFRESH_EVENTS"

definition getNonOverlappingRefetchInterval :: "fetch_status \<Rightarrow> int \<Rightarrow> bool \<Rightarrow> int option" where
  "getNonOverlappingRefetchInterval status intervalMs enabled = (if enabled \<and> status = FetchIdle then Some intervalMs else None)"

section \<open>Properties of the estimates\<close>

text \<open>What a result promises, by its status; \<open>t\<close> is the current time.\<close>

definition eta_consistent :: "int \<Rightarrow> job_eta_result \<Rightarrow> bool" where
  "eta_consistent t r \<longleftrightarrow>
     (case eta_status r of
        EtaPending \<Rightarrow> elapsedSeconds r = None \<and> remainingSeconds r = None \<and> completionDate r = None
      | EtaRunning \<Rightarrow>
          (case remainingSeconds r of
             None \<Rightarrow> completionDate r = None
           | Some n \<Rightarrow> 0 \<le> n \<and> completionDate r = Some (Some (t + n * 1000)))
      | EtaWrappingUp \<Rightarrow> remainingSeconds r = Some 0 \<and> completionDate r = Some (Some t)
      | EtaCompleted \<Rightarrow> remainingSeconds r = Some 0 \<and> completionDate r \<noteq> None
      | EtaStopped \<Rightarrow> remainingSeconds r = Some 0 \<and> completionDate r = None)
     \<and> (case elapsedSeconds r of Some (Some e) \<Rightarrow> 0 \<le> e | _ \<Rightarrow> True)
     \<and> formattedElapsed r = map_option formatDuration (elapsedSeconds r)"

lemma rounded_elapsed_nonneg: "case rounded_elapsed e s of Some (Some n) \<Rightarrow> 0 \<le> n | _ \<Rightarrow> True"
  by (auto simp: rounded_elapsed_def split: option.splits)

lemma remaining_sec_nonneg: "remaining_sec i e p = Some n \<Longrightarrow> 0 \<le> n"
  by (auto simp: remaining_sec_def Let_def split: option.splits if_splits)

lemma completed_consistent: "eta_consistent t (completed_eta clk i)"
  using rounded_elapsed_nonneg by (simp add: eta_consistent_def completed_eta_def Let_def)

lemma stopped_consistent: "eta_consistent t (stopped_eta clk st i)"
  using rounded_elapsed_nonneg by (simp add: eta_consistent_def stopped_eta_def Let_def)

lemma waiting_consistent: "st = EtaPending \<or> st = EtaRunning \<Longrightarrow> eta_consistent t (waiting_eta st a b c)"
  by (auto simp: eta_consistent_def waiting_eta_def)

lemma running_consistent: "eta_consistent (in_currentTime i) (running_eta clk s i)"
  using remaining_sec_nonneg
  by (auto simp: eta_consistent_def running_eta_def Let_def split: option.splits)

text \<open>
  Every estimate is consistent. A queued job has no times; a running job with an estimate has a remaining time
  that is not negative and completes that much later than now; a job at 100 percent or finished has no time
  remaining; a stopped job has no completion; an elapsed time is never negative and is formatted exactly when
  there is one.
\<close>

lemma calculateJobEta_consistent: "eta_consistent (in_currentTime i) (calculateJobEta clk i)"
  by (simp add: calculateJobEta_def Let_def completed_consistent stopped_consistent waiting_consistent
      running_consistent split: option.split)

lemma remaining_sec_antimono:
  assumes "in_smoothedTargetMs i = None" "0 < p" "p \<le> q" "0 \<le> e"
  shows "the (remaining_sec i e q) \<le> the (remaining_sec i e p)"
proof -
  have "of_int e * (100 - q) / q \<le> of_int e * (100 - p) / p"
  proof -
    have "100 / q \<le> 100 / p" using assms by (simp add: frac_le)
    then have "(100 - q) / q \<le> (100 - p) / p" using assms by (simp add: diff_divide_distrib)
    then show ?thesis using mult_left_mono [of "(100 - q) / q" "(100 - p) / p" "of_int e"] assms(4) by simp
  qed
  from js_round_mono [OF this] show ?thesis using assms by (simp add: remaining_sec_def)
qed

lemma remaining_sec_progress:
  "in_smoothedTargetMs i = None \<Longrightarrow> 0 < p \<Longrightarrow> remaining_sec (i\<lparr>in_progressPercent := x\<rparr>) e p = remaining_sec i e p"
  by (simp add: remaining_sec_def)

lemma calculateJobEta_progress:
  "(\<forall>x. calculateJobEta clk (i\<lparr>in_progressPercent := x\<rparr>) = calculateJobEta clk i) \<or>
   (\<exists>s. \<forall>x. calculateJobEta clk (i\<lparr>in_progressPercent := x\<rparr>) = running_eta clk s (i\<lparr>in_progressPercent := x\<rparr>))"
proof -
  define n where "n = lower (or_else (in_status i) [])"
  define A where "A \<longleftrightarrow> Option.bind (in_completedAt i) nonempty \<noteq> None \<or> n = ''completed''"
  define B where "B \<longleftrightarrow> n = ''failed'' \<or> n = ''cancelled'' \<or> n = ''canceled''"
  define C where "C \<longleftrightarrow> n = ''pending'' \<or> n = ''queued''"
  define D where "D \<longleftrightarrow> n = ''claimed''"
  have f: "in_status (i\<lparr>in_progressPercent := x\<rparr>) = in_status i" "in_startedAt (i\<lparr>in_progressPercent := x\<rparr>) = in_startedAt i"
    "in_completedAt (i\<lparr>in_progressPercent := x\<rparr>) = in_completedAt i" "in_currentTime (i\<lparr>in_progressPercent := x\<rparr>) = in_currentTime i" for x
    by simp_all
  have eq: "calculateJobEta clk (i\<lparr>in_progressPercent := x\<rparr>) =
      (if A then completed_eta clk i else if B then stopped_eta clk n i
       else if C then waiting_eta EtaPending ''Queued'' ''Queued'' ''Job is queued waiting to run''
       else if D then waiting_eta EtaPending ''Starting...'' ''Starting...'' ''Job has been claimed by a worker and is starting''
       else case start_ms clk (in_startedAt i) of
              None \<Rightarrow> waiting_eta EtaRunning ''Estimating...'' ''Estimating ETA...'' ''Calculating estimated completion time...''
            | Some startMs \<Rightarrow> running_eta clk startMs (i\<lparr>in_progressPercent := x\<rparr>))" for x
    unfolding calculateJobEta_def Let_def A_def B_def C_def D_def n_def
    by (simp only: f completed_eta_def stopped_eta_def)
  have self: "i\<lparr>in_progressPercent := in_progressPercent i\<rparr> = i" by simp
  show ?thesis
  proof (cases "A \<or> B \<or> C \<or> D \<or> start_ms clk (in_startedAt i) = None")
    case True
    have "calculateJobEta clk (i\<lparr>in_progressPercent := x\<rparr>) = calculateJobEta clk (i\<lparr>in_progressPercent := y\<rparr>)" for x y
      unfolding eq using True by (elim disjE) simp_all
    then show ?thesis using self by metis
  next
    case False
    then obtain s0 where "start_ms clk (in_startedAt i) = Some s0" by auto
    then show ?thesis unfolding eq using False by (intro disjI2 exI [of _ s0]) simp
  qed
qed


definition sample_clock :: clock where
  "sample_clock = \<lparr>getTime = (\<lambda>s. if s = ''start'' then Some 0 else None), toLocaleTimeString = (\<lambda>d. case d of None \<Rightarrow> ''Invalid Date'' | Some _ \<Rightarrow> ''12:00''),
     toLocaleString_date = (\<lambda>d. []), toLocaleDateString = (\<lambda>d. []), toISOString = (\<lambda>t. []), timezoneOffset = (\<lambda>t. 0)\<rparr>"

definition sample_input :: job_eta_input where
  "sample_input = \<lparr>in_status = Some ''running'', in_startedAt = Some ''start'', in_completedAt = None,
     in_progressPercent = None, in_itemsProcessed = None, in_itemsTotal = None, in_currentTime = 60000,
     in_smoothedTargetMs = None\<rparr>"

lemma sample_estimates:
  "remainingSeconds (calculateJobEta sample_clock (sample_input\<lparr>in_progressPercent := Some (Fin 50)\<rparr>)) = Some 60"
  "remainingSeconds (calculateJobEta sample_clock (sample_input\<lparr>in_progressPercent := Some (Fin 75)\<rparr>)) = Some 20"
  by code_simp+


text \<open>A completed job whose completion time does not parse is labelled with a duration that is not a number.\<close>

lemma completed_label_nan:
  "eta_label (calculateJobEta sample_clock (sample_input\<lparr>in_completedAt := Some ''garbled''\<rparr>)) = ''Completed in NaNh''"
  by code_simp

section \<open>Properties of preparation and schedules\<close>

text \<open>
  Preparation progress is a fraction. Progress is reported only with a total and a completed count between 0 and
  the total, and a percentage between 0 and 100 that is 0 when nothing is completed and 100 when everything is.
\<close>

lemma getJobPreparationProgress_bounds:
  "case getJobPreparationProgress job of
     None \<Rightarrow> True
   | Some p \<Rightarrow> 0 \<le> jpp_completed p \<and> jpp_completed p \<le> jpp_total p \<and> 0 \<le> jpp_percent p \<and> jpp_percent p \<le> 100
       \<and> (jpp_percent p = 0 \<or> 0 < jpp_completed p) \<and> (jpp_percent p = 100 \<or> jpp_completed p < jpp_total p \<or> jpp_total p = 0)"
proof (cases "getJobPreparationProgress job")
  case (Some p)
  define t where "t = or_else (coalesce (materialization_total job) (map_option ts_total (jp_task_stats job))) 0"
  obtain ph where ph: "phase_of (lower (or_else (materialization_status job) [])) = Some ph"
    using Some by (cases "phase_of (lower (or_else (materialization_status job) []))") (simp_all add: getJobPreparationProgress_def Let_def)
  define c where "c = (if ph = PhaseFinalizing then prepared_tasks (jp_task_stats job) else or_else (materialized_tasks job) 0)"
  have st: "\<not> (lower (or_else (jp_status job) []) \<noteq> ''pending'' \<and> lower (or_else (jp_status job) []) \<noteq> ''running'')"
    using Some ph by (rule_tac ccontr) (simp add: getJobPreparationProgress_def Let_def)
  note body = Some [unfolded getJobPreparationProgress_def Let_def ph option.case if_not_P [OF st] t_def [symmetric] c_def [symmetric] option.inject]
  have p: "jpp_total p = max 0 t" "jpp_completed p = min (max 0 t) (max 0 c)"
    "jpp_percent p = (if max 0 t > 0 then min 100 (js_round (of_int (min (max 0 t) (max 0 c)) / of_int (max 0 t) * 100)) else 0)"
    by (simp_all only: body [symmetric] job_preparation_progress.simps)
  have frac: "0 \<le> js_round (of_int c / of_int t * 100)" if "0 \<le> c" "0 < t" for c t :: int
    using that by (intro js_round_nonneg) simp
  have full: "js_round (of_int t / of_int t * 100) = 100" if "0 < t" for t :: int
    using js_round_of_int [of 100] that by simp
  have zero: "js_round (of_int 0 / of_int t * 100) = 0" for t :: int
    using js_round_of_int [of 0] by simp
  have "jpp_percent p = 0 \<or> 0 < jpp_completed p"
    using zero [of t] by (cases "c \<le> 0") (auto simp: p)
  moreover have "jpp_percent p = 100 \<or> jpp_completed p < jpp_total p \<or> jpp_total p = 0"
    using full [of t] by (cases "c < t") (auto simp: p)
  moreover have "0 \<le> jpp_percent p" using frac [of "min (max 0 t) (max 0 c)" "max 0 t"] by (simp add: p)
  ultimately show ?thesis using Some by (simp add: p)
qed simp

definition unit_seconds :: "interval_unit \<Rightarrow> int" where
  "unit_seconds u = (case u of Minutes \<Rightarrow> 60 | Hours \<Rightarrow> 3600 | Days \<Rightarrow> 86400)"

text \<open>The parts of an interval give it back, up to half a minute (and at least a minute).\<close>

lemma getIntervalParts_seconds:
  assumes "getIntervalParts (Some s) = Some (v, u)"
  shows "0 < v" "\<bar>v * unit_seconds u - s\<bar> \<le> (if u = Minutes then max 30 (60 - s) else 0)"
proof -
  have r: "\<bar>of_int (js_round (of_int s / 60) * 60 - s)\<bar> \<le> (30 :: rat)"
    using js_round_close [of "of_int s / 60"] by (simp add: abs_le_iff field_simps)
  then have "\<bar>js_round (of_int s / 60) * 60 - s\<bar> \<le> 30" by (simp only: of_int_abs [symmetric] of_int_le_numeral_iff)
  then show "0 < v" "\<bar>v * unit_seconds u - s\<bar> \<le> (if u = Minutes then max 30 (60 - s) else 0)"
    using assms by (auto simp: getIntervalParts_def unit_seconds_def max_def split: if_splits)
qed

end
