(* ===== verification/Connections.thy ===== *)
theory Connections
  imports JsJson
begin

text \<open>
  Backend connections: \<open>features/connections/lib\<close>. The grouping of connections by cluster and the choice of a member
  (\<open>clusterView.ts\<close>), the connection to open (\<open>lastConnection.ts\<close>), the path of a section on another backend
  (\<open>navigation.ts\<close>), connection tickets (\<open>ticket.ts\<close>) and the summary of a join (\<open>joinSummary.ts\<close>). \<open>localStorage\<close>,
  \<open>encodeURIComponent\<close>, \<open>new URL\<close>, \<open>atob\<close> and \<open>JSON.parse\<close> are parameters; a call that throws is \<open>None\<close>.
\<close>

section \<open>Data\<close>

record backend_connection =
  conn_id :: string
  conn_name :: string
  conn_base_url :: string
  conn_tls_verify :: bool
  conn_managed :: bool
  conn_has_token :: bool
  conn_trust_plugins :: bool

record cluster_member =
  connection_id :: string
  member_name :: string
  reachable_now :: bool
  identity_backend_id :: "string option"
  seen_at :: "int option"

record suggested_member =
  sug_backend_id :: string
  sug_hostname :: string
  sug_status :: string
  sug_last_seen :: string
  sug_api_url :: "string option"

record connection_cluster =
  cc_id :: string
  cc_name :: "string option"
  connection_ids :: "string list"
  suggestions :: "suggested_member list"
  conflicting_backend_ids :: "string list"

record connection_clusters =
  members :: "cluster_member list"
  all_clusters :: "connection_cluster list"
  main_cluster_id :: "string option"

section \<open>Clusters\<close>

type_synonym connection_group = "connection_cluster option \<times> backend_connection list"

text \<open>\<open>new Map(xs.map(x => [x.id, x]))\<close>: the last entry of an id wins.\<close>

definition by_id :: "backend_connection list \<Rightarrow> string \<Rightarrow> backend_connection option" where
  "by_id connections i = List.find (\<lambda>c. conn_id c = i) (rev connections)"

definition cluster_connections :: "backend_connection list \<Rightarrow> connection_cluster \<Rightarrow> backend_connection list" where
  "cluster_connections connections c = concat (map (\<lambda>i. case by_id connections i of None \<Rightarrow> [] | Some x \<Rightarrow> [x]) (connection_ids c))"

definition clusters_of :: "connection_clusters option \<Rightarrow> connection_cluster list" where
  "clusters_of cl = (case cl of None \<Rightarrow> [] | Some c \<Rightarrow> all_clusters c)"

definition groupConnections :: "backend_connection list \<Rightarrow> connection_clusters option \<Rightarrow> connection_group list" where
  "groupConnections connections cl =
     (let groups = filter (\<lambda>g. snd g \<noteq> []) (map (\<lambda>c. (Some c, cluster_connections connections c)) (clusters_of cl));
          placed = concat (map (\<lambda>g. map conn_id (snd g)) groups);
          alone = filter (\<lambda>c. conn_id c \<notin> set placed) connections
      in if alone = [] then groups else groups @ [(None, alone)])"

definition reachable_ids :: "connection_clusters \<Rightarrow> string list" where
  "reachable_ids cl = map connection_id (filter reachable_now (members cl))"

definition reachableAlternative :: "string \<Rightarrow> connection_clusters option \<Rightarrow> string option" where
  "reachableAlternative connectionId clusters =
     (case clusters of
        None \<Rightarrow> None
      | Some cl \<Rightarrow>
          if connectionId \<in> set (reachable_ids cl) then None
          else case List.find (\<lambda>c. connectionId \<in> set (connection_ids c)) (all_clusters cl) of
                 None \<Rightarrow> None
               | Some c \<Rightarrow> List.find (\<lambda>i. i \<noteq> connectionId \<and> i \<in> set (reachable_ids cl)) (connection_ids c))"

datatype node_link = OpenLink string | AddLink string "string option"

definition nodeLink :: "string \<Rightarrow> connection_clusters option \<Rightarrow> node_link" where
  "nodeLink backendId clusters =
     (case Option.bind clusters (\<lambda>cl. List.find (\<lambda>m. identity_backend_id m = Some backendId) (members cl)) of
        Some m \<Rightarrow> OpenLink (connection_id m)
      | None \<Rightarrow> AddLink backendId
          (Option.bind (List.find (\<lambda>s. sug_backend_id s = backendId) (concat (map suggestions (clusters_of clusters)))) sug_api_url))"

definition pickClusterMember :: "connection_cluster \<Rightarrow> connection_clusters option \<Rightarrow> string option \<Rightarrow> string option" where
  "pickClusterMember c clusters preferred =
     (let up = (case clusters of None \<Rightarrow> [] | Some cl \<Rightarrow> reachable_ids cl);
          ids = connection_ids c;
          fallback = coalesce (List.find (\<lambda>i. i \<in> set up) ids) (case ids of [] \<Rightarrow> None | i # _ \<Rightarrow> Some i)
      in case Option.bind preferred nonempty of
           Some p \<Rightarrow> if p \<in> set ids \<and> p \<in> set up then Some p else fallback
         | None \<Rightarrow> fallback)"

definition defaultClusterName :: "string \<Rightarrow> string" where
  "defaultClusterName clusterId = ''Cluster '' @ take 8 clusterId"

section \<open>The connection to open\<close>

text \<open>\<open>last\<close> is what the storage returns, \<open>None\<close> also when it cannot be read.\<close>

definition pickConnection ::
  "string option \<Rightarrow> backend_connection list \<Rightarrow> string option \<Rightarrow> string list \<Rightarrow> backend_connection option" where
  "pickConnection last_used connections defaultConnection mainConnections =
     (let lastAllowed = (mainConnections = [] \<or> (case last_used of None \<Rightarrow> False | Some l \<Rightarrow> l \<in> set mainConnections));
          known = (\<lambda>x. case x of None \<Rightarrow> False | Some i \<Rightarrow> i \<noteq> [] \<and> i \<in> set (map conn_id connections));
          preferred = List.find known [if lastAllowed then last_used else None, defaultConnection];
          first = (case connections of [] \<Rightarrow> None | c # _ \<Rightarrow> Some c)
      in case preferred of
           Some (Some p) \<Rightarrow> coalesce (List.find (\<lambda>c. conn_id c = p) connections) first
         | _ \<Rightarrow> first)"

section \<open>Sections\<close>

definition connectionHome :: "(string \<Rightarrow> string) \<Rightarrow> string \<Rightarrow> string" where
  "connectionHome encode i = (if i = ''default'' then ''/'' else ''/b/'' @ encode i @ ''/'')"

text \<open>\<open>/^\/b\/[^/]+/.exec(pathname)\<close>: the rest of the path after the prefix.\<close>

definition after_backend :: "string \<Rightarrow> string option" where
  "after_backend pathname =
     (if starts_with ''/b/'' pathname \<and> takeWhile (\<lambda>c. c \<noteq> CHR ''/'') (drop 3 pathname) \<noteq> []
      then Some (dropWhile (\<lambda>c. c \<noteq> CHR ''/'') (drop 3 pathname)) else None)"

definition first_section :: "string \<Rightarrow> string option" where
  "first_section p = List.find (\<lambda>w. w \<noteq> []) (split_on CHR ''/'' p)"

definition sectionOnBackend :: "(string \<Rightarrow> string) \<Rightarrow> string \<Rightarrow> string \<Rightarrow> string" where
  "sectionOnBackend encode connectionId pathname =
     (let home = connectionHome encode connectionId
      in case after_backend pathname of
           None \<Rightarrow>
             if starts_with ''/connections'' pathname then home
             else if connectionId = ''default'' then pathname
             else (case first_section pathname of Some w \<Rightarrow> home @ w | None \<Rightarrow> home)
         | Some rest \<Rightarrow>
             if connectionId = ''default'' then (case first_section rest of Some w \<Rightarrow> ''/'' @ w | None \<Rightarrow> ''/'')
             else (case first_section rest of Some w \<Rightarrow> home @ w | None \<Rightarrow> home))"

section \<open>Tickets\<close>

record ticket_payload =
  ticket_name :: string
  ticket_base_url :: string
  ticket_token :: "string option"
  ticket_tls_verify :: bool
  ticket_cluster_id :: "string option"

record ticket_url =
  tk_username :: string
  tk_password :: string
  tk_hostname :: string
  tk_port :: string
  tk_pathname :: string
  tk_param :: "string \<Rightarrow> string option"

text \<open>\<open>s.replace(/\/$/, '')\<close>.\<close>

definition strip_slash :: "string \<Rightarrow> string" where
  "strip_slash s = (if ends_with ''/'' s then butlast s else s)"

function pad_base64 :: "string \<Rightarrow> string" where
  "pad_base64 s = (if length s mod 4 \<noteq> 0 then pad_base64 (s @ ''='') else s)"
  by pat_completeness auto
termination
proof (relation "measure (\<lambda>s. (4 - length s mod 4) mod 4)")
  fix s :: string assume "length s mod 4 \<noteq> 0"
  then show "(s @ ''='', s) \<in> measure (\<lambda>s. (4 - length s mod 4) mod 4)"
    using mod_less_divisor [of 4 "length s"] by (simp add: mod_Suc) presburger
qed simp

declare pad_base64.simps [simp del]

definition decodeBase64Payload ::
  "(rat \<Rightarrow> string) \<Rightarrow> (string \<Rightarrow> string option) \<Rightarrow> (string \<Rightarrow> json option) \<Rightarrow> string \<Rightarrow> ticket_payload option" where
  "decodeBase64Payload fs atob json_parse part =
     (let trimmed = strip_slash (trim part)
      in if trimmed = [] then None
         else case Option.bind (atob (pad_base64 (replace_char CHR ''_'' CHR ''/'' (replace_char CHR ''-'' CHR ''+'' trimmed)))) json_parse of
           None \<Rightarrow> None
         | Some data \<Rightarrow>
             if \<not> is_object data then None
             else let u = (if truthy (jget data ''base_url'') then jget data ''base_url'' else jget data ''url'')
                  in case u of
                       JStr baseUrl \<Rightarrow>
                         if baseUrl = [] then None
                         else Some \<lparr>
                           ticket_name = trim (if truthy (jget data ''name'') then js_String fs (jget data ''name'') else ''Backend''),
                           ticket_base_url = strip_slash (trim baseUrl),
                           ticket_token = (if truthy (jget data ''token'') then Some (trim (js_String fs (jget data ''token''))) else None),
                           ticket_tls_verify = (jget data ''tls_verify'' \<noteq> JBool False),
                           ticket_cluster_id = (if truthy (jget data ''cluster_id'') then Some (trim (js_String fs (jget data ''cluster_id''))) else None)\<rparr>
                     | _ \<Rightarrow> None)"

definition uri_ticket :: "ticket_url \<Rightarrow> ticket_payload option" where
  "uri_ticket u =
     (let token = or_opt (Some (tk_username u)) (nonempty (tk_password u));
          port = (if tk_port u \<noteq> [] then '':'' @ tk_port u else []);
          tlsParam = lower (or_else (coalesce (tk_param u ''tls'') (tk_param u ''tls_verify'')) []);
          isHttps = (tlsParam = ''1'' \<or> tlsParam = ''true'' \<or> tk_port u = ''443'');
          path = (if tk_pathname u = ''/'' then [] else tk_pathname u)
      in if tk_hostname u = [] then None
         else Some \<lparr>ticket_name = or_str (tk_param u ''name'') ''Backend'',
           ticket_base_url = strip_slash ((if isHttps then ''https'' else ''http'') @ ''://'' @ tk_hostname u @ port @ path),
           ticket_token = token, ticket_tls_verify = (tlsParam \<noteq> ''0'' \<and> tlsParam \<noteq> ''false''),
           ticket_cluster_id = Option.bind (tk_param u ''cluster_id'') nonempty\<rparr>)"

definition parseTicketString ::
  "(rat \<Rightarrow> string) \<Rightarrow> (string \<Rightarrow> string option) \<Rightarrow> (string \<Rightarrow> json option) \<Rightarrow> (string \<Rightarrow> ticket_url option) \<Rightarrow> string \<Rightarrow> ticket_payload option" where
  "parseTicketString fs atob json_parse parse_url input =
     (let cleaned = trim input
      in if cleaned = [] then None
         else if starts_with ''usr://ticket/'' cleaned then decodeBase64Payload fs atob json_parse (drop 13 cleaned)
         else if starts_with ''usr_ticket_'' cleaned then decodeBase64Payload fs atob json_parse (drop 11 cleaned)
         else if starts_with ''usr://'' cleaned then Option.bind (parse_url cleaned) uri_ticket
         else decodeBase64Payload fs atob json_parse cleaned)"

section \<open>Joining\<close>

record join_member =
  jm_name :: string
  jm_base_url :: "string option"
  jm_connection_id :: "string option"
  jm_note :: "string option"

record join_result =
  jr_cluster_id :: string
  jr_name :: string
  jr_created :: "string list"
  jr_skipped :: "string list"
  jr_members :: "join_member list option"

definition joinSummary :: "join_result \<Rightarrow> string" where
  "joinSummary r =
     (let notes = filter (\<lambda>m. Option.bind (jm_note m) nonempty \<noteq> None \<and> jm_connection_id m = None) (or_else (jr_members r) [])
      in ''Joined '' @ jr_name r @ '': '' @ show_nat (length (jr_created r)) @ '' backend''
         @ (if length (jr_created r) = 1 then [] else ''s'') @ '' added''
         @ (if jr_skipped r \<noteq> [] \<and> jr_members r = None then '', '' @ show_nat (length (jr_skipped r)) @ '' already here.'' else ''.'')
         @ concat (map (\<lambda>m. '' '' @ jm_name m @ '': '' @ or_else (jm_note m) []) notes))"

section \<open>Correctness\<close>

lemma by_id_SomeD: "by_id connections i = Some c \<Longrightarrow> c \<in> set connections \<and> conn_id c = i"
  unfolding by_id_def by (drule find_SomeD) simp

lemma by_id_None_iff: "by_id connections i = None \<longleftrightarrow> i \<notin> conn_id ` set connections"
  by (auto simp: by_id_def find_None_iff)

lemma by_id_self:
  assumes "distinct (map conn_id connections)" "c \<in> set connections"
  shows "by_id connections (conn_id c) = Some c"
proof -
  obtain d where d: "by_id connections (conn_id c) = Some d" using by_id_None_iff assms(2) by fastforce
  then have "d \<in> set connections" "conn_id d = conn_id c" using by_id_SomeD by blast+
  then show ?thesis using d assms by (simp add: distinct_map inj_on_def)
qed

lemma cluster_connections_ids:
  "map conn_id (cluster_connections connections k) = filter (\<lambda>i. i \<in> conn_id ` set connections) (connection_ids k)"
proof -
  have "map conn_id (case by_id connections i of None \<Rightarrow> [] | Some x \<Rightarrow> [x])
          = (if i \<in> conn_id ` set connections then [i] else [])" for i
  proof (cases "by_id connections i")
    case None
    then show ?thesis using by_id_None_iff [of connections i] by simp
  next
    case (Some x)
    then show ?thesis using by_id_SomeD [OF Some] by auto
  qed
  then have "map conn_id (concat (map (\<lambda>i. case by_id connections i of None \<Rightarrow> [] | Some x \<Rightarrow> [x]) ids))
          = filter (\<lambda>i. i \<in> conn_id ` set connections) ids" for ids
    by (induction ids) auto
  then show ?thesis by (simp add: cluster_connections_def)
qed

lemma cluster_connections_known: "set (cluster_connections connections k) \<subseteq> set connections"
  using by_id_SomeD by (fastforce simp: cluster_connections_def split: option.splits)

lemma cluster_connections_unique:
  assumes "distinct (map conn_id connections)" "set ms \<subseteq> set connections"
    "map conn_id ms = filter (\<lambda>i. i \<in> conn_id ` set connections) (connection_ids k)"
  shows "ms = cluster_connections connections k"
proof -
  have "inj_on conn_id (set ms \<union> set (cluster_connections connections k))"
    using assms(1,2) cluster_connections_known by (metis Un_least distinct_map inj_on_subset)
  then show ?thesis using assms(3) cluster_connections_ids by (metis inj_on_map_eq_map)
qed

definition in_no_cluster :: "connection_clusters option \<Rightarrow> backend_connection \<Rightarrow> bool" where
  "in_no_cluster cl c \<longleftrightarrow> list_all (\<lambda>k. conn_id c \<notin> set (connection_ids k)) (clusters_of cl)"

lemma groupConnections_eq:
  "groupConnections connections cl =
     (let groups = filter (\<lambda>g. snd g \<noteq> []) (map (\<lambda>c. (Some c, cluster_connections connections c)) (clusters_of cl));
          alone = filter (in_no_cluster cl) connections
      in if alone = [] then groups else groups @ [(None, alone)])"
proof -
  have *: "(conn_id c \<in> conn_id ` set (cluster_connections connections k)) = (conn_id c \<in> set (connection_ids k))"
    if "c \<in> set connections" for c k
  proof -
    have "conn_id ` set (cluster_connections connections k) = set (connection_ids k) \<inter> conn_id ` set connections"
      using arg_cong [OF cluster_connections_ids, of set] by auto
    then show ?thesis using that by blast
  qed
  have **: "(conn_id c \<notin> set (concat (map (\<lambda>g. map conn_id (snd g))
           (filter (\<lambda>g. snd g \<noteq> []) (map (\<lambda>c. (Some c, cluster_connections connections c)) (clusters_of cl))))))
        = (\<forall>k \<in> set (clusters_of cl). conn_id c \<notin> conn_id ` set (cluster_connections connections k))" for c
    by force
  have "filter (\<lambda>c. conn_id c \<notin> set (concat (map (\<lambda>g. map conn_id (snd g))
           (filter (\<lambda>g. snd g \<noteq> []) (map (\<lambda>c. (Some c, cluster_connections connections c)) (clusters_of cl)))))) connections
        = filter (in_no_cluster cl) connections"
    by (intro filter_cong) (simp_all only: ** * in_no_cluster_def list_all_iff)
  then show ?thesis unfolding groupConnections_def Let_def by (simp only:)
qed

lemma group_of_cluster:
  "((Some c, ms) \<in> set (groupConnections connections cl)) =
     (ms \<noteq> [] \<and> c \<in> set (clusters_of cl) \<and> ms = cluster_connections connections c)"
  by (auto simp: groupConnections_eq Let_def)

lemma group_alone:
  "((None, ms) \<in> set (groupConnections connections cl)) = (ms \<noteq> [] \<and> ms = filter (in_no_cluster cl) connections)"
  by (auto simp: groupConnections_eq Let_def)

lemma groups_cover:
  assumes "distinct (map conn_id connections)" "c \<in> set connections"
  shows "\<exists>g \<in> set (groupConnections connections cl). c \<in> set (snd g)"
proof (cases "in_no_cluster cl c")
  case True
  then have "c \<in> set (filter (in_no_cluster cl) connections)" using assms by simp
  then have "(None, filter (in_no_cluster cl) connections) \<in> set (groupConnections connections cl)"
    unfolding group_alone by (metis empty_iff list.set(1))
  then show ?thesis using True assms(2) by force
next
  case False
  then obtain x where x: "x \<in> set (clusters_of cl)" "conn_id c \<in> set (connection_ids x)"
    by (auto simp: in_no_cluster_def list_all_iff)
  then have "c \<in> set (cluster_connections connections x)"
    using by_id_self [OF assms] by (force simp: cluster_connections_def)
  then have "(Some x, cluster_connections connections x) \<in> set (groupConnections connections cl)"
    unfolding group_of_cluster using x by (metis empty_iff list.set(1))
  then show ?thesis using \<open>c \<in> set (cluster_connections connections x)\<close> by force
qed


definition nas :: "string \<Rightarrow> backend_connection" where
  "nas i = \<lparr>conn_id = i, conn_name = i, conn_base_url = ''http://'' @ i, conn_tls_verify = True, conn_managed = False,
     conn_has_token = True, conn_trust_plugins = False\<rparr>"

definition home_cluster :: connection_cluster where
  "home_cluster = \<lparr>cc_id = ''c1'', cc_name = None, connection_ids = [''nas2'', ''gone'', ''nas1''], suggestions = [],
     conflicting_backend_ids = []\<rparr>"

definition home_clusters :: connection_clusters where
  "home_clusters = \<lparr>members = [\<lparr>connection_id = ''nas1'', member_name = ''nas1'', reachable_now = True,
     identity_backend_id = Some ''b1'', seen_at = None\<rparr>], all_clusters = [home_cluster], main_cluster_id = None\<rparr>"


section \<open>Choosing a member\<close>

lemma pad_base64_append: "\<exists>k < 4. pad_base64 s = s @ replicate k CHR ''='' \<and> length (pad_base64 s) mod 4 = 0"
proof (induction s rule: pad_base64.induct)
  case (1 s)
  show ?case
  proof (cases "length s mod 4 = 0")
    case True
    then show ?thesis by (intro exI [of _ 0]) (simp add: pad_base64.simps [of s])
  next
    case False
    then obtain k where k: "k < 4" "pad_base64 (s @ ''='') = s @ replicate (Suc k) CHR ''=''" "length (pad_base64 (s @ ''='')) mod 4 = 0"
      using 1 by auto
    have "(length s + Suc k) mod 4 = 0" using k by simp
    then have "Suc k < 4" using False k(1) by presburger
    then show ?thesis using k False by (intro exI [of _ "Suc k"]) (simp add: pad_base64.simps [of s])
  qed
qed

text \<open>
  A member to open is one of the cluster's connections, reachable whenever one of them is; only an empty cluster has
  none. The alternative to a connection that is down is another, reachable member.
\<close>

lemma pickClusterMember_reachable:
  assumes "pickClusterMember c (Some cl) preferred = r"
  shows "(case r of None \<Rightarrow> connection_ids c = []
          | Some i \<Rightarrow> i \<in> set (connection_ids c) \<and>
                     (i \<in> set (reachable_ids cl) \<or> set (connection_ids c) \<inter> set (reachable_ids cl) = {}))"
  using assms
  by (auto simp: pickClusterMember_def Let_def coalesce_def find_None_iff dest: find_SomeD
      split: option.splits if_splits list.splits)

lemma reachableAlternative_reachable:
  assumes "reachableAlternative i (Some cl) = Some j"
  shows "j \<noteq> i \<and> j \<in> set (reachable_ids cl) \<and> i \<notin> set (reachable_ids cl) \<and>
         (\<exists>c \<in> set (all_clusters cl). i \<in> set (connection_ids c) \<and> j \<in> set (connection_ids c))"
  using assms by (auto simp: reachableAlternative_def dest!: find_SomeD split: option.splits if_splits)

section \<open>Keeping the section\<close>

text \<open>The section of a page: the first segment of the path after the backend's prefix.\<close>

definition page_section :: "string \<Rightarrow> string option" where
  "page_section pathname = first_section (or_else (after_backend pathname) pathname)"

lemma first_section_SomeD: "first_section p = Some w \<Longrightarrow> w \<noteq> [] \<and> CHR ''/'' \<notin> set w"
  unfolding first_section_def by (drule find_SomeD) (auto dest: split_on_no_sep)

lemma first_section_slash: "first_section (CHR ''/'' # p) = first_section p"
  by (simp add: first_section_def)

lemma first_section_word: "w \<noteq> [] \<Longrightarrow> CHR ''/'' \<notin> set w \<Longrightarrow> first_section w = Some w"
  by (simp add: first_section_def split_on_id)

lemma first_section_Nil [simp]: "first_section [] = None"
  by (simp add: first_section_def)

lemma after_backend_home:
  assumes "e \<noteq> []" "CHR ''/'' \<notin> set e"
  shows "after_backend (''/b/'' @ e @ ''/'' @ p) = Some (''/'' @ p)"
proof -
  have "takeWhile (\<lambda>c. c \<noteq> CHR ''/'') (e @ ''/'' @ p) = e" "dropWhile (\<lambda>c. c \<noteq> CHR ''/'') (e @ ''/'' @ p) = ''/'' @ p"
    using assms(2) by (auto simp: takeWhile_append dropWhile_append)
  then show ?thesis using assms(1) by (simp add: after_backend_def starts_with_def)
qed

lemma page_section_home:
  assumes "i \<noteq> ''default''" "encode i \<noteq> []" "CHR ''/'' \<notin> set (encode i)"
  shows "page_section (connectionHome encode i @ p) = first_section p"
  using after_backend_home [OF assms(2,3), of p] assms(1)
  by (simp add: page_section_def connectionHome_def or_else_def first_section_slash)

lemma page_section_bare:
  assumes "CHR ''/'' \<notin> set p"
  shows "page_section (''/'' @ p) = first_section p"
proof -
  have "\<not> starts_with ''/b/'' (''/'' @ p)" using assms by (auto simp: starts_with_prefix prefix_def)
  then show ?thesis by (simp add: page_section_def after_backend_def or_else_def first_section_slash)
qed

text \<open>
  Switching backends keeps the section (\<open>sectionOnBackend\<close>): from any page but the connections page itself, the
  path on another backend has the section of the page that was open; it lies under the home of that backend, and for
  every backend but the default one it is the home followed by nothing but the section, so that no id of the old
  backend is carried along.
\<close>

lemma sectionOnBackend_section:
  assumes "encode i \<noteq> []" "CHR ''/'' \<notin> set (encode i)"
    and "after_backend pathname = None \<Longrightarrow> \<not> starts_with ''/connections'' pathname"
  shows "page_section (sectionOnBackend encode i pathname) = page_section pathname
     \<and> (i \<noteq> ''default'' \<longrightarrow>
          sectionOnBackend encode i pathname = connectionHome encode i @ or_else (page_section pathname) [])"
proof (cases "i = ''default''")
  case True
  show ?thesis
  proof (cases "after_backend pathname")
    case None
    then show ?thesis using True assms(3) by (simp add: sectionOnBackend_def)
  next
    case (Some rest)
    then have "page_section pathname = first_section rest" by (simp add: page_section_def or_else_def)
    moreover have "page_section ''/'' = None" using page_section_bare [of "[]"] by simp
    ultimately show ?thesis
      using True Some first_section_SomeD [of rest] page_section_bare
      by (cases "first_section rest") (simp_all add: sectionOnBackend_def Let_def first_section_word)
  qed
next
  case False
  have *: "sectionOnBackend encode i pathname = connectionHome encode i @ or_else (page_section pathname) []"
    using False assms(3)
    by (simp add: sectionOnBackend_def Let_def page_section_def or_else_def split: option.splits)
  have "first_section (or_else (page_section pathname) []) = page_section pathname"
    using first_section_SomeD [of "or_else (after_backend pathname) pathname"]
    by (cases "page_section pathname") (simp_all add: page_section_def or_else_def first_section_word)
  then show ?thesis using * page_section_home [of i encode, OF False assms(1,2)] by simp
qed

lemma sectionOnBackend_section_witness:
  "page_section (sectionOnBackend (\<lambda>i. i) ''nas2'' ''/b/nas/jobs/123'') = page_section ''/b/nas/jobs/123''
   \<and> sectionOnBackend (\<lambda>i. i) ''nas2'' ''/b/nas/jobs/123'' = ''/b/nas2/jobs''
   \<and> sectionOnBackend (\<lambda>i. i) ''default'' ''/b/nas/jobs/123'' = ''/jobs''
   \<and> page_section (sectionOnBackend (\<lambda>i. i) ''default'' ''/b/nas/jobs/123'') = Some ''jobs''"
proof -
  have e: "after_backend ''/b/nas/jobs/123'' = Some ''/jobs/123''" by code_simp
  have p: "page_section ''/b/nas/jobs/123'' = Some ''jobs''" by code_simp
  have d: "sectionOnBackend (\<lambda>i. i) ''default'' ''/b/nas/jobs/123'' = ''/jobs''" by code_simp
  show ?thesis
    using sectionOnBackend_section [of "\<lambda>i. i" "''nas2''" "''/b/nas/jobs/123''"]
      sectionOnBackend_section [of "\<lambda>i. i" "''default''" "''/b/nas/jobs/123''"] e p d
    by (auto simp: connectionHome_def or_else_def)
qed

end
