(* ===== verification/ApiUrls.thy ===== *)
theory ApiUrls
  imports Connections
begin

text \<open>
  The addresses of the active backend: \<open>api/http.ts\<close>, \<open>api/media.ts\<close> and \<open>api/failover.ts\<close>. The page (its origin, path and
  the connection set by an enclosing scope) is a record; \<open>encodeURIComponent\<close>, \<open>decodeURIComponent\<close>, \<open>new URL\<close> and
  \<open>URLSearchParams\<close> are parameters. A function that throws returns \<open>None\<close>.
\<close>

section \<open>The active backend\<close>

record page =
  has_window :: bool
  page_origin :: string
  page_pathname :: string
  scopedConnectionId :: "string option"

definition connectionIdFromPath :: "(string \<Rightarrow> string option) \<Rightarrow> string \<Rightarrow> string option option" where
  "connectionIdFromPath decode pathname =
     (if after_backend pathname = None then Some None
      else map_option Some (decode (takeWhile (\<lambda>c. c \<noteq> CHR ''/'') (drop 3 pathname))))"

definition setScopedConnectionId :: "string option \<Rightarrow> page \<Rightarrow> page" where
  "setScopedConnectionId connectionId pg = pg\<lparr>scopedConnectionId := connectionId\<rparr>"

definition on_webui_page :: "string \<Rightarrow> bool" where
  "on_webui_page path \<longleftrightarrow> path = ''/connections'' \<or> starts_with ''/connections/'' path \<or> path = ''/setup'' \<or> starts_with ''/setup/'' path"

definition getActiveConnectionId :: "(string \<Rightarrow> string option) \<Rightarrow> page \<Rightarrow> string option option" where
  "getActiveConnectionId decode pg =
     (if \<not> has_window pg then Some (scopedConnectionId pg)
      else case connectionIdFromPath decode (page_pathname pg) of
             None \<Rightarrow> None
           | Some pathId \<Rightarrow>
               (case or_opt (Option.bind pathId nonempty) (Option.bind (scopedConnectionId pg) nonempty) of
                  Some i \<Rightarrow> Some (Some i)
                | None \<Rightarrow> if on_webui_page (page_pathname pg) then Some None else Some (Some ''default'')))"

text \<open>The id of a remote backend; neither none nor the local default.\<close>

definition remote_id :: "string option \<Rightarrow> string option" where
  "remote_id i = (case Option.bind i nonempty of Some c \<Rightarrow> if c = ''default'' then None else Some c | None \<Rightarrow> None)"

definition connectionScopedKey :: "(string \<Rightarrow> string option) \<Rightarrow> page \<Rightarrow> string \<Rightarrow> string option" where
  "connectionScopedKey decode pg key =
     map_option (\<lambda>i. case remote_id i of None \<Rightarrow> key | Some c \<Rightarrow> key @ ''@'' @ c) (getActiveConnectionId decode pg)"

definition getConnectionBasePath :: "(string \<Rightarrow> string) \<Rightarrow> (string \<Rightarrow> string option) \<Rightarrow> page \<Rightarrow> string option" where
  "getConnectionBasePath encode decode pg =
     map_option (\<lambda>i. case remote_id i of None \<Rightarrow> [] | Some c \<Rightarrow> ''/b/'' @ encode c) (getActiveConnectionId decode pg)"

section \<open>Addresses\<close>

text \<open>\<open>/^[a-zA-Z][a-zA-Z\d+.-]*:/.test(url)\<close>\<close>

definition isAbsoluteUrl :: "string \<Rightarrow> bool" where
  "isAbsoluteUrl url = (case url of
      [] \<Rightarrow> False
    | c # r \<Rightarrow> is_alpha c \<and> starts_with '':''
        (dropWhile (\<lambda>d. is_alpha d \<or> is_digit d \<or> d \<in> {CHR ''+'', CHR ''.'', CHR ''-''}) r))"

definition apiUrl :: "(string \<Rightarrow> string) \<Rightarrow> (string \<Rightarrow> string option) \<Rightarrow> page \<Rightarrow> string \<Rightarrow> string option" where
  "apiUrl encode decode pg path =
     (if starts_with ''/'' path then map_option (\<lambda>b. b @ path) (getConnectionBasePath encode decode pg) else Some path)"

definition appUrl :: "(string \<Rightarrow> string) \<Rightarrow> (string \<Rightarrow> string option) \<Rightarrow> page \<Rightarrow> string \<Rightarrow> string option" where
  "appUrl encode decode pg path =
     (if starts_with ''/'' path then map_option (\<lambda>b. b @ path) (getConnectionBasePath encode decode pg) else Some path)"

definition backendUrl :: "(string \<Rightarrow> string) \<Rightarrow> (string \<Rightarrow> string option) \<Rightarrow> page \<Rightarrow> string \<Rightarrow> string option" where
  "backendUrl encode decode pg url = (if isAbsoluteUrl url then Some url else apiUrl encode decode pg url)"

text \<open>\<open>pathname_of url base\<close> is the path of \<open>new URL(url, base)\<close>; \<open>None\<close> when it throws.\<close>

definition backendResourceUrl ::
  "(string \<Rightarrow> string) \<Rightarrow> (string \<Rightarrow> string option) \<Rightarrow> (string \<Rightarrow> string \<Rightarrow> string option) \<Rightarrow> page \<Rightarrow> string option \<Rightarrow> string option option" where
  "backendResourceUrl encode decode pathname_of pg url =
     (case Option.bind url nonempty of
        None \<Rightarrow> Some None
      | Some u \<Rightarrow>
          if isAbsoluteUrl u then Some (Some u)
          else case pathname_of u (page_origin pg) of
                 None \<Rightarrow> None
               | Some pathname \<Rightarrow>
                   if pathname = ''/api/v1'' \<or> starts_with ''/api/v1/'' pathname
                   then map_option Some (apiUrl encode decode pg u) else Some (Some u))"

definition getApiBaseUrl :: "(string \<Rightarrow> string) \<Rightarrow> (string \<Rightarrow> string option) \<Rightarrow> page \<Rightarrow> string option" where
  "getApiBaseUrl encode decode pg =
     (if \<not> has_window pg then Some ''http://localhost''
      else map_option (\<lambda>b. page_origin pg @ b) (getConnectionBasePath encode decode pg))"

definition getWebSocketBaseUrl :: "(string \<Rightarrow> string) \<Rightarrow> (string \<Rightarrow> string option) \<Rightarrow> page \<Rightarrow> string option" where
  "getWebSocketBaseUrl encode decode pg =
     map_option (\<lambda>b. if starts_with ''http'' b then ''ws'' @ drop 4 b else b) (getApiBaseUrl encode decode pg)"

section \<open>Media\<close>

text \<open>The base followed by the path, through \<open>backendUrl\<close>.\<close>

definition under_base :: "(string \<Rightarrow> string) \<Rightarrow> (string \<Rightarrow> string option) \<Rightarrow> page \<Rightarrow> string \<Rightarrow> string option" where
  "under_base encode decode pg path =
     Option.bind (getApiBaseUrl encode decode pg) (\<lambda>base. backendUrl encode decode pg (base @ path))"

definition getMediaFileUrl ::
  "(rat \<Rightarrow> string) \<Rightarrow> (string \<Rightarrow> string) \<Rightarrow> (string \<Rightarrow> string option) \<Rightarrow> page \<Rightarrow> string \<Rightarrow> jsnum \<Rightarrow> string option" where
  "getMediaFileUrl fs encode decode pg siteName mediaId =
     under_base encode decode pg (''/api/v1/media/stream/'' @ encode siteName @ ''/'' @ js_num_str fs mediaId)"

definition getJobTaskResultFileUrl ::
  "(rat \<Rightarrow> string) \<Rightarrow> (string \<Rightarrow> string) \<Rightarrow> (string \<Rightarrow> string option) \<Rightarrow> page \<Rightarrow> string \<Rightarrow> string \<Rightarrow> jsnum \<Rightarrow> string option" where
  "getJobTaskResultFileUrl fs encode decode pg jobId taskId resultIndex =
     under_base encode decode pg (''/api/v1/jobs/'' @ encode jobId @ ''/tasks/'' @ encode taskId @ ''/files/'' @ js_num_str fs resultIndex)"

definition getDrmManifestUrl ::
  "(rat \<Rightarrow> string) \<Rightarrow> (string \<Rightarrow> string) \<Rightarrow> (string \<Rightarrow> string option) \<Rightarrow> page \<Rightarrow> string \<Rightarrow> jsnum \<Rightarrow> string option" where
  "getDrmManifestUrl fs encode decode pg siteName mediaId =
     under_base encode decode pg (''/api/v1/media/drm/'' @ encode siteName @ ''/'' @ js_num_str fs mediaId @ ''/manifest.mpd'')"

definition getDrmLicenseUrl ::
  "(rat \<Rightarrow> string) \<Rightarrow> (string \<Rightarrow> string) \<Rightarrow> (string \<Rightarrow> string option) \<Rightarrow> page \<Rightarrow> string \<Rightarrow> jsnum \<Rightarrow> string option" where
  "getDrmLicenseUrl fs encode decode pg siteName mediaId =
     under_base encode decode pg (''/api/v1/media/drm/'' @ encode siteName @ ''/'' @ js_num_str fs mediaId @ ''/license'')"

text \<open>\<open>query\<close> prints the search parameters.\<close>

definition getMediaProxyUrl ::
  "(rat \<Rightarrow> string) \<Rightarrow> (string \<Rightarrow> string) \<Rightarrow> (string \<Rightarrow> string option) \<Rightarrow> ((string \<times> string) list \<Rightarrow> string) \<Rightarrow> page
   \<Rightarrow> string option \<Rightarrow> string \<Rightarrow> jsnum option \<Rightarrow> string option option" where
  "getMediaProxyUrl fs encode decode query pg cdnUrl site authId =
     (case Option.bind cdnUrl nonempty of
        None \<Rightarrow> Some None
      | Some u \<Rightarrow>
          map_option Some (backendUrl encode decode pg (''/api/v1/media/proxy?'' @
            query ([(''url'', u), (''site'', site)] @ (case authId of None \<Rightarrow> [] | Some a \<Rightarrow> [(''auth_id'', js_num_str fs a)])))))"

section \<open>Failover\<close>

record failover =
  servedBy :: "string option"
  fo_listeners :: "nat list"

text \<open>The new state and the listeners that are called, in order.\<close>

definition reportServedBy :: "string option \<Rightarrow> failover \<Rightarrow> failover \<times> nat list" where
  "reportServedBy connectionId f =
     (if connectionId = servedBy f then (f, []) else (f\<lparr>servedBy := connectionId\<rparr>, fo_listeners f))"

definition subscribeToFailover :: "nat \<Rightarrow> failover \<Rightarrow> failover" where
  "subscribeToFailover l f = (if l \<in> set (fo_listeners f) then f else f\<lparr>fo_listeners := fo_listeners f @ [l]\<rparr>)"

definition unsubscribeFromFailover :: "nat \<Rightarrow> failover \<Rightarrow> failover" where
  "unsubscribeFromFailover l f = f\<lparr>fo_listeners := filter (\<lambda>x. x \<noteq> l) (fo_listeners f)\<rparr>"

text \<open>The response interceptor: the header, when it is a string with characters, names the backend that answered.\<close>

definition on_response :: "json \<Rightarrow> failover \<Rightarrow> failover \<times> nat list" where
  "on_response header = reportServedBy (case header of JStr s \<Rightarrow> nonempty s | _ \<Rightarrow> None)"

text \<open>The message of a failed request: the backend's detail, when it is a string that is not blank.\<close>

definition error_message :: "json \<Rightarrow> string \<Rightarrow> string" where
  "error_message detail message = (case detail of JStr d \<Rightarrow> or_str (Some (trim d)) message | _ \<Rightarrow> message)"

section \<open>Correctness\<close>

lemma sectionOnBackend_under_home:
  assumes "i \<noteq> ''default''"
  shows "\<exists>w. sectionOnBackend encode i pathname = connectionHome encode i @ w"
  using assms by (auto simp: sectionOnBackend_def Let_def split: option.splits)

lemma connectionIdFromPath_home:
  assumes "i \<noteq> ''default''" "encode i \<noteq> []" "CHR ''/'' \<notin> set (encode i)" "decode (encode i) = Some i"
  shows "connectionIdFromPath decode (connectionHome encode i @ w) = Some (Some i)"
proof -
  have "takeWhile (\<lambda>c. c \<noteq> CHR ''/'') (encode i @ ''/'' @ w) = encode i"
    using assms(3) by (auto simp: takeWhile_append)
  then show ?thesis
    using assms after_backend_home [OF assms(2,3), of w] by (simp add: connectionIdFromPath_def connectionHome_def)
qed

lemma dropWhile_append_stop: "dropWhile P r = c # t \<Longrightarrow> dropWhile P (r @ v) = c # t @ v"
  by (induction r) (auto split: if_splits)

lemma starts_with_single: "starts_with [c] s \<longleftrightarrow> (\<exists>t. s = c # t)"
  by (auto simp: starts_with_prefix prefix_def)

lemma isAbsoluteUrl_append: "isAbsoluteUrl u \<Longrightarrow> isAbsoluteUrl (u @ v)"
  unfolding isAbsoluteUrl_def starts_with_single
  by (cases u) (auto simp only: list.case append.simps intro: dropWhile_append_stop)

text \<open>A file of the active backend has the prefix of the backend once.\<close>

lemma under_base_once:
  assumes "has_window pg" "isAbsoluteUrl (page_origin pg)"
  shows "under_base encode decode pg path = map_option (\<lambda>b. page_origin pg @ b @ path) (getConnectionBasePath encode decode pg)"
  using assms
  by (cases "getConnectionBasePath encode decode pg")
    (simp_all add: under_base_def getApiBaseUrl_def backendUrl_def isAbsoluteUrl_append)

text \<open>The listeners of the failover are called exactly when the backend that answers changes.\<close>

lemma on_response_changes:
  "snd (on_response h f) = (if servedBy (fst (on_response h f)) = servedBy f then [] else fo_listeners f)"
  by (auto simp: on_response_def reportServedBy_def)


definition sample_page :: page where
  "sample_page = \<lparr>has_window = True, page_origin = ''http://host:8080'', page_pathname = ''/b/nas2/jobs'', scopedConnectionId = Some ''pi''\<rparr>"


end
