(* ===== verification/TaskRoutes.thy ===== *)
theory TaskRoutes
  imports JsJson JsRegex
begin

text \<open>
  Proxy routes of a task: \<open>features/jobs/lib/taskProxyUtils.ts\<close>. The masking and short form of a proxy URL, the
  reconstruction of the hops a task went through, and their summary. The browser's URL parser is a parameter; a
  \<open>TypeError\<close> is \<open>None\<close>. What the API leaves untyped (payload, result, routes) is parsed JSON.
\<close>

section \<open>Data\<close>

record task_detail =
  td_message :: json
  td_task_id :: "string option"
  td_task_type :: string
  td_status :: string
  td_site :: "string option"
  td_username :: "string option"
  td_content_type :: "string option"
  td_payload :: json
  td_worker_id :: "string option"
  td_started_at :: "string option"
  td_completed_at :: "string option"
  td_progress :: jsnum
  td_items_processed :: rat
  td_items_total :: "rat option"
  td_error :: "string option"
  td_result :: json
  td_proxy_url :: json
  td_proxy_routes :: json
  td_proxy_hop_used :: json
  td_duration :: json

datatype hop_status = HopUsed | HopFailed | HopUntried | HopPending

record route_hop =
  hop_number :: nat
  hop_url :: "string option"
  masked_url :: string
  is_direct :: bool
  hop_state :: hop_status
  role_label :: string
  hop_country :: "string option"
  hop_country_code :: "string option"
  hop_flag_emoji :: "string option"
  hop_group :: "string option"

record network_proxy =
  np_url :: string
  np_group :: "string option"
  np_assigned_auths :: "jsnum list option"
  np_country :: "string option"
  np_country_code :: "string option"
  np_flag_emoji :: "string option"

text \<open>
  A parsed URL: the parts the code reads, \<open>toString()\<close>, and \<open>toString()\<close> after user name and password were set
  to \<open>***\<close>.
\<close>

record parsed_url =
  pu_username :: string
  pu_password :: string
  pu_hostname :: string
  pu_port :: string
  pu_href :: string
  pu_masked_href :: string

type_synonym url_reader = "string \<Rightarrow> parsed_url option"

section \<open>Proxy URLs\<close>

definition is_scheme_char :: "char \<Rightarrow> bool" where
  "is_scheme_char c \<longleftrightarrow> is_alpha c \<or> is_digit c \<or> c \<in> {CHR ''+'', CHR ''.'', CHR ''-''}"

text \<open>\<open>/^([a-zA-Z0-9+.-]+:\/\/)((?:[^:@]+)(?::(?:[^@]+))?@)/\<close>\<close>

definition credentials_rx :: rx where
  "credentials_rx = rx_seq [RBos, RCap 1 (RSeq (rx_plus (RChr is_scheme_char)) (rx_lit ''://'')),
     rx_plus (RChr (\<lambda>c. c \<noteq> CHR '':'' \<and> c \<noteq> CHR ''@'')),
     rx_opt (RSeq (rx_lit '':'') (rx_plus (RChr (\<lambda>c. c \<noteq> CHR ''@'')))), rx_lit ''@'']"

definition mask_fallback :: "string \<Rightarrow> string" where
  "mask_fallback trimmed =
     (case rx_exec credentials_rx trimmed of
        None \<Rightarrow> trimmed
      | Some st \<Rightarrow> or_else (rx_group 1 st) [] @ ''***:***@'' @ rx_rest st)"

text \<open>The text that both functions start from: \<open>None\<close> where they return \<open>Direct\<close>.\<close>

definition proxy_text :: "json \<Rightarrow> string option" where
  "proxy_text url = (case url of
      JStr s \<Rightarrow> if trim s = [] \<or> lower (trim s) = ''direct'' then None else Some (trim s)
    | _ \<Rightarrow> None)"

definition maskProxyUrl :: "url_reader \<Rightarrow> json \<Rightarrow> string" where
  "maskProxyUrl newURL url =
     (case proxy_text url of
        None \<Rightarrow> ''Direct''
      | Some trimmed \<Rightarrow>
          (case newURL trimmed of
             Some parsed \<Rightarrow>
               let result = (if pu_username parsed \<noteq> [] \<or> pu_password parsed \<noteq> [] then pu_masked_href parsed else pu_href parsed)
               in if ends_with ''/'' result \<and> \<not> ends_with ''/'' trimmed then butlast result else result
           | None \<Rightarrow> mask_fallback trimmed))"

definition is_host_char :: "char \<Rightarrow> bool" where
  "is_host_char c \<longleftrightarrow> is_alpha c \<or> is_digit c \<or> c \<in> {CHR ''.'', CHR ''-''}"

text \<open>\<open>/(?:@|^|\/\/)([a-zA-Z0-9.-]+)(?::([0-9]+))?/\<close>\<close>

definition host_rx :: rx where
  "host_rx = rx_seq [RAlt (rx_lit ''@'') (RAlt RBos (rx_lit ''//'')), RCap 1 (rx_plus (RChr is_host_char)),
     rx_opt (RSeq (rx_lit '':'') (RCap 2 (rx_plus (RChr is_digit))))]"

definition host_port :: "string \<Rightarrow> string option \<Rightarrow> string" where
  "host_port host port = (case Option.bind port nonempty of None \<Rightarrow> host | Some p \<Rightarrow> host @ '':'' @ p)"

definition formatProxyHost :: "url_reader \<Rightarrow> json \<Rightarrow> string" where
  "formatProxyHost newURL url =
     (case proxy_text url of
        None \<Rightarrow> ''Direct''
      | Some trimmed \<Rightarrow>
          (case newURL trimmed of
             Some parsed \<Rightarrow> host_port (pu_hostname parsed) (Some (pu_port parsed))
           | None \<Rightarrow>
               (case rx_exec host_rx trimmed of
                  None \<Rightarrow> trimmed
                | Some st \<Rightarrow> host_port (or_else (rx_group 1 st) []) (rx_group 2 st))))"

definition normalizeProxyKey :: "url_reader \<Rightarrow> json \<Rightarrow> string" where
  "normalizeProxyKey newURL url = (if truthy url then lower (formatProxyHost newURL url) else [])"

section \<open>The routes of a task\<close>

definition task_output :: "task_detail \<Rightarrow> json" where
  "task_output t = jget (td_result t) ''output''"

definition task_metrics :: "task_detail \<Rightarrow> json" where
  "task_metrics t = jget (td_result t) ''metrics''"

definition invalid_user :: "task_detail \<Rightarrow> bool" where
  "invalid_user t = truthy (jget (task_output t) ''invalid_user'')"

text \<open>\<open>Array.isArray(v) && v.length > 0\<close>\<close>

definition filled_array :: "json \<Rightarrow> json list option" where
  "filled_array v = (case v of JArr xs \<Rightarrow> if xs = [] then None else Some xs | _ \<Rightarrow> None)"

definition is_str :: "json \<Rightarrow> bool" where
  "is_str v = (case v of JStr _ \<Rightarrow> True | _ \<Rightarrow> False)"

text \<open>\<open>a || b\<close>\<close>

definition jor :: "json \<Rightarrow> json \<Rightarrow> json" where
  "jor a b = (if truthy a then a else b)"

text \<open>The position of \<open>splice(Math.min(i, n), 0, _)\<close> for \<open>i >= 0\<close>; \<open>None\<close> for a negative index or NaN.\<close>

definition splice_index :: "jsnum \<Rightarrow> nat \<Rightarrow> nat option" where
  "splice_index i n = (case i of
      Fin q \<Rightarrow> if q \<ge> 0 then Some (min (nat \<lfloor>q\<rfloor>) n) else None
    | PosInf \<Rightarrow> Some n | _ \<Rightarrow> None)"

fun push_fallbacks :: "json list \<Rightarrow> json list \<Rightarrow> json list" where
  "push_fallbacks routes [] = routes"
| "push_fallbacks routes (u # us) =
     push_fallbacks (if truthy u \<and> u \<notin> set routes then routes @ [u] else routes) us"

definition guest_routes :: "json \<Rightarrow> json list \<Rightarrow> json \<Rightarrow> json list" where
  "guest_routes guestProxyUrl guestFallbackUrls guestDirectIndex =
     (let routes = push_fallbacks (if truthy guestProxyUrl then [guestProxyUrl] else []) guestFallbackUrls
      in case guestDirectIndex of
           JNum i \<Rightarrow> (case splice_index i (length routes) of
                       Some k \<Rightarrow> take k routes @ [JNull] @ drop k routes
                     | None \<Rightarrow> routes)
         | _ \<Rightarrow> routes)"

definition payload_routes :: "(rat \<Rightarrow> string) \<Rightarrow> task_detail \<Rightarrow> network_proxy list \<Rightarrow> json list" where
  "payload_routes fs t proxies =
     (let payload = td_payload t; output = task_output t; metrics = task_metrics t;
          guestProxyUrl = (if is_str (jget payload ''guest_proxy_url'') then jget payload ''guest_proxy_url'' else JNull);
          guestFallbackUrls = (case jget payload ''guest_fallback_proxy_urls'' of JArr xs \<Rightarrow> filter is_str xs | _ \<Rightarrow> []);
          guestDirectIndex = (case jget payload ''guest_direct_route_index'' of JNum n \<Rightarrow> JNum n | _ \<Rightarrow> JNull)
      in if truthy guestProxyUrl \<or> guestFallbackUrls \<noteq> [] \<or> guestDirectIndex \<noteq> JNull
         then guest_routes guestProxyUrl guestFallbackUrls guestDirectIndex
         else if is_str (td_proxy_url t) \<or> is_str (jget payload ''proxy_url'')
         then [jor (td_proxy_url t) (jget payload ''proxy_url'')]
         else if is_str (jget output ''proxy_url'') \<or> is_str (jget metrics ''proxy_url'')
         then [jor (jget output ''proxy_url'') (jget metrics ''proxy_url'')]
         else if truthy (jget payload ''auth_id'') \<and> proxies \<noteq> []
         then (case List.find (\<lambda>p. number_of fs (jget payload ''auth_id'') \<in> set (or_else (np_assigned_auths p) [])) proxies of
                 Some p \<Rightarrow> [JStr (np_url p)]
               | None \<Rightarrow> [])
         else [])"

definition configured_routes :: "(rat \<Rightarrow> string) \<Rightarrow> task_detail \<Rightarrow> network_proxy list \<Rightarrow> json list" where
  "configured_routes fs t proxies =
     (case filled_array (td_proxy_routes t) of
        Some r \<Rightarrow> r
      | None \<Rightarrow>
          (case filled_array (jget (task_output t) ''proxy_routes'') of
             Some r \<Rightarrow> r
           | None \<Rightarrow>
               (case filled_array (jget (task_metrics t) ''proxy_routes'') of
                  Some r \<Rightarrow> r
                | None \<Rightarrow> payload_routes fs t proxies)))"

text \<open>\<open>/attempted (\d+) proxy route/i\<close>\<close>

definition attempted_rx :: rx where
  "attempted_rx = rx_seq [rx_lit_ci ''attempted '', RCap 1 (rx_plus (RChr is_digit)), rx_lit_ci '' proxy route'']"

definition task_msg :: "(rat \<Rightarrow> string) \<Rightarrow> task_detail \<Rightarrow> string" where
  "task_msg fs t = js_String fs (jor (jor (td_message t) (jget (td_result t) ''message'')) (JStr []))"

definition direct_only :: "(rat \<Rightarrow> string) \<Rightarrow> task_detail \<Rightarrow> bool" where
  "direct_only fs t \<longleftrightarrow> td_proxy_url t = JNull \<and> td_status t = ''completed'' \<and> \<not> invalid_user t
     \<and> \<not> rx_test attempted_rx (task_msg fs t)
     \<and> jget (td_payload t) ''include_direct_connection'' \<noteq> JBool False"

definition raw_routes :: "(rat \<Rightarrow> string) \<Rightarrow> task_detail \<Rightarrow> network_proxy list \<Rightarrow> json list" where
  "raw_routes fs t proxies =
     (let r = configured_routes fs t proxies in if r = [] then (if direct_only fs t then [JNull] else []) else r)"

section \<open>The hop that was used\<close>

fun index_of :: "('a \<Rightarrow> bool) \<Rightarrow> 'a list \<Rightarrow> nat option" where
  "index_of P [] = None"
| "index_of P (x # xs) = (if P x then Some 0 else map_option Suc (index_of P xs))"

definition used_hop_index :: "url_reader \<Rightarrow> task_detail \<Rightarrow> json list \<Rightarrow> jsnum option" where
  "used_hop_index newURL t routes =
     (let output = task_output t; metrics = task_metrics t;
          found = map_option (\<lambda>i. Fin (of_nat i))
      in case td_proxy_hop_used t of JNum n \<Rightarrow> Some n | _ \<Rightarrow>
        (case jget output ''proxy_hop_used'' of JNum n \<Rightarrow> Some n | _ \<Rightarrow>
          (case jget metrics ''proxy_hop_used'' of JNum n \<Rightarrow> Some n | _ \<Rightarrow>
             if invalid_user t then None
             else let activeUrl = jcoalesce (jcoalesce (td_proxy_url t) (jget output ''proxy_url'')) (jget metrics ''proxy_url'')
                  in if activeUrl = JUndef
                     then (if td_status t = ''completed'' \<and> length routes = 1 then Some (Fin 0) else None)
                     else if activeUrl = JNull then found (index_of (\<lambda>r. r = JNull) routes)
                     else found (index_of (\<lambda>r. r \<noteq> JNull \<and> normalizeProxyKey newURL r = normalizeProxyKey newURL activeUrl) routes))))"

text \<open>\<open>i < n\<close> for a number that may be infinite or NaN.\<close>

definition below :: "nat \<Rightarrow> jsnum \<Rightarrow> bool" where
  "below i n = (case n of Fin q \<Rightarrow> of_nat i < q | PosInf \<Rightarrow> True | _ \<Rightarrow> False)"

text \<open>
  The proxies by key; the first entry of a key wins and the empty key is left out.
\<close>

definition proxy_map :: "url_reader \<Rightarrow> network_proxy list \<Rightarrow> string \<Rightarrow> network_proxy option" where
  "proxy_map newURL proxies key =
     (if key = [] then None else List.find (\<lambda>p. normalizeProxyKey newURL (JStr (np_url p)) = key) proxies)"

section \<open>Hops\<close>

definition is_failed_task :: "task_detail \<Rightarrow> bool" where
  "is_failed_task t \<longleftrightarrow> lower (td_status t) \<in> {''failed'', ''cancelled''}"

definition is_running_task :: "task_detail \<Rightarrow> bool" where
  "is_running_task t \<longleftrightarrow> lower (td_status t) \<in> {''running'', ''inflight''}"

definition attempted_indices :: "task_detail \<Rightarrow> json list option" where
  "attempted_indices t =
     (case jget (task_output t) ''proxy_routes_attempted'' of JArr xs \<Rightarrow> Some xs | _ \<Rightarrow>
       (case jget (task_metrics t) ''proxy_routes_attempted'' of JArr xs \<Rightarrow> Some xs | _ \<Rightarrow> None))"

definition attempted_count :: "(rat \<Rightarrow> string) \<Rightarrow> task_detail \<Rightarrow> int option" where
  "attempted_count fs t = Option.bind (rx_exec attempted_rx (task_msg fs t)) (\<lambda>st. parse_int (or_else (rx_group 1 st) []))"

definition missed_status :: "(rat \<Rightarrow> string) \<Rightarrow> task_detail \<Rightarrow> nat \<Rightarrow> hop_status" where
  "missed_status fs t i =
     (case attempted_indices t of
        Some xs \<Rightarrow> if JNum (Fin (of_nat i)) \<in> set xs then HopFailed else HopUntried
      | None \<Rightarrow> (case attempted_count fs t of
                  Some c \<Rightarrow> if int i < c then HopFailed else HopUntried
                | None \<Rightarrow> HopFailed))"

definition hop_status_of :: "(rat \<Rightarrow> string) \<Rightarrow> task_detail \<Rightarrow> jsnum option \<Rightarrow> nat \<Rightarrow> hop_status" where
  "hop_status_of fs t used i =
     (case used of
        Some u \<Rightarrow> if below i u then HopFailed
                  else if u = Fin (of_nat i)
                  then (if is_failed_task t then HopFailed else if is_running_task t then HopPending else HopUsed)
                  else HopUntried
      | None \<Rightarrow>
          if is_failed_task t then HopFailed
          else if is_running_task t then (if i = 0 then HopPending else HopUntried)
          else if invalid_user t \<or> lower (td_status t) = ''completed'' then missed_status fs t i
          else HopUntried)"

definition role_of :: "nat \<Rightarrow> nat \<Rightarrow> bool \<Rightarrow> string" where
  "role_of n i direct =
     (if n = 1 then (if direct then ''Direct'' else ''Primary'')
      else if i = 0 then (if direct then ''Primary (Direct)'' else ''Primary'')
      else ''Fallback '' @ show_nat i @ (if direct then '' (Direct)'' else []))"

definition direct_route :: "string option \<Rightarrow> bool" where
  "direct_route r \<longleftrightarrow> (case r of None \<Rightarrow> True | Some u \<Rightarrow> u = [] \<or> lower u = ''direct'')"

abbreviation route_json :: "string option \<Rightarrow> json" where
  "route_json r \<equiv> (case r of None \<Rightarrow> JNull | Some u \<Rightarrow> JStr u)"

definition build_hop ::
  "url_reader \<Rightarrow> network_proxy list \<Rightarrow> nat \<Rightarrow> (nat \<Rightarrow> hop_status) \<Rightarrow> nat \<Rightarrow> string option \<Rightarrow> route_hop" where
  "build_hop newURL proxies n state i r =
     (let direct = direct_route r;
          matched = (if direct then None else proxy_map newURL proxies (normalizeProxyKey newURL (route_json r)))
      in \<lparr>hop_number = Suc i, hop_url = r, masked_url = maskProxyUrl newURL (route_json r), is_direct = direct,
          hop_state = state i, role_label = role_of n i direct,
          hop_country = Option.bind matched np_country, hop_country_code = Option.bind matched np_country_code,
          hop_flag_emoji = Option.bind matched np_flag_emoji, hop_group = Option.bind matched np_group\<rparr>)"

text \<open>A route that is neither null nor a string has no \<open>toLowerCase\<close>: reading it throws.\<close>

definition route_of :: "json \<Rightarrow> string option option" where
  "route_of v = (case v of JNull \<Rightarrow> Some None | JStr s \<Rightarrow> Some (Some s) | _ \<Rightarrow> None)"

definition buildTaskRouteSequence ::
  "(rat \<Rightarrow> string) \<Rightarrow> url_reader \<Rightarrow> task_detail \<Rightarrow> network_proxy list \<Rightarrow> route_hop list option" where
  "buildTaskRouteSequence fs newURL t proxies =
     (let routes = raw_routes fs t proxies
      in if list_all (\<lambda>v. route_of v \<noteq> None) routes
         then Some (map_index (build_hop newURL proxies (length routes)
                                 (hop_status_of fs t (used_hop_index newURL t routes))) 0 (map (\<lambda>v. the (route_of v)) routes))
         else None)"

section \<open>The summary\<close>

record proxy_summary =
  activeHop :: "route_hop option"
  sum_hops :: "route_hop list"
  hasHops :: bool
  hopCount :: nat
  usedHopNumber :: "nat option"
  summaryText :: string
  badgeLabel :: "string option"
  sum_flagEmoji :: "string option"

definition middle_dot :: string where
  "middle_dot = [CHR 0xC2, CHR 0xB7]"

definition globe :: string where
  "globe = [CHR 0xF0, CHR 0x9F, CHR 0x8C, CHR 0x90]"

definition no_hops :: proxy_summary where
  "no_hops = \<lparr>activeHop = None, sum_hops = [], hasHops = False, hopCount = 0, usedHopNumber = None,
     summaryText = ''Direct / None'', badgeLabel = None, sum_flagEmoji = None\<rparr>"

definition active_hop :: "task_detail \<Rightarrow> route_hop list \<Rightarrow> route_hop option" where
  "active_hop t hops =
     coalesce (List.find (\<lambda>h. hop_state h = HopUsed) hops)
       (coalesce (List.find (\<lambda>h. hop_state h = HopPending) hops)
         (if hops = [] then None
          else if td_status t = ''failed'' then Some (last hops)
          else Some (or_else (List.find (\<lambda>h. hop_state h = HopFailed) hops) (hd hops))))"

definition flag_prefix :: "string option \<Rightarrow> string" where
  "flag_prefix flag = (case Option.bind flag nonempty of Some f \<Rightarrow> f @ '' '' | None \<Rightarrow> [])"

text \<open>A template literal prints a null number as \<open>null\<close>.\<close>

definition show_opt :: "nat option \<Rightarrow> string" where
  "show_opt n = (case n of Some k \<Rightarrow> show_nat k | None \<Rightarrow> ''null'')"

definition summary_text :: "url_reader \<Rightarrow> task_detail \<Rightarrow> route_hop list \<Rightarrow> route_hop \<Rightarrow> nat option \<Rightarrow> string" where
  "summary_text newURL t hops active used =
     (let flag = hop_flag_emoji active; n = length hops
      in if n = 1
         then (if is_direct active then ''Direct Route''
               else case Option.bind (hop_country active) nonempty of
                      Some geo \<Rightarrow> flag_prefix flag @ geo
                        @ (case Option.bind (hop_group active) nonempty of Some g \<Rightarrow> '' ('' @ g @ '')'' | None \<Rightarrow> [])
                    | None \<Rightarrow> formatProxyHost newURL (route_json (hop_url active)))
         else if is_failed_task t \<and> \<not> list_ex (\<lambda>h. hop_state h = HopUsed) hops
         then ''Failed across '' @ show_nat n @ '' hops''
         else ''Hop '' @ show_nat (or_else used 1) @ '' of '' @ show_nat n @ '' '' @ middle_dot @ '' '' @ flag_prefix flag
              @ (if is_direct active then ''Direct''
                 else or_str (or_opt (hop_country active) (hop_group active)) (formatProxyHost newURL (route_json (hop_url active)))))"

definition badge_text :: "url_reader \<Rightarrow> nat \<Rightarrow> route_hop \<Rightarrow> nat option \<Rightarrow> string" where
  "badge_text newURL n active used =
     (if is_direct active
      then (if n > 1 then ''Direct (Hop '' @ show_opt used @ ''/'' @ show_nat n @ '')'' else ''Direct'')
      else or_str (hop_flag_emoji active) globe
           @ (if n > 1 then '' Hop '' @ show_nat (or_else used 1) @ ''/'' @ show_nat n
              else '' '' @ formatProxyHost newURL (route_json (hop_url active))))"

definition missed_text :: "nat \<Rightarrow> string" where
  "missed_text c = show_nat c @ '' route'' @ (if c = 1 then [] else ''s'') @ '' checked '' @ middle_dot @ '' Profile not found (404)''"

definition getTaskProxySummary ::
  "(rat \<Rightarrow> string) \<Rightarrow> url_reader \<Rightarrow> task_detail \<Rightarrow> network_proxy list \<Rightarrow> proxy_summary option" where
  "getTaskProxySummary fs newURL t proxies =
     (case buildTaskRouteSequence fs newURL t proxies of
        None \<Rightarrow> None
      | Some hops \<Rightarrow>
          (case active_hop t hops of
             None \<Rightarrow> Some no_hops
           | Some active \<Rightarrow>
               let used = map_option hop_number (List.find (\<lambda>h. hop_state h = HopUsed) hops);
                   failed = length (filter (\<lambda>h. hop_state h = HopFailed) hops);
                   n = length hops;
                   missed = (invalid_user t \<or> (used = None \<and> lower (td_status t) = ''completed'' \<and> failed > 0));
                   checked = (if failed > 0 then failed else n)
               in Some \<lparr>activeHop = Some active, sum_hops = hops, hasHops = True, hopCount = n, usedHopNumber = used,
                    summaryText = (if missed then missed_text checked else summary_text newURL t hops active used),
                    badgeLabel = Some (if missed then show_nat checked @ '' Hops Missed (404)'' else badge_text newURL n active used),
                    sum_flagEmoji = hop_flag_emoji active\<rparr>))"

section \<open>Correctness of the hops\<close>

lemma build_hop_simps [simp]:
  "hop_number (build_hop newURL proxies n state i r) = Suc i" "hop_url (build_hop newURL proxies n state i r) = r"
  "hop_state (build_hop newURL proxies n state i r) = state i" "is_direct (build_hop newURL proxies n state i r) = direct_route r"
  "masked_url (build_hop newURL proxies n state i r) = maskProxyUrl newURL (route_json r)"
  by (simp_all add: build_hop_def Let_def)

lemma below_iff: "below i (Fin q) \<longleftrightarrow> of_nat i < q" "below i PosInf" "\<not> below i NegInf" "\<not> below i NaN"
  by (simp_all add: below_def)

text \<open>A used or pending hop: every earlier one failed and every later one is untried.\<close>

lemma hop_status_earlier:
  assumes "hop_status_of fs t used i \<in> {HopUsed, HopPending}" "j < i"
  shows "hop_status_of fs t used j = HopFailed"
  using assms
  by (cases used) (auto simp: hop_status_of_def missed_status_def below_iff split: if_splits option.splits)

lemma hop_status_later:
  assumes "hop_status_of fs t used i \<in> {HopUsed, HopPending}" "i < j"
  shows "hop_status_of fs t used j = HopUntried"
proof (cases used)
  case None
  then show ?thesis using assms by (auto simp: hop_status_of_def missed_status_def split: if_splits option.splits)
next
  case (Some u)
  then have "u = Fin (of_nat i)" using assms(1) by (auto simp: hop_status_of_def split: if_splits)
  then show ?thesis using Some assms(2) by (simp add: hop_status_of_def below_iff)
qed

lemma hop_status_task:
  "hop_status_of fs t used i = HopUsed \<Longrightarrow> \<not> is_failed_task t \<and> \<not> is_running_task t"
  "hop_status_of fs t used i = HopPending \<Longrightarrow> is_running_task t"
  by (auto simp: hop_status_of_def missed_status_def split: if_splits option.splits)

lemma buildTaskRouteSequence_nth:
  assumes "buildTaskRouteSequence fs newURL t proxies = Some hops" "i < length hops"
  shows "hops ! i = build_hop newURL proxies (length hops) (hop_status_of fs t (used_hop_index newURL t (raw_routes fs t proxies))) i
           (the (route_of (raw_routes fs t proxies ! i)))"
  using assms by (auto simp: buildTaskRouteSequence_def Let_def nth_map_index split: if_splits)

lemma buildTaskRouteSequence_length:
  "buildTaskRouteSequence fs newURL t proxies = Some hops \<Longrightarrow> length hops = length (raw_routes fs t proxies)"
  by (auto simp: buildTaskRouteSequence_def Let_def split: if_splits)

text \<open>
  C20. The hops of a task (\<open>buildTaskRouteSequence\<close>). They are the configured routes in order, numbered from 1. At
  most one of them is marked as used or pending; every hop before it is marked failed and every hop after it
  untried. A hop is pending only in a running task, and used only in one that neither runs nor failed.
\<close>

theorem buildTaskRouteSequence_hops:
  assumes "buildTaskRouteSequence fs newURL t proxies = Some hops"
  shows "map hop_number hops = [1..<Suc (length hops)]
    \<and> map (\<lambda>h. route_json (hop_url h)) hops = raw_routes fs t proxies
    \<and> (\<forall>i < length hops. hop_state (hops ! i) \<in> {HopUsed, HopPending} \<longrightarrow>
         (\<forall>j < length hops. j \<noteq> i \<longrightarrow> hop_state (hops ! j) = (if j < i then HopFailed else HopUntried))
         \<and> (hop_state (hops ! i) = HopPending \<longleftrightarrow> is_running_task t) \<and> \<not> (hop_state (hops ! i) = HopUsed \<and> is_failed_task t))"
proof (intro conjI allI impI)
  note nth = buildTaskRouteSequence_nth [OF assms] and len = buildTaskRouteSequence_length [OF assms]
  show "map hop_number hops = [1..<Suc (length hops)]"
    by (rule nth_equalityI) (simp_all add: nth del: upt_Suc)
  show "map (\<lambda>h. route_json (hop_url h)) hops = raw_routes fs t proxies"
  proof (rule nth_equalityI)
    fix i assume i: "i < length (map (\<lambda>h. route_json (hop_url h)) hops)"
    then have "route_of (raw_routes fs t proxies ! i) \<noteq> None"
      using assms len by (auto simp: buildTaskRouteSequence_def Let_def list_all_length split: if_splits)
    then show "map (\<lambda>h. route_json (hop_url h)) hops ! i = raw_routes fs t proxies ! i"
      using i by (auto simp: nth route_of_def split: json.splits)
  qed (simp add: len)
  fix i assume i: "i < length hops" "hop_state (hops ! i) \<in> {HopUsed, HopPending}"
  let ?s = "hop_status_of fs t (used_hop_index newURL t (raw_routes fs t proxies))"
  have s: "?s i \<in> {HopUsed, HopPending}" using i by (simp add: nth)
  show "hop_state (hops ! j) = (if j < i then HopFailed else HopUntried)" if "j < length hops" "j \<noteq> i" for j
    using that hop_status_earlier [OF s, of j] hop_status_later [OF s, of j] by (auto simp: nth)
  show "(hop_state (hops ! i) = HopPending) = is_running_task t" "\<not> (hop_state (hops ! i) = HopUsed \<and> is_failed_task t)"
    using s hop_status_task [of fs t _ i] i(1) by (auto simp: nth)
qed

section \<open>Masked credentials\<close>

text \<open>
  A greedy repetition of a character class, followed by something that cannot start with a character of the class:
  only the longest run survives.
\<close>

lemma rx_run_star_greedy:
  assumes "\<And>p x s cs. P x \<Longrightarrow> rx_run b (p, x # s, cs) = []" "list_all P xs" "\<not> P c"
  shows "\<exists>q. concat (map (rx_run b) (rx_run (RStar (RChr P)) (p, xs @ c # s, cs))) = rx_run b (q, c # s, cs)"
  using assms(2)
proof (induction xs arbitrary: p)
  case Nil
  then show ?case using assms(3) by (auto simp: rx_run.simps(5))
next
  case (Cons x xs)
  then have "rx_run (RStar (RChr P)) (p, (x # xs) @ c # s, cs)
      = rx_run (RStar (RChr P)) (Some x, xs @ c # s, cs) @ [(p, (x # xs) @ c # s, cs)]"
    by (subst rx_run.simps(5)) simp
  then show ?case using Cons assms(1) by simp
qed

lemma rx_run_plus_greedy:
  assumes "\<And>p x s cs. P x \<Longrightarrow> rx_run b (p, x # s, cs) = []" "list_all P xs" "xs \<noteq> []" "\<not> P c"
  shows "\<exists>q. rx_run (RSeq (rx_plus (RChr P)) b) (p, xs @ c # s, cs) = rx_run b (q, c # s, cs)"
proof -
  obtain x ys where "xs = x # ys" using assms(3) by (cases xs) auto
  then show ?thesis
    using rx_run_star_greedy [of P b ys c "Some x" s cs] assms by (simp add: rx_plus_def)
qed

lemma rx_run_lit: "rx_run (rx_lit w) (p, s, cs) = (if starts_with w s then [(if w = [] then p else Some (last w), drop (length w) s, cs)] else [])"
proof (induction w arbitrary: p s)
  case (Cons a w)
  then show ?case by (cases s) (auto simp: rx_lit_def starts_with_def)
qed (simp add: rx_lit_def)


lemma rx_run_opt: "rx_run (RSeq (rx_opt a) b) st = rx_run (RSeq a b) st @ rx_run b st"
  by (simp add: rx_opt_def)

lemma rx_run_assoc: "rx_run (RSeq (RSeq a b) c) st = rx_run (RSeq a (RSeq b c)) st"
proof -
  have "concat (map f (concat (map g xs))) = concat (map (\<lambda>m. concat (map f (g m))) xs)" for f :: "rxstate \<Rightarrow> rxstate list" and g xs
    by (induction xs) simp_all
  moreover have "rx_run (RSeq b c) = (\<lambda>m. concat (map (rx_run c) (rx_run b m)))" by (rule ext) simp
  ultimately show ?thesis by simp
qed

lemma rx_run_seq1: "rx_run a st = [st'] \<Longrightarrow> rx_run (RSeq a b) st = rx_run b st'"
  by simp

lemma rx_run_bos: "rx_run RBos (None, s, cs) = [(None, s, cs)]"
  by simp

text \<open>User information as \<open>user\<close> or \<open>user:password\<close>.\<close>

definition userinfo :: "string \<Rightarrow> string option \<Rightarrow> string" where
  "userinfo user pass = user @ (case pass of None \<Rightarrow> [] | Some w \<Rightarrow> '':'' @ w)"

definition plain_userinfo :: "string \<Rightarrow> string option \<Rightarrow> bool" where
  "plain_userinfo user pass \<longleftrightarrow> user \<noteq> [] \<and> CHR '':'' \<notin> set user \<and> CHR ''@'' \<notin> set user
     \<and> (case pass of None \<Rightarrow> True | Some w \<Rightarrow> w \<noteq> [] \<and> CHR ''@'' \<notin> set w)"

abbreviation password_rx :: rx where
  "password_rx \<equiv> rx_opt (RSeq (rx_lit '':'') (rx_plus (RChr (\<lambda>c. c \<noteq> CHR ''@''))))"

lemma password_run:
  assumes "case pass of None \<Rightarrow> True | Some w \<Rightarrow> w \<noteq> [] \<and> CHR ''@'' \<notin> set w"
  shows "\<exists>q more. rx_run (RSeq password_rx (rx_lit ''@'')) (p, (case pass of None \<Rightarrow> [] | Some w \<Rightarrow> '':'' @ w) @ ''@'' @ rest, cs)
           = (q, rest, cs) # more"
proof (cases pass)
  case None
  then show ?thesis unfolding rx_run_opt by (simp add: rx_run_lit starts_with_def)
next
  case (Some w)
  let ?rest = "'':'' @ w @ CHR ''@'' # rest"
  have "list_all (\<lambda>c. c \<noteq> CHR ''@'') w" using Some assms by (auto simp: list_all_iff)
  then obtain q where q: "rx_run (RSeq (rx_plus (RChr (\<lambda>c. c \<noteq> CHR ''@''))) (rx_lit ''@'')) (Some CHR '':'', w @ CHR ''@'' # rest, cs)
      = rx_run (rx_lit ''@'') (q, CHR ''@'' # rest, cs)"
    using rx_run_plus_greedy [of "\<lambda>c. c \<noteq> CHR ''@''" "rx_lit ''@''" w "CHR ''@''" "Some CHR '':''" rest cs] Some assms
    by (auto simp: rx_run_lit starts_with_def)
  have "rx_run (RSeq (RSeq (rx_lit '':'') (rx_plus (RChr (\<lambda>c. c \<noteq> CHR ''@'')))) (rx_lit ''@'')) (p, ?rest, cs)
      = rx_run (RSeq (rx_plus (RChr (\<lambda>c. c \<noteq> CHR ''@''))) (rx_lit ''@'')) (Some CHR '':'', w @ CHR ''@'' # rest, cs)"
    unfolding rx_run_assoc by (subst rx_run.simps(3)) (simp add: rx_run_lit starts_with_def del: rx_run.simps(3))
  then have "rx_run (RSeq password_rx (rx_lit ''@'')) (p, ?rest, cs) = [(Some CHR ''@'', rest, cs)]"
    by (simp only: rx_run_opt q) (simp add: rx_run_lit starts_with_def)
  then show ?thesis using Some by simp
qed

lemma credentials_run:
  assumes "scheme \<noteq> []" "list_all is_scheme_char scheme" "plain_userinfo user pass"
  shows "\<exists>q more. rx_run credentials_rx (None, scheme @ ''://'' @ userinfo user pass @ ''@'' @ rest, [])
           = (q, rest, [(1, scheme @ ''://'')]) # more"
proof -
  let ?uc = "\<lambda>c. c \<noteq> CHR '':'' \<and> c \<noteq> CHR ''@''" and ?body = "userinfo user pass @ ''@'' @ rest"
  let ?tail = "RSeq password_rx (rx_lit ''@'')"
  obtain c0 r0 where c0: "(case pass of None \<Rightarrow> [] | Some w \<Rightarrow> '':'' @ w) @ ''@'' @ rest = c0 # r0" "\<not> ?uc c0" by (cases pass) auto
  have colon: "\<not> is_scheme_char CHR '':''" by code_simp
  then have no1: "is_scheme_char x \<Longrightarrow> rx_run (rx_lit ''://'') (p, x # s, cs) = []" for p x s cs
    by (auto simp: rx_run_lit starts_with_def)
  obtain q1 where "rx_run (RSeq (rx_plus (RChr is_scheme_char)) (rx_lit ''://'')) (None, scheme @ CHR '':'' # ''//'' @ ?body, [])
      = rx_run (rx_lit ''://'') (q1, CHR '':'' # ''//'' @ ?body, [])"
    using rx_run_plus_greedy [of is_scheme_char "rx_lit ''://''" scheme "CHR '':''" None "''//'' @ ?body" "[]", OF no1 _ _ colon] assms(1,2)
    by blast
  then have 1: "rx_run (RCap 1 (RSeq (rx_plus (RChr is_scheme_char)) (rx_lit ''://''))) (None, scheme @ ''://'' @ ?body, [])
      = [(Some CHR ''/'', ?body, [(1, scheme @ ''://'')])]"
    by (simp add: rx_run_lit starts_with_def del: rx_run.simps(3))
  have no: "?uc x \<Longrightarrow> rx_run ?tail (p, x # s, cs) = []" for p x s cs
    unfolding rx_run_opt rx_run_assoc by (simp add: rx_run_lit starts_with_def)
  have "list_all ?uc user" "user \<noteq> []" using assms(3) by (auto simp: plain_userinfo_def list_all_iff)
  then obtain q2 where 2: "rx_run (RSeq (rx_plus (RChr ?uc)) ?tail) (Some CHR ''/'', user @ c0 # r0, [(1, scheme @ ''://'')])
      = rx_run ?tail (q2, c0 # r0, [(1, scheme @ ''://'')])"
    using rx_run_plus_greedy [of ?uc ?tail user c0 "Some CHR ''/''" r0 "[(1, scheme @ ''://'')]", OF no _ _ c0(2)] by blast
  obtain q3 more where 3: "rx_run ?tail (q2, c0 # r0, [(1, scheme @ ''://'')]) = (q3, rest, [(1, scheme @ ''://'')]) # more"
    using password_run [of pass q2 rest "[(1, scheme @ ''://'')]"] assms(3) unfolding c0(1) by (auto simp: plain_userinfo_def)
  have "rx_run credentials_rx (None, scheme @ ''://'' @ ?body, [])
      = rx_run (RSeq (rx_plus (RChr ?uc)) ?tail) (Some CHR ''/'', ?body, [(1, scheme @ ''://'')])"
    unfolding credentials_rx_def rx_seq.simps
    by (simp only: rx_run_seq1 [OF rx_run_bos] rx_run_seq1 [OF 1])
  moreover have "?body = user @ c0 # r0" using c0(1) by (simp add: userinfo_def)
  ultimately have "rx_run credentials_rx (None, scheme @ ''://'' @ ?body, []) = (q3, rest, [(1, scheme @ ''://'')]) # more"
    by (simp only: 2 3)
  then show ?thesis by blast
qed

lemma proxy_text_url:
  assumes "trim s = scheme @ ''://'' @ r"
  shows "proxy_text (JStr s) = Some (trim s)"
proof -
  have "CHR '':'' \<in> lower_char ` set (trim s)" unfolding assms by (auto simp: lower_char_def is_upper_def)
  moreover have "CHR '':'' \<notin> set ''direct''" by simp
  ultimately have "lower (trim s) \<noteq> ''direct''" by (metis lower_def set_map)
  then show ?thesis using assms by (simp add: proxy_text_def)
qed



text \<open>
  Without a scheme the text is shown as it is, password included, when the URL parser refuses it, which it does for
  a text that starts with a digit.
\<close>

lemma mask_without_scheme: "maskProxyUrl (\<lambda>_. None) (JStr ''1user:secret@host:80'') = ''1user:secret@host:80''"
  by code_simp

text \<open>
  A running task whose first route is the direct one has no used hop yet, and its badge prints the missing number.
\<close>

definition sample_task :: task_detail where
  "sample_task = \<lparr>td_message = JNull, td_task_id = Some ''t1'', td_task_type = ''scrape'', td_status = ''running'', td_site = None,
     td_username = None, td_content_type = None, td_payload = JNull, td_worker_id = None, td_started_at = None,
     td_completed_at = None, td_progress = Fin 0, td_items_processed = 0, td_items_total = None, td_error = None,
     td_result = JNull, td_proxy_url = JNull, td_proxy_routes = JArr [JNull, JStr ''http://a:80''], td_proxy_hop_used = JUndef,
     td_duration = JUndef\<rparr>"

lemma running_direct_badge:
  "map_option badgeLabel (getTaskProxySummary (\<lambda>_. []) (\<lambda>_. None) sample_task []) = Some (Some ''Direct (Hop null/2)'')"
  by code_simp

text \<open>
  A task that was completed through the direct route among several has \<open>proxy_url\<close> null, which the search for the
  active URL drops: every hop is shown as failed and the profile as missing.
\<close>

lemma completed_direct_missed:
  "map_option (\<lambda>s. (map hop_state (sum_hops s), summaryText s))
     (getTaskProxySummary (\<lambda>_. []) (\<lambda>_. None) (sample_task\<lparr>td_status := ''completed''\<rparr>) [])
   = Some ([HopFailed, HopFailed], missed_text 2)"
  by code_simp

theorem buildTaskRouteSequence_hops_witness:
  "\<exists>hops. buildTaskRouteSequence (\<lambda>_. []) (\<lambda>_. None) (sample_task\<lparr>td_proxy_hop_used := JNum (Fin 1)\<rparr>) [] = Some hops
     \<and> map hop_number hops = [1, 2] \<and> map hop_state hops = [HopFailed, HopPending]"
proof -
  let ?t = "sample_task\<lparr>td_proxy_hop_used := JNum (Fin 1)\<rparr>"
  have "map_option (\<lambda>hs. (length hs, map hop_state hs)) (buildTaskRouteSequence (\<lambda>_. []) (\<lambda>_. None) ?t []) = Some (2, [HopFailed, HopPending])"
    by code_simp
  then obtain hops where h: "buildTaskRouteSequence (\<lambda>_. []) (\<lambda>_. None) ?t [] = Some hops" "length hops = 2"
      "map hop_state hops = [HopFailed, HopPending]" by (auto simp: map_option_eq_Some)
  then show ?thesis using buildTaskRouteSequence_hops [OF h(1)] by (simp add: upt_rec numeral_2_eq_2)
qed

section \<open>The summary\<close>

lemma getTaskProxySummary_fields:
  assumes "getTaskProxySummary fs newURL t proxies = Some s"
  shows "buildTaskRouteSequence fs newURL t proxies = Some (sum_hops s)" "activeHop s = active_hop t (sum_hops s)"
    "hopCount s = length (sum_hops s)" "hasHops s = (sum_hops s \<noteq> [])"
    "usedHopNumber s = map_option hop_number (List.find (\<lambda>h. hop_state h = HopUsed) (sum_hops s))"
proof -
  obtain hops where h: "buildTaskRouteSequence fs newURL t proxies = Some hops"
    using assms by (auto simp: getTaskProxySummary_def split: option.splits)
  have "active_hop t hops = None \<Longrightarrow> hops = []"
    by (auto simp: active_hop_def coalesce_def split: option.splits if_splits)
  moreover have "active_hop t [] = None" by (simp add: active_hop_def coalesce_def)
  ultimately have "sum_hops s = hops \<and> activeHop s = active_hop t hops \<and> hopCount s = length hops \<and> hasHops s = (hops \<noteq> [])
      \<and> usedHopNumber s = map_option hop_number (List.find (\<lambda>h. hop_state h = HopUsed) hops)"
    using assms by (auto simp: getTaskProxySummary_def h no_hops_def Let_def split: option.splits)
  then show "buildTaskRouteSequence fs newURL t proxies = Some (sum_hops s)" "activeHop s = active_hop t (sum_hops s)"
    "hopCount s = length (sum_hops s)" "hasHops s = (sum_hops s \<noteq> [])"
    "usedHopNumber s = map_option hop_number (List.find (\<lambda>h. hop_state h = HopUsed) (sum_hops s))"
    using h by auto
qed

lemma active_hop_SomeD:
  assumes "active_hop t hops = Some h"
  shows "h \<in> set hops" "List.find (\<lambda>h. hop_state h = HopUsed) hops = Some u \<Longrightarrow> h = u"
    "\<exists>x \<in> set hops. hop_state x \<in> {HopUsed, HopPending} \<Longrightarrow> hop_state h \<in> {HopUsed, HopPending}"
  using assms
  by (auto simp: active_hop_def coalesce_def or_else_def find_None_iff dest: find_SomeD split: option.splits if_splits)

lemma used_number_nth:
  assumes "buildTaskRouteSequence fs newURL t proxies = Some hops"
    "List.find (\<lambda>h. hop_state h = HopUsed) hops = Some u"
  shows "hop_number u \<noteq> 0 \<and> hop_number u \<le> length hops \<and> hops ! (hop_number u - 1) = u \<and> hop_state u = HopUsed"
proof -
  obtain i where "i < length hops" "u = hops ! i" "hop_state u = HopUsed" using assms(2) by (auto simp: find_Some_iff)
  moreover then have "hop_number u = Suc i" using buildTaskRouteSequence_nth [OF assms(1)] by simp
  ultimately show ?thesis by simp
qed

end
