(* ===== verification/Runbook.thy ===== *)
theory Runbook
  imports TaskRoutes JobProgress ApiUrls
begin

text \<open>
  The runbook of a job: \<open>features/jobs/lib/runbookModel.ts\<close>. What is read out of the untyped payload and result of a
  task, its stage, route, progress and message, transfer sizes, media files and live transfers. Non-ASCII symbols
  are written as their UTF-8 bytes.
\<close>

section \<open>Reading untyped values\<close>

datatype stage_id = Prepare | Scrape | Download | Finish

definition RUNBOOK_STAGES :: "(stage_id \<times> string) list" where
  "RUNBOOK_STAGES = [(Prepare, ''Prepare''), (Scrape, ''Scrape''), (Download, ''Download''), (Finish, ''Finish'')]"

definition ACTIVE_TASK_STATES :: "string list" where
  "ACTIVE_TASK_STATES = [''claimed'', ''running'', ''saving_db'']"

definition TERMINAL_TASK_STATES :: "string list" where
  "TERMINAL_TASK_STATES = [''completed'', ''failed'', ''cancelled'']"

definition asRecord :: "json \<Rightarrow> jsobject option" where
  "asRecord v = (case v of JObj ob \<Rightarrow> Some ob | _ \<Rightarrow> None)"

text \<open>\<open>asRecord(v)?.k\<close>\<close>

definition field :: "json \<Rightarrow> string \<Rightarrow> json" where
  "field v k = oget_opt (asRecord v) k"

definition asNumber :: "json \<Rightarrow> rat option" where
  "asNumber v = (case v of
      JNum (Fin q) \<Rightarrow> Some q
    | JStr s \<Rightarrow> if trim s = [] then None else (case js_Number s of Fin q \<Rightarrow> Some q | _ \<Rightarrow> None)
    | _ \<Rightarrow> None)"

definition asString :: "json \<Rightarrow> string option" where
  "asString v = (case v of JStr s \<Rightarrow> nonempty (trim s) | _ \<Rightarrow> None)"

abbreviation opt_string :: "string option \<Rightarrow> json" where
  "opt_string s \<equiv> (case s of None \<Rightarrow> JNull | Some t \<Rightarrow> JStr t)"

section \<open>Routes\<close>

definition attempted_max :: "json \<Rightarrow> rat option" where
  "attempted_max v = (case v of
      JArr xs \<Rightarrow> (case List.map_filter asNumber xs of [] \<Rightarrow> None | n # ns \<Rightarrow> Some (fold max ns n))
    | _ \<Rightarrow> None)"

definition taskHopUsed :: "(rat \<Rightarrow> string) \<Rightarrow> url_reader \<Rightarrow> task_detail \<Rightarrow> network_proxy list \<Rightarrow> rat option" where
  "taskHopUsed fs newURL t proxies =
     (case getTaskProxySummary fs newURL t proxies of
        None \<Rightarrow> None
      | Some s \<Rightarrow> Some
          (case usedHopNumber s of
             Some n \<Rightarrow> of_nat n
           | None \<Rightarrow>
               (case attempted_max (jcoalesce (field (field (td_result t) ''output'') ''proxy_routes_attempted'')
                                             (field (field (td_result t) ''metrics'') ''proxy_routes_attempted'')) of
                  Some m \<Rightarrow> m + 1
                | None \<Rightarrow> if hasHops s then 1 else 0)))"

text \<open>\<open>/\bgeo(?:graphical)?[-_\s]?(?:block(?:ed|ing)?|restrict(?:ed|ion)?)\b/i\<close>\<close>

definition geo_rx :: rx where
  "geo_rx = rx_seq [RWordB, rx_lit_ci ''geo'', rx_opt (rx_lit_ci ''graphical''),
     rx_opt (RChr (\<lambda>c. c = CHR ''-'' \<or> c = CHR ''_'' \<or> is_ws c)),
     RAlt (RSeq (rx_lit_ci ''block'') (rx_opt (RAlt (rx_lit_ci ''ed'') (rx_lit_ci ''ing''))))
          (RSeq (rx_lit_ci ''restrict'') (rx_opt (RAlt (rx_lit_ci ''ed'') (rx_lit_ci ''ion'')))),
     RWordB]"

definition hasGeoBlockedText :: "json \<Rightarrow> bool" where
  "hasGeoBlockedText v = (case v of JStr s \<Rightarrow> rx_test geo_rx s | _ \<Rightarrow> False)"

definition geo_flagged :: "task_detail \<Rightarrow> bool" where
  "geo_flagged t =
     (let output = field (td_result t) ''output''; metrics = field (td_result t) ''metrics''; payload = td_payload t
      in list_ex (\<lambda>v. v = JBool True \<or> hasGeoBlockedText v)
           [field output ''geo_blocked'', field output ''geoblocked'', field metrics ''geo_blocked'',
            field metrics ''geoblocked'', field payload ''geo_blocked'', field payload ''geoblocked'']
         \<or> list_ex hasGeoBlockedText
           [opt_string (td_error t), field (td_result t) ''message'', field output ''message'', field output ''reason'',
            field output ''error'', field metrics ''message'', field metrics ''reason'', field metrics ''error''])"

definition geo_fallback :: "proxy_summary \<Rightarrow> bool" where
  "geo_fallback s =
     (case (Option.bind (Option.bind (activeHop s) hop_country_code) nonempty, usedHopNumber s) of
        (Some country, Some n) \<Rightarrow>
          n > 1 \<and> list_ex (\<lambda>h. hop_state h = HopFailed \<and> (case Option.bind (hop_country_code h) nonempty of None \<Rightarrow> False | Some c \<Rightarrow> c \<noteq> country))
                    (take (n - 1) (sum_hops s))
      | _ \<Rightarrow> False)"

definition taskIsGeoBlocked :: "(rat \<Rightarrow> string) \<Rightarrow> url_reader \<Rightarrow> task_detail \<Rightarrow> network_proxy list \<Rightarrow> bool option" where
  "taskIsGeoBlocked fs newURL t proxies =
     (if geo_flagged t then Some True else map_option geo_fallback (getTaskProxySummary fs newURL t proxies))"

section \<open>Stage, title and worker\<close>

definition taskTypeStage :: "string \<Rightarrow> stage_id" where
  "taskTypeStage taskTypeValue =
     (let taskType = lower taskTypeValue
      in if includes_str ''download'' taskType then Download
         else if includes_str ''scrape'' taskType then Scrape
         else if includes_str ''refresh'' taskType \<or> includes_str ''auth'' taskType \<or> includes_str ''prepare'' taskType
              \<or> includes_str ''resolve'' taskType then Prepare
         else Finish)"

definition taskStage :: "task_detail \<Rightarrow> stage_id" where
  "taskStage t = taskTypeStage (td_task_type t)"

definition runbookTypeLabel :: "string \<Rightarrow> string" where
  "runbookTypeLabel taskType = replace_char CHR ''_'' CHR '' '' taskType"

text \<open>\<open>s.replace(/([a-z])([A-Z])/g, '$1 $2')\<close>\<close>

fun split_camel :: "string \<Rightarrow> string" where
  "split_camel (a # b # s) = (if is_lower a \<and> is_upper b then a # CHR '' '' # b # split_camel s else a # split_camel (b # s))"
| "split_camel s = s"

definition taskTitle :: "task_detail \<Rightarrow> string" where
  "taskTitle t =
     (let label = runbookTypeLabel (if td_task_type t = [] then ''task'' else td_task_type t);
          normalized = lower label
      in case Option.bind (td_content_type t) (\<lambda>c. nonempty (trim (split_camel c))) of
           None \<Rightarrow> label
         | Some contentType \<Rightarrow>
             if includes_str ''download'' normalized then ''Download '' @ contentType
             else if includes_str ''scrape'' normalized then ''Scrape '' @ contentType
             else label)"

definition taskWorker :: "task_detail \<Rightarrow> string" where
  "taskWorker t =
     or_else (coalesce (asString (opt_string (td_worker_id t)))
       (coalesce (asString (field (td_result t) ''worker_id''))
         (coalesce (asString (field (field (td_result t) ''metrics'') ''worker_id''))
           (asString (field (td_payload t) ''worker_id''))))) ''unclaimed''"

definition taskAttempt :: "task_detail \<Rightarrow> rat \<times> rat" where
  "taskAttempt t =
     (max 1 (or_else (asNumber (jcoalesce (field (td_result t) ''attempt'') (field (td_payload t) ''attempt''))) 1),
      max 1 (or_else (asNumber (jcoalesce (field (td_result t) ''max_attempts'') (field (td_payload t) ''max_attempts''))) 3))"

definition taskAuthId :: "task_detail \<Rightarrow> rat option" where
  "taskAuthId t = asNumber (field (td_payload t) ''auth_id'')"

section \<open>Progress, duration and message\<close>

text \<open>\<open>Math.min(100, Math.max(0, Math.round(x)))\<close>\<close>

definition percent :: "rat \<Rightarrow> int" where
  "percent x = min 100 (max 0 (js_round x))"

definition taskProgressPercent :: "task_detail \<Rightarrow> int" where
  "taskProgressPercent t =
     (let by_items = (case td_items_total t of
            Some n \<Rightarrow> if n > 0 then Some (percent (td_items_processed t / n * 100)) else None
          | None \<Rightarrow> None);
          otherwise = or_else by_items (if lower (td_status t) = ''completed'' then 100 else 0)
      in case asNumber (JNum (td_progress t)) of
           Some p \<Rightarrow> if p > 0 then percent (if p \<le> 1 then p * 100 else p) else otherwise
         | None \<Rightarrow> otherwise)"

definition taskDuration :: "clock \<Rightarrow> int \<Rightarrow> task_detail \<Rightarrow> string" where
  "taskDuration clk now_ms t =
     (case Option.bind (td_started_at t) nonempty of
        None \<Rightarrow> ''Waiting''
      | Some started \<Rightarrow>
          (case (getTime clk started, case Option.bind (td_completed_at t) nonempty of Some c \<Rightarrow> getTime clk c | None \<Rightarrow> Some now_ms) of
             (Some start, Some end_ms) \<Rightarrow>
               if end_ms < start then ''In progress'' else formatDuration (Some (max 0 (js_round (of_int (end_ms - start) / 1000))))
           | _ \<Rightarrow> ''In progress''))"

definition taskMessage :: "task_detail \<Rightarrow> string" where
  "taskMessage t =
     (case Option.bind (td_error t) nonempty of
        Some e \<Rightarrow> e
      | None \<Rightarrow>
          (case asString (field (td_result t) ''message'') of
             Some m \<Rightarrow> m
           | None \<Rightarrow>
               let st = lower (td_status t)
               in if st = ''completed'' then ''Task completed successfully.''
                  else if st = ''failed'' then ''Task failed without additional error details.''
                  else if st = ''saving_db'' then ''Saving this task result to the database.''
                  else if st = ''running'' \<or> st = ''claimed'' then ''Live task telemetry will update here as work progresses.''
                  else if st = ''blocked'' \<or> st = ''deferred'' then ''Waiting for an upstream requirement before this task can continue.''
                  else ''Waiting for a worker to claim this task.''))"

definition resultMetrics :: "task_detail option \<Rightarrow> jsobject" where
  "resultMetrics t = (case t of None \<Rightarrow> [] | Some x \<Rightarrow> or_else (asRecord (field (td_result x) ''metrics'')) [])"

definition downloadResults :: "task_detail option \<Rightarrow> jsobject list" where
  "downloadResults t = (case t of
      None \<Rightarrow> []
    | Some x \<Rightarrow> (case field (field (td_result x) ''output'') ''download_results'' of
                  JArr rs \<Rightarrow> List.map_filter asRecord rs | _ \<Rightarrow> []))"

definition dependencyIds :: "(rat \<Rightarrow> string) \<Rightarrow> task_detail \<Rightarrow> string list" where
  "dependencyIds fs t =
     (let raw = jcoalesce (field (td_payload t) ''depends_on'') (field (td_payload t) ''dependencies'')
      in case raw of
           JArr xs \<Rightarrow> filter (\<lambda>s. s \<noteq> []) (map (js_String fs) xs)
         | _ \<Rightarrow> (case asString raw of Some s \<Rightarrow> [s] | None \<Rightarrow> []))"

section \<open>Transfers and media\<close>

definition em_dash :: string where
  "em_dash = [CHR 0xE2, CHR 0x80, CHR 0x94]"

definition byte_units :: "string list" where
  "byte_units = [''KB'', ''MB'', ''GB'', ''TB'']"

text \<open>The loop \<open>while (amount >= 1024 && unitIndex < units.length - 1)\<close>.\<close>

function scale_unit :: "rat \<Rightarrow> nat \<Rightarrow> rat \<times> nat" where
  "scale_unit amount unitIndex =
     (if amount \<ge> 1024 \<and> unitIndex < length byte_units - 1 then scale_unit (amount / 1024) (Suc unitIndex)
      else (amount, unitIndex))"
  by pat_completeness auto
termination
  by (relation "measure (\<lambda>(amount, i). length byte_units - i)") auto

declare scale_unit.simps [simp del]

definition formatTransferBytes :: "rat option \<Rightarrow> string" where
  "formatTransferBytes bytes =
     (case bytes of
        None \<Rightarrow> em_dash
      | Some v \<Rightarrow>
          if v < 0 then em_dash
          else if v < 1024 then show_int (js_round v) @ '' B''
          else case scale_unit (v / 1024) 0 of
                 (amount, i) \<Rightarrow> to_fixed (if amount \<ge> 100 then 0 else 1) amount @ '' '' @ byte_units ! i)"

definition formatRate :: "rat option \<Rightarrow> string" where
  "formatRate bytes = (case bytes of
      None \<Rightarrow> em_dash
    | Some v \<Rightarrow> if v > 0 then formatTransferBytes (Some v) @ ''/s'' else em_dash)"

definition fileName :: "(string \<Rightarrow> string option) \<Rightarrow> string option \<Rightarrow> string option" where
  "fileName decode path =
     (case Option.bind path nonempty of
        None \<Rightarrow> None
      | Some v \<Rightarrow>
          (case filter (\<lambda>w. w \<noteq> []) (split_on CHR ''/'' (replace_char CHR 0x5C CHR ''/'' (hd (split_on CHR ''?'' v)))) of
             [] \<Rightarrow> None
           | segments \<Rightarrow> Some (or_else (decode (last segments)) (last segments))))"

definition mediaKind :: "string option \<Rightarrow> string" where
  "mediaKind path =
     (let extension = lower (case path of None \<Rightarrow> [] | Some p \<Rightarrow> last (split_on CHR ''.'' p))
      in if extension \<in> {''mp4'', ''mkv'', ''mov'', ''webm'', ''m4v''} then ''video''
         else if extension \<in> {''mp3'', ''m4a'', ''aac'', ''wav'', ''flac'', ''ogg''} then ''audio''
         else if extension \<in> {''jpg'', ''jpeg'', ''png'', ''gif'', ''webp'', ''avif''} then ''image''
         else ''file'')"

definition mediaGlyph :: "string \<Rightarrow> string" where
  "mediaGlyph kind =
     (if kind = ''video'' then [CHR 0xE2, CHR 0x96, CHR 0xB6]
      else if kind = ''audio'' then [CHR 0xE2, CHR 0x89, CHR 0x8B]
      else if kind = ''image'' then [CHR 0xE2, CHR 0x97, CHR 0x87]
      else [CHR 0xE2, CHR 0x96, CHR 0xA1])"

definition normalizedMediaState :: "string \<Rightarrow> bool \<Rightarrow> string" where
  "normalizedMediaState status isLive =
     (let n = lower status
      in if includes_str ''complete'' n \<or> includes_str ''downloaded'' n \<or> includes_str ''success'' n then ''complete''
         else if isLive \<or> includes_str ''progress'' n \<or> includes_str ''downloading'' n then ''downloading''
         else if includes_str ''queue'' n \<or> includes_str ''pending'' n then ''queued''
         else if includes_str ''fail'' n \<or> includes_str ''error'' n \<or> includes_str ''retry'' n then ''retrying''
         else if includes_str ''skip'' n then ''skipped''
         else ''complete'')"

record media_entry =
  me_key :: string
  me_resultIndex :: "rat option"
  me_mediaId :: "string option"
  me_path :: "string option"
  me_url :: "string option"
  me_status :: string
  me_processedBytes :: "rat option"
  me_expectedBytes :: "rat option"
  me_speedBps :: "rat option"
  me_isLive :: bool

definition mediaProgress :: "media_entry \<Rightarrow> int" where
  "mediaProgress e =
     (let finished = (if normalizedMediaState (me_status e) (me_isLive e) = ''complete'' then 100 else 0)
      in case (me_processedBytes e, me_expectedBytes e) of
           (Some p, Some x) \<Rightarrow> if x > 0 then percent (p / x * 100) else finished
         | _ \<Rightarrow> finished)"

text \<open>The candidates in order; \<open>None\<close> as soon as one of the builders throws.\<close>

fun all_built :: "'a option list \<Rightarrow> 'a list option" where
  "all_built [] = Some []"
| "all_built (x # xs) = (case x of None \<Rightarrow> None | Some y \<Rightarrow> map_option (\<lambda>ys. y # ys) (all_built xs))"

definition mediaPreviewUrls ::
  "(rat \<Rightarrow> string) \<Rightarrow> (string \<Rightarrow> string) \<Rightarrow> (string \<Rightarrow> string option) \<Rightarrow> ((string \<times> string) list \<Rightarrow> string) \<Rightarrow> page
   \<Rightarrow> media_entry \<Rightarrow> task_detail \<Rightarrow> string \<Rightarrow> string list option" where
  "mediaPreviewUrls fs encode decode query pg e t jobId =
     (let site = or_str (map_option lower (td_site t)) ''onlyfans'';
          has_url = (Option.bind (me_url e) nonempty \<noteq> None);
          proxied = getMediaProxyUrl fs encode decode query pg (me_url e) site (map_option Fin (taskAuthId t));
          isProfileTask = (lower (or_else (td_content_type t) []) = ''profile'');
          file = (case (me_resultIndex e, Option.bind (td_task_id t) nonempty) of
                    (Some i, Some tid) \<Rightarrow> [map_option Some (getJobTaskResultFileUrl fs encode decode pg jobId tid (Fin i))]
                  | _ \<Rightarrow> []);
          stored = (case Option.bind (me_mediaId e) nonempty of
                      None \<Rightarrow> []
                    | Some m \<Rightarrow> (case js_Number m of
                                   Fin q \<Rightarrow> [map_option Some (getMediaFileUrl fs encode decode pg site (Fin q))]
                                 | _ \<Rightarrow> []));
          candidates = (if me_isLive e \<and> has_url then [proxied]
                        else file @ (if isProfileTask \<and> has_url then [proxied] else []) @ stored
                             @ (if \<not> isProfileTask \<and> has_url then [proxied] else []))
      in map_option (\<lambda>cs. dedup (List.map_filter (\<lambda>c. Option.bind c nonempty) cs)) (all_built candidates))"

section \<open>Live transfers\<close>

record live_transfer =
  lt_taskId :: string
  lt_mediaId :: "string option"
  lt_path :: "string option"
  lt_url :: "string option"
  lt_status :: "string option"
  lt_contentType :: "string option"
  lt_workerId :: "string option"
  lt_processedBytes :: "rat option"
  lt_expectedBytes :: "rat option"
  lt_mediaProcessedBytes :: "rat option"
  lt_mediaExpectedBytes :: "rat option"
  lt_speedBps :: "rat option"
  lt_completed :: "rat option"
  lt_failed :: "rat option"
  lt_total :: "rat option"
  lt_timestamp :: "string option"

definition parseLiveTransfer :: "(rat \<Rightarrow> string) \<Rightarrow> jsobject option \<Rightarrow> string \<Rightarrow> live_transfer option" where
  "parseLiveTransfer fs message jobId =
     (case message of
        None \<Rightarrow> None
      | Some event \<Rightarrow>
          let get = oget event;
              eventName = coalesce (asString (get ''event'')) (asString (get ''type''));
              isDownloadEvent = (eventName = Some ''download_progress'' \<or> asString (get ''type'') = Some ''download_status''
                \<or> (case eventName of Some n \<Rightarrow> starts_with ''download_'' n | None \<Rightarrow> False))
          in if asString (jcoalesce (get ''job_id'') (get ''id'')) \<noteq> Some jobId \<or> \<not> isDownloadEvent then None
             else case asString (get ''task_id'') of
                    None \<Rightarrow> None
                  | Some taskId \<Rightarrow> Some \<lparr>
                      lt_taskId = taskId,
                      lt_mediaId = (if nullish (get ''media_id'') then None else Some (js_String fs (get ''media_id''))),
                      lt_path = asString (get ''path''), lt_url = asString (get ''url''),
                      lt_status = coalesce (asString (get ''status'')) eventName,
                      lt_contentType = asString (get ''content_type''), lt_workerId = asString (get ''worker_id''),
                      lt_processedBytes = asNumber (jcoalesce (get ''processed_bytes'') (get ''total_bytes'')),
                      lt_expectedBytes = asNumber (get ''expected_bytes''),
                      lt_mediaProcessedBytes = asNumber (get ''media_processed_bytes''),
                      lt_mediaExpectedBytes = asNumber (get ''media_expected_bytes''),
                      lt_speedBps = asNumber (get ''speed_bps''), lt_completed = asNumber (get ''completed''),
                      lt_failed = asNumber (get ''failed''), lt_total = asNumber (get ''total''),
                      lt_timestamp = asString (get ''timestamp'')\<rparr>)"

definition taskStatusTone :: "string \<Rightarrow> string" where
  "taskStatusTone status =
     (let n = lower status
      in if n = ''completed'' then ''complete''
         else if n \<in> set ACTIVE_TASK_STATES then ''live''
         else if n = ''failed'' \<or> n = ''cancelled'' then ''failed''
         else if n = ''blocked'' \<or> n = ''deferred'' then ''blocked''
         else ''queued'')"

section \<open>Correctness\<close>

lemma getTaskProxySummary_total:
  "buildTaskRouteSequence fs newURL t proxies = Some hops \<Longrightarrow> \<exists>s. getTaskProxySummary fs newURL t proxies = Some s"
  by (auto simp: getTaskProxySummary_def Let_def split: option.splits)

lemma summary_used:
  assumes "getTaskProxySummary fs newURL t proxies = Some s" "usedHopNumber s = Some n"
  shows "n \<noteq> 0" "n \<le> length (sum_hops s)" "activeHop s = Some (sum_hops s ! (n - 1))" "hop_state (sum_hops s ! (n - 1)) = HopUsed"
    "\<And>j. j < n - 1 \<Longrightarrow> hop_state (sum_hops s ! j) = HopFailed"
proof -
  note f = getTaskProxySummary_fields [OF assms(1)]
  obtain u where u: "List.find (\<lambda>h. hop_state h = HopUsed) (sum_hops s) = Some u" "hop_number u = n" using f(5) assms(2) by (metis map_option_eq_Some)
  note un = used_number_nth [OF f(1) u(1)]
  show n: "n \<noteq> 0" "n \<le> length (sum_hops s)" "hop_state (sum_hops s ! (n - 1)) = HopUsed" using un u(2) by auto
  show "activeHop s = Some (sum_hops s ! (n - 1))" using f(2) u un by (simp add: active_hop_def coalesce_def)
  show "hop_state (sum_hops s ! j) = HopFailed" if "j < n - 1" for j
    using hop_status_earlier [of fs t _ "n - 1" j] that n buildTaskRouteSequence_nth [OF f(1)] by simp
qed

lemma used_hop_unique:
  assumes "buildTaskRouteSequence fs newURL t proxies = Some hops" "i < length hops" "j < length hops"
    "hop_state (hops ! i) = HopUsed" "hop_state (hops ! j) = HopUsed"
  shows "i = j"
  using assms hop_status_earlier [of fs t _ i j] hop_status_earlier [of fs t _ j i] buildTaskRouteSequence_nth [OF assms(1)]
  by (metis hop_status.distinct(1) insertI1 linorder_neqE_nat build_hop_simps(3))

lemma summary_used_iff:
  assumes "getTaskProxySummary fs newURL t proxies = Some s" "i < length (sum_hops s)" "hop_state (sum_hops s ! i) = HopUsed"
  shows "usedHopNumber s = Some (Suc i)"
proof -
  have "List.find (\<lambda>h. hop_state h = HopUsed) (sum_hops s) \<noteq> None" using nth_mem [OF assms(2)] assms(3) unfolding find_None_iff by blast
  then obtain n where n: "usedHopNumber s = Some n" using getTaskProxySummary_fields(5) [OF assms(1)] by auto
  note su = summary_used [OF assms(1) n]
  then have "n - 1 = i"
    using used_hop_unique [OF getTaskProxySummary_fields(1) [OF assms(1)], of "n - 1" i] assms(2,3) by simp
  then show ?thesis using n su(1) by simp
qed

text \<open>The country of a hop, where one is known.\<close>

definition country_of :: "route_hop \<Rightarrow> string option" where
  "country_of h = Option.bind (hop_country_code h) nonempty"

text \<open>
  C22. The evidence for a geographic block (\<open>taskIsGeoBlocked\<close>, over the hops of \<open>taskProxyUtils.ts\<close>): for a task without
  an explicit flag or message, it is reported exactly when the task succeeded through a hop in a known country after
  an earlier hop in another known country, and every earlier hop had failed.
\<close>

theorem taskIsGeoBlocked_evidence:
  assumes "\<not> geo_flagged t" "buildTaskRouteSequence fs newURL t proxies = Some hops"
  shows "taskIsGeoBlocked fs newURL t proxies = Some (\<exists>i j c d. j < i \<and> i < length hops
      \<and> hop_state (hops ! i) = HopUsed \<and> (\<forall>k < i. hop_state (hops ! k) = HopFailed)
      \<and> country_of (hops ! i) = Some c \<and> country_of (hops ! j) = Some d \<and> c \<noteq> d)"
    (is "_ = Some ?ev")
proof -
  obtain s where s: "getTaskProxySummary fs newURL t proxies = Some s" using getTaskProxySummary_total [OF assms(2)] by blast
  have h: "sum_hops s = hops" using getTaskProxySummary_fields(1) [OF s] assms(2) by simp
  have "geo_fallback s = ?ev"
  proof
    assume g: "geo_fallback s"
    then obtain c n x where n: "usedHopNumber s = Some n" "n > 1" "Option.bind (Option.bind (activeHop s) hop_country_code) nonempty = Some c"
      "x \<in> set (take (n - 1) hops)" "country_of x \<noteq> None" "country_of x \<noteq> Some c"
      by (auto simp: geo_fallback_def h country_of_def list_ex_iff split: option.splits prod.splits)
    note u = summary_used [OF s n(1), unfolded h]
    obtain j where j: "j < n - 1" "x = hops ! j" using n(4) u(2) by (auto simp: in_set_conv_nth)
    obtain d where d: "country_of x = Some d" using n(5) by auto
    have "country_of (hops ! (n - 1)) = Some c" using n(3) u(3) by (simp add: country_of_def)
    then show ?ev using j d u n(6) by (intro exI [of _ "n - 1"] exI [of _ j] exI [of _ c] exI [of _ d]) auto
  next
    assume ?ev
    then obtain i j c d where e: "j < i" "i < length hops" "hop_state (hops ! i) = HopUsed" "hop_state (hops ! j) = HopFailed"
      "country_of (hops ! i) = Some c" "country_of (hops ! j) = Some d" "c \<noteq> d" by blast
    have n: "usedHopNumber s = Some (Suc i)" using summary_used_iff [OF s, of i] e(2,3) h by simp
    note u = summary_used [OF s n, unfolded h]
    have "hops ! j \<in> set (take i hops)" using e(1,2) by (metis in_set_conv_nth length_take min.absorb2 nth_take less_imp_le)
    then show "geo_fallback s" using n u(3) e
      by (auto simp: geo_fallback_def h list_ex_iff country_of_def intro!: bexI [of _ "hops ! j"])
  qed
  then show ?thesis using assms(1) s by (simp add: taskIsGeoBlocked_def)
qed

definition sample_proxies :: "network_proxy list" where
  "sample_proxies = map (\<lambda>(u, c). \<lparr>np_url = u, np_group = None, np_assigned_auths = None, np_country = None,
     np_country_code = Some c, np_flag_emoji = None\<rparr>) [(''http://a:80'', ''US''), (''http://b:80'', ''DE'')]"

text \<open>A parser for the two addresses: the host is the character after the scheme, the port is 80.\<close>

definition sample_reader :: url_reader where
  "sample_reader u = Some \<lparr>pu_username = [], pu_password = [], pu_hostname = take 1 (drop 7 u), pu_port = [], pu_href = u, pu_masked_href = u\<rparr>"

definition fallback_task :: task_detail where
  "fallback_task = sample_task\<lparr>td_status := ''completed'', td_proxy_routes := JArr [JStr ''http://a:80'', JStr ''http://b:80''],
     td_proxy_hop_used := JNum (Fin 1)\<rparr>"

theorem taskIsGeoBlocked_evidence_witness:
  "taskIsGeoBlocked (\<lambda>_. []) sample_reader fallback_task sample_proxies = Some True"
proof -
  have g: "\<not> geo_flagged fallback_task" by code_simp
  have "map_option (\<lambda>hs. (map hop_state hs, map country_of hs)) (buildTaskRouteSequence (\<lambda>_. []) sample_reader fallback_task sample_proxies)
      = Some ([HopFailed, HopUsed], [Some ''US'', Some ''DE''])" by code_simp
  then obtain hops where h: "buildTaskRouteSequence (\<lambda>_. []) sample_reader fallback_task sample_proxies = Some hops"
      "map hop_state hops = [HopFailed, HopUsed]" "map country_of hops = [Some ''US'', Some ''DE'']"
    by (auto simp: map_option_eq_Some)
  then obtain x y where xy: "hops = [x, y]" "hop_state x = HopFailed" "hop_state y = HopUsed" "country_of x = Some ''US''" "country_of y = Some ''DE''"
    by (auto simp: map_eq_Cons_conv)
  have "\<exists>i j c d. j < i \<and> i < length hops \<and> hop_state (hops ! i) = HopUsed \<and> (\<forall>k < i. hop_state (hops ! k) = HopFailed)
      \<and> country_of (hops ! i) = Some c \<and> country_of (hops ! j) = Some d \<and> c \<noteq> d"
    unfolding xy(1)
    by (rule exI [of _ 1], rule exI [of _ 0], rule exI [of _ "''DE''"], rule exI [of _ "''US''"]) (simp add: xy(2-5))
  then show ?thesis by (simp only: taskIsGeoBlocked_evidence [OF g h(1)])
qed

lemma percent_bounds: "0 \<le> percent x \<and> percent x \<le> 100"
  by (simp add: percent_def)

lemma progress_bounds: "taskProgressPercent t \<in> {0..100}" "mediaProgress e \<in> {0..100}"
  using percent_bounds
  by (auto simp: taskProgressPercent_def mediaProgress_def Let_def or_else_def split: option.splits)

lemma scale_unit_exact:
  assumes "i < length byte_units" "1 \<le> a"
  shows "case scale_unit a i of (amount, j) \<Rightarrow> j < length byte_units \<and> i \<le> j \<and> a = amount * 1024 ^ (j - i) \<and> 1 \<le> amount
     \<and> (amount < 1024 \<or> j = length byte_units - 1)"
  using assms
proof (induction a i rule: scale_unit.induct)
  case (1 a i)
  show ?case
  proof (cases "a \<ge> 1024 \<and> i < length byte_units - 1")
    case True
    obtain amount j where "scale_unit (a / 1024) (Suc i) = (amount, j)" by fastforce
    moreover have "j - i = Suc (j - Suc i)" if "Suc i \<le> j" using that by simp
    ultimately show ?thesis using 1 True by (auto simp: scale_unit.simps [of a i] power_Suc)
  next
    case False
    then show ?thesis using 1(2,3) by (auto simp: scale_unit.simps [of a i])
  qed
qed

text \<open>
  C0. The size that is printed (\<open>formatTransferBytes\<close>): from 1024 bytes on, the number before the unit is the byte
  count divided by the power of 1024 that the unit stands for, at least 1, and below 1024 in every unit but the
  largest; it is printed without decimals from 100 on and with one below.
\<close>

theorem formatTransferBytes_unit:
  assumes "v \<ge> 1024"
  shows "\<exists>amount i. i < length byte_units \<and> v = amount * 1024 ^ Suc i \<and> 1 \<le> amount \<and> (amount < 1024 \<or> byte_units ! i = ''TB'')
     \<and> formatTransferBytes (Some v) = to_fixed (if amount \<ge> 100 then 0 else 1) amount @ '' '' @ byte_units ! i"
proof -
  obtain amount i where s: "scale_unit (v / 1024) 0 = (amount, i)" by fastforce
  then have *: "i < length byte_units" "v / 1024 = amount * 1024 ^ i" "1 \<le> amount" "amount < 1024 \<or> i = length byte_units - 1"
    using scale_unit_exact [of 0 "v / 1024"] assms by (auto simp: byte_units_def)
  then have "v = amount * 1024 ^ Suc i" by (simp add: field_simps)
  moreover have "i = length byte_units - 1 \<Longrightarrow> byte_units ! i = ''TB''" by (simp add: byte_units_def)
  ultimately show ?thesis using * s assms by (intro exI [of _ amount] exI [of _ i]) (auto simp: formatTransferBytes_def)
qed

theorem formatTransferBytes_unit_witness:
  "\<exists>amount i. i < length byte_units \<and> 1572864 = amount * 1024 ^ Suc i \<and> 1 \<le> amount \<and> (amount < 1024 \<or> byte_units ! i = ''TB'')
     \<and> formatTransferBytes (Some 1572864) = to_fixed (if amount \<ge> 100 then 0 else 1) amount @ '' '' @ byte_units ! i"
  using formatTransferBytes_unit [of 1572864] by simp

text \<open>Rounding can reach the next unit: one byte below a megabyte prints as 1024 KB.\<close>

lemma rounded_up_kilobytes: "formatTransferBytes (Some 1048575) = ''1024 KB''"
  by code_simp

text \<open>
  The fallback of \<open>formatProxyHost\<close> matches at the start of the text first, so a text with a scheme gives the scheme
  and not the host.
\<close>

lemma fallback_host_is_scheme: "formatProxyHost (\<lambda>_. None) (JStr ''socks5://1.2.3.4:99999'') = ''socks5''"
  by code_simp

end
