(* ===== verification/Diagnostics.thy ===== *)
theory Diagnostics
  imports TaskRoutes JobProgress
begin

text \<open>
  The diagnosis of a job: \<open>features/jobs/lib/jobDiagnosticsAnalysis.ts\<close>. Safety limits, concurrency targets, latency
  percentiles, the ready-queue timeline, the classification of the bottleneck with its explanation, and the throughput
  model. Measurements are finite numbers; \<open>toLocaleString\<close> and the printing of numbers that are not whole are
  parameters.
\<close>

section \<open>Data\<close>

text \<open>The fields of \<open>FinalReportSummary\<close> that the analysis reads; a missing or null field is \<open>None\<close>.\<close>

record final_summary =
  runtimeTelemetryComplete :: bool
  meanSetupSec :: "rat option"
  meanHandlerSec :: "rat option"
  meanWriterSec :: "rat option"
  meanPostSec :: "rat option"
  meanReleaseSec :: "rat option"
  meanQueueWaitSec :: "rat option"
  dominantSetupSubphase :: "string option"
  dominantHandlerSubphase :: "string option"
  dominantWriterSubphase :: "string option"
  dominantWriterExecutionSubphase :: "string option"
  occupancyGapClassification :: "string option"
  occupancyGapExplanation :: "string option"
  readyQueueRecoveredTasks :: "rat option"
  readyQueueRecoveryCount :: "rat option"
  meanWriterAdmissionMs :: "rat option"
  meanWriterQueueMs :: "rat option"
  meanWriterExecutionMs :: "rat option"
  meanWriterCommitMs :: "rat option"
  meanWriterBatchPeerWorkMs :: "rat option"
  meanWriterOverheadMs :: "rat option"
  meanWriterDeliveryMs :: "rat option"
  writerTimingCoveragePercent :: "rat option"
  writerConfiguredConcurrency :: "rat option"
  meanWriterActiveLanes :: "rat option"
  maxWriterActiveLanes :: "rat option"
  meanWriterQueueCommandsAtStart :: "rat option"
  maxWriterQueueCommandsAtStart :: "rat option"
  writerQueueMaxCommands :: "rat option"
  meanWriterBatchFillPercent :: "rat option"
  meanWriterBatchCommands :: "rat option"
  writerConfiguredBatchSize :: "rat option"
  writerWindowCommands :: "rat option"
  writerRefillMinCommands :: "rat option"
  writerSubmitsPerTask :: "rat option"
  writerTimedSubmits :: "rat option"
  writerSubmitsPerSec :: "rat option"
  writerResultCacheHitPercent :: "rat option"
  writerResultCacheHits :: "rat option"
  writerReceiptFallbacks :: "rat option"
  meanWriterAdmissionCapacityWaitMs :: "rat option"
  meanWriterAdmissionRedisMs :: "rat option"
  meanWriterAdmissionSerializationMs :: "rat option"
  meanWriterAdmissionOverheadDetailMs :: "rat option"
  meanWriterResultPublicationMs :: "rat option"
  meanWriterResultObservationMs :: "rat option"
  meanWriterResultDeliveryResidualMs :: "rat option"
  writerResultDeliverySplitCoveragePercent :: "rat option"
  writerAuthorityRowsExamined :: "rat option"
  writerAuthorityRowsSkipped :: "rat option"
  writerAuthoritySkipPercent :: "rat option"
  writerAuthorityRowsUpserted :: "rat option"
  avgActiveConcurrency :: rat
  avgActiveProxyRoutes :: rat
  avgActiveProxyUtilization :: rat
  meanTaskDurationSec :: "rat option"
  meanRouteActiveDurationSec :: "rat option"
  theoreticalProxyMaxItemsPerSec :: "rat option"
  theoreticalWorkerMaxItemsPerSec :: "rat option"
  peakWasCapped :: bool
  overallAvgItemsPerSec :: rat
  peakItemsPerSec :: rat

record runtime_telemetry =
  rt_task_count :: rat
  rt_effective_capacity :: "rat option"
  rt_writer_prepare_ms :: "rat option"
  rt_writer_prepare_execution_ms :: "rat option"
  rt_writer_prepare_admission_ms :: "rat option"

record runtime_sample =
  timestamp_ms :: rat
  sample_ready :: rat

record latency_percentiles =
  p50 :: rat
  p90 :: rat
  p95 :: rat
  p99 :: rat
  sampleCount :: nat

record http_breakdown =
  rateLimit429 :: rat
  serverError5xx :: rat
  timeoutErrors :: rat
  totalObserved :: rat

record error_velocity =
  errorsLast60s :: rat
  safetyThresholdLimit :: rat
  safetyMarginPercent :: rat
  velocity_trend :: string

record proxy_anomaly =
  displayUrl :: string
  anomaly_group :: "string option"
  rateLimits429 :: rat

record proxy_capacity =
  totalRoutes :: rat
  utilizationPercent :: rat
  isSaturated :: bool

datatype bottleneck_state =
    RoutingStall | ClaimRefill | ProxySaturated | WorkerConstrained | WriterConstrained | HandlerConstrained
  | SetupConstrained | TerminalConstrained | ReleaseConstrained | RouteConstrained | QueueStarved
  | InsufficientData | Optimal

text \<open>A job as the settings are read from it: its status, metadata and arguments.\<close>

record job_settings =
  js_status :: "string option"
  js_metadata :: json
  js_args :: json

abbreviation zero :: "rat option \<Rightarrow> rat" where
  "zero v \<equiv> or_else v 0"

section \<open>Service phases and the ready queue\<close>

definition writer_backlogged :: "final_summary \<Rightarrow> bool" where
  "writer_backlogged s \<longleftrightarrow> dominantWriterSubphase s = Some ''Writer Queue'' \<or> dominantWriterSubphase s = Some ''Producer Admission''"

definition writer_phase :: "final_summary \<Rightarrow> string" where
  "writer_phase s = (if zero (meanWriterSec s) > zero (meanHandlerSec s) \<and> writer_backlogged s
     then ''Writer Queue / Admission Backpressure'' else ''Durable Writer Wait'')"

definition getServicePhases :: "final_summary \<Rightarrow> (string \<times> rat) list" where
  "getServicePhases s =
     [(''Worker Setup'', zero (meanSetupSec s)), (''Handler / Upstream Work'', zero (meanHandlerSec s)),
      (writer_phase s, zero (meanWriterSec s)), (''Terminal State Update'', zero (meanPostSec s)),
      (''Release / Publication'', zero (meanReleaseSec s))]"

text \<open>The part of an interval that counts; \<open>None\<close> where the loop continues.\<close>

definition covered_interval :: "(rat \<times> rat) option \<Rightarrow> runtime_sample \<Rightarrow> runtime_sample \<Rightarrow> rat option" where
  "covered_interval window cur nxt =
     (let intervalMs = timestamp_ms nxt - timestamp_ms cur
      in if intervalMs \<le> 0 \<or> intervalMs > 5000 then None
         else let c = (case window of
                None \<Rightarrow> intervalMs
              | Some (startMs, endMs) \<Rightarrow> max 0 (min (timestamp_ms nxt) endMs - max (timestamp_ms cur) startMs))
              in if c \<le> 0 then None else Some c)"

text \<open>The sums of the loop: ready milliseconds, covered milliseconds, intervals.\<close>

fun ready_sums :: "(rat \<times> rat) option \<Rightarrow> runtime_sample list \<Rightarrow> rat \<times> rat \<times> nat" where
  "ready_sums window (cur # nxt # rest) =
     (case ready_sums window (nxt # rest) of
        (readyMs, coveredMs, n) \<Rightarrow>
          (case covered_interval window cur nxt of
             None \<Rightarrow> (readyMs, coveredMs, n)
           | Some c \<Rightarrow> (readyMs + (if sample_ready cur > 0 then c else 0), coveredMs + c, Suc n)))"
| "ready_sums window _ = (0, 0, 0)"

definition summarizeReadyQueueTimeline ::
  "runtime_sample list \<Rightarrow> (rat \<times> rat) option \<Rightarrow> rat option \<times> nat \<times> rat" where
  "summarizeReadyQueueTimeline samples window =
     (case ready_sums window samples of
        (readyMs, coveredMs, n) \<Rightarrow>
          (if coveredMs > 0 then Some (fixed_value 1 (readyMs / coveredMs * 100)) else None, n, fixed_value 1 (coveredMs / 1000)))"

section \<open>Limits and targets\<close>

definition jobSetting :: "job_settings \<Rightarrow> job_settings option \<Rightarrow> (job_settings \<Rightarrow> json) \<Rightarrow> string \<Rightarrow> json" where
  "jobSetting job details bag key =
     jcoalesce (jget (bag job) key) (case details of None \<Rightarrow> JUndef | Some d \<Rightarrow> jget (bag d) key)"

definition configured_limit :: "job_settings \<Rightarrow> job_settings option \<Rightarrow> json" where
  "configured_limit job details =
     jcoalesce (jcoalesce (jcoalesce (jobSetting job details js_metadata ''failure_limit'')
       (jobSetting job details js_metadata ''continuable_task_failure_maximum''))
       (jobSetting job details js_args ''failure_limit''))
       (jobSetting job details js_args ''continuable_task_failure_maximum'')"

definition scaled_limit :: "rat \<Rightarrow> rat" where
  "scaled_limit totalTasks =
     (let scaledLimit = of_int \<lceil>totalTasks / 20\<rceil>
      in if totalTasks > 1000 then min (max 25 (min 2500 scaledLimit)) (max 3 scaledLimit)
         else min 25 (max 3 scaledLimit))"

definition computeSafetyThresholdLimit :: "job_settings \<Rightarrow> job_settings option \<Rightarrow> rat \<Rightarrow> jsnum" where
  "computeSafetyThresholdLimit job details totalTasks =
     (let automatic = Fin (if totalTasks > 0 then scaled_limit totalTasks else 25)
      in case configured_limit job details of
           JNum (Fin q) \<Rightarrow> if q > 0 then Fin q else automatic
         | JNum PosInf \<Rightarrow> PosInf
         | _ \<Rightarrow> automatic)"

definition resolveTargetConcurrency ::
  "(rat \<Rightarrow> string) \<Rightarrow> job_settings \<Rightarrow> job_settings option \<Rightarrow> rat \<Rightarrow> rat \<Rightarrow> rat" where
  "resolveTargetConcurrency fs job details totalProxyCapacity workerPoolSize =
     (let configured = jcoalesce (jcoalesce (jobSetting job details js_metadata ''target_concurrency'')
            (jobSetting job details js_args ''target_concurrency'')) (jobSetting job details js_args ''concurrency'');
          automatic = (if totalProxyCapacity > 0 \<and> workerPoolSize > 0
            then max 1 (of_int \<lceil>totalProxyCapacity / workerPoolSize\<rceil>) else 16)
      in case number_of fs configured of
           Fin q \<Rightarrow> if q > 0 then max 1 (of_int \<lfloor>q\<rfloor>) else automatic
         | _ \<Rightarrow> automatic)"

section \<open>Latencies\<close>

definition parseTaskLatency :: "clock \<Rightarrow> task_detail \<Rightarrow> rat option" where
  "parseTaskLatency clk t =
     (let measured = (case (Option.bind (td_started_at t) nonempty, Option.bind (td_completed_at t) nonempty) of
            (Some a, Some b) \<Rightarrow>
              (case (getTime clk a, getTime clk b) of
                 (Some start, Some end_ms) \<Rightarrow>
                   if end_ms \<le> start then None
                   else let d = of_int (end_ms - start) / 1000 in if d \<ge> 1 / 100 \<and> d \<le> 120 then Some d else None
               | _ \<Rightarrow> None)
          | _ \<Rightarrow> None)
      in case td_duration t of
           JNum (Fin q) \<Rightarrow> if q > 0 \<and> q \<le> 120 then Some q else measured
         | _ \<Rightarrow> measured)"

definition percentile :: "rat list \<Rightarrow> nat \<Rightarrow> rat" where
  "percentile sorted_list p =
     (let idx = min (nat \<lfloor>of_nat p / 100 * (of_nat (length sorted_list) :: rat)\<rfloor>) (length sorted_list - 1)
      in fixed_value 2 (sorted_list ! idx))"

definition calculatePercentiles :: "rat list \<Rightarrow> latency_percentiles" where
  "calculatePercentiles latencies =
     (if latencies = [] then \<lparr>p50 = 0, p90 = 0, p95 = 0, p99 = 0, sampleCount = 0\<rparr>
      else let s = sort_by (\<le>) latencies
           in \<lparr>p50 = percentile s 50, p90 = percentile s 90, p95 = percentile s 95, p99 = percentile s 99,
               sampleCount = length s\<rparr>)"

section \<open>The bottleneck\<close>

record bottleneck_inputs =
  completedTasksCount :: rat
  failedJobTasks :: rat
  in_details :: "job_settings option"
  errorVelocity :: error_velocity
  httpDistribution :: http_breakdown
  isLiveJob :: bool
  in_job :: job_settings
  proxyAnomalies :: "proxy_anomaly list"
  proxyCapacity :: proxy_capacity
  readyTasksCount :: rat
  runningTasksCount :: rat
  runtimeTelemetry :: "runtime_telemetry option"
  totalProxyCapacity :: rat
  totalTasksCount :: rat
  workerPoolSize :: rat
  finalSummary :: final_summary

record bottleneck_analysis =
  ba_state :: bottleneck_state
  ba_label :: string
  ba_explanation :: string
  rootCauseFindings :: "string list"

text \<open>A number in a template literal, and one that may be missing.\<close>

definition num :: "(rat \<Rightarrow> string) \<Rightarrow> rat \<Rightarrow> string" where
  "num fs q = js_num_str fs (Fin q)"

definition num_or_unknown :: "(rat \<Rightarrow> string) \<Rightarrow> rat option \<Rightarrow> string" where
  "num_or_unknown fs q = (case q of None \<Rightarrow> ''unknown'' | Some x \<Rightarrow> num fs x)"

definition fixed_or_unknown :: "rat option \<Rightarrow> string" where
  "fixed_or_unknown q = (case q of None \<Rightarrow> ''unknown'' | Some x \<Rightarrow> to_fixed 1 x)"

definition descending :: "('a \<Rightarrow> rat) \<Rightarrow> 'a list \<Rightarrow> 'a list" where
  "descending key = sort_by (\<lambda>a b. key b \<le> key a)"

definition observed_percent :: "http_breakdown \<Rightarrow> rat \<Rightarrow> rat" where
  "observed_percent h n = n / max 1 (totalObserved h) * 100"

definition rate_limit_finding :: "(rat \<Rightarrow> string) \<Rightarrow> bottleneck_inputs \<Rightarrow> string" where
  "rate_limit_finding fs i =
     (let h = httpDistribution i; n = rateLimit429 h; pct = to_fixed 2 (observed_percent h n)
      in case descending rateLimits429 (filter (\<lambda>p. rateLimits429 p > 0) (proxyAnomalies i)) of
           p # _ \<Rightarrow> ''Observed rate limiting: '' @ num fs n @ '' total 429s ('' @ pct @ ''% of observed outcomes). Highest contributor is ''
             @ displayUrl p @ '' ('' @ or_str (anomaly_group p) ''Default'' @ '') with '' @ num fs (rateLimits429 p) @ '' rejections.''
         | [] \<Rightarrow> ''Observed rate limiting: '' @ num fs n @ '' total 429 request(s) ('' @ pct
             @ ''% of observed outcomes); no route attribution was available.'')"

definition http_findings :: "(rat \<Rightarrow> string) \<Rightarrow> bottleneck_inputs \<Rightarrow> string list" where
  "http_findings fs i =
     (let h = httpDistribution i; v = errorVelocity i
      in (if rateLimit429 h > 0 then [rate_limit_finding fs i] else [])
       @ (if serverError5xx h > 0
          then [''Observed upstream errors: '' @ num fs (serverError5xx h) @ '' 5xx response(s) (''
                @ to_fixed 2 (observed_percent h (serverError5xx h))
                @ ''% of observed outcomes). This count alone does not establish platform degradation.''] else [])
       @ (if timeoutErrors h > 0
          then [''Observed timeouts/resets: '' @ num fs (timeoutErrors h) @ '' task failure(s) (''
                @ to_fixed 2 (observed_percent h (timeoutErrors h))
                @ ''% of observed outcomes). Route responsibility is unknown unless per-route evidence is present.''] else [])
       @ (if velocity_trend v = ''critical''
          then [''Critical error velocity: '' @ num fs (errorsLast60s v) @ '' failures in the last 60s ('' @ num fs (safetyMarginPercent v)
                @ ''% of threshold: '' @ num fs (safetyThresholdLimit v) @ ''). At immediate risk of safety halt.''] else []))"

definition target_concurrency :: "(rat \<Rightarrow> string) \<Rightarrow> bottleneck_inputs \<Rightarrow> rat" where
  "target_concurrency fs i = resolveTargetConcurrency fs (in_job i) (in_details i) (totalProxyCapacity i) (workerPoolSize i)"

definition worker_demand :: "(rat \<Rightarrow> string) \<Rightarrow> bottleneck_inputs \<Rightarrow> rat" where
  "worker_demand fs i =
     (let measured = zero (Option.bind (runtimeTelemetry i) rt_effective_capacity)
      in if measured > 0 then measured else workerPoolSize i * target_concurrency fs i)"

definition is_proxy_bottleneck :: "bottleneck_inputs \<Rightarrow> bool" where
  "is_proxy_bottleneck i \<longleftrightarrow> isSaturated (proxyCapacity i)
     \<or> (utilizationPercent (proxyCapacity i) \<ge> 90 \<and> readyTasksCount i > 0)"

definition is_worker_bottleneck :: "(rat \<Rightarrow> string) \<Rightarrow> bottleneck_inputs \<Rightarrow> bool" where
  "is_worker_bottleneck fs i \<longleftrightarrow> \<not> is_proxy_bottleneck i
     \<and> runningTasksCount i \<ge> worker_demand fs i * (9 / 10) \<and> readyTasksCount i > 0"

definition job_active :: "bottleneck_inputs \<Rightarrow> bool" where
  "job_active i =
     (let st = lower (or_str (Option.bind (in_details i) js_status) (or_str (js_status (in_job i)) []))
      in isLiveJob i \<and> (st = ''running'' \<or> st = ''in_progress''))"

definition remaining_tasks :: "bottleneck_inputs \<Rightarrow> rat" where
  "remaining_tasks i = max 0 (totalTasksCount i - completedTasksCount i)"

definition is_queue_starved :: "(rat \<Rightarrow> string) \<Rightarrow> bottleneck_inputs \<Rightarrow> bool" where
  "is_queue_starved fs i \<longleftrightarrow> job_active i \<and> \<not> (remaining_tasks i \<le> runningTasksCount i \<or> remaining_tasks i = 0)
     \<and> \<not> is_proxy_bottleneck i \<and> \<not> is_worker_bottleneck fs i \<and> readyTasksCount i = 0
     \<and> runningTasksCount i < max 2 (worker_demand fs i * (9 / 10)) \<and> remaining_tasks i > runningTasksCount i"

definition dominant_phase :: "final_summary \<Rightarrow> string \<times> rat" where
  "dominant_phase s = (if runtimeTelemetryComplete s then hd (descending snd (getServicePhases s)) else (''Unavailable'', 0))"

section \<open>A finished job\<close>

definition writer_subphase_ms :: "final_summary \<Rightarrow> rat" where
  "writer_subphase_ms s = Max (set (map zero [meanWriterAdmissionMs s, meanWriterQueueMs s, meanWriterExecutionMs s,
     meanWriterCommitMs s, meanWriterBatchPeerWorkMs s, meanWriterOverheadMs s, meanWriterDeliveryMs s]))"

definition writer_findings :: "(rat \<Rightarrow> string) \<Rightarrow> (rat \<Rightarrow> string) \<Rightarrow> runtime_telemetry option \<Rightarrow> final_summary \<Rightarrow> string list" where
  "writer_findings fs loc rt s =
     (case (Option.bind (dominantWriterSubphase s) nonempty, writerTimingCoveragePercent s) of
        (Some sub, Some cover) \<Rightarrow>
          [''Writer profiling covers '' @ num fs cover @ ''% of acknowledged writes. The largest measured subphase is '' @ sub
           @ '' at '' @ to_fixed 3 (writer_subphase_ms s / 1000) @ ''s per task.'']
      | _ \<Rightarrow> [])
   @ (if zero (writerConfiguredConcurrency s) \<noteq> 0
      then [''Writer pressure: '' @ fixed_or_unknown (meanWriterActiveLanes s) @ '' mean active lanes ('' @ num_or_unknown fs (maxWriterActiveLanes s)
            @ '' max) of '' @ num fs (zero (writerConfiguredConcurrency s)) @ '' configured; queue depth at writer start averaged ''
            @ fixed_or_unknown (meanWriterQueueCommandsAtStart s) @ '' commands and peaked at '' @ num_or_unknown fs (maxWriterQueueCommandsAtStart s)
            @ '' of '' @ num_or_unknown fs (writerQueueMaxCommands s) @ ''.''] else [])
   @ (case meanWriterBatchFillPercent s of None \<Rightarrow> [] | Some fill \<Rightarrow>
        [''Writer batch fill averaged '' @ num fs fill @ ''% ('' @ fixed_or_unknown (meanWriterBatchCommands s) @ '' of ''
         @ num_or_unknown fs (writerConfiguredBatchSize s) @ '' commands per lane); the admitted working window was ''
         @ num_or_unknown fs (writerWindowCommands s) @ '' commands and the effective refill threshold was ''
         @ num_or_unknown fs (writerRefillMinCommands s) @ ''.''])
   @ (case writerSubmitsPerTask s of None \<Rightarrow> [] | Some n \<Rightarrow>
        [''Writer demand: '' @ loc (zero (writerTimedSubmits s)) @ '' acknowledged submits, '' @ to_fixed 3 n @ '' submits per task, and ''
         @ to_fixed 1 (zero (writerSubmitsPerSec s)) @ '' submits/s across the task-active window.''])
   @ (case writerResultCacheHitPercent s of None \<Rightarrow> [] | Some hit \<Rightarrow>
        [''Writer result delivery: '' @ loc (zero (writerResultCacheHits s)) @ '' result-cache hits and ''
         @ loc (zero (writerReceiptFallbacks s)) @ '' PostgreSQL receipt fallbacks ('' @ num fs hit @ ''% cache hit rate).''])
   @ (case meanWriterAdmissionCapacityWaitMs s of None \<Rightarrow> [] | Some w \<Rightarrow>
        [''Producer admission split: '' @ to_fixed 2 w @ ''ms queue-capacity wait, '' @ to_fixed 2 (zero (meanWriterAdmissionRedisMs s))
         @ ''ms Redis admission, '' @ to_fixed 2 (zero (meanWriterAdmissionSerializationMs s)) @ ''ms serialization, and ''
         @ to_fixed 2 (zero (meanWriterAdmissionOverheadDetailMs s)) @ ''ms other overhead per task.''])
   @ (case rt of None \<Rightarrow> [] | Some t \<Rightarrow>
        (case rt_writer_prepare_ms t of None \<Rightarrow> [] | Some ms \<Rightarrow>
           if rt_task_count t > 0
           then [''Writer admission includes '' @ to_fixed 2 (ms / rt_task_count t) @ ''ms/task of ledger checkpoint wait: ''
                 @ to_fixed 2 (zero (rt_writer_prepare_execution_ms t) / rt_task_count t) @ ''ms SQL call and ''
                 @ to_fixed 2 (zero (rt_writer_prepare_admission_ms t) / rt_task_count t)
                 @ ''ms thread admission and dispatch. These spans are nested inside writer admission.''] else []))
   @ (if meanWriterResultPublicationMs s \<noteq> None \<or> meanWriterResultObservationMs s \<noteq> None
      then [''Result delivery split: '' @ to_fixed 2 (zero (meanWriterResultPublicationMs s)) @ ''ms writer publication, ''
            @ to_fixed 2 (zero (meanWriterResultObservationMs s)) @ ''ms producer observation, and ''
            @ to_fixed 2 (zero (meanWriterResultDeliveryResidualMs s)) @ ''ms fallback/unclassified delivery per task (''
            @ num fs (zero (writerResultDeliverySplitCoveragePercent s)) @ ''% split coverage).''] else [])
   @ (case Option.bind (dominantWriterExecutionSubphase s) nonempty of None \<Rightarrow> [] | Some sub \<Rightarrow>
        [''Within writer SQL/user-sync work, the largest measured internal subphase is '' @ sub @ ''.''])
   @ (if zero (writerAuthorityRowsExamined s) > 0
      then [''Authority observation filtering examined '' @ loc (zero (writerAuthorityRowsExamined s)) @ '' rows, skipped ''
            @ loc (zero (writerAuthorityRowsSkipped s)) @ '' unchanged rows ('' @ num fs (zero (writerAuthoritySkipPercent s))
            @ ''%), and submitted '' @ loc (zero (writerAuthorityRowsUpserted s)) @ '' rows to the conflict upsert.''] else [])"

definition writer_explanation :: "final_summary \<Rightarrow> string" where
  "writer_explanation s =
     (let w = to_fixed 2 (zero (meanWriterSec s))
      in if writer_backlogged s
         then ''Tasks spent '' @ w @ ''s on durable writer waits, dominated by '' @ lower (or_else (dominantWriterSubphase s) [])
              @ ''. Operation execution and commit are measured separately from checkpoint and receipt work.''
         else ''Tasks spent '' @ w @ ''s on average waiting for durable writer operations, more than the non-writer handler work (''
              @ to_fixed 2 (zero (meanHandlerSec s)) @ ''s).'')"

text \<open>State, label and explanation of a job that is not active and has complete telemetry.\<close>

definition finished_verdict :: "(rat \<Rightarrow> string) \<Rightarrow> final_summary \<Rightarrow> bottleneck_state \<times> string \<times> string" where
  "finished_verdict fs s =
     (case dominant_phase s of
        (phase, secs) \<Rightarrow>
          if occupancyGapClassification s = Some ''routing_stall''
          then (RoutingStall, ''Ready-Queue Routing Stall'', ''Backend recovery restored '' @ num fs (zero (readyQueueRecoveredTasks s))
                @ '' stranded ready tasks across '' @ num fs (zero (readyQueueRecoveryCount s)) @ '' repair events.'')
          else if phase = ''Terminal State Update'' \<and> secs > 0
          then (TerminalConstrained, ''Terminal State Update Dominant'', ''Tasks spent '' @ to_fixed 2 secs
                @ ''s on average between handler return and the completion transition. Inspect finish-lock waiting, output persistence, and counter updates; this phase exceeds handler and writer time.'')
          else if phase = ''Worker Setup'' \<and> secs > 0
          then (SetupConstrained, ''Worker Setup Dominant'', ''Worker setup averaged '' @ to_fixed 2 secs
                @ ''s per task, the largest measured service phase. Inspect the locking, event, claim, and registry subphases.'')
          else if phase = ''Release / Publication'' \<and> secs > 0
          then (ReleaseConstrained, ''Release / Publication Dominant'', ''Worker cleanup and publication averaged '' @ to_fixed 2 secs
                @ ''s per task, the largest measured service phase.'')
          else if zero (meanWriterSec s) > 0 \<and> zero (meanWriterSec s) \<ge> zero (meanHandlerSec s)
          then (WriterConstrained, if writer_backlogged s then ''Writer Queue / Admission Backpressure'' else ''Durable Writer Wait Dominant'',
                writer_explanation s)
          else if avgActiveProxyUtilization s \<ge> 90
          then (RouteConstrained, ''Active Route Capacity Reached'', ''Measured time-weighted route occupancy reached ''
                @ num fs (avgActiveProxyUtilization s) @ ''% of declared route-slot capacity.'')
          else (HandlerConstrained, ''Handler / Upstream Time Dominant'', ''Measured task service time is dominated by handler and upstream work (''
                @ to_fixed 2 (zero (meanHandlerSec s)) @ ''s exclusive of writer wait).''))"

definition dominant_subphase :: "final_summary \<Rightarrow> string option" where
  "dominant_subphase s =
     (let phase = fst (dominant_phase s)
      in if phase = ''Worker Setup'' then dominantSetupSubphase s
         else if phase = writer_phase s then dominantWriterSubphase s
         else if phase = ''Handler / Upstream Work'' then dominantHandlerSubphase s
         else None)"

definition finished_analysis :: "(rat \<Rightarrow> string) \<Rightarrow> (rat \<Rightarrow> string) \<Rightarrow> bottleneck_inputs \<Rightarrow> bottleneck_analysis" where
  "finished_analysis fs loc i =
     (let s = finalSummary i; rt = runtimeTelemetry i;
          (phase, secs) = dominant_phase s;
          (st, label, explanation) = finished_verdict fs s
      in \<lparr>ba_state = st, ba_label = label, ba_explanation = explanation,
          rootCauseFindings =
            (''Full-job telemetry covers '' @ num fs (zero (map_option rt_task_count rt)) @ '' task attempts with ''
             @ to_fixed 1 (avgActiveConcurrency s) @ '' time-weighted in-flight tasks and '' @ num fs (avgActiveProxyRoutes s)
             @ '' time-weighted active routes.'')
            # http_findings fs i @ (if st = WriterConstrained then writer_findings fs loc rt s else [])
            @ [''Dominant task service phase: '' @ phase @ '' at '' @ to_fixed 2 secs @ ''s per task''
               @ (case Option.bind (dominant_subphase s) nonempty of None \<Rightarrow> [] | Some sub \<Rightarrow> ''; primary measured subphase: '' @ sub) @ ''.'']
            @ (if zero (meanQueueWaitSec s) > 0
               then [''Mean pre-service queue age was '' @ to_fixed 2 (zero (meanQueueWaitSec s))
                     @ ''s. It indicates backlog/admission delay, but is not part of task service time and is not ranked as an additive throughput bottleneck.''] else [])
            @ (case Option.bind (occupancyGapExplanation s) nonempty of None \<Rightarrow> [] | Some e \<Rightarrow> [e])\<rparr>)"

section \<open>An active job\<close>

definition multiplication_sign :: string where
  "multiplication_sign = [CHR 0xC3, CHR 0x97]"

definition active_analysis :: "(rat \<Rightarrow> string) \<Rightarrow> (rat \<Rightarrow> string) \<Rightarrow> bottleneck_inputs \<Rightarrow> bottleneck_analysis" where
  "active_analysis fs loc i =
     (let s = finalSummary i; found = http_findings fs i; demand = worker_demand fs i; routes = totalRoutes (proxyCapacity i)
      in if completedTasksCount i + failedJobTasks i = 0 \<and> \<not> runtimeTelemetryComplete s
         then \<lparr>ba_state = InsufficientData, ba_label = ''Awaiting First Completion'',
               ba_explanation = loc (runningTasksCount i) @ '' tasks are in flight, but none have completed. Claimed task slots do not establish active upstream requests or proxy saturation.'',
               rootCauseFindings = found @ [''Check execution waits before interpreting route capacity or estimating completion time.'']\<rparr>
         else if is_proxy_bottleneck i
         then \<lparr>ba_state = ProxySaturated, ba_label = ''Proxy Route Saturated'',
               ba_explanation = ''Task execution is constrained by '' @ num fs routes @ '' proxy routes. Inflight concurrency ('' @ num fs (runningTasksCount i)
                 @ '') has reached proxy capacity while '' @ loc (readyTasksCount i) @ '' ready tasks await route allocation.'',
               rootCauseFindings =
                 (if demand > routes
                  then ''Proxy ceiling bound: total worker concurrency demand ('' @ num fs (workerPoolSize i) @ '' workers '' @ multiplication_sign @ '' ''
                       @ num fs (target_concurrency fs i) @ '' = '' @ num fs demand @ '') exceeds proxy capacity ('' @ num fs routes
                       @ '' routes). Adding proxy routes will directly increase throughput.''
                  else ''Proxy ceiling bound: active route utilization reached capacity ('' @ num fs routes
                       @ '' routes). Adding proxy routes will directly increase throughput.'') # found\<rparr>
         else if is_worker_bottleneck fs i
         then \<lparr>ba_state = WorkerConstrained, ba_label = ''Worker Pool Capacity Reached'',
               ba_explanation = ''Worker capacity ('' @ num fs demand @ '' task slots across '' @ num fs (workerPoolSize i)
                 @ '' workers) is fully engaged with '' @ loc (readyTasksCount i)
                 @ '' queued tasks pending execution. Expanding the worker pool will scale throughput.'',
               rootCauseFindings = found\<rparr>
         else if is_queue_starved fs i
         then \<lparr>ba_state = QueueStarved, ba_label = ''Pipeline Queue Starvation'',
               ba_explanation = ''Workers are idling ('' @ num fs (runningTasksCount i) @ '' active of '' @ num fs demand
                 @ '' task slots) because the upstream task generator has not filled the ready queue.'',
               rootCauseFindings = found\<rparr>
         else if runtimeTelemetryComplete s \<and> zero (meanHandlerSec s) > 0
         then \<lparr>ba_state = HandlerConstrained, ba_label = ''Handler / Upstream Time Dominant'',
               ba_explanation = ''Handler and upstream work averaged '' @ to_fixed 2 (zero (meanHandlerSec s))
                 @ ''s per task; refill-stage timing is needed to explain intermittent empty ready queues.'',
               rootCauseFindings = found\<rparr>
         else \<lparr>ba_state = InsufficientData, ba_label = ''No Confirmed Bottleneck'',
               ba_explanation = ''Current measurements do not establish the cause of unused execution capacity.'',
               rootCauseFindings = found\<rparr>)"

definition default_finding :: "bottleneck_state \<Rightarrow> string" where
  "default_finding st = (if st = InsufficientData
     then ''Full-job runtime telemetry is incomplete. Worker participation, ready-queue supply, and service phases are unavailable, so throughput constraints cannot be established from this run.''
     else ''Telemetry indicates healthy operational equilibrium across proxy routes and worker execution.'')"

definition analyzeBottleneck :: "(rat \<Rightarrow> string) \<Rightarrow> (rat \<Rightarrow> string) \<Rightarrow> bottleneck_inputs \<Rightarrow> bottleneck_analysis" where
  "analyzeBottleneck fs loc i =
     (let a = (if job_active i then active_analysis fs loc i
               else if runtimeTelemetryComplete (finalSummary i) then finished_analysis fs loc i
               else \<lparr>ba_state = InsufficientData, ba_label = ''Insufficient Runtime Telemetry'',
                     ba_explanation = ''This completed run lacks full-job runtime measurements. Worker participation, ready-queue supply, and service phases are unavailable, so the reported capacity gap cannot identify a concurrency or claim-batch bottleneck.'',
                     rootCauseFindings = http_findings fs i\<rparr>)
      in if rootCauseFindings a = [] then a\<lparr>rootCauseFindings := [default_finding (ba_state a)]\<rparr> else a)"

section \<open>The throughput model\<close>

record throughput_inputs =
  ti_percentiles :: latency_percentiles
  ti_details :: "job_settings option"
  ti_summary :: final_summary
  ti_http :: http_breakdown
  ti_job :: job_settings
  ti_telemetry :: "runtime_telemetry option"
  ti_proxyCapacity :: rat
  ti_workerPoolSize :: rat

datatype severity = Critical | High | Moderate | Low

record loss_factor =
  lf_factor :: string
  lf_severity :: severity
  lf_estimatedLoss :: rat
  lf_description :: string
  lf_remedy :: string

datatype governing = ProxyCapacityBound | WorkerConcurrencyBound

record throughput_diagnostics =
  td_theoreticalProxyMax :: rat
  td_theoreticalWorkerMax :: rat
  td_governingCeiling :: rat
  td_governingBottleneck :: governing
  td_activeConcurrency :: rat
  td_idleProxyRoutes :: rat
  td_idleProxyPercent :: rat
  td_proxyUtilizationPercent :: rat
  td_workerUtilizationPercent :: rat
  td_workerPoolSize :: rat
  td_workerConcurrencyDemand :: rat
  td_targetConcurrency :: rat
  td_latencySpreadRatio :: rat
  td_tailLatencyDragPercent :: rat
  td_peakToAvgRatio :: rat
  td_lossFactors :: "loss_factor list"

text \<open>\<open>complete && x ? x : y\<close>: zero counts as missing.\<close>

definition measured_or :: "bool \<Rightarrow> rat option \<Rightarrow> rat \<Rightarrow> rat" where
  "measured_or is_complete x y = (if is_complete \<and> zero x \<noteq> 0 then zero x else y)"

definition median_latency :: "latency_percentiles \<Rightarrow> rat" where
  "median_latency p = (if p50 p > 0 then p50 p else 21 / 10)"

definition service_time :: "throughput_inputs \<Rightarrow> rat" where
  "service_time i = measured_or (runtimeTelemetryComplete (ti_summary i)) (meanTaskDurationSec (ti_summary i)) (median_latency (ti_percentiles i))"

definition route_service_time :: "throughput_inputs \<Rightarrow> rat" where
  "route_service_time i = measured_or (runtimeTelemetryComplete (ti_summary i)) (meanRouteActiveDurationSec (ti_summary i)) (service_time i)"

definition p95_latency :: "latency_percentiles \<Rightarrow> rat" where
  "p95_latency p = (if p95 p > 0 then p95 p else median_latency p)"

definition model_target :: "(rat \<Rightarrow> string) \<Rightarrow> throughput_inputs \<Rightarrow> rat" where
  "model_target fs i = resolveTargetConcurrency fs (ti_job i) (ti_details i) (ti_proxyCapacity i) (ti_workerPoolSize i)"

definition model_demand :: "(rat \<Rightarrow> string) \<Rightarrow> throughput_inputs \<Rightarrow> rat" where
  "model_demand fs i =
     (let measured = zero (Option.bind (ti_telemetry i) rt_effective_capacity)
      in if measured > 0 then measured else max 1 (ti_workerPoolSize i * model_target fs i))"

definition proxy_max :: "throughput_inputs \<Rightarrow> rat" where
  "proxy_max i = or_else (theoreticalProxyMaxItemsPerSec (ti_summary i)) (fixed_value 1 (ti_proxyCapacity i / max (1 / 20) (route_service_time i)))"

definition worker_max :: "(rat \<Rightarrow> string) \<Rightarrow> throughput_inputs \<Rightarrow> rat" where
  "worker_max fs i = or_else (theoreticalWorkerMaxItemsPerSec (ti_summary i)) (fixed_value 1 (model_demand fs i / max (1 / 20) (service_time i)))"

definition phase_remedy :: "string \<Rightarrow> string" where
  "phase_remedy f =
     (if f = ''Worker Setup'' then ''Inspect the measured locking, event, claim, and registry subphases.''
      else if f = ''Handler / Upstream Work'' then ''Profile upstream request stages and route-attempt latency inside the task handler.''
      else if f = ''Writer Queue / Admission Backpressure'' then ''Improve writer batch formation and queue/refill scheduling before adding writer lanes.''
      else if f = ''Durable Writer Wait'' then ''Inspect writer execution and commit latency before raising writer concurrency.''
      else if f = ''Terminal State Update'' then ''Inspect finish-lock waiting, output persistence, counter updates, and archive lease duration.''
      else ''Inspect worker cleanup, lock release, and progress publication.'')"

definition incidence_severity :: "rat \<Rightarrow> severity" where
  "incidence_severity p = (if p \<ge> 5 then Critical else if p \<ge> 1 then High else if p \<ge> 1 / 10 then Moderate else Low)"

definition phase_loss :: "final_summary \<Rightarrow> loss_factor list" where
  "phase_loss s =
     (case hd (descending snd (getServicePhases s)) of
        (f, secs) \<Rightarrow>
          if secs > 0
          then [\<lparr>lf_factor = f, lf_severity = High, lf_estimatedLoss = 0,
                 lf_description = f @ '' is the largest measured phase at '' @ to_fixed 2 secs
                   @ ''s per task on average. This is a measured time attribution, not an additive throughput-loss estimate.'',
                 lf_remedy = phase_remedy f\<rparr>]
          else [])"

definition loss_factors :: "(rat \<Rightarrow> string) \<Rightarrow> throughput_inputs \<Rightarrow> loss_factor list" where
  "loss_factors fs i =
     (let s = ti_summary i; h = ti_http i
      in (if runtimeTelemetryComplete s then phase_loss s
          else [\<lparr>lf_factor = ''Insufficient Runtime Telemetry'', lf_severity = Moderate, lf_estimatedLoss = 0,
                 lf_description = ''Worker participation, ready-queue supply, and full-job phase measurements are unavailable. Capacity and occupancy estimates derived from lifetime throughput and sampled latency cannot establish that concurrency or claim batching is limiting.'',
                 lf_remedy = ''Use a telemetry-complete run before changing worker concurrency, claim-batch size, or proxy capacity.''\<rparr>])
       @ (if rateLimit429 h > 0
          then [\<lparr>lf_factor = ''Upstream Rate Limiting (HTTP 429)'', lf_severity = incidence_severity (observed_percent h (rateLimit429 h)), lf_estimatedLoss = 0,
                 lf_description = num fs (rateLimit429 h) @ '' request(s) rejected by upstream API rate limiters (''
                   @ to_fixed 2 (observed_percent h (rateLimit429 h)) @ ''% observed incidence). No additive throughput loss is inferred from the count alone.'',
                 lf_remedy = ''Inspect per-route attribution first; rotate or redistribute only routes that account for the observed 429 responses.''\<rparr>] else [])
       @ (if timeoutErrors h > 0
          then [\<lparr>lf_factor = ''Connection Timeouts & Network Resets'', lf_severity = incidence_severity (observed_percent h (timeoutErrors h)), lf_estimatedLoss = 0,
                 lf_description = num fs (timeoutErrors h) @ '' task connection abort(s)/timeout(s) (''
                   @ to_fixed 2 (observed_percent h (timeoutErrors h)) @ ''% observed incidence). No additive throughput loss is inferred without measured occupied time.'',
                 lf_remedy = ''Capture per-route timeout attribution and upstream timing before pruning routes; inspect the handler stage identified by the evidence.''\<rparr>] else []))"

definition idle_routes :: "throughput_inputs \<Rightarrow> rat" where
  "idle_routes i = max 0 (ti_proxyCapacity i - of_int (js_round (avgActiveProxyRoutes (ti_summary i))))"

definition tail_drag :: "latency_percentiles \<Rightarrow> rat" where
  "tail_drag p =
     (if p95_latency p > median_latency p
      then min 60 (fixed_value 1 ((p95_latency p - median_latency p) / (p95_latency p + median_latency p) * 100)) else 0)"

definition buildThroughputDiagnostics :: "(rat \<Rightarrow> string) \<Rightarrow> throughput_inputs \<Rightarrow> throughput_diagnostics" where
  "buildThroughputDiagnostics fs i =
     (let s = ti_summary i; cap = ti_proxyCapacity i; pm = proxy_max i; wm = worker_max fs i;
          demand = model_demand fs i; p = ti_percentiles i
      in \<lparr>td_theoreticalProxyMax = pm, td_theoreticalWorkerMax = wm,
          td_governingCeiling = (if cap > 0 then min pm wm else wm),
          td_governingBottleneck = (if cap > 0 \<and> pm \<le> wm then ProxyCapacityBound else WorkerConcurrencyBound),
          td_activeConcurrency = avgActiveConcurrency s,
          td_idleProxyRoutes = idle_routes i,
          td_idleProxyPercent = (if cap > 0 then fixed_value 1 (idle_routes i / cap * 100) else 0),
          td_proxyUtilizationPercent = (if cap > 0 then fixed_value 1 (avgActiveProxyRoutes s / cap * 100) else 0),
          td_workerUtilizationPercent = min 100 (fixed_value 1 (avgActiveConcurrency s / max 1 demand * 100)),
          td_workerPoolSize = ti_workerPoolSize i, td_workerConcurrencyDemand = demand, td_targetConcurrency = model_target fs i,
          td_latencySpreadRatio = fixed_value 2 (p95_latency p / max (1 / 10) (median_latency p)),
          td_tailLatencyDragPercent = tail_drag p,
          td_peakToAvgRatio = (if peakWasCapped s then 1
             else if overallAvgItemsPerSec s > 0 then fixed_value 2 (peakItemsPerSec s / overallAvgItemsPerSec s) else 1),
          td_lossFactors = loss_factors fs i\<rparr>)"

section \<open>Correctness of the figures\<close>

lemma fixed_value_nonneg: "0 \<le> q \<Longrightarrow> 0 \<le> fixed_value d q"
  by (simp add: fixed_value_def)

lemma fixed_value_mono_nonneg:
  assumes "0 \<le> p" "p \<le> q"
  shows "fixed_value d p \<le> fixed_value d q"
proof -
  have "js_round (p * 10 ^ d) \<le> js_round (q * 10 ^ d)" using assms by (intro js_round_mono) simp
  then have "fixed_mag d p \<le> fixed_mag d q" using assms by (simp add: fixed_mag_def nat_mono)
  then show ?thesis using assms by (simp add: fixed_value_def divide_right_mono)
qed

lemma fixed_value_mono: "p \<le> q \<Longrightarrow> fixed_value d p \<le> fixed_value d q"
proof -
  assume pq: "p \<le> q"
  have neg: "fixed_value d x = - fixed_value d (- x)" if "x < 0" for x using that by (simp add: fixed_value_def fixed_mag_def)
  consider "0 \<le> p" | "p < 0" "0 \<le> q" | "q < 0" by linarith
  then show ?thesis
  proof cases
    case 1 then show ?thesis using fixed_value_mono_nonneg pq by blast
  next
    case 2 then show ?thesis using neg [of p] fixed_value_nonneg [of "- p" d] fixed_value_nonneg [of q d] by simp
  next
    case 3 then show ?thesis using pq neg [of p] neg [of q] fixed_value_mono_nonneg [of "- q" "- p" d] by simp
  qed
qed

lemma sorted_sort_by_rat: "sorted (sort_by (\<le>) (xs :: rat list))"
  using sorted_wrt_sort_by [of "(\<le>)" xs] by (auto simp: transp_def)

lemma filter_sorted_length:
  fixes s :: "rat list"
  assumes "sorted s" "i < length s"
  shows "Suc i \<le> length (filter (\<lambda>y. y \<le> s ! i) s)"
proof -
  have "filter (\<lambda>y. y \<le> s ! i) (take (Suc i) s) = take (Suc i) s"
    using assms by (auto simp: filter_id_conv in_set_conv_nth sorted_iff_nth_mono)
  then have "length (filter (\<lambda>y. y \<le> s ! i) (take (Suc i) s)) = Suc i" using assms(2) by simp
  moreover have "length (filter P s) = length (filter P (take (Suc i) s)) + length (filter P (drop (Suc i) s))" for P
    by (metis append_take_drop_id filter_append length_append)
  ultimately show ?thesis by simp
qed

lemma length_filter_insert: "length (filter P (insert_sorted le x xs)) = length (filter P (x # xs))"
  by (induction xs) auto

lemma length_filter_sort_by: "length (filter P (sort_by le xs)) = length (filter P xs)"
  by (induction xs) (auto simp: length_filter_insert)

text \<open>A value that is one of the samples, rounded, and not below the given share of them.\<close>

definition ranks :: "rat list \<Rightarrow> nat \<Rightarrow> rat \<Rightarrow> bool" where
  "ranks xs p v \<longleftrightarrow> list_ex (\<lambda>x. v = fixed_value 2 x \<and> p * length xs \<le> 100 * length (filter (\<lambda>y. y \<le> x) xs)) xs"

definition rank_index :: "nat \<Rightarrow> nat \<Rightarrow> nat" where
  "rank_index n p = min (nat \<lfloor>of_nat p / 100 * (of_nat n :: rat)\<rfloor>) (n - 1)"

lemma rank_index_mono: "p \<le> q \<Longrightarrow> rank_index n p \<le> rank_index n q"
  unfolding rank_index_def
  by (intro min.mono nat_mono floor_mono mult_right_mono divide_right_mono) simp_all

lemma rank_index_share:
  assumes "0 < n" "p \<le> 100"
  shows "rank_index n p < n" "p * n \<le> 100 * Suc (rank_index n p)"
proof -
  let ?q = "of_nat p / 100 * (of_nat n :: rat)"
  show "rank_index n p < n" using assms by (simp add: rank_index_def min.strict_coboundedI2)
  have "?q < of_int (\<lfloor>?q\<rfloor> + 1)" by linarith
  also have "of_int (\<lfloor>?q\<rfloor> + 1) = (of_nat (Suc (nat \<lfloor>?q\<rfloor>)) :: rat)" by (simp add: of_nat_nat)
  finally have "of_nat (p * n) < (of_nat (100 * Suc (nat \<lfloor>?q\<rfloor>)) :: rat)" by simp
  then have "p * n < 100 * Suc (nat \<lfloor>?q\<rfloor>)" using of_nat_less_iff by blast
  moreover have "p * n \<le> 100 * Suc (n - 1)" using assms by simp
  ultimately show "p * n \<le> 100 * Suc (rank_index n p)" unfolding rank_index_def min_def by (simp split: if_splits)
qed

lemma percentile_eq: "percentile s p = fixed_value 2 (s ! rank_index (length s) p)"
  by (simp add: percentile_def rank_index_def Let_def)

lemma percentile_ranks:
  assumes "xs \<noteq> []" "p \<le> 100"
  shows "ranks xs p (percentile (sort_by (\<le>) xs) p)"
proof -
  let ?s = "sort_by (\<le>) xs" and ?i = "rank_index (length xs) p"
  have i: "?i < length ?s" "p * length xs \<le> 100 * Suc ?i" using rank_index_share [of "length xs" p] assms by auto
  have "Suc ?i \<le> length (filter (\<lambda>y. y \<le> ?s ! ?i) xs)"
    using filter_sorted_length [OF sorted_sort_by_rat i(1)] by (simp add: length_filter_sort_by)
  then have "p * length xs \<le> 100 * length (filter (\<lambda>y. y \<le> ?s ! ?i) xs)" using i(2) by (meson le_trans mult_le_mono2)
  moreover have "?s ! ?i \<in> set xs" using nth_mem [OF i(1)] by simp
  ultimately show ?thesis unfolding ranks_def list_ex_iff percentile_eq by auto
qed

lemma percentile_mono:
  assumes "xs \<noteq> []" "p \<le> q" "q \<le> 100"
  shows "percentile (sort_by (\<le>) xs) p \<le> percentile (sort_by (\<le>) xs) q"
  using assms rank_index_mono [OF assms(2), of "length xs"] rank_index_share(1) [of "length xs" q]
  by (auto simp: percentile_eq intro!: fixed_value_mono sorted_nth_mono [OF sorted_sort_by_rat])



section \<open>Correctness of the diagnosis\<close>

lemma descending_hd:
  assumes "xs \<noteq> []"
  shows "hd (descending key xs) \<in> set xs" "x \<in> set xs \<Longrightarrow> key x \<le> key (hd (descending key xs))"
proof -
  have ne: "descending key xs \<noteq> []" using assms by (metis descending_def length_0_conv length_sort_by)
  have s: "set (descending key xs) = set xs" by (simp add: descending_def)
  then show "hd (descending key xs) \<in> set xs" using hd_in_set [OF ne] by simp
  have "sorted_wrt (\<lambda>a b. key b \<le> key a) (descending key xs)"
    unfolding descending_def by (rule sorted_wrt_sort_by) (auto simp: transp_def)
  moreover assume "x \<in> set xs"
  then have "x \<in> set (descending key xs)" using s by simp
  ultimately show "key x \<le> key (hd (descending key xs))"
    using ne by (cases "descending key xs") auto
qed

lemma phases_nonempty: "getServicePhases s \<noteq> []"
  by (simp add: getServicePhases_def)

lemma dominant_phase_max:
  assumes "runtimeTelemetryComplete s"
  shows "dominant_phase s \<in> set (getServicePhases s)" "ph \<in> set (getServicePhases s) \<Longrightarrow> snd ph \<le> snd (dominant_phase s)"
  using descending_hd(1) [OF phases_nonempty, of snd s] descending_hd(2) [OF phases_nonempty, of ph s snd] assms
  by (simp_all add: dominant_phase_def)

text \<open>The mean time that a verdict on a finished job blames.\<close>

definition blamed_mean :: "bottleneck_state \<Rightarrow> final_summary \<Rightarrow> rat option" where
  "blamed_mean st s = (case st of
      SetupConstrained \<Rightarrow> Some (zero (meanSetupSec s)) | TerminalConstrained \<Rightarrow> Some (zero (meanPostSec s))
    | ReleaseConstrained \<Rightarrow> Some (zero (meanReleaseSec s)) | WriterConstrained \<Rightarrow> Some (zero (meanWriterSec s))
    | HandlerConstrained \<Rightarrow> Some (zero (meanHandlerSec s)) | _ \<Rightarrow> None)"

lemma writer_phase_cases: "writer_phase s = ''Writer Queue / Admission Backpressure'' \<or> writer_phase s = ''Durable Writer Wait''"
  by (simp add: writer_phase_def)

lemma dominant_phase_cases:
  assumes "runtimeTelemetryComplete s"
  obtains "dominant_phase s = (''Worker Setup'', zero (meanSetupSec s))"
    | "dominant_phase s = (''Handler / Upstream Work'', zero (meanHandlerSec s))"
    | "dominant_phase s = (writer_phase s, zero (meanWriterSec s))"
    | "dominant_phase s = (''Terminal State Update'', zero (meanPostSec s))"
    | "dominant_phase s = (''Release / Publication'', zero (meanReleaseSec s))"
  using dominant_phase_max(1) [OF assms] by (auto simp: getServicePhases_def)

lemma finished_state_eq:
  "fst (finished_verdict fs s) =
     (let phase = fst (dominant_phase s); secs = snd (dominant_phase s)
      in if occupancyGapClassification s = Some ''routing_stall'' then RoutingStall
         else if phase = ''Terminal State Update'' \<and> secs > 0 then TerminalConstrained
         else if phase = ''Worker Setup'' \<and> secs > 0 then SetupConstrained
         else if phase = ''Release / Publication'' \<and> secs > 0 then ReleaseConstrained
         else if zero (meanWriterSec s) > 0 \<and> zero (meanWriterSec s) \<ge> zero (meanHandlerSec s) then WriterConstrained
         else if avgActiveProxyUtilization s \<ge> 90 then RouteConstrained
         else HandlerConstrained)"
  by (simp only: finished_verdict_def Let_def split_beta if_distrib [of fst] fst_conv)

text \<open>What the verdict on a finished job says about its largest phase.\<close>

lemma finished_verdict_blames:
  assumes "runtimeTelemetryComplete s" "fst (finished_verdict fs s) = st" "blamed_mean st s = Some m"
    "0 \<le> zero (meanHandlerSec s)"
  shows "snd (dominant_phase s) \<le> m"
proof -
  obtain f secs where d: "dominant_phase s = (f, secs)" by fastforce
  have h: "zero (meanHandlerSec s) \<le> secs" using dominant_phase_max(2) [OF assms(1)] d by (force simp: getServicePhases_def)
  have nf: "writer_phase s \<noteq> ''Terminal State Update''" "writer_phase s \<noteq> ''Worker Setup''" "writer_phase s \<noteq> ''Release / Publication''"
    using writer_phase_cases [of s] by auto
  show ?thesis
    using dominant_phase_cases [OF assms(1)]
  proof cases
    case 1 then show ?thesis using assms d h by (auto simp: finished_state_eq Let_def blamed_mean_def split: if_splits)
  next
    case 2 then show ?thesis using assms d h by (auto simp: finished_state_eq Let_def blamed_mean_def split: if_splits)
  next
    case 3 then show ?thesis using assms d h nf by (auto simp: finished_state_eq Let_def blamed_mean_def split: if_splits)
  next
    case 4 then show ?thesis using assms d h by (auto simp: finished_state_eq Let_def blamed_mean_def split: if_splits)
  next
    case 5 then show ?thesis using assms d h by (auto simp: finished_state_eq Let_def blamed_mean_def split: if_splits)
  qed
qed

lemma analyzeBottleneck_state:
  "ba_state (analyzeBottleneck fs loc i) =
     (if job_active i then ba_state (active_analysis fs loc i)
      else if runtimeTelemetryComplete (finalSummary i) then fst (finished_verdict fs (finalSummary i)) else InsufficientData)"
proof -
  have "ba_state (finished_analysis fs loc i) = fst (finished_verdict fs (finalSummary i))"
    by (simp only: finished_analysis_def Let_def split_beta bottleneck_analysis.simps)
  then show ?thesis by (simp only: analyzeBottleneck_def Let_def if_distrib [of ba_state] bottleneck_analysis.simps) simp
qed

lemma analyzeBottleneck_findings: "rootCauseFindings (analyzeBottleneck fs loc i) \<noteq> []"
  by (simp add: analyzeBottleneck_def Let_def)

lemma active_state_eq:
  "ba_state (active_analysis fs loc i) =
     (if completedTasksCount i + failedJobTasks i = 0 \<and> \<not> runtimeTelemetryComplete (finalSummary i) then InsufficientData
      else if is_proxy_bottleneck i then ProxySaturated
      else if is_worker_bottleneck fs i then WorkerConstrained
      else if is_queue_starved fs i then QueueStarved
      else if runtimeTelemetryComplete (finalSummary i) \<and> zero (meanHandlerSec (finalSummary i)) > 0 then HandlerConstrained
      else InsufficientData)"
  by (simp only: active_analysis_def Let_def if_distrib [of ba_state] bottleneck_analysis.simps)

lemma finished_state:
  "fst (finished_verdict fs s) \<notin> {ProxySaturated, WorkerConstrained, QueueStarved, InsufficientData}"
  by (simp add: finished_state_eq Let_def)


definition sample_summary :: final_summary where
  "sample_summary = \<lparr>
     runtimeTelemetryComplete = True, meanSetupSec = Some 1, meanHandlerSec = Some 2, meanWriterSec = None, 
     meanPostSec = Some 3, meanReleaseSec = None, meanQueueWaitSec = None, dominantSetupSubphase = None, 
     dominantHandlerSubphase = None, dominantWriterSubphase = None, dominantWriterExecutionSubphase = None, 
     occupancyGapClassification = None, occupancyGapExplanation = None, readyQueueRecoveredTasks = None, 
     readyQueueRecoveryCount = None, meanWriterAdmissionMs = None, meanWriterQueueMs = None, meanWriterExecutionMs = None, 
     meanWriterCommitMs = None, meanWriterBatchPeerWorkMs = None, meanWriterOverheadMs = None, meanWriterDeliveryMs = None, 
     writerTimingCoveragePercent = None, writerConfiguredConcurrency = None, meanWriterActiveLanes = None, 
     maxWriterActiveLanes = None, meanWriterQueueCommandsAtStart = None, maxWriterQueueCommandsAtStart = None, 
     writerQueueMaxCommands = None, meanWriterBatchFillPercent = None, meanWriterBatchCommands = None, 
     writerConfiguredBatchSize = None, writerWindowCommands = None, writerRefillMinCommands = None, 
     writerSubmitsPerTask = None, writerTimedSubmits = None, writerSubmitsPerSec = None, writerResultCacheHitPercent = None, 
     writerResultCacheHits = None, writerReceiptFallbacks = None, meanWriterAdmissionCapacityWaitMs = None, 
     meanWriterAdmissionRedisMs = None, meanWriterAdmissionSerializationMs = None, meanWriterAdmissionOverheadDetailMs = None, 
     meanWriterResultPublicationMs = None, meanWriterResultObservationMs = None, meanWriterResultDeliveryResidualMs = None, 
     writerResultDeliverySplitCoveragePercent = None, writerAuthorityRowsExamined = None, writerAuthorityRowsSkipped = None, 
     writerAuthoritySkipPercent = None, writerAuthorityRowsUpserted = None, avgActiveConcurrency = 0, 
     avgActiveProxyRoutes = 0, avgActiveProxyUtilization = 0, meanTaskDurationSec = None, meanRouteActiveDurationSec = None, 
     theoreticalProxyMaxItemsPerSec = None, theoreticalWorkerMaxItemsPerSec = None, peakWasCapped = False, 
     overallAvgItemsPerSec = 0, peakItemsPerSec = 0\<rparr>"

definition no_settings :: job_settings where
  "no_settings = \<lparr>js_status = Some ''completed'', js_metadata = JNull, js_args = JNull\<rparr>"

definition sample_inputs :: bottleneck_inputs where
  "sample_inputs = \<lparr>completedTasksCount = 10, failedJobTasks = 0, in_details = None,
     errorVelocity = \<lparr>errorsLast60s = 0, safetyThresholdLimit = 25, safetyMarginPercent = 0, velocity_trend = ''stable''\<rparr>,
     httpDistribution = \<lparr>rateLimit429 = 0, serverError5xx = 0, timeoutErrors = 0, totalObserved = 0\<rparr>,
     isLiveJob = False, in_job = no_settings, proxyAnomalies = [],
     proxyCapacity = \<lparr>totalRoutes = 4, utilizationPercent = 0, isSaturated = False\<rparr>, readyTasksCount = 5, runningTasksCount = 4,
     runtimeTelemetry = None, totalProxyCapacity = 4, totalTasksCount = 20, workerPoolSize = 1, finalSummary = sample_summary\<rparr>"

lemma sample_complete: "runtimeTelemetryComplete sample_summary"
  by (simp add: sample_summary_def)


text \<open>
  A saturated worker pool without HTTP errors is shown with the finding that everything is healthy.
\<close>

lemma worker_bound_called_healthy:
  assumes "job_active i" "is_worker_bottleneck fs i" "http_findings fs i = []" "completedTasksCount i + failedJobTasks i \<noteq> 0"
  shows "ba_state (analyzeBottleneck fs loc i) = WorkerConstrained
    \<and> rootCauseFindings (analyzeBottleneck fs loc i) = [default_finding Optimal]"
  using assms by (auto simp: analyzeBottleneck_def active_analysis_def Let_def is_worker_bottleneck_def default_finding_def)

section \<open>Bounds\<close>

lemma covered_interval_pos: "covered_interval w a b = Some c \<Longrightarrow> 0 < c"
  by (auto simp: covered_interval_def Let_def split: if_splits)

lemma ready_sums_bounds: "ready_sums w xs = (r, c, n) \<Longrightarrow> 0 \<le> r \<and> r \<le> c"
proof (induction w xs arbitrary: r c n rule: ready_sums.induct)
  case (1 w cur nxt rest)
  obtain r' c' n' where s: "ready_sums w (nxt # rest) = (r', c', n')" by (metis prod_cases3)
  then show ?case using 1 covered_interval_pos [of w cur nxt] by (auto split: option.splits if_splits)
qed auto

text \<open>The share of time with a filled ready queue is a percentage.\<close>

lemma ready_percent_bounds:
  assumes "summarizeReadyQueueTimeline samples window = (Some p, n, secs)"
  shows "0 \<le> p \<and> p \<le> 100"
proof -
  obtain r c m where s: "ready_sums window samples = (r, c, m)" by (metis prod_cases3)
  have c: "c > 0" "p = fixed_value 1 (r / c * 100)" using assms s by (auto simp: summarizeReadyQueueTimeline_def split: if_splits)
  have "0 \<le> r / c * 100" "r / c * 100 \<le> 100" using ready_sums_bounds [OF s] c(1) by (auto simp: divide_le_eq)
  moreover have "fixed_value 1 100 = 100" by code_simp
  ultimately show ?thesis using c(2) fixed_value_nonneg fixed_value_mono [of "r / c * 100" 100 1] by simp
qed

text \<open>The automatic failure limit stays between 3 and 2500 and never shrinks with the size of the job.\<close>

lemma scaled_limit_bounds: "3 \<le> scaled_limit n \<and> scaled_limit n \<le> 2500"
  by (auto simp: scaled_limit_def Let_def min_def)

lemma scaled_limit_mono:
  assumes "m \<le> n"
  shows "scaled_limit m \<le> scaled_limit n"
proof -
  have le: "of_int \<lceil>m / 20\<rceil> \<le> (of_int \<lceil>n / 20\<rceil> :: rat)" using assms by (simp add: ceiling_mono divide_right_mono)
  have big: "of_int \<lceil>x / 20\<rceil> \<ge> (50 :: rat)" if "x > 1000" for x :: rat
    using that ceiling_mono [of 50 "x / 20"] by simp
  show ?thesis using le assms big [of n] by (auto simp: scaled_limit_def Let_def min_def max_def)
qed

lemma tail_drag_bounds: "0 \<le> tail_drag p \<and> tail_drag p \<le> 60"
proof -
  have "0 < median_latency p" by (simp add: median_latency_def)
  then show ?thesis by (auto simp: tail_drag_def intro!: fixed_value_nonneg)
qed

text \<open>
  The ceiling of the throughput model (\<open>buildThroughputDiagnostics\<close>): it is the maximum of the resource that is
  named as governing, no resource that exists allows less, and the derived percentages stay in range: at most 100 for
  the workers, at most 60 for the tail latency, and never a negative number of idle routes.
\<close>

lemma buildThroughputDiagnostics_ceiling:
  "let d = buildThroughputDiagnostics fs i
   in td_governingCeiling d = (case td_governingBottleneck d of
         ProxyCapacityBound \<Rightarrow> td_theoreticalProxyMax d | WorkerConcurrencyBound \<Rightarrow> td_theoreticalWorkerMax d)
    \<and> td_governingCeiling d \<le> td_theoreticalWorkerMax d
    \<and> (ti_proxyCapacity i \<le> 0 \<or> td_governingCeiling d \<le> td_theoreticalProxyMax d)
    \<and> td_workerUtilizationPercent d \<le> 100 \<and> 0 \<le> td_idleProxyRoutes d
    \<and> 0 \<le> td_tailLatencyDragPercent d \<and> td_tailLatencyDragPercent d \<le> 60"
  using tail_drag_bounds [of "ti_percentiles i"]
  by (simp add: buildThroughputDiagnostics_def Let_def idle_routes_def min_def)

end
