(* ===== verification/Comparison.thy ===== *)
theory Comparison
  imports Diagnostics
begin

text \<open>
  A run against an earlier one: \<open>features/jobs/lib/historicalComparison.ts\<close>. Which runs are comparable, the projected
  duration of a run in progress, the deltas and the verdict with its texts. Counts and the elapsed seconds of the
  telemetry are whole numbers, rates are exact; \<open>toLocaleString\<close> and the printing of numbers that are not whole are
  parameters. The duration of an earlier run is a number of the language, as an infinite one can be stored.
\<close>

section \<open>Comparable runs\<close>

record hist_job = job_times +
  hj_job_id :: string
  hj_job_name :: "string option"
  hj_status :: string
  hj_site :: "string option"
  hj_task_count :: "int option"
  hj_completed_tasks :: "int option"
  hj_failed_tasks :: "int option"
  hj_task_stats :: "task_stats option"

definition DEFAULT_TASK_COUNT_TOLERANCE_PERCENT :: rat where
  "DEFAULT_TASK_COUNT_TOLERANCE_PERCENT = 10"

definition DEFAULT_TASK_COUNT_BOUNDARY :: rat where
  "DEFAULT_TASK_COUNT_BOUNDARY = DEFAULT_TASK_COUNT_TOLERANCE_PERCENT / 100"

definition isTaskCountTolerancePreset :: "rat \<Rightarrow> bool" where
  "isTaskCountTolerancePreset percent \<longleftrightarrow> percent \<in> set [5, 10, 15, 20, 25, 50, 100]"

definition stat_of :: "(task_stats \<Rightarrow> int) \<Rightarrow> hist_job \<Rightarrow> int option" where
  "stat_of f job = map_option f (hj_task_stats job)"

definition completed_of :: "hist_job \<Rightarrow> int" where
  "completed_of job = or_else (coalesce (hj_completed_tasks job) (stat_of ts_completed job)) 0"

definition failed_of :: "hist_job \<Rightarrow> int" where
  "failed_of job = or_else (coalesce (hj_failed_tasks job) (stat_of ts_failed job)) 0"

definition comparableTaskCount :: "hist_job option \<Rightarrow> int option" where
  "comparableTaskCount job =
     (case job of
        None \<Rightarrow> None
      | Some j \<Rightarrow>
          (case coalesce (hj_task_count j) (stat_of ts_total j) of
             Some n \<Rightarrow> Some n
           | None \<Rightarrow> let derivedCount = completed_of j + failed_of j in if derivedCount > 0 then Some derivedCount else None))"

definition isSimilarTaskCount :: "jsnum \<Rightarrow> jsnum option \<Rightarrow> jsnum \<Rightarrow> bool" where
  "isSimilarTaskCount currentCount candidateCount toleranceBoundary =
     (case (currentCount, candidateCount) of
        (Fin current, Some (Fin candidate)) \<Rightarrow>
          if current < 0 \<or> candidate < 0 then False
          else (case toleranceBoundary of
                  PosInf \<Rightarrow> True
                | Fin tol \<Rightarrow> if tol \<ge> 1000 then True
                             else if current = 0 then candidate = 0
                             else \<bar>candidate - current\<bar> / current \<le> tol
                | _ \<Rightarrow> current = 0 \<and> candidate = 0)
      | _ \<Rightarrow> False)"

section \<open>The current run\<close>

text \<open>The telemetry that is read; \<open>ct_quality\<close> is the unit of \<open>quality\<close>, if there is one.\<close>

record comp_telemetry =
  ct_totalDurationSec :: int
  ct_totalDurationFormatted :: string
  ct_jobOutcome :: string
  ct_overallAvgItemsPerSec :: rat
  ct_durationSource :: "string option"
  ct_currentItemsPerSec :: rat
  ct_throughputUnit :: "string option"
  ct_quality :: "string option"
  ct_totalErrors :: int
  ct_totalTasksCount :: int
  ct_completedTasksCount :: int
  ct_bottleneckLabel :: string

text \<open>\<open>a || b\<close> on counts.\<close>

definition or_int :: "int option \<Rightarrow> int \<Rightarrow> int" where
  "or_int a b = (case a of None \<Rightarrow> b | Some n \<Rightarrow> if n = 0 then b else n)"

definition elapsed_of :: "comp_telemetry \<Rightarrow> int" where
  "elapsed_of t = or_int (Some (ct_totalDurationSec t)) 1"

definition elapsed_text :: "comp_telemetry \<Rightarrow> string" where
  "elapsed_text t = or_str (Some (ct_totalDurationFormatted t)) (formatDuration (Some (elapsed_of t)))"

definition current_completed :: "comp_telemetry \<Rightarrow> hist_job option \<Rightarrow> int" where
  "current_completed t job = or_int (Some (ct_completedTasksCount t)) (or_int (Option.bind job hj_completed_tasks) 0)"

definition current_failed :: "comp_telemetry \<Rightarrow> hist_job option \<Rightarrow> int" where
  "current_failed t job = or_int (Some (ct_totalErrors t)) (or_int (Option.bind job hj_failed_tasks) 0)"

definition known_total :: "comp_telemetry \<Rightarrow> hist_job option \<Rightarrow> int \<Rightarrow> int" where
  "known_total t job otherwise =
     or_int (Some (ct_totalTasksCount t)) (or_int (Option.bind job hj_task_count) (or_int (Option.bind job (stat_of ts_total)) otherwise))"

definition current_total :: "comp_telemetry \<Rightarrow> hist_job option \<Rightarrow> int" where
  "current_total t job = known_total t job (current_completed t job + current_failed t job)"

definition current_throughput :: "comp_telemetry \<Rightarrow> hist_job option \<Rightarrow> rat" where
  "current_throughput t job =
     (if ct_overallAvgItemsPerSec t \<noteq> 0 then ct_overallAvgItemsPerSec t
      else if ct_currentItemsPerSec t \<noteq> 0 then ct_currentItemsPerSec t
      else if elapsed_of t > 0 then fixed_value 1 (of_int (current_completed t job) / of_int (elapsed_of t)) else 0)"

definition failure_rate :: "int \<Rightarrow> int \<Rightarrow> rat" where
  "failure_rate failed n = (if n > 0 then fixed_value 1 (of_int failed / of_int n * 100) else 0)"

definition throughput_unit :: "comp_telemetry \<Rightarrow> string" where
  "throughput_unit t = or_else (coalesce (ct_quality t) (ct_throughputUnit t)) ''items''"

definition rate_label :: "comp_telemetry \<Rightarrow> string" where
  "rate_label t = (if throughput_unit t = ''tasks'' then ''tasks/s'' else ''items/s'')"

definition throughput_comparable :: "comp_telemetry \<Rightarrow> bool" where
  "throughput_comparable t \<longleftrightarrow>
     (ct_quality t = None \<or> throughput_unit t = ''tasks'') \<and> ct_durationSource t \<noteq> Some ''task_active_window''"

text \<open>\<open>remainingSec\<close>; \<open>isProjectedDuration\<close> is set exactly when it is.\<close>

definition remaining_projection :: "comp_telemetry \<Rightarrow> hist_job option \<Rightarrow> bool \<Rightarrow> int option \<Rightarrow> int option" where
  "remaining_projection t job live_job etaRemaining =
     (if \<not> live_job then None
      else case etaRemaining of
        Some r \<Rightarrow> Some (max 0 r)
      | None \<Rightarrow>
          let known = known_total t job 0; done_tasks = current_completed t job
          in if known > 0
             then (let remainingTasks = max 0 (known - (done_tasks + current_failed t job))
                   in if remainingTasks = 0 then Some 0
                      else if done_tasks > 0 \<and> elapsed_of t > 0
                      then Some (max 0 (js_round (of_int (elapsed_of t * remainingTasks) / of_int done_tasks)))
                      else if current_throughput t job > 0
                      then Some (max 0 (js_round (of_int remainingTasks / current_throughput t job)))
                      else None)
             else None)"

section \<open>The baseline\<close>

text \<open>\<open>formatDuration\<close> on the durations of this file: whole seconds, or an infinite duration.\<close>

definition format_seconds :: "jsnum \<Rightarrow> string" where
  "format_seconds n = (case n of Fin q \<Rightarrow> formatDuration (Some \<lfloor>q\<rfloor>) | PosInf \<Rightarrow> ''Infinityh'' | NegInf \<Rightarrow> ''-Infinitys'' | NaN \<Rightarrow> formatDuration None)"

definition abs_num :: "jsnum \<Rightarrow> jsnum" where
  "abs_num n = (case n of Fin q \<Rightarrow> Fin \<bar>q\<bar> | NaN \<Rightarrow> NaN | _ \<Rightarrow> PosInf)"

definition baseline_duration :: "clock \<Rightarrow> hist_job \<Rightarrow> jsnum" where
  "baseline_duration clk b = computeJobDurationSeconds clk (Some (job_times.truncate b))"

definition baseline_total :: "hist_job \<Rightarrow> int" where
  "baseline_total b = or_else (coalesce (hj_task_count b) (stat_of ts_total b)) (completed_of b + failed_of b)"

definition baseline_throughput :: "clock \<Rightarrow> hist_job \<Rightarrow> rat" where
  "baseline_throughput clk b =
     (case baseline_duration clk b of
        Fin q \<Rightarrow> if q > 0 \<and> completed_of b > 0 then fixed_value 1 (of_int (completed_of b) / q) else 0
      | _ \<Rightarrow> 0)"

definition first_text :: "string option list \<Rightarrow> string option" where
  "first_text xs = List.find (\<lambda>s. s \<noteq> []) (List.map_filter id xs)"

section \<open>Deltas and verdict\<close>

record comp_measures =
  m_id :: string
  m_label :: string
  m_unit :: string
  m_live :: bool
  m_elapsedText :: string
  m_currentDuration :: int
  m_projected :: bool
  m_currentCompleted :: int
  m_currentTotal :: int
  m_currentRate :: rat
  m_currentFailure :: rat
  m_baselineDuration :: jsnum
  m_baselineCompleted :: int
  m_baselineTotal :: int
  m_baselineRate :: rat
  m_baselineFailure :: rat
  m_throughputComparable :: bool
  m_durationComparable :: bool
  m_tolerance :: jsnum

definition throughput_delta :: "comp_measures \<Rightarrow> rat" where
  "throughput_delta m =
     (if m_throughputComparable m \<and> m_baselineRate m > 0
      then fixed_value 1 ((m_currentRate m - m_baselineRate m) / m_baselineRate m * 100) else 0)"

definition duration_delta :: "comp_measures \<Rightarrow> jsnum" where
  "duration_delta m =
     (if m_durationComparable m
      then (case m_baselineDuration m of Fin q \<Rightarrow> Fin (of_int (m_currentDuration m) - q) | PosInf \<Rightarrow> NegInf | NegInf \<Rightarrow> PosInf | NaN \<Rightarrow> NaN)
      else Fin 0)"

definition duration_delta_percent :: "comp_measures \<Rightarrow> jsnum" where
  "duration_delta_percent m =
     (if m_durationComparable m
      then (case m_baselineDuration m of
              Fin q \<Rightarrow> if q > 0 then Fin (fixed_value 1 ((of_int (m_currentDuration m) - q) / q * 100)) else Fin 0
            | PosInf \<Rightarrow> NaN
            | _ \<Rightarrow> Fin 0)
      else Fin 0)"

definition failure_delta :: "comp_measures \<Rightarrow> rat" where
  "failure_delta m = fixed_value 1 (m_currentFailure m - m_baselineFailure m)"

definition at_least :: "rat \<Rightarrow> jsnum \<Rightarrow> bool" where
  "at_least b n \<longleftrightarrow> (case n of Fin q \<Rightarrow> b \<le> q | PosInf \<Rightarrow> True | _ \<Rightarrow> False)"

definition workload_comparable :: "comp_measures \<Rightarrow> bool" where
  "workload_comparable m \<longleftrightarrow>
     m_baselineTotal m > 0 \<and> isSimilarTaskCount (Fin (of_int (m_currentTotal m))) (Some (Fin (of_int (m_baselineTotal m)))) (m_tolerance m)"

datatype comp_status = Regression | Improvement | Parity

definition slower :: "comp_measures \<Rightarrow> bool" where
  "slower m \<longleftrightarrow> m_throughputComparable m \<and> throughput_delta m \<le> - 10"

definition less_reliable :: "comp_measures \<Rightarrow> bool" where
  "less_reliable m \<longleftrightarrow> failure_delta m \<ge> 3"

definition longer :: "comp_measures \<Rightarrow> bool" where
  "longer m \<longleftrightarrow> m_durationComparable m \<and> at_least 25 (duration_delta_percent m) \<and> workload_comparable m"

definition verdict_status :: "comp_measures \<Rightarrow> comp_status" where
  "verdict_status m =
     (if slower m \<or> less_reliable m \<or> longer m then Regression
      else if m_throughputComparable m \<and> throughput_delta m \<ge> 10 \<and> failure_delta m \<le> 1 / 2 then Improvement
      else Parity)"

definition verdict_text :: "(rat \<Rightarrow> string) \<Rightarrow> comp_measures \<Rightarrow> string \<times> string" where
  "verdict_text fs m =
     (let n = num fs; td = throughput_delta m; fd = failure_delta m; unit = m_unit m
      in if \<not> m_throughputComparable m
         then (''Throughput Comparison Unavailable'',
               ''The current run reports item throughput, but the selected historical summary only exposes task counts. Compare runs after loading a compatible item-level baseline.'')
         else if verdict_status m = Regression
         then (if slower m \<and> less_reliable m
               then (''Performance Regression: Throughput Drop ('' @ n td @ ''%) & Error Spike (+'' @ n fd @ ''%)'',
                     ''Throughput dropped from '' @ n (m_baselineRate m) @ '' to '' @ n (m_currentRate m) @ '' '' @ unit
                     @ '' while error rate spiked from '' @ n (m_baselineFailure m) @ ''% to '' @ n (m_currentFailure m)
                     @ ''%. Check route degradation or upstream rate limiting.'')
               else if slower m
               then (''Performance Regression: '' @ n \<bar>td\<bar> @ ''% Throughput Degradation'',
                     ''Throughput decreased from '' @ n (m_baselineRate m) @ '' '' @ unit @ '' in baseline to '' @ n (m_currentRate m) @ '' '' @ unit
                     @ '' (-'' @ n \<bar>td\<bar> @ ''%). Current-run diagnosis: '' @ m_label m @ ''.'')
               else if less_reliable m
               then (''Reliability Regression: +'' @ n fd @ ''% Failure Rate Spike'',
                     ''Task failure rate jumped from '' @ n (m_baselineFailure m) @ ''% in baseline to '' @ n (m_currentFailure m)
                     @ ''%. Check API error distribution and blocked proxies.'')
               else (''Duration Regression: +'' @ js_num_str fs (duration_delta_percent m) @ ''% Runtime Drift'',
                     ''Job took '' @ format_seconds (abs_num (duration_delta m))
                     @ '' longer to complete than baseline despite comparable task volumes.''))
         else if verdict_status m = Improvement
         then (''Performance Improvement: +'' @ n td @ ''% Throughput Gain'',
               ''Current run achieved '' @ n (m_currentRate m) @ '' '' @ unit @ '' vs baseline '' @ n (m_baselineRate m) @ '' '' @ unit
               @ '' (+'' @ n td @ ''%) with stable reliability.'')
         else (''Performance Parity (Nominal)'',
               ''Performance metrics are within normal variance compared to baseline run ('' @ m_id m @ '').''))"

definition key_differences :: "(rat \<Rightarrow> string) \<Rightarrow> (int \<Rightarrow> string) \<Rightarrow> comp_measures \<Rightarrow> string list" where
  "key_differences fs toLocaleString m =
     (let n = num fs; td = throughput_delta m; dd = duration_delta m; fd = failure_delta m;
          cd = m_currentCompleted m - m_baselineCompleted m;
          rates = '' ('' @ n (m_currentRate m) @ '' '' @ m_unit m @ '' vs baseline '' @ n (m_baselineRate m) @ '' '' @ m_unit m @ '')'';
          failures = ''% ('' @ n (m_currentFailure m) @ ''% vs baseline '' @ n (m_baselineFailure m) @ ''%)'';
          runtime = (if m_projected m then ''Projected runtime'' else ''Runtime'');
          spans = '' ('' @ (if m_projected m then ''~'' else []) @ formatDuration (Some (m_currentDuration m)) @ '' vs baseline ''
            @ format_seconds (m_baselineDuration m) @ '')''
      in (if \<not> m_throughputComparable m
          then [''Throughput delta unavailable: current item rate cannot be compared with the baseline task rate.''] else [])
       @ (if td = 0 then []
          else if td < 0 then [''Throughput regressed by '' @ n \<bar>td\<bar> @ ''%'' @ rates]
          else [''Throughput improved by +'' @ n td @ ''%'' @ rates])
       @ (if m_durationComparable m \<and> at_least 5 (abs_num dd)
          then [runtime @ (if (case dd of Fin q \<Rightarrow> q > 0 | PosInf \<Rightarrow> True | _ \<Rightarrow> False)
                           then '' duration increased by '' @ format_seconds dd
                           else '' duration reduced by '' @ format_seconds (abs_num dd)) @ spans]
          else if \<not> m_durationComparable m \<and> m_live m
          then [''Job is in progress ('' @ m_elapsedText m
                @ '' elapsed); final duration delta will be calculated once completed or once task count is known.'']
          else [])
       @ (if \<bar>fd\<bar> \<ge> 1 / 10
          then [if fd > 0 then ''Failure rate increased by +'' @ n fd @ failures else ''Failure rate decreased by '' @ n \<bar>fd\<bar> @ failures]
          else [])
       @ (if cd \<noteq> 0
          then [''Workload scale: '' @ toLocaleString (m_currentCompleted m) @ '' completed tasks vs baseline '' @ toLocaleString (m_baselineCompleted m)
                @ '' tasks ('' @ (if cd > 0 then ''+'' else []) @ toLocaleString cd @ '')'']
          else []))"

section \<open>The comparison\<close>

record compare_args =
  ca_telemetry :: comp_telemetry
  ca_jobId :: string
  ca_jobName :: string
  ca_isLive :: bool
  ca_currentJob :: "hist_job option"
  ca_tolerance :: jsnum
  ca_eta :: "job_eta_result option"

definition measures :: "clock \<Rightarrow> compare_args \<Rightarrow> hist_job \<Rightarrow> comp_measures" where
  "measures clk a b =
     (let t = ca_telemetry a; job = ca_currentJob a;
          remaining = remaining_projection t job (ca_isLive a) (Option.bind (ca_eta a) remainingSeconds)
      in \<lparr>m_id = hj_job_id b, m_label = ct_bottleneckLabel t, m_unit = rate_label t, m_live = ca_isLive a, m_elapsedText = elapsed_text t,
          m_currentDuration = elapsed_of t + or_else remaining 0, m_projected = (remaining \<noteq> None),
          m_currentCompleted = current_completed t job, m_currentTotal = current_total t job, m_currentRate = current_throughput t job,
          m_currentFailure = failure_rate (current_failed t job) (current_total t job),
          m_baselineDuration = baseline_duration clk b, m_baselineCompleted = completed_of b, m_baselineTotal = baseline_total b,
          m_baselineRate = baseline_throughput clk b, m_baselineFailure = failure_rate (failed_of b) (baseline_total b),
          m_throughputComparable = throughput_comparable t, m_durationComparable = (\<not> ca_isLive a \<or> remaining \<noteq> None),
          m_tolerance = ca_tolerance a\<rparr>)"

record baseline_run =
  br_jobId :: string
  br_jobName :: string
  br_status :: string
  br_site :: "string option"
  br_createdAt :: string
  br_startedAt :: "string option"
  br_completedAt :: "string option"
  br_durationSec :: jsnum
  br_durationFormatted :: string
  br_completedTasks :: int
  br_failedTasks :: int
  br_totalTasks :: int
  br_avgItemsPerSec :: rat
  br_failureRatePercent :: rat

record current_run =
  cr_jobId :: string
  cr_jobName :: string
  cr_status :: string
  cr_startedAt :: "string option"
  cr_completedAt :: "string option"
  cr_durationSec :: int
  cr_durationFormatted :: string
  cr_elapsedSec :: int
  cr_elapsedFormatted :: string
  cr_remainingSec :: "int option"
  cr_remainingFormatted :: "string option"
  cr_isProjectedDuration :: bool
  cr_completedTasks :: int
  cr_failedTasks :: int
  cr_totalTasks :: int
  cr_avgItemsPerSec :: rat
  cr_failureRatePercent :: rat

record comp_deltas =
  throughputDeltaPercent :: rat
  durationDeltaSec :: jsnum
  durationDeltaPercent :: jsnum
  durationComparable :: bool
  failureRateDeltaPercent :: rat
  completedTasksDelta :: int
  delta_status :: comp_status
  verdictTitle :: string
  verdictMessage :: string
  keyDifferences :: "string list"

record historical_comparison =
  baselineJob :: baseline_run
  currentRun :: current_run
  deltas :: comp_deltas
  throughputComparable :: bool

definition baseline_run_of :: "clock \<Rightarrow> hist_job \<Rightarrow> baseline_run" where
  "baseline_run_of clk b =
     \<lparr>br_jobId = hj_job_id b, br_jobName = or_else (hj_job_name b) (hj_job_id b), br_status = hj_status b, br_site = hj_site b,
      br_createdAt = or_else (jt_created_at b) [], br_startedAt = first_text [jt_started_at b, jt_created_at b],
      br_completedAt = first_text [jt_completed_at b, jt_last_ran_at b, jt_last_activity_at b, jt_updated_at b],
      br_durationSec = baseline_duration clk b, br_durationFormatted = format_seconds (baseline_duration clk b),
      br_completedTasks = completed_of b, br_failedTasks = failed_of b, br_totalTasks = baseline_total b,
      br_avgItemsPerSec = baseline_throughput clk b, br_failureRatePercent = failure_rate (failed_of b) (baseline_total b)\<rparr>"

definition current_run_of :: "compare_args \<Rightarrow> current_run" where
  "current_run_of a =
     (let t = ca_telemetry a; job = ca_currentJob a;
          remaining = remaining_projection t job (ca_isLive a) (Option.bind (ca_eta a) remainingSeconds);
          duration = elapsed_of t + or_else remaining 0
      in \<lparr>cr_jobId = ca_jobId a, cr_jobName = ca_jobName a,
          cr_status = (if ca_isLive a then ''running'' else or_str (Some (ct_jobOutcome t)) (or_str (map_option hj_status job) ''completed'')),
          cr_startedAt = (case Option.bind job jt_started_at of Some s \<Rightarrow> nonempty s | None \<Rightarrow> Option.bind (Option.bind job jt_created_at) nonempty),
          cr_completedAt = Option.bind (Option.bind job jt_completed_at) nonempty,
          cr_durationSec = duration, cr_durationFormatted = formatDuration (Some duration),
          cr_elapsedSec = elapsed_of t, cr_elapsedFormatted = elapsed_text t,
          cr_remainingSec = remaining, cr_remainingFormatted = map_option (\<lambda>r. formatDuration (Some r)) remaining,
          cr_isProjectedDuration = (remaining \<noteq> None),
          cr_completedTasks = current_completed t job, cr_failedTasks = current_failed t job, cr_totalTasks = current_total t job,
          cr_avgItemsPerSec = current_throughput t job,
          cr_failureRatePercent = failure_rate (current_failed t job) (current_total t job)\<rparr>)"

definition deltas_of :: "(rat \<Rightarrow> string) \<Rightarrow> (int \<Rightarrow> string) \<Rightarrow> comp_measures \<Rightarrow> comp_deltas" where
  "deltas_of fs toLocaleString m =
     \<lparr>throughputDeltaPercent = throughput_delta m, durationDeltaSec = duration_delta m, durationDeltaPercent = duration_delta_percent m,
      durationComparable = m_durationComparable m, failureRateDeltaPercent = failure_delta m,
      completedTasksDelta = m_currentCompleted m - m_baselineCompleted m, delta_status = verdict_status m,
      verdictTitle = fst (verdict_text fs m), verdictMessage = snd (verdict_text fs m), keyDifferences = key_differences fs toLocaleString m\<rparr>"

definition computeHistoricalComparison ::
  "(rat \<Rightarrow> string) \<Rightarrow> (int \<Rightarrow> string) \<Rightarrow> clock \<Rightarrow> compare_args \<Rightarrow> hist_job option \<Rightarrow> historical_comparison option" where
  "computeHistoricalComparison fs toLocaleString clk a baseline =
     (case baseline of
        None \<Rightarrow> None
      | Some b \<Rightarrow>
          if isJobRunningStatus (Some (hj_status b)) then None
          else Some \<lparr>baselineJob = baseline_run_of clk b, currentRun = current_run_of a,
                 deltas = deltas_of fs toLocaleString (measures clk a b), throughputComparable = throughput_comparable (ca_telemetry a)\<rparr>)"

section \<open>Facts on the verdict\<close>

fun verdict_rank :: "comp_status \<Rightarrow> nat" where
  "verdict_rank Regression = 0"
| "verdict_rank Parity = 1"
| "verdict_rank Improvement = 2"

lemma fixed_value_zero [simp]: "fixed_value d 0 = 0"
  by (simp add: fixed_value_def fixed_mag_def js_round_def floor_eq_iff)

lemma throughput_delta_mono:
  assumes "m_throughputComparable m' = m_throughputComparable m" "m_baselineRate m' = m_baselineRate m" "m_currentRate m \<le> m_currentRate m'"
  shows "throughput_delta m \<le> throughput_delta m'"
proof -
  have "(m_currentRate m - b) / b * 100 \<le> (m_currentRate m' - b) / b * 100" if "b > 0" for b
    using assms(3) that by (intro mult_right_mono divide_right_mono) simp_all
  from fixed_value_mono [OF this] show ?thesis
    unfolding throughput_delta_def assms(1,2) by simp
qed

lemma longer_update [simp]: "longer (m\<lparr>m_currentRate := rate, m_currentFailure := failure\<rparr>) = longer m"
proof -
  have "duration_delta_percent (m\<lparr>m_currentRate := rate, m_currentFailure := failure\<rparr>) = duration_delta_percent m"
    by (simp add: duration_delta_percent_def split: jsnum.split)
  then show ?thesis
    by (simp add: longer_def workload_comparable_def)
qed


lemma measures_live [simp]:
  "m_live (measures clk a b) = ca_isLive a"
  "m_throughputComparable (measures clk a b) = throughput_comparable (ca_telemetry a)"
  by (simp_all add: measures_def Let_def)

lemma similar_self: "n > 0 \<Longrightarrow> tol \<ge> 0 \<Longrightarrow> isSimilarTaskCount (Fin n) (Some (Fin n)) (Fin tol)"
  by (simp add: isSimilarTaskCount_def)

lemma similar_mono: "isSimilarTaskCount n c (Fin tol) \<Longrightarrow> tol \<le> tol' \<Longrightarrow> isSimilarTaskCount n c (Fin tol')"
  by (auto simp: isSimilarTaskCount_def split: jsnum.splits option.splits if_splits)

text \<open>
  A finished run compared with a baseline of the same counts, rate and duration is at parity: every delta is zero and no
  difference is listed.
\<close>

lemma equal_runs_parity:
  assumes "\<not> isJobRunningStatus (Some (hj_status b))" "\<not> ca_isLive a" "throughput_comparable (ca_telemetry a)"
    "baseline_duration clk b = Fin (of_int (elapsed_of (ca_telemetry a)))"
    "current_completed (ca_telemetry a) (ca_currentJob a) = completed_of b" "current_failed (ca_telemetry a) (ca_currentJob a) = failed_of b"
    "current_total (ca_telemetry a) (ca_currentJob a) = baseline_total b"
    "current_throughput (ca_telemetry a) (ca_currentJob a) = baseline_throughput clk b"
  shows "map_option deltas (computeHistoricalComparison fs toLocaleString clk a (Some b)) =
    Some \<lparr>throughputDeltaPercent = 0, durationDeltaSec = Fin 0, durationDeltaPercent = Fin 0, durationComparable = True,
      failureRateDeltaPercent = 0, completedTasksDelta = 0, delta_status = Parity, verdictTitle = ''Performance Parity (Nominal)'',
      verdictMessage = ''Performance metrics are within normal variance compared to baseline run ('' @ hj_job_id b @ '').'', keyDifferences = []\<rparr>"
proof -
  let ?m = "measures clk a b"
  have z: "throughput_delta ?m = 0" "duration_delta ?m = Fin 0" "duration_delta_percent ?m = Fin 0" "failure_delta ?m = 0"
    "m_currentCompleted ?m = m_baselineCompleted ?m" "m_durationComparable ?m" "m_throughputComparable ?m" "m_id ?m = hj_job_id b"
    using assms
    by (simp_all add: measures_def Let_def throughput_delta_def duration_delta_def duration_delta_percent_def failure_delta_def
        remaining_projection_def or_else_def)
  then have "verdict_status ?m = Parity"
    by (simp add: verdict_status_def slower_def less_reliable_def longer_def at_least_def)
  with z assms(1) show ?thesis
    by (simp add: computeHistoricalComparison_def deltas_of_def verdict_text_def key_differences_def Let_def at_least_def abs_num_def)
qed

lemma projected_duration: "elapsed_of (ca_telemetry a) \<le> cr_durationSec (current_run_of a)"
  by (auto simp: current_run_of_def Let_def remaining_projection_def or_else_def split: option.splits)

lemma duration_regression_needs_workload:
  assumes "verdict_status m = Regression" "\<not> slower m" "\<not> less_reliable m"
  shows "m_durationComparable m \<and> workload_comparable m"
  using assms by (simp add: verdict_status_def longer_def split: if_splits)

definition demo_telemetry :: comp_telemetry where
  "demo_telemetry = \<lparr>ct_totalDurationSec = 100, ct_totalDurationFormatted = ''1m 40s'', ct_jobOutcome = ''completed'', ct_overallAvgItemsPerSec = 1,
     ct_durationSource = None, ct_currentItemsPerSec = 0, ct_throughputUnit = Some ''tasks'', ct_quality = None, ct_totalErrors = 0,
     ct_totalTasksCount = 100, ct_completedTasksCount = 100, ct_bottleneckLabel = ''Optimal''\<rparr>"

definition demo_baseline :: hist_job where
  "demo_baseline = \<lparr>jt_duration_seconds = JNum (Fin 100), jt_metadata = JUndef, jt_started_at = None, jt_created_at = None, jt_completed_at = None,
     jt_last_ran_at = None, jt_last_activity_at = None, jt_updated_at = None, hj_job_id = ''b'', hj_job_name = None, hj_status = ''completed'',
     hj_site = None, hj_task_count = Some 100, hj_completed_tasks = Some 100, hj_failed_tasks = Some 0, hj_task_stats = None\<rparr>"

definition demo_args :: "comp_telemetry \<Rightarrow> compare_args" where
  "demo_args t = \<lparr>ca_telemetry = t, ca_jobId = ''a'', ca_jobName = ''a'', ca_isLive = False, ca_currentJob = None,
     ca_tolerance = Fin DEFAULT_TASK_COUNT_BOUNDARY, ca_eta = None\<rparr>"

lemma equal_runs_parity_witness:
  "map_option (\<lambda>r. delta_status (deltas r)) (computeHistoricalComparison (\<lambda>_. []) (\<lambda>_. []) sample_clock (demo_args demo_telemetry) (Some demo_baseline))
    = Some Parity"
proof -
  let ?a = "demo_args demo_telemetry"
  have 1: "\<not> isJobRunningStatus (Some (hj_status demo_baseline))" by code_simp
  have 2: "\<not> ca_isLive ?a" by code_simp
  have 3: "throughput_comparable (ca_telemetry ?a)" by code_simp
  have 4: "baseline_duration sample_clock demo_baseline = Fin (of_int (elapsed_of (ca_telemetry ?a)))" by code_simp
  have 5: "current_completed (ca_telemetry ?a) (ca_currentJob ?a) = completed_of demo_baseline" by code_simp
  have 6: "current_failed (ca_telemetry ?a) (ca_currentJob ?a) = failed_of demo_baseline" by code_simp
  have 7: "current_total (ca_telemetry ?a) (ca_currentJob ?a) = baseline_total demo_baseline" by code_simp
  have 8: "current_throughput (ca_telemetry ?a) (ca_currentJob ?a) = baseline_throughput sample_clock demo_baseline" by code_simp
  from equal_runs_parity [OF 1 2 3 4 5 6 7 8, THEN arg_cong [where f = "map_option delta_status"]]
  show ?thesis
    by (simp only: option.map option.map_comp o_def comp_deltas.simps)
qed

definition demo_measures :: "rat \<Rightarrow> rat \<Rightarrow> comp_measures" where
  "demo_measures rate failure = \<lparr>m_id = ''b'', m_label = [], m_unit = ''tasks/s'', m_live = False, m_elapsedText = [], m_currentDuration = 100,
     m_projected = False, m_currentCompleted = 100, m_currentTotal = 100, m_currentRate = rate, m_currentFailure = failure,
     m_baselineDuration = Fin 100, m_baselineCompleted = 100, m_baselineTotal = 100, m_baselineRate = 1, m_baselineFailure = 0,
     m_throughputComparable = True, m_durationComparable = True, m_tolerance = Fin (1 / 10)\<rparr>"


text \<open>
  A run whose failure rate rises by three points or more is a regression, but when rates cannot be compared both texts of
  the verdict are replaced by the one on throughput, whatever made them incomparable.
\<close>

lemma regression_called_unavailable:
  assumes "less_reliable m" "\<not> m_throughputComparable m"
  shows "verdict_status m = Regression \<and> fst (verdict_text fs m) = ''Throughput Comparison Unavailable''"
  using assms by (simp add: verdict_status_def verdict_text_def)

end
