(* ===== verification/Rates.thy ===== *)
theory Rates
  imports JsJson JsRegex
begin

text \<open>
  Rates and their charts: \<open>features/dashboard/lib\<close> (\<open>dashboardUtils.ts\<close>, \<open>dashboardChartUtils.ts\<close>) and
  \<open>features/jobs/lib/diagnosticsChartUtils.ts\<close>. Speeds that the dashboard keeps from poll to poll, the throughput timeline of a
  job with its buckets and rolling windows, and the path of a chart. Counts and times are finite numbers; a dictionary of
  samples is a map, as it is only looked up; \<open>toLocaleString\<close> and fractional numbers are printed by parameters.
\<close>

section \<open>Completion rates of jobs\<close>

record completion_sample =
  cs_timestamp :: rat
  cs_completedTasks :: rat
  cs_runCount :: rat
  cs_rate :: rat

record polled_job =
  pj_job_id :: string
  pj_completed_tasks :: jsnum
  pj_run_count :: "rat option"

definition completed_count :: "polled_job \<Rightarrow> rat" where
  "completed_count job = (case pj_completed_tasks job of Fin q \<Rightarrow> max 0 q | _ \<Rightarrow> 0)"

definition next_sample :: "rat \<Rightarrow> polled_job \<Rightarrow> completion_sample option \<Rightarrow> completion_sample" where
  "next_sample updatedAt job previous =
     (let completedTasks = completed_count job; runCount = or_else (pj_run_count job) 0;
          fresh = (\<lambda>r. \<lparr>cs_timestamp = updatedAt, cs_completedTasks = completedTasks, cs_runCount = runCount, cs_rate = r\<rparr>)
      in case previous of
           None \<Rightarrow> fresh 0
         | Some p \<Rightarrow>
             let elapsed = (updatedAt - cs_timestamp p) / 1000;
                 reset = (completedTasks < cs_completedTasks p \<or> runCount \<noteq> cs_runCount p)
             in if \<not> reset \<and> elapsed < 3 / 4 then p
                else fresh (if \<not> reset \<and> elapsed > 0 then (completedTasks - cs_completedTasks p) / elapsed else 0))"

definition buildJobCompletionSamples ::
  "polled_job list \<Rightarrow> rat \<Rightarrow> (string \<rightharpoonup> completion_sample) \<Rightarrow> string \<rightharpoonup> completion_sample" where
  "buildJobCompletionSamples jobs updatedAt previousSamples =
     fold (\<lambda>job samples. samples(pj_job_id job \<mapsto> next_sample updatedAt job (previousSamples (pj_job_id job)))) jobs Map.empty"

section \<open>Speeds of active tasks\<close>

text \<open>The fields of a polled task that are read; \<open>pt_rest\<close> is copied.\<close>

record 'a polled_task =
  pt_job_id :: string
  pt_task_type :: string
  pt_task_id :: "string option"
  pt_username :: "string option"
  pt_status :: "string option"
  pt_content_type :: "string option"
  pt_items_total :: "rat option"
  pt_items_processed :: "rat option"
  pt_items_scraped :: "rat option"
  pt_items_saved :: "rat option"
  pt_progress :: "rat option"
  pt_rest :: 'a

record stage_sample =
  ss_lastUpdated :: rat
  ss_scrapedProcessed :: rat
  ss_savedProcessed :: rat
  ss_itemsProcessed :: rat
  ss_scrapedSpeed :: rat
  ss_savedSpeed :: rat
  ss_itemsSpeed :: rat

datatype active_status = TaskPending | TaskRunning | TaskCompleted | TaskFailed

record 'a task_with_speed =
  tw_task :: "'a polled_task"
  tw_status :: active_status
  tw_items_processed :: "rat option"
  tw_progress :: rat
  tw_scraped :: rat
  tw_saved :: rat
  tw_stage_total :: "rat option"
  tw_scraped_speed :: rat
  tw_saved_speed :: rat
  tw_speed :: rat
  tw_lastUpdated :: rat

definition generateTaskKey :: "'a polled_task \<Rightarrow> string" where
  "generateTaskKey t =
     (case Option.bind (pt_task_id t) nonempty of
        Some i \<Rightarrow> pt_job_id t @ '':'' @ i
      | None \<Rightarrow> pt_job_id t @ '':'' @ pt_task_type t @ '':'' @ lower (or_else (pt_username t) ''unknown''))"

definition normalizeTaskStatus :: "string option \<Rightarrow> active_status" where
  "normalizeTaskStatus status =
     (let n = lower (or_else status ''running'')
      in if n = ''pending'' \<or> n = ''claimed'' then TaskPending
         else if n = ''completed'' \<or> n = ''success'' \<or> n = ''db_saved'' then TaskCompleted
         else if n = ''failed'' \<or> n = ''cancelled'' \<or> n = ''error'' then TaskFailed
         else TaskRunning)"

definition isSubscriptionScrapeTask :: "'a polled_task \<Rightarrow> bool" where
  "isSubscriptionScrapeTask t \<longleftrightarrow> lower (pt_task_type t) = ''scrape'' \<and> lower (or_else (pt_content_type t) []) = ''subscriptions''"

definition internal_task :: "'a polled_task \<Rightarrow> bool" where
  "internal_task t \<longleftrightarrow>
     (let j = lower (pt_job_id t)
      in j = ''api'' \<or> starts_with ''api-'' j \<or> starts_with ''test-'' j \<or> pt_task_type t = ''api_command'')"

definition uses_stages :: "'a polled_task \<Rightarrow> bool" where
  "uses_stages t \<longleftrightarrow> lower (pt_task_type t) = ''scrape'' \<and> \<not> isSubscriptionScrapeTask t"

definition counter :: "rat option \<Rightarrow> rat" where
  "counter v = max (or_else v 0) 0"

definition sample_invalid :: "'a polled_task \<Rightarrow> stage_sample \<Rightarrow> bool" where
  "sample_invalid t s \<longleftrightarrow>
     (if uses_stages t then counter (pt_items_scraped t) < ss_scrapedProcessed s \<or> counter (pt_items_saved t) < ss_savedProcessed s
      else counter (pt_items_processed t) < ss_itemsProcessed s)"

text \<open>Exponential smoothing of a speed with the work of one interval.\<close>

definition smoothed :: "rat \<Rightarrow> rat \<Rightarrow> rat \<Rightarrow> rat \<Rightarrow> rat" where
  "smoothed speed before_count now_count timeDelta = speed * (65 / 100) + max 0 (now_count - before_count) / timeDelta * (35 / 100)"

definition next_speeds :: "rat \<Rightarrow> 'a polled_task \<Rightarrow> stage_sample option \<Rightarrow> stage_sample" where
  "next_speeds updatedAt t previous =
     (let scraped = counter (pt_items_scraped t); saved = counter (pt_items_saved t); processed = counter (pt_items_processed t);
          fresh = (\<lambda>a b c. \<lparr>ss_lastUpdated = updatedAt, ss_scrapedProcessed = scraped, ss_savedProcessed = saved, ss_itemsProcessed = processed,
                    ss_scrapedSpeed = a, ss_savedSpeed = b, ss_itemsSpeed = c\<rparr>)
      in case previous of
           None \<Rightarrow> fresh 0 0 0
         | Some s \<Rightarrow>
             if sample_invalid t s then fresh 0 0 0
             else let timeDelta = (updatedAt - ss_lastUpdated s) / 1000
                  in if timeDelta \<ge> 3 / 4
                     then (if uses_stages t
                           then fresh (smoothed (ss_scrapedSpeed s) (ss_scrapedProcessed s) scraped timeDelta)
                                  (smoothed (ss_savedSpeed s) (ss_savedProcessed s) saved timeDelta) (ss_itemsSpeed s)
                           else fresh (ss_scrapedSpeed s) (ss_savedSpeed s)
                                  (smoothed (ss_itemsSpeed s) (ss_itemsProcessed s) processed timeDelta))
                     else fresh (ss_scrapedSpeed s) (ss_savedSpeed s) (ss_itemsSpeed s))"

definition shown_task :: "rat \<Rightarrow> 'a polled_task \<Rightarrow> stage_sample \<Rightarrow> 'a task_with_speed" where
  "shown_task updatedAt t s =
     (let scraped = counter (pt_items_scraped t); saved = counter (pt_items_saved t);
          activeProcessed = (if uses_stages t then Some (if saved > 0 then saved else scraped) else pt_items_processed t);
          activeProgress = (if uses_stages t
            then (case pt_items_total t of
                    Some n \<Rightarrow> if n > 0 then min (or_else activeProcessed 0 / n) 1 else or_else (pt_progress t) 0
                  | None \<Rightarrow> or_else (pt_progress t) 0)
            else or_else (pt_progress t) 0)
      in \<lparr>tw_task = t, tw_status = normalizeTaskStatus (pt_status t), tw_items_processed = activeProcessed, tw_progress = activeProgress,
          tw_scraped = scraped, tw_saved = saved, tw_stage_total = (if lower (pt_task_type t) = ''scrape'' then pt_items_total t else None),
          tw_scraped_speed = (if uses_stages t then ss_scrapedSpeed s else 0), tw_saved_speed = (if uses_stages t then ss_savedSpeed s else 0),
          tw_speed = (if uses_stages t then (if ss_savedSpeed s > 0 then ss_savedSpeed s else ss_scrapedSpeed s) else ss_itemsSpeed s),
          tw_lastUpdated = updatedAt\<rparr>)"

definition buildActiveTaskState ::
  "'a polled_task list \<Rightarrow> rat \<Rightarrow> (string \<rightharpoonup> stage_sample) \<Rightarrow> 'a task_with_speed list \<times> (string \<rightharpoonup> stage_sample)" where
  "buildActiveTaskState polledTasks updatedAt previousSamples =
     fold (\<lambda>t (result, samples).
        if internal_task t then (result, samples)
        else let key = generateTaskKey t; s = next_speeds updatedAt t (previousSamples key)
             in (result @ [shown_task updatedAt t s],
                 if normalizeTaskStatus (pt_status t) = TaskRunning then samples(key \<mapsto> s) else samples))
       polledTasks ([], Map.empty)"

definition rate_digits :: "rat \<Rightarrow> nat" where
  "rate_digits v = (if v \<ge> 100 then 0 else if v \<ge> 10 then 1 else 2)"

definition formatBytesPerSecond :: "rat \<Rightarrow> string" where
  "formatBytesPerSecond b =
     (if b < 1024 then to_fixed 0 b @ '' B/s''
      else let kb = b / 1024
           in if kb < 1024 then to_fixed (rate_digits kb) kb @ '' KB/s''
              else let mb = kb / 1024
                   in if mb < 1024 then to_fixed (rate_digits mb) mb @ '' MB/s''
                      else let gb = mb / 1024 in to_fixed (rate_digits gb) gb @ '' GB/s'')"

section \<open>The path of a chart\<close>

record chart_point =
  cp_timestamp :: rat
  cp_value :: rat

definition clamp :: "rat \<Rightarrow> rat \<Rightarrow> rat \<Rightarrow> rat" where
  "clamp v minimum maximum = min maximum (max minimum v)"

record chart_box =
  cb_width :: rat
  cb_height :: rat
  cb_scaleMaximum :: "rat option"
  cb_domainStart :: "jsnum option"
  cb_domainEnd :: "jsnum option"
  cb_scaleMinimum :: jsnum

definition scale_minimum :: "chart_box \<Rightarrow> rat" where
  "scale_minimum box = (case cb_scaleMinimum box of Fin q \<Rightarrow> q | _ \<Rightarrow> 0)"

definition scale_maximum :: "chart_box \<Rightarrow> chart_point list \<Rightarrow> rat" where
  "scale_maximum box points =
     max (or_else (cb_scaleMaximum box) (foldr max (map cp_value points) 0)) (scale_minimum box + 1)"

definition domain_start :: "chart_box \<Rightarrow> chart_point list \<Rightarrow> rat" where
  "domain_start box points =
     (case cb_domainStart box of
        Some (Fin q) \<Rightarrow> q
      | _ \<Rightarrow> cp_timestamp (hd points))"

definition domain_end :: "chart_box \<Rightarrow> chart_point list \<Rightarrow> rat" where
  "domain_end box points =
     (let start = domain_start box points
      in case or_else (cb_domainEnd box) (Fin (cp_timestamp (last points))) of Fin q \<Rightarrow> max q (start + 1) | _ \<Rightarrow> start + 1)"

definition point_x :: "chart_box \<Rightarrow> chart_point list \<Rightarrow> chart_point \<Rightarrow> rat" where
  "point_x box points p =
     (let start = domain_start box points
      in min (cb_width box) (max 0 ((cp_timestamp p - start) / (domain_end box points - start) * cb_width box)))"

definition point_y :: "chart_box \<Rightarrow> chart_point list \<Rightarrow> chart_point \<Rightarrow> rat" where
  "point_y box points p =
     cb_height box - 12
       - clamp ((cp_value p - scale_minimum box) / (scale_maximum box points - scale_minimum box)) 0 1 * (cb_height box - 24)"

text \<open>The corners of the path, in order.\<close>

definition chart_corners :: "chart_box \<Rightarrow> chart_point list \<Rightarrow> (rat \<times> rat) list" where
  "chart_corners box points =
     (case points of
        [] \<Rightarrow> []
      | [p] \<Rightarrow> let x = point_x box points p; y = point_y box points p in [(max 0 (x - 1), y), (min (cb_width box) (x + 1), y)]
      | _ \<Rightarrow> map (\<lambda>p. (point_x box points p, point_y box points p)) (sort_cmp (cmp_on cp_timestamp cmp_num) points))"

definition chartPath :: "(rat \<Rightarrow> string) \<Rightarrow> chart_box \<Rightarrow> chart_point list \<Rightarrow> string" where
  "chartPath fs box points =
     (if points = []
      then ''M0 '' @ js_num_str fs (Fin (cb_height box - 12)) @ '' L'' @ js_num_str fs (Fin (cb_width box)) @ '' '' @ js_num_str fs (Fin (cb_height box - 12))
      else join '' '' (map_index (\<lambda>i (x, y). (if i = 0 then ''M'' else ''L'') @ to_fixed 1 x @ '' '' @ to_fixed 1 y) 0 (chart_corners box points)))"

section \<open>The throughput timeline of a job\<close>

definition MAX_CHART_LINE_GAP_MS :: rat where
  "MAX_CHART_LINE_GAP_MS = 5000"

definition MIN_RUNTIME_SAMPLE_INTERVAL_MS :: rat where
  "MIN_RUNTIME_SAMPLE_INTERVAL_MS = 500"

record job_sample =
  jsm_timestamp :: rat
  jsm_completed :: rat
  jsm_failed :: rat
  jsm_inflight :: rat

record throughput_point =
  tp_timestamp :: rat
  tp_intervalStart :: rat
  tp_intervalMs :: rat
  tp_completedDelta :: rat
  tp_throughput :: "rat option"
  tp_inflight :: rat

definition finished_count :: "job_sample \<Rightarrow> rat" where
  "finished_count s = jsm_completed s + jsm_failed s"

definition interval_point :: "job_sample \<Rightarrow> job_sample \<Rightarrow> throughput_point" where
  "interval_point previous sample =
     (let intervalMs = jsm_timestamp sample - jsm_timestamp previous;
          completedDelta = max 0 (jsm_completed sample + jsm_failed sample - jsm_completed previous - jsm_failed previous)
      in \<lparr>tp_timestamp = jsm_timestamp sample, tp_intervalStart = jsm_timestamp previous, tp_intervalMs = intervalMs,
          tp_completedDelta = completedDelta,
          tp_throughput = (if intervalMs \<le> MAX_CHART_LINE_GAP_MS then Some (fixed_value 1 (completedDelta / (intervalMs / 1000))) else None),
          tp_inflight = jsm_inflight sample\<rparr>)"

fun timeline_after :: "job_sample \<Rightarrow> job_sample list \<Rightarrow> throughput_point list" where
  "timeline_after previous [] = []"
| "timeline_after previous (s # ss) =
     (if jsm_timestamp s - jsm_timestamp previous < MIN_RUNTIME_SAMPLE_INTERVAL_MS then timeline_after previous ss
      else interval_point previous s # timeline_after s ss)"

definition buildRuntimeThroughputTimeline :: "job_sample list \<Rightarrow> throughput_point list" where
  "buildRuntimeThroughputTimeline samples =
     (case samples of
        [] \<Rightarrow> []
      | s # ss \<Rightarrow> \<lparr>tp_timestamp = jsm_timestamp s, tp_intervalStart = jsm_timestamp s, tp_intervalMs = 0, tp_completedDelta = 0,
                    tp_throughput = None, tp_inflight = jsm_inflight s\<rparr> # timeline_after s ss)"

definition RUNTIME_CHART_TARGET_POINTS :: rat where
  "RUNTIME_CHART_TARGET_POINTS = 120"

definition RUNTIME_BUCKET_STEPS_MS :: "rat list" where
  "RUNTIME_BUCKET_STEPS_MS = [1000, 5000, 10000, 15000, 30000, 60000, 120000, 300000, 600000, 900000, 1800000, 3600000]"

definition chooseRuntimeBucketMs :: "rat \<Rightarrow> rat" where
  "chooseRuntimeBucketMs spanMs =
     or_else (List.find (\<lambda>step. spanMs / step \<le> RUNTIME_CHART_TARGET_POINTS) RUNTIME_BUCKET_STEPS_MS) (last RUNTIME_BUCKET_STEPS_MS)"

definition formatBucketDuration :: "int \<Rightarrow> string" where
  "formatBucketDuration ms =
     (if ms \<ge> 3600000 \<and> ms mod 3600000 = 0 then show_int (ms div 3600000) @ ''h''
      else if ms \<ge> 60000 \<and> ms mod 60000 = 0 then show_int (ms div 60000) @ ''m''
      else show_int (js_round (of_int ms / 1000)) @ ''s'')"

text \<open>\<open>grouped\<close>: a \<open>Map\<close> from indices to members, in insertion order.\<close>

fun add_member :: "'k \<Rightarrow> 'a \<Rightarrow> ('k \<times> 'a list) list \<Rightarrow> ('k \<times> 'a list) list" where
  "add_member k x [] = [(k, [x])]"
| "add_member k x ((k', xs) # m) = (if k' = k then (k', xs @ [x]) # m else (k', xs) # add_member k x m)"

definition bucket_index :: "rat \<Rightarrow> rat \<Rightarrow> throughput_point \<Rightarrow> int" where
  "bucket_index origin bucketMs p = \<lfloor>(tp_timestamp p - origin) / bucketMs\<rfloor>"

definition bucket_point :: "rat \<Rightarrow> rat \<Rightarrow> int \<times> throughput_point list \<Rightarrow> throughput_point" where
  "bucket_point origin bucketMs g =
     (case g of (index, members) \<Rightarrow>
        let measured = filter (\<lambda>p. tp_throughput p \<noteq> None) members;
            intervalMs = sum_list (map tp_intervalMs measured);
            completedDelta = sum_list (map tp_completedDelta measured)
        in \<lparr>tp_timestamp = tp_timestamp (last members), tp_intervalStart = origin + of_int index * bucketMs, tp_intervalMs = intervalMs,
            tp_completedDelta = completedDelta,
            tp_throughput = (if intervalMs > 0 then Some (fixed_value 1 (completedDelta / (intervalMs / 1000))) else None),
            tp_inflight = of_int (js_round (sum_list (map tp_inflight members) / of_nat (length members)))\<rparr>)"

definition bucketRuntimeThroughputTimeline :: "throughput_point list \<Rightarrow> rat \<Rightarrow> throughput_point list" where
  "bucketRuntimeThroughputTimeline points bucketMs =
     (if bucketMs \<le> 1000 \<or> points = [] then points
      else let origin = tp_intervalStart (hd points)
           in map (bucket_point origin bucketMs) (fold (\<lambda>p. add_member (bucket_index origin bucketMs p) p) points []))"

text \<open>The loop walks back from a point and stops at the first interval that ended before the window.\<close>

definition window_intervals :: "throughput_point list \<Rightarrow> rat \<Rightarrow> nat \<Rightarrow> throughput_point list" where
  "window_intervals points cutoff i =
     filter (\<lambda>p. tp_throughput p \<noteq> None \<and> tp_intervalStart p \<ge> cutoff)
       (takeWhile (\<lambda>p. tp_timestamp p > cutoff) (rev (take (Suc i) points)))"

definition rollingRuntimeThroughput :: "throughput_point list \<Rightarrow> rat \<Rightarrow> rat option list" where
  "rollingRuntimeThroughput points windowMs =
     map_index (\<lambda>i p.
       if tp_throughput p = None then None
       else let used = window_intervals points (tp_timestamp p - windowMs) i;
                coveredMs = sum_list (map tp_intervalMs used)
            in if coveredMs > 0 then Some (fixed_value 1 (sum_list (map tp_completedDelta used) / (coveredMs / 1000))) else None) 0 points"

text \<open>\<open>labels[stage] ?? stage.replaceAll('_', ' ')\<close>\<close>

definition refillStageLabel :: "string \<Rightarrow> string" where
  "refillStageLabel stage =
     or_else (map_of [(''queued'', ''Refill queued''), (''materializer_dequeued'', ''Materializer dequeued''),
        (''materializer_started'', ''Materializer started''), (''archive_started'', ''Archive started''),
        (''archive_finished'', ''Archive finished''), (''tasks_published'', ''Ready tasks published''),
        (''tasks_activated'', ''Tasks activated''), (''runtime_controls'', ''Effective refill controls''),
        (''cleanup_started'', ''Cleanup started''), (''cleanup_finished'', ''Cleanup finished''),
        (''manifest_read_started'', ''Manifest read started''), (''manifest_read_finished'', ''Manifest read finished''),
        (''publication_started'', ''Publication started''), (''refill_stopped'', ''Refill stopped'')] stage)
       (map (\<lambda>c. if c = CHR ''_'' then CHR '' '' else c) stage)"

definition formatElapsedMs :: "(rat \<Rightarrow> string) \<Rightarrow> rat \<Rightarrow> string" where
  "formatElapsedMs fs v = (if v < 1000 then js_num_str fs (Fin v) @ '' ms'' else to_fixed 2 (v / 1000) @ '' s'')"

record refill_event =
  re_stage :: string
  re_ready_added :: "rat option"
  re_task_count :: "rat option"

definition refillBatchLabel :: "(rat \<Rightarrow> string) \<Rightarrow> refill_event \<Rightarrow> string" where
  "refillBatchLabel toLocaleString e =
     (case re_ready_added e of
        Some n \<Rightarrow> toLocaleString n @ '' ready''
      | None \<Rightarrow>
          (case re_task_count e of
             None \<Rightarrow> [CHR 0xE2, CHR 0x80, CHR 0x94]
           | Some n \<Rightarrow> toLocaleString n @ (if re_stage e = ''archive_started'' then '' to archive''
                                             else if re_stage e = ''archive_finished'' then '' archived'' else '' tasks'')))"

section \<open>Completions are counted once\<close>

text \<open>Intervals that follow each other without a gap, each at least half a second long.\<close>

fun chained :: "throughput_point list \<Rightarrow> bool" where
  "chained (p # q # ps) \<longleftrightarrow> tp_intervalStart q = tp_timestamp p \<and> tp_intervalMs q = tp_timestamp q - tp_timestamp p
     \<and> tp_intervalMs q \<ge> MIN_RUNTIME_SAMPLE_INTERVAL_MS \<and> chained (q # ps)"
| "chained ps \<longleftrightarrow> True"

lemma chained_timeline_after: "tp_timestamp p = jsm_timestamp s \<Longrightarrow> chained (p # timeline_after s ss)"
  by (induction s ss arbitrary: p rule: timeline_after.induct) (auto simp: interval_point_def Let_def)

lemma chained_timeline: "chained (buildRuntimeThroughputTimeline samples)"
  by (cases samples) (simp_all add: buildRuntimeThroughputTimeline_def chained_timeline_after)

lemma timeline_after_sum:
  assumes "sorted_wrt (\<lambda>a b. finished_count a \<le> finished_count b) (s # ss)"
  shows "\<exists>l \<in> set (s # ss). jsm_timestamp l = last (jsm_timestamp s # map tp_timestamp (timeline_after s ss))
    \<and> sum_list (map tp_completedDelta (timeline_after s ss)) = finished_count l - finished_count s"
  using assms
proof (induction s ss rule: timeline_after.induct)
  case (2 previous s ss)
  show ?case
  proof (cases "jsm_timestamp s - jsm_timestamp previous < MIN_RUNTIME_SAMPLE_INTERVAL_MS")
    case True
    have "sorted_wrt (\<lambda>a b. finished_count a \<le> finished_count b) (previous # ss)" using "2.prems" by simp
    from "2.IH"(1) [OF True this] obtain l where "l \<in> set (previous # ss)"
        "jsm_timestamp l = last (jsm_timestamp previous # map tp_timestamp (timeline_after previous ss))"
        "sum_list (map tp_completedDelta (timeline_after previous ss)) = finished_count l - finished_count previous"
      by blast
    then show ?thesis using True by (intro bexI [of _ l]) auto
  next
    case False
    have "sorted_wrt (\<lambda>a b. finished_count a \<le> finished_count b) (s # ss)" using "2.prems" by simp
    from "2.IH"(2) [OF False this] obtain l where l: "l \<in> set (s # ss)"
        "jsm_timestamp l = last (jsm_timestamp s # map tp_timestamp (timeline_after s ss))"
        "sum_list (map tp_completedDelta (timeline_after s ss)) = finished_count l - finished_count s"
      by blast
    have "tp_completedDelta (interval_point previous s) = finished_count s - finished_count previous"
      using "2.prems" by (simp add: interval_point_def finished_count_def Let_def)
    then show ?thesis using False l by (intro bexI [of _ l]) (auto simp: interval_point_def Let_def)
  qed
qed simp

lemma add_member_sum: "sum_list (map (\<lambda>g. sum_list (map f (snd g))) (add_member k x m)) = sum_list (map (\<lambda>g. sum_list (map f (snd g))) m) + (f x :: rat)"
  by (induction k x m rule: add_member.induct) auto

lemma group_sum:
  "sum_list (map (\<lambda>g. sum_list (map f (snd g))) (fold (\<lambda>p. add_member (h p) p) ps m))
     = sum_list (map (\<lambda>g. sum_list (map f (snd g))) m) + sum_list (map (f :: _ \<Rightarrow> rat) ps)"
  by (induction ps arbitrary: m) (simp_all add: add_member_sum)

lemma sum_list_filter: "sum_list (map f (filter P xs)) = sum_list (map (\<lambda>x. if P x then f x else (0::rat)) xs)"
  by (induction xs) auto

lemma bucket_sum:
  assumes "bucketMs > 1000" "points \<noteq> []"
  shows "sum_list (map tp_completedDelta (bucketRuntimeThroughputTimeline points bucketMs))
      = sum_list (map tp_completedDelta (filter (\<lambda>p. tp_throughput p \<noteq> None) points))"
    "sum_list (map tp_intervalMs (bucketRuntimeThroughputTimeline points bucketMs))
      = sum_list (map tp_intervalMs (filter (\<lambda>p. tp_throughput p \<noteq> None) points))"
  using assms
  by (simp_all add: bucketRuntimeThroughputTimeline_def bucket_point_def Let_def o_def case_prod_beta sum_list_filter group_sum)


definition demo_sample :: "rat \<Rightarrow> rat \<Rightarrow> job_sample" where
  "demo_sample t n = \<lparr>jsm_timestamp = t, jsm_completed = n, jsm_failed = 0, jsm_inflight = 1\<rparr>"


section \<open>Completed work shows in the rates\<close>

text \<open>The samples after each of a series of polls, as the dashboard threads them, and those of one job.\<close>

fun poll_maps :: "(string \<rightharpoonup> completion_sample) \<Rightarrow> (rat \<times> polled_job list) list \<Rightarrow> (string \<rightharpoonup> completion_sample) list" where
  "poll_maps m [] = []"
| "poll_maps m ((t, jobs) # polls) = (let m' = buildJobCompletionSamples jobs t m in m' # poll_maps m' polls)"

fun job_samples :: "completion_sample option \<Rightarrow> (rat \<times> polled_job) list \<Rightarrow> completion_sample list" where
  "job_samples s [] = []"
| "job_samples s ((t, j) # polls) = (let s' = next_sample t j s in s' # job_samples (Some s') polls)"

text \<open>The work that the rates of consecutive samples stand for.\<close>

fun work_of :: "completion_sample list \<Rightarrow> rat" where
  "work_of (a # b # ss) = cs_rate b * ((cs_timestamp b - cs_timestamp a) / 1000) + work_of (b # ss)"
| "work_of ss = 0"

lemma build_samples_lookup:
  assumes "List.find (\<lambda>j. pj_job_id j = i) jobs = Some job" "distinct (map pj_job_id jobs)"
  shows "buildJobCompletionSamples jobs t prev i = Some (next_sample t job (prev i))"
proof -
  have "fold (\<lambda>j m. m(pj_job_id j \<mapsto> next_sample t j (prev (pj_job_id j)))) jobs m i = Some (next_sample t job (prev i))" for m
    using assms
  proof (induction jobs arbitrary: m)
    case (Cons j jobs)
    have keep: "fold (\<lambda>j m. m(pj_job_id j \<mapsto> next_sample t j (prev (pj_job_id j)))) js m i = m i" if "i \<notin> pj_job_id ` set js" for js m
      using that by (induction js arbitrary: m) auto
    show ?case
      using Cons.prems Cons.IH by (cases "pj_job_id j = i") (auto simp: keep simp del: fun_upd_apply intro: fun_upd_same)
  qed simp
  then show ?thesis by (simp add: buildJobCompletionSamples_def)
qed

lemma poll_maps_job:
  assumes "list_all2 (\<lambda>(t, jobs) (t', job). t = t' \<and> distinct (map pj_job_id jobs) \<and> List.find (\<lambda>j. pj_job_id j = i) jobs = Some job) polls tracked"
  shows "map (\<lambda>m. m i) (poll_maps prev polls) = map Some (job_samples (prev i) tracked)"
  using assms
  by (induction polls tracked arbitrary: prev rule: list_all2_induct) (auto simp: Let_def build_samples_lookup)

lemma next_sample_steady:
  assumes "cs_completedTasks s \<le> completed_count j" "or_else (pj_run_count j) 0 = cs_runCount s"
  shows "cs_rate (next_sample t j (Some s)) * ((cs_timestamp (next_sample t j (Some s)) - cs_timestamp s) / 1000)
      = cs_completedTasks (next_sample t j (Some s)) - cs_completedTasks s \<or> next_sample t j (Some s) = s"
    "cs_completedTasks (next_sample t j (Some s)) \<le> completed_count j"
    "cs_runCount (next_sample t j (Some s)) = cs_runCount s"
    "cs_rate s \<ge> 0 \<Longrightarrow> cs_rate (next_sample t j (Some s)) \<ge> 0"
  using assms by (auto simp: next_sample_def Let_def)

lemma work_steady:
  assumes "sorted_wrt (\<lambda>a b. completed_count a \<le> completed_count b) (map snd polls)"
    "list_all (\<lambda>p. cs_completedTasks s \<le> completed_count (snd p) \<and> or_else (pj_run_count (snd p)) 0 = cs_runCount s) polls" "cs_rate s \<ge> 0"
  shows "work_of (s # job_samples (Some s) polls) = cs_completedTasks (last (s # job_samples (Some s) polls)) - cs_completedTasks s
    \<and> list_all (\<lambda>x. cs_rate x \<ge> 0) (job_samples (Some s) polls)"
  using assms
proof (induction polls arbitrary: s)
  case (Cons p polls)
  obtain t j where p: "p = (t, j)" by (cases p)
  let ?s = "next_sample t j (Some s)"
  have st: "cs_completedTasks s \<le> completed_count j" "or_else (pj_run_count j) 0 = cs_runCount s" using Cons.prems(2) by (simp_all add: p)
  note step = next_sample_steady [OF st]
  have "list_all (\<lambda>p. cs_completedTasks ?s \<le> completed_count (snd p) \<and> or_else (pj_run_count (snd p)) 0 = cs_runCount ?s) polls"
    using Cons.prems(1,2) step(2,3) [of t] by (fastforce simp: p list_all_iff)
  from Cons.IH [OF _ this step(4)] Cons.prems(1,3)
  have "work_of (?s # job_samples (Some ?s) polls) = cs_completedTasks (last (?s # job_samples (Some ?s) polls)) - cs_completedTasks ?s"
    "list_all (\<lambda>x. cs_rate x \<ge> 0) (job_samples (Some ?s) polls)" by (simp_all add: p)
  moreover have "cs_rate ?s * ((cs_timestamp ?s - cs_timestamp s) / 1000) = cs_completedTasks ?s - cs_completedTasks s"
    using step(1) [of t] by auto
  moreover have "cs_rate ?s \<ge> 0" using step(4) Cons.prems(3) .
  ultimately show ?case by (simp add: p Let_def diff_divide_distrib)
qed simp

lemma next_sample_current:
  "cs_completedTasks (next_sample t j s) = completed_count j \<or> (t - cs_timestamp (next_sample t j s)) / 1000 < 3 / 4"
  by (auto simp: next_sample_def Let_def split: option.splits)

lemma last_job_sample:
  "polls \<noteq> [] \<Longrightarrow> \<exists>p. last (job_samples s polls) = next_sample (fst (last polls)) (snd (last polls)) p"
proof (induction polls arbitrary: s)
  case (Cons x polls)
  then show ?case by (cases x; cases polls) (auto simp: Let_def)
qed simp


definition demo_job :: "rat \<Rightarrow> polled_job" where
  "demo_job n = \<lparr>pj_job_id = ''j'', pj_completed_tasks = Fin n, pj_run_count = None\<rparr>"


section \<open>Speeds of the active tasks\<close>

definition speeds_ok :: "stage_sample \<Rightarrow> bool" where
  "speeds_ok s \<longleftrightarrow> ss_scrapedSpeed s \<ge> 0 \<and> ss_savedSpeed s \<ge> 0 \<and> ss_itemsSpeed s \<ge> 0"

abbreviation visible_tasks :: "'a polled_task list \<Rightarrow> 'a polled_task list" where
  "visible_tasks ts \<equiv> filter (\<lambda>t. \<not> internal_task t) ts"

lemma smoothed_nonneg: "speed \<ge> 0 \<Longrightarrow> d > 0 \<Longrightarrow> smoothed speed a b d \<ge> 0"
  by (simp add: smoothed_def)

lemma next_speeds_ok:
  assumes "\<And>s. previous = Some s \<Longrightarrow> speeds_ok s"
  shows "speeds_ok (next_speeds t task previous)" "ss_lastUpdated (next_speeds t task previous) = t"
  using assms
  by (cases previous; auto simp: next_speeds_def Let_def speeds_ok_def intro!: smoothed_nonneg)+

lemma buildActiveTaskState_eq:
  "buildActiveTaskState ts now_ms prev =
     (let sample = (\<lambda>t. next_speeds now_ms t (prev (generateTaskKey t)))
      in (map (\<lambda>t. shown_task now_ms t (sample t)) (visible_tasks ts),
          map_of (rev (map (\<lambda>t. (generateTaskKey t, sample t)) (filter (\<lambda>t. normalizeTaskStatus (pt_status t) = TaskRunning) (visible_tasks ts))))))"
  unfolding buildActiveTaskState_def
  by (induction ts rule: rev_induct) (auto simp: Let_def)

lemma tw_task_shown_task [simp]: "tw_task (shown_task now_ms t s) = t"
  by (simp add: shown_task_def Let_def)

lemma shown_speeds:
  "speeds_ok s \<Longrightarrow> tw_speed (shown_task now_ms t s) \<ge> 0 \<and> tw_scraped_speed (shown_task now_ms t s) \<ge> 0
     \<and> tw_saved_speed (shown_task now_ms t s) \<ge> 0"
  by (simp add: shown_task_def speeds_ok_def Let_def)

text \<open>
  What the dashboard shows of the active tasks (\<open>buildActiveTaskState\<close>). Every polled task is listed, in order, but for the
  internal ones; when the speeds kept from the last poll are not negative, no speed shown or kept is; a sample is kept for exactly the
  running tasks, and it carries the time of this poll.
\<close>

lemma active_tasks_sampled:
  assumes "\<And>k s. prev k = Some s \<Longrightarrow> speeds_ok s"
  shows "case buildActiveTaskState ts now_ms prev of (tasks, samples) \<Rightarrow>
    map tw_task tasks = visible_tasks ts
    \<and> list_all (\<lambda>w. tw_speed w \<ge> 0 \<and> tw_scraped_speed w \<ge> 0 \<and> tw_saved_speed w \<ge> 0) tasks
    \<and> dom samples = generateTaskKey ` {t \<in> set (visible_tasks ts). normalizeTaskStatus (pt_status t) = TaskRunning}
    \<and> (\<forall>s \<in> ran samples. speeds_ok s \<and> ss_lastUpdated s = now_ms)"
proof -
  let ?sample = "\<lambda>t. next_speeds now_ms t (prev (generateTaskKey t))"
  let ?kept = "filter (\<lambda>t. normalizeTaskStatus (pt_status t) = TaskRunning) (visible_tasks ts)"
  have ok: "speeds_ok (?sample t)" "ss_lastUpdated (?sample t) = now_ms" for t
    using next_speeds_ok [of "prev (generateTaskKey t)"] assms by blast+
  have "ran (map_of (rev (map (\<lambda>t. (generateTaskKey t, ?sample t)) ?kept))) \<subseteq> ?sample ` set ?kept"
    by (auto simp: ran_def dest!: map_of_SomeD)
  moreover have "dom (map_of (rev (map (\<lambda>t. (generateTaskKey t, ?sample t)) ?kept))) = generateTaskKey ` set ?kept"
    by (simp add: dom_map_of_conv_image_fst image_image)
  ultimately show ?thesis
    unfolding buildActiveTaskState_eq Let_def prod.case
    using ok by (intro conjI ballI) (auto simp: list_all_iff map_idI o_def shown_speeds [OF ok(1)])
qed

text \<open>
  A refresh that comes within three quarters of a second keeps the speeds but replaces the counts and the time they are measured
  from: the work done since the last sample is never measured, and with refreshes that fast no speed ever changes.
\<close>

lemma rapid_refresh_forgets_work:
  assumes "\<not> sample_invalid task s" "(t - ss_lastUpdated s) / 1000 < 3 / 4"
  shows "next_speeds t task (Some s) = s\<lparr>ss_lastUpdated := t, ss_scrapedProcessed := counter (pt_items_scraped task),
    ss_savedProcessed := counter (pt_items_saved task), ss_itemsProcessed := counter (pt_items_processed task)\<rparr>"
  using assms by (cases s) (simp add: next_speeds_def Let_def)

section \<open>Charts stay in their box\<close>

lemma domain_span: "domain_start box ps + 1 \<le> domain_end box ps"
  by (simp add: domain_end_def Let_def split: jsnum.split)

lemma point_x_bounds: "cb_width box \<ge> 0 \<Longrightarrow> 0 \<le> point_x box ps p \<and> point_x box ps p \<le> cb_width box"
  by (simp add: point_x_def Let_def)

lemma point_y_bounds:
  assumes "cb_height box \<ge> 24"
  shows "12 \<le> point_y box ps p \<and> point_y box ps p \<le> cb_height box - 12"
proof -
  let ?c = "clamp ((cp_value p - scale_minimum box) / (scale_maximum box ps - scale_minimum box)) 0 1"
  have "0 \<le> ?c" "?c \<le> 1" by (simp_all add: clamp_def)
  then have "0 \<le> ?c * (cb_height box - 24)" "?c * (cb_height box - 24) \<le> cb_height box - 24"
    using assms mult_right_mono [of ?c 1 "cb_height box - 24"] by simp_all
  then show ?thesis by (simp add: point_y_def)
qed

lemma point_x_mono:
  assumes "cb_width box \<ge> 0" "cp_timestamp p \<le> cp_timestamp q"
  shows "point_x box ps p \<le> point_x box ps q"
proof -
  have "domain_end box ps - domain_start box ps > 0" using domain_span [of box ps] by simp
  then have "(cp_timestamp p - domain_start box ps) / (domain_end box ps - domain_start box ps) * cb_width box
      \<le> (cp_timestamp q - domain_start box ps) / (domain_end box ps - domain_start box ps) * cb_width box"
    using assms by (intro mult_right_mono divide_right_mono) simp_all
  then show ?thesis by (simp only: point_x_def Let_def min.mono max.mono order_refl)
qed

lemma chart_corners_many:
  "length ps \<noteq> 1 \<Longrightarrow> chart_corners box ps = map (\<lambda>p. (point_x box ps p, point_y box ps p)) (sort_cmp (cmp_on cp_timestamp cmp_num) ps)"
  by (cases ps; cases "tl ps") (auto simp: chart_corners_def sort_cmp_def)

text \<open>
  A chart stays in its box (\<open>chartPath\<close>). For a width that is not negative and a height of at least 24, every corner of the
  path has its x between 0 and the width and its y inside the padding of 12, and the path never runs backwards.
\<close>

lemma chart_in_box:
  assumes "cb_width box \<ge> 0" "cb_height box \<ge> 24"
  shows "list_all (\<lambda>(x, y). 0 \<le> x \<and> x \<le> cb_width box \<and> 12 \<le> y \<and> y \<le> cb_height box - 12) (chart_corners box ps)
    \<and> sorted (map fst (chart_corners box ps))"
proof (cases "length ps = 1")
  case True
  then obtain p where p: "ps = [p]" by (cases ps) auto
  show ?thesis
    using assms point_x_bounds [OF assms(1), of ps p] point_y_bounds [OF assms(2), of ps p]
    by (simp add: p chart_corners_def Let_def)
next
  case False
  have "sorted_wrt (\<lambda>a b. cp_timestamp a \<le> cp_timestamp b) (sort_cmp (cmp_on cp_timestamp cmp_num) ps)"
    by (rule sorted_wrt_mono_rel [OF _ comparator.sorted_sort_cmp [OF comparator_on [OF comparator_cmp_num]]])
      (simp add: cmp_on_def cmp_num_def split: if_splits)
  then have "sorted (map (point_x box ps) (sort_cmp (cmp_on cp_timestamp cmp_num) ps))"
    unfolding sorted_map by (rule sorted_wrt_mono_rel [rotated]) (rule point_x_mono [OF assms(1)])
  then show ?thesis
    using assms by (simp add: chart_corners_many [OF False] list_all_iff o_def point_x_bounds point_y_bounds)
qed

definition demo_box :: chart_box where
  "demo_box = \<lparr>cb_width = 640, cb_height = 180, cb_scaleMaximum = None, cb_domainStart = None, cb_domainEnd = None, cb_scaleMinimum = Fin 0\<rparr>"

lemma chart_in_box_witness:
  "list_all (\<lambda>(x, y). 0 \<le> x \<and> x \<le> 640 \<and> 12 \<le> y \<and> y \<le> 168)
     (chart_corners demo_box [\<lparr>cp_timestamp = 5, cp_value = 3\<rparr>, \<lparr>cp_timestamp = 1, cp_value = 9\<rparr>])"
  using chart_in_box [of demo_box "[\<lparr>cp_timestamp = 5, cp_value = 3\<rparr>, \<lparr>cp_timestamp = 1, cp_value = 9\<rparr>]"]
  by (simp add: demo_box_def)

definition demo_task :: "rat \<Rightarrow> unit polled_task" where
  "demo_task n = \<lparr>pt_job_id = ''j'', pt_task_type = ''download'', pt_task_id = Some ''t'', pt_username = None, pt_status = Some ''running'',
     pt_content_type = None, pt_items_total = None, pt_items_processed = Some n, pt_items_scraped = None, pt_items_saved = None,
     pt_progress = None, pt_rest = ()\<rparr>"

lemma active_tasks_sampled_witness:
  "\<exists>tasks samples. buildActiveTaskState [demo_task 4] 1000 Map.empty = (tasks, samples) \<and> map tw_task tasks = [demo_task 4]
     \<and> dom samples = {''j:t''}"
proof -
  have "visible_tasks [demo_task 4] = [demo_task 4]" "generateTaskKey (demo_task 4) = ''j:t''" "normalizeTaskStatus (pt_status (demo_task 4)) = TaskRunning"
    by code_simp+
  then show ?thesis
    using active_tasks_sampled [of Map.empty "[demo_task 4]" 1000] by (auto split: prod.splits)
qed

end
