(* ===== verification/Favourites.thy ===== *)
theory Favourites
  imports JsJson
begin

text \<open>
  Favourites: \<open>features/favourites\<close>. The loads of the visible controls, which are collected and sent in batches
  (\<open>favouritesCache.ts\<close>, a state machine over loads, timers and answers), the projections and views of the query cache
  that a change touches, and the optimistic removal from the lists with its rollback (\<open>FavouriteButton.tsx\<close>). The HTTP
  calls are the environment.
\<close>

section \<open>Keys and states\<close>

datatype fav_type = FUser | FPost | FStory | FMessage

record fav_key =
  fk_site :: string
  fk_type :: fav_type
  fk_id :: int

record fav_state = fav_key +
  favourited :: bool
  favourite_id :: "int option"
  fav_created_at :: "string option"
  fav_created_at_source :: "string option"
  fav_pending :: "bool option"

text \<open>
  \<open>JSON.stringify(favouriteKey(key))\<close> is the key of the maps below; it depends on these three values, and two keys
  print alike only when they agree.
\<close>

definition favouriteKey :: "'a fav_key_scheme \<Rightarrow> string \<times> fav_type \<times> int" where
  "favouriteKey k = (fk_site k, fk_type k, fk_id k)"

section \<open>Batched loads\<close>

text \<open>A promise is a number; a bucket maps the text of a key to the key and the promise that waits for it.\<close>

type_synonym fav_entry = "fav_key \<times> nat"

type_synonym fav_bucket = "((string \<times> fav_type \<times> int) \<times> fav_entry) list"

datatype fav_outcome = Resolved fav_state | Rejected string

record batcher =
  buckets :: "(nat \<times> fav_bucket) list"
  in_flight :: "fav_entry list list"
  promise_count :: nat
  outcome :: "nat \<Rightarrow> fav_outcome option"

text \<open>\<open>map.set(k, v)\<close>: an existing key keeps its place.\<close>

fun map_set :: "'k \<Rightarrow> 'v \<Rightarrow> ('k \<times> 'v) list \<Rightarrow> ('k \<times> 'v) list" where
  "map_set k v [] = [(k, v)]"
| "map_set k v ((k', v') # m) = (if k' = k then (k, v) # m else (k', v') # map_set k v m)"

definition bucket_of :: "nat \<Rightarrow> batcher \<Rightarrow> fav_bucket" where
  "bucket_of client st = or_else (map_of (buckets st) client) []"

definition loadFavouriteState :: "nat \<Rightarrow> fav_key \<Rightarrow> batcher \<Rightarrow> nat \<times> batcher" where
  "loadFavouriteState client k st =
     (promise_count st,
      st\<lparr>buckets := map_set client (map_set (favouriteKey k) (k, promise_count st) (bucket_of client st)) (buckets st),
         promise_count := Suc (promise_count st)\<rparr>)"

text \<open>The loop over the entries in steps of 200.\<close>

function pages_of :: "fav_entry list \<Rightarrow> fav_entry list list" where
  "pages_of entries = (if entries = [] then [] else take 200 entries # pages_of (drop 200 entries))"
  by pat_completeness auto
termination
  by (relation "measure length") auto

declare pages_of.simps [simp del]

definition fire_timer :: "nat \<Rightarrow> batcher \<Rightarrow> batcher" where
  "fire_timer client st =
     (case map_of (buckets st) client of
        None \<Rightarrow> st
      | Some b \<Rightarrow> st\<lparr>buckets := filter (\<lambda>x. fst x \<noteq> client) (buckets st), in_flight := in_flight st @ pages_of (map snd b)\<rparr>)"

text \<open>A promise is settled once.\<close>

definition settle :: "nat \<Rightarrow> fav_outcome \<Rightarrow> (nat \<Rightarrow> fav_outcome option) \<Rightarrow> nat \<Rightarrow> fav_outcome option" where
  "settle p v f = (if f p = None then f(p \<mapsto> v) else f)"

text \<open>\<open>new Map(states.map(...)).get(key)\<close>: the last state of a key wins.\<close>

definition answer_for :: "string + fav_state list \<Rightarrow> fav_key \<Rightarrow> fav_outcome" where
  "answer_for r k = (case r of
      Inl e \<Rightarrow> Rejected e
    | Inr states \<Rightarrow> (case List.find (\<lambda>s. favouriteKey s = favouriteKey k) (rev states) of
                      Some s \<Rightarrow> Resolved s | None \<Rightarrow> Rejected ''Missing favourite state''))"

definition settle_page :: "string + fav_state list \<Rightarrow> fav_entry list \<Rightarrow> (nat \<Rightarrow> fav_outcome option) \<Rightarrow> nat \<Rightarrow> fav_outcome option" where
  "settle_page r page f = fold (\<lambda>(k, p). settle p (answer_for r k)) page f"

definition on_answer :: "nat \<Rightarrow> string + fav_state list \<Rightarrow> batcher \<Rightarrow> batcher" where
  "on_answer i r st =
     st\<lparr>in_flight := take i (in_flight st) @ drop (Suc i) (in_flight st), outcome := settle_page r (in_flight st ! i) (outcome st)\<rparr>"

datatype fav_event = Load nat fav_key | Fire nat | Answer nat "string + fav_state list"

fun fav_step :: "fav_event \<Rightarrow> batcher \<Rightarrow> batcher" where
  "fav_step (Load client k) st = snd (loadFavouriteState client k st)"
| "fav_step (Fire client) st = fire_timer client st"
| "fav_step (Answer i r) st = on_answer i r st"

text \<open>
  When events can happen: a timer while its bucket is filled, an answer to a request in flight. \<open>fav_enabled\<close> adds
  what the query cache ensures: a key is not loaded again while it waits in the bucket.
\<close>

fun fav_possible :: "fav_event \<Rightarrow> batcher \<Rightarrow> bool" where
  "fav_possible (Load client k) st = True"
| "fav_possible (Fire client) st \<longleftrightarrow> map_of (buckets st) client \<noteq> None"
| "fav_possible (Answer i r) st \<longleftrightarrow> i < length (in_flight st)"

fun fav_enabled :: "fav_event \<Rightarrow> batcher \<Rightarrow> bool" where
  "fav_enabled (Load client k) st \<longleftrightarrow> favouriteKey k \<notin> fst ` set (bucket_of client st)"
| "fav_enabled e st = fav_possible e st"

definition no_loads :: batcher where
  "no_loads = \<lparr>buckets = [], in_flight = [], promise_count = 0, outcome = (\<lambda>_. None)\<rparr>"

section \<open>The query cache\<close>

definition type_name :: "fav_type \<Rightarrow> string" where
  "type_name t = (case t of FUser \<Rightarrow> ''user'' | FPost \<Rightarrow> ''post'' | FStory \<Rightarrow> ''story'' | FMessage \<Rightarrow> ''message'')"

definition view_names :: "fav_key option \<Rightarrow> string list" where
  "view_names k = [''favourites-list'', ''favourites-counts'']
     @ (if map_option fk_type k = Some FUser then [''users-list'', ''users-stats'', ''user-profile'', ''subscriptions''] else [])"

definition matchesSite :: "fav_key \<Rightarrow> json \<Rightarrow> bool" where
  "matchesSite k site \<longleftrightarrow> \<not> truthy site \<or> site = JStr ''all'' \<or> site = JStr (fk_site k)"

text \<open>\<open>None\<close> where reading the filter of a list throws.\<close>

definition invalidates :: "(rat \<Rightarrow> string) \<Rightarrow> fav_key option \<Rightarrow> json list \<Rightarrow> bool option" where
  "invalidates fs key queryKey =
     (let part = (\<lambda>i. if i < length queryKey then queryKey ! i else JUndef);
          name = js_String fs (part 0); filter_arg = part 1; site = part 2
      in if name \<notin> set (view_names key) then Some False
         else case key of
           None \<Rightarrow> Some True
         | Some k \<Rightarrow>
             if part 0 = JStr ''favourites-list''
             then (if nullish filter_arg then None
                   else Some (matchesSite k (jget filter_arg ''site'')
                     \<and> (\<not> truthy (jget filter_arg ''entity_type'') \<or> jget filter_arg ''entity_type'' = JStr (type_name (fk_type k)))))
             else if part 0 = JStr ''favourites-counts''
             then Some (matchesSite k (if is_object filter_arg then jget filter_arg ''site'' else filter_arg))
             else if part 0 = JStr ''user-profile''
             then Some (number_of fs filter_arg = Fin (of_int (fk_id k)) \<and> matchesSite k site)
             else if part 0 = JStr ''users-list'' \<or> part 0 = JStr ''users-stats'' then Some (matchesSite k site)
             else if part 0 = JStr ''subscriptions'' then Some (matchesSite k filter_arg)
             else Some True)"

definition projection_names :: "fav_key \<Rightarrow> string list" where
  "projection_names k = (if fk_type k = FUser then [''users-list'', ''user-profile'', ''subscriptions''] else [''content-library''])"

definition fav_matches :: "fav_key \<Rightarrow> jsobject \<Rightarrow> bool" where
  "fav_matches k ob \<longleftrightarrow>
     (let n = JNum (Fin (of_int (fk_id k)))
      in oget ob ''site'' = JStr (fk_site k) \<and> (oget ob ''user_id'' = n \<or> oget ob ''id'' = n)
         \<and> (if fk_type k = FUser then ''favorite'' \<in> fst ` set ob \<and> ''content_type'' \<notin> fst ` set ob
            else oget ob ''content_type'' = JStr (type_name (fk_type k)) \<and> oget ob ''id'' = n))"

fun patch_projection :: "fav_key \<Rightarrow> bool \<Rightarrow> json \<Rightarrow> json" where
  "patch_projection k desired (JArr xs) = JArr (map (patch_projection k desired) xs)"
| "patch_projection k desired (JObj ob) =
     JObj (map (\<lambda>m. (fst m, if fst m = ''favorite'' \<and> fav_matches k ob then JBool desired else patch_projection k desired (snd m))) ob)"
| "patch_projection k desired v = v"

text \<open>\<open>setQueriesData\<close> with the projection names: every cached query with such a name is patched.\<close>

definition patchFavouriteProjections ::
  "(rat \<Rightarrow> string) \<Rightarrow> fav_key \<Rightarrow> bool \<Rightarrow> (json list \<times> json) list \<Rightarrow> (json list \<times> json) list" where
  "patchFavouriteProjections fs k desired cache =
     map (\<lambda>(q, d). (q, if (case q of [] \<Rightarrow> ''undefined'' | n # _ \<Rightarrow> js_String fs n) \<in> set (projection_names k)
                        then patch_projection k desired d else d)) cache"

section \<open>Optimistic removal\<close>

text \<open>A cached list is one page or several; \<open>pagesOf\<close> treats both alike. An item is its key and the rest.\<close>

record 'a fav_item = fav_key +
  item_rest :: 'a

definition sameEntity :: "('a, 'b) fav_item_scheme \<Rightarrow> 'c fav_key_scheme \<Rightarrow> bool" where
  "sameEntity a b \<longleftrightarrow> fk_site a = fk_site b \<and> fk_type a = fk_type b \<and> fk_id a = fk_id b"

type_synonym 'a fav_pages = "'a fav_item list list"

definition remove_entity :: "fav_key \<Rightarrow> 'a fav_pages \<Rightarrow> 'a fav_pages" where
  "remove_entity k pages = map (filter (\<lambda>x. \<not> sameEntity x k)) pages"

text \<open>\<open>findIndex\<close>, \<open>-1\<close> when there is none.\<close>

fun find_index :: "('a \<Rightarrow> bool) \<Rightarrow> 'a list \<Rightarrow> int" where
  "find_index P [] = - 1"
| "find_index P (x # xs) = (if P x then 0 else (let i = find_index P xs in if i < 0 then - 1 else i + 1))"

definition position_in :: "'a fav_item list \<Rightarrow> 'a fav_item \<Rightarrow> int" where
  "position_in page x = find_index (\<lambda>y. sameEntity y x) page"

definition restore_entity :: "fav_key \<Rightarrow> 'a fav_pages \<Rightarrow> 'a fav_pages \<Rightarrow> 'a fav_pages" where
  "restore_entity k before current =
     (let i = find_index (list_ex (\<lambda>x. sameEntity x k)) before
      in if i < 0 then current
         else case List.find (\<lambda>x. sameEntity x k) (before ! nat i) of
                None \<Rightarrow> current
              | Some r \<Rightarrow>
                  if list_ex (list_ex (\<lambda>x. sameEntity x r)) current then current
                  else map_index (\<lambda>j page. if j \<noteq> nat i then page
                         else sort_cmp (cmp_on (position_in (before ! nat i)) cmp_num) (page @ [r])) 0 current)"

section \<open>Loads settle\<close>

definition bucket_promises :: "fav_bucket \<Rightarrow> nat list" where
  "bucket_promises b = map (\<lambda>x. snd (snd x)) b"

text \<open>The promises that wait in a bucket or for an answer.\<close>

definition waiting :: "batcher \<Rightarrow> nat list" where
  "waiting st = concat (map (\<lambda>x. bucket_promises (snd x)) (buckets st)) @ concat (map (map snd) (in_flight st))"

definition bucket_ok :: "fav_bucket \<Rightarrow> bool" where
  "bucket_ok b \<longleftrightarrow> distinct (map fst b) \<and> list_all (\<lambda>x. fst x = favouriteKey (fst (snd x))) b"

definition page_ok :: "fav_entry list \<Rightarrow> bool" where
  "page_ok page \<longleftrightarrow> page \<noteq> [] \<and> length page \<le> 200 \<and> distinct (map (\<lambda>e. favouriteKey (fst e)) page)"

definition batch_inv :: "batcher \<Rightarrow> bool" where
  "batch_inv st \<longleftrightarrow> distinct (map fst (buckets st)) \<and> list_all (\<lambda>x. bucket_ok (snd x)) (buckets st)
     \<and> list_all page_ok (in_flight st) \<and> distinct (waiting st)
     \<and> (\<forall>p. p \<in> set (waiting st) \<longleftrightarrow> p < promise_count st \<and> outcome st p = None)
     \<and> (\<forall>p. outcome st p \<noteq> None \<longrightarrow> p < promise_count st)"

subsection \<open>Maps\<close>

lemma map_set_fresh: "k \<notin> fst ` set m \<Longrightarrow> map_set k v m = m @ [(k, v)]"
  by (induction k v m rule: map_set.induct) auto

lemma keys_map_set: "fst ` set (map_set k v m) = insert k (fst ` set m)"
  by (induction k v m rule: map_set.induct) auto

lemma distinct_map_set: "distinct (map fst m) \<Longrightarrow> distinct (map fst (map_set k v m))"
proof (induction k v m rule: map_set.induct)
  case (2 k v k' v' m)
  then show ?case using keys_map_set [of k v m] by auto
qed simp

lemma all_map_set: "list_all P m \<Longrightarrow> P (k, v) \<Longrightarrow> list_all P (map_set k v m)"
  by (induction k v m rule: map_set.induct) auto

lemma mset_map_set:
  "mset (concat (map (\<lambda>x. g (snd x)) (map_set c b bs))) + (case map_of bs c of None \<Rightarrow> {#} | Some b' \<Rightarrow> mset (g b'))
     = mset (concat (map (\<lambda>x. g (snd x)) bs)) + mset (g b)"
  by (induction c b bs rule: map_set.induct) auto

lemma mset_remove:
  assumes "distinct (map fst bs)" "map_of bs c = Some b"
  shows "mset (concat (map (\<lambda>x. g (snd x)) (filter (\<lambda>x. fst x \<noteq> c) bs))) + mset (g b) = mset (concat (map (\<lambda>x. g (snd x)) bs))"
  using assms
proof (induction bs)
  case (Cons x bs)
  show ?case
  proof (cases "fst x = c")
    case True
    then have "c \<notin> fst ` set bs" using Cons.prems(1) by simp
    then have "\<forall>y \<in> set bs. fst y \<noteq> c" by blast
    then have "filter (\<lambda>y. fst y \<noteq> c) bs = bs" by simp
    moreover have "x = (c, b)" using True Cons.prems(2) by (cases x) auto
    ultimately show ?thesis by simp
  next
    case False
    then show ?thesis using Cons by (cases x) auto
  qed
qed simp

subsection \<open>Pages\<close>

lemma concat_pages: "concat (pages_of es) = es"
proof (induction es rule: pages_of.induct)
  case (1 es)
  then show ?case by (subst pages_of.simps) auto
qed

lemma pages_of_ok: "distinct (map (\<lambda>e. favouriteKey (fst e)) es) \<Longrightarrow> list_all page_ok (pages_of es)"
proof (induction es rule: pages_of.induct)
  case (1 es)
  show ?case
  proof (cases "es = []")
    case False
    have d: "distinct (map (\<lambda>e. favouriteKey (fst e)) (take 200 es @ drop 200 es))" using 1(2) by simp
    then have "page_ok (take 200 es)" using False by (auto simp: page_ok_def simp del: append_take_drop_id)
    moreover have "list_all page_ok (pages_of (drop 200 es))"
      using d by (intro 1(1) [OF False]) (auto simp del: append_take_drop_id)
    moreover note False
    ultimately have "page_ok (take 200 es)" "list_all page_ok (pages_of (drop 200 es))" by blast+
    then show ?thesis using False by (subst pages_of.simps) simp
  qed (simp add: pages_of.simps)
qed

subsection \<open>Settling\<close>

lemma settle_page_eq:
  "settle_page r page f p = (case map_of (map prod.swap page) p of
      None \<Rightarrow> f p | Some k \<Rightarrow> if f p = None then Some (answer_for r k) else f p)"
  by (induction page arbitrary: f) (auto simp: settle_page_def settle_def split: option.splits)

lemma settle_page_None: "settle_page r page f p = None \<longleftrightarrow> f p = None \<and> p \<notin> snd ` set page"
proof -
  have "map_of (map prod.swap page) p = None \<longleftrightarrow> p \<notin> snd ` set page" by (simp add: map_of_eq_None_iff image_image)
  then show ?thesis by (auto simp: settle_page_eq split: option.splits)
qed


subsection \<open>The invariant\<close>

lemma batch_inv_init: "batch_inv no_loads"
  by (simp add: batch_inv_def no_loads_def waiting_def)

lemma waiting_load:
  assumes "favouriteKey k \<notin> fst ` set (bucket_of c st)"
  shows "mset (waiting (snd (loadFavouriteState c k st))) = add_mset (promise_count st) (mset (waiting st))"
proof -
  let ?b = "map_set (favouriteKey k) (k, promise_count st) (bucket_of c st)"
  have b: "mset (bucket_promises ?b) = add_mset (promise_count st) (mset (bucket_promises (bucket_of c st)))"
    by (simp add: map_set_fresh [OF assms] bucket_promises_def)
  have "(case map_of (buckets st) c of None \<Rightarrow> {#} | Some b' \<Rightarrow> mset (bucket_promises b')) = mset (bucket_promises (bucket_of c st))"
    by (simp add: bucket_of_def or_else_def bucket_promises_def split: option.split)
  then have "mset (concat (map (\<lambda>x. bucket_promises (snd x)) (map_set c ?b (buckets st)))) =
      add_mset (promise_count st) (mset (concat (map (\<lambda>x. bucket_promises (snd x)) (buckets st))))"
    using mset_map_set [of bucket_promises c ?b "buckets st"] b by simp
  then show ?thesis by (simp add: waiting_def loadFavouriteState_def)
qed

lemma bucket_of_ok: "list_all (\<lambda>x. bucket_ok (snd x)) (buckets st) \<Longrightarrow> bucket_ok (bucket_of c st)"
proof (cases "map_of (buckets st) c")
  case None
  then show ?thesis by (simp add: bucket_of_def or_else_def bucket_ok_def)
next
  case (Some b)
  moreover assume "list_all (\<lambda>x. bucket_ok (snd x)) (buckets st)"
  ultimately show ?thesis using map_of_SomeD [OF Some] by (fastforce simp: bucket_of_def or_else_def list_all_iff)
qed

lemma inv_load:
  assumes "batch_inv st" "favouriteKey k \<notin> fst ` set (bucket_of c st)"
  shows "batch_inv (snd (loadFavouriteState c k st))"
proof -
  let ?t = "snd (loadFavouriteState c k st)"
  note w = waiting_load [OF assms(2)]
  have ok: "list_all (\<lambda>x. bucket_ok (snd x)) (buckets st)" "distinct (map fst (buckets st))" using assms(1) by (simp_all add: batch_inv_def)
  have "bucket_ok (map_set (favouriteKey k) (k, promise_count st) (bucket_of c st))"
    using bucket_of_ok [OF ok(1), of c] unfolding bucket_ok_def by (simp add: distinct_map_set all_map_set)
  then have "list_all (\<lambda>x. bucket_ok (snd x)) (buckets ?t)" "distinct (map fst (buckets ?t))"
    using ok by (simp_all add: loadFavouriteState_def all_map_set distinct_map_set)
  moreover have "set (waiting ?t) = insert (promise_count st) (set (waiting st))" using w by (metis set_mset_add_mset_insert set_mset_mset)
  moreover have "promise_count st \<notin> set (waiting st)" using assms(1) by (auto simp: batch_inv_def)
  moreover from this have "distinct (waiting ?t)"
    using w assms(1) by (metis batch_inv_def distinct.simps(2) mset.simps(2) mset_eq_imp_distinct_iff)
  moreover have "in_flight ?t = in_flight st" "promise_count ?t = Suc (promise_count st)" "outcome ?t = outcome st"
    by (simp_all add: loadFavouriteState_def)
  moreover have "outcome st (promise_count st) = None" using assms(1) unfolding batch_inv_def by blast
  ultimately show ?thesis using assms(1) unfolding batch_inv_def by (simp add: less_Suc_eq) blast
qed


lemma waiting_fire:
  assumes "distinct (map fst (buckets st))"
  shows "mset (waiting (fire_timer c st)) = mset (waiting st)"
proof (cases "map_of (buckets st) c")
  case (Some b)
  have "concat (map (map snd) (pages_of (map snd b))) = bucket_promises b"
    using arg_cong [OF concat_pages [of "map snd b"], of "map snd"] by (simp add: map_concat bucket_promises_def comp_def)
  then show ?thesis using mset_remove [OF assms Some, of bucket_promises] Some by (simp add: fire_timer_def waiting_def ac_simps)
qed (simp add: fire_timer_def)

lemma inv_fire:
  assumes "batch_inv st"
  shows "batch_inv (fire_timer c st)"
proof (cases "map_of (buckets st) c")
  case (Some b)
  have ok: "list_all (\<lambda>x. bucket_ok (snd x)) (buckets st)" "distinct (map fst (buckets st))" "list_all page_ok (in_flight st)"
    using assms by (simp_all add: batch_inv_def)
  note w = waiting_fire [OF ok(2), of c]
  have b: "bucket_ok b" using bucket_of_ok [OF ok(1), of c] Some by (simp add: bucket_of_def or_else_def)
  then have "map fst b = map (\<lambda>e. favouriteKey (fst e)) (map snd b)" by (simp add: bucket_ok_def list_all_iff)
  then have "distinct (map (\<lambda>e. favouriteKey (fst e)) (map snd b))" using b by (metis bucket_ok_def)
  then have pages: "list_all page_ok (pages_of (map snd b))" by (rule pages_of_ok)
  have "list_all (\<lambda>x. bucket_ok (snd x)) (filter (\<lambda>x. fst x \<noteq> c) (buckets st))" "distinct (map fst (filter (\<lambda>x. fst x \<noteq> c) (buckets st)))"
    using ok by (auto simp: list_all_iff distinct_map_filter)
  moreover have "distinct (waiting (fire_timer c st))" "set (waiting (fire_timer c st)) = set (waiting st)"
    using assms mset_eq_imp_distinct_iff [OF w] mset_eq_setD [OF w] by (simp_all add: batch_inv_def)
  ultimately show ?thesis using assms pages ok(3) Some by (simp add: batch_inv_def fire_timer_def)
qed (simp add: fire_timer_def assms)

lemma waiting_answer:
  assumes "i < length (in_flight st)"
  shows "mset (waiting (on_answer i r st)) + mset (map snd (in_flight st ! i)) = mset (waiting st)"
proof -
  obtain us v vs where f: "in_flight st = us @ v # vs" "length us = i" using assms by (metis id_take_nth_drop length_take min.absorb4)
  then show ?thesis by (simp add: waiting_def on_answer_def nth_append ac_simps)
qed

lemma inv_answer:
  assumes "batch_inv st" "i < length (in_flight st)"
  shows "batch_inv (on_answer i r st)"
proof -
  let ?t = "on_answer i r st" and ?page = "in_flight st ! i"
  note w = waiting_answer [OF assms(2), of r]
  have d: "distinct (waiting ?t @ map snd ?page)"
    using w assms(1) by (metis batch_inv_def mset_append mset_eq_imp_distinct_iff)
  have s: "set (waiting st) = set (waiting ?t) \<union> snd ` set ?page" using w by (metis list.set_map mset_append mset_eq_setD set_append)
  have "list_all page_ok (take i (in_flight st) @ drop (Suc i) (in_flight st))"
    using assms(1) by (auto simp: batch_inv_def list_all_iff dest: in_set_takeD in_set_dropD)
  moreover have "p \<in> set (waiting ?t) \<longleftrightarrow> p < promise_count st \<and> settle_page r ?page (outcome st) p = None" for p
    using d s assms(1) by (auto simp: batch_inv_def settle_page_None)
  moreover have "settle_page r ?page (outcome st) p \<noteq> None \<Longrightarrow> p < promise_count st" for p
    using s assms(1) by (auto simp: batch_inv_def settle_page_None)
  ultimately show ?thesis using assms(1) d by (simp add: batch_inv_def on_answer_def)
qed

interpretation loads: invariant_machine "\<lambda>st. st = no_loads" fav_enabled fav_step batch_inv
proof
  show "batch_inv st" if "st = no_loads" for st using that batch_inv_init by simp
  show "batch_inv (fav_step e st)" if "batch_inv st" "fav_enabled e st" for st e
    using that by (cases e) (auto intro: inv_load inv_fire inv_answer)
qed


definition demo_key :: fav_key where
  "demo_key = \<lparr>fk_site = ''of'', fk_type = FUser, fk_id = 7\<rparr>"

definition demo_state :: fav_state where
  "demo_state = \<lparr>fk_site = ''of'', fk_type = FUser, fk_id = 7, favourited = True, favourite_id = None, fav_created_at = None,
     fav_created_at_source = None, fav_pending = None\<rparr>"

text \<open>A key that is loaded twice before the timer fires: the first promise is dropped and never settles.\<close>

lemma repeated_load_lost:
  "map_option (\<lambda>st. (outcome st 0, outcome st 1, waiting st))
     (run fav_possible fav_step [Load 0 demo_key, Load 0 demo_key, Fire 0, Answer 0 (Inr [demo_state])] no_loads)
   = Some (None, Some (Resolved demo_state), [])"
  by code_simp


section \<open>Projections\<close>

lemma map_of_values: "map_of (map (\<lambda>m. (fst m, h m)) ob) k = None \<longleftrightarrow> map_of ob k = None"
  by (induction ob) auto

lemma oget_patched:
  assumes "name \<noteq> ''favorite''"
  shows "oget (map (\<lambda>m. (fst m, if fst m = ''favorite'' \<and> b then v else patch_projection k d (snd m))) ob) name
           = patch_projection k d (oget ob name)"
  using assms by (induction ob) (auto simp: oget_def)

lemma patch_scalar:
  "patch_projection k d v = JStr s \<longleftrightarrow> v = JStr s" "patch_projection k d v = JNum n \<longleftrightarrow> v = JNum n"
  by (cases v; simp)+

lemma fav_matches_patched:
  "fav_matches k (map (\<lambda>m. (fst m, if fst m = ''favorite'' \<and> b then v else patch_projection k d (snd m))) ob) = fav_matches k ob"
  by (simp add: fav_matches_def Let_def oget_patched patch_scalar image_image)

lemma patch_patch: "patch_projection k d' (patch_projection k d v) = patch_projection k d' v"
proof (induction k d v rule: patch_projection.induct)
  case (2 k d ob)
  show ?case
    unfolding patch_projection.simps fav_matches_patched using 2 by (auto simp: fav_matches_patched)
qed auto

lemma projections_twice:
  "patchFavouriteProjections fs k d' (patchFavouriteProjections fs k d cache) = patchFavouriteProjections fs k d' cache"
  by (auto simp: patchFavouriteProjections_def patch_patch split: if_splits)


section \<open>Removal and rollback\<close>

lemma sameEntity_key: "sameEntity x y \<longleftrightarrow> favouriteKey x = favouriteKey y"
  by (auto simp: sameEntity_def favouriteKey_def)

lemma find_index_found:
  assumes "list_ex P xs"
  obtains i where "i < length xs" "find_index P xs = int i" "P (xs ! i)"
proof -
  have "\<exists>i < length xs. find_index P xs = int i \<and> P (xs ! i)"
    using assms
  proof (induction xs)
    case (Cons x xs)
    show ?case
    proof (cases "P x")
      case False
      then obtain i where "i < length xs" "find_index P xs = int i" "P (xs ! i)" using Cons by auto
      then show ?thesis using False by (intro exI [of _ "Suc i"]) simp
    qed auto
  qed simp
  then show ?thesis using that by blast
qed

lemma position_in_nth:
  assumes "distinct (map favouriteKey page)" "j < length page"
  shows "position_in page (page ! j) = int j"
  using assms
proof (induction page arbitrary: j)
  case (Cons x page)
  show ?case
  proof (cases j)
    case (Suc n)
    then have "favouriteKey x \<noteq> favouriteKey (page ! n)" using Cons.prems nth_mem [of n page] by (metis distinct.simps(2) image_eqI length_Cons list.map(2) list.set_map not_less_eq)
    then show ?thesis using Suc Cons by (simp add: position_in_def sameEntity_key Let_def)
  qed (simp add: position_in_def sameEntity_key)
qed simp

lemma sort_by_sorted: "sorted_wrt le xs \<Longrightarrow> sort_by le xs = xs"
proof (induction xs)
  case (Cons x xs)
  then show ?case by (cases xs) auto
qed simp

lemma sort_by_position:
  assumes "distinct (map favouriteKey page)" "mset xs = mset (filter P page)"
  shows "sort_cmp (cmp_on (position_in page) cmp_num) xs = filter P page"
proof -
  let ?cmp = "cmp_on (position_in page) cmp_num"
  have d: "distinct page" using assms(1) by (simp add: distinct_map)
  have "sorted_wrt (\<lambda>a b. ?cmp a b \<le> 0) page"
    using position_in_nth [OF assms(1)] by (auto simp: sorted_wrt_iff_nth_less cmp_on_def cmp_num_def)
  then have id: "sort_cmp ?cmp (filter P page) = filter P page" by (simp add: sort_cmp_def sort_by_sorted sorted_wrt_filter)
  have inj: "a = b" if "a \<in> set page" "b \<in> set page" "?cmp a b = 0" for a b
    using that position_in_nth [OF assms(1)] by (auto simp: in_set_conv_nth cmp_on_def cmp_num_def split: if_splits)
  have "distinct xs" "set xs = set (filter P page)"
    using mset_eq_imp_distinct_iff [OF assms(2)] mset_eq_setD [OF assms(2)] d by simp_all
  then have "sort_cmp ?cmp xs = sort_cmp ?cmp (filter P page)"
    using d inj by (intro comparator.sort_cmp_unique [OF comparator_on [OF comparator_cmp_num]]) auto
  then show ?thesis using id by simp
qed


lemma distinct_pages_apart:
  assumes "distinct (map favouriteKey (concat pages))" "i < length pages" "j < length pages" "i \<noteq> j"
    "x \<in> set (pages ! i)" "y \<in> set (pages ! j)"
  shows "favouriteKey x \<noteq> favouriteKey y"
  using assms
proof (induction pages arbitrary: i j)
  case (Cons p pages)
  have mem: "z \<in> set (concat pages)" if "z \<in> set (pages ! n)" "n < length pages" for z n using that by auto
  have dis: "favouriteKey ` set p \<inter> favouriteKey ` set (concat pages) = {}" using Cons.prems(1) by simp
  consider m where "i = 0" "j = Suc m" | n where "i = Suc n" "j = 0" | n m where "i = Suc n" "j = Suc m"
    using Cons.prems(4) by (cases i; cases j) auto
  then show ?case
  proof cases
    case 1
    then have "x \<in> set p" "y \<in> set (concat pages)" using Cons.prems mem [of y m] by simp_all
    then show ?thesis using dis by (metis IntI emptyE image_eqI)
  next
    case 2
    then have "y \<in> set p" "x \<in> set (concat pages)" using Cons.prems mem [of x n] by simp_all
    then show ?thesis using dis by (metis IntI emptyE image_eqI)
  next
    case 3 then show ?thesis using Cons.prems Cons.IH [of n m] by simp
  qed
qed simp

lemma restore_entity_page:
  assumes "distinct (map favouriteKey page)" "r \<in> set page" "favouriteKey r = favouriteKey k"
  shows "sort_cmp (cmp_on (position_in page) cmp_num) (filter Q (filter (\<lambda>x. \<not> sameEntity x k) page) @ [r])
           = filter (\<lambda>x. Q x \<or> sameEntity x k) page"
proof (rule sort_by_position [OF assms(1)])
  have "filter (\<lambda>x. sameEntity x k) page = [r]"
    using assms
  proof (induction page)
    case (Cons x page)
    then show ?case by (auto simp: sameEntity_key filter_empty_conv) (metis image_eqI)+
  qed simp
  moreover have "mset (filter (\<lambda>x. Q x \<or> sameEntity x k) page)
      = mset (filter (\<lambda>x. \<not> sameEntity x k \<and> Q x) page) + mset (filter (\<lambda>x. sameEntity x k) page)"
    by (induction page) auto
  ultimately show "mset (filter Q (filter (\<lambda>x. \<not> sameEntity x k) page) @ [r]) = mset (filter (\<lambda>x. Q x \<or> sameEntity x k) page)"
    by (simp only: filter_filter mset_append mset.simps)
qed

lemma restore_entity_pages:
  assumes "distinct (map favouriteKey (concat before))" "x \<in> set (concat before)" "favouriteKey x = favouriteKey k"
  shows "restore_entity k before (map (filter Q) (remove_entity k before)) = map (filter (\<lambda>x. Q x \<or> sameEntity x k)) before"
proof -
  let ?has = "list_ex (\<lambda>x. sameEntity x k)" and ?cur = "map (filter Q) (remove_entity k before)"
  have "list_ex ?has before" using assms(2,3) by (auto simp: list_ex_iff sameEntity_key)
  then obtain i where fi: "find_index ?has before = int i" "i < length before" "?has (before ! i)" by (rule find_index_found)
  have "\<exists>r. List.find (\<lambda>x. sameEntity x k) (before ! i) = Some r"
    using fi(3) by (metis find_None_iff list_ex_iff option.exhaust)
  then obtain r where r1: "List.find (\<lambda>x. sameEntity x k) (before ! i) = Some r" by blast
  note r = r1 conjunct2 [OF find_SomeD [OF r1]] conjunct1 [OF find_SomeD [OF r1], unfolded sameEntity_key]
  have gone: "\<not> list_ex (list_ex (\<lambda>x. sameEntity x r)) ?cur"
    using r(3) by (auto simp: list_ex_iff remove_entity_def sameEntity_key)
  have d: "distinct (map favouriteKey (before ! i))" using assms(1) fi(2) by (auto simp: distinct_concat_iff map_concat)
  have other: "filter Q (filter (\<lambda>x. \<not> sameEntity x k) (before ! j)) = filter (\<lambda>x. Q x \<or> sameEntity x k) (before ! j)"
    if "j < length before" "j \<noteq> i" for j
    using distinct_pages_apart [OF assms(1) that(1) fi(2) that(2) _ r(2)] r(3)
    by (auto simp: sameEntity_key intro!: filter_cong)
  have "restore_entity k before ?cur = map_index (\<lambda>j page. if j \<noteq> i then page
      else sort_cmp (cmp_on (position_in (before ! i)) cmp_num) (page @ [r])) 0 ?cur"
    using fi(1) r(1) gone by (simp add: restore_entity_def cong: if_cong)
  also have "\<dots> = map (filter (\<lambda>x. Q x \<or> sameEntity x k)) before"
    by (rule nth_equalityI) (auto simp: nth_map_index remove_entity_def other restore_entity_page [OF d r(2,3)] simp del: filter_filter)
  finally show ?thesis .
qed

text \<open>
  C29. A failed change leaves nothing behind (\<open>FavouriteButton.tsx\<close>). When removing a favourite fails, the projections that
  showed the previous state show it again as they were; in the lists the removed record is back in its old place,
  and everything that was removed from them in the meantime stays removed.
\<close>

theorem failed_removal_restores:
  assumes "patchFavouriteProjections fs k previous cache = cache"
    and "distinct (map favouriteKey (concat before))" "x \<in> set (concat before)" "favouriteKey x = favouriteKey k"
  shows "patchFavouriteProjections fs k previous (patchFavouriteProjections fs k desired cache) = cache
    \<and> restore_entity k before (map (filter Q) (remove_entity k before)) = map (filter (\<lambda>x. Q x \<or> sameEntity x k)) before"
  using projections_twice [of fs k previous desired cache] assms(1) restore_entity_pages [OF assms(2-4), of Q] by simp

theorem failed_removal_restores_witness:
  "let user = JObj [(''site'', JStr ''of''), (''id'', JNum (Fin 7)), (''favorite'', JBool True)];
       cache = [([JStr ''users-list''], JArr [user])];
       item = (\<lambda>n. \<lparr>fk_site = ''of'', fk_type = FUser, fk_id = n, item_rest = ()\<rparr>)
   in patchFavouriteProjections (\<lambda>_. []) demo_key True (patchFavouriteProjections (\<lambda>_. []) demo_key False cache) = cache
      \<and> patchFavouriteProjections (\<lambda>_. []) demo_key False cache \<noteq> cache
      \<and> restore_entity demo_key [[item 5, item 7, item 9]] (map (filter (\<lambda>x. fk_id x \<noteq> 9)) (remove_entity demo_key [[item 5, item 7, item 9]]))
         = [[item 5, item 7]]"
proof -
  let ?user = "JObj [(''site'', JStr ''of''), (''id'', JNum (Fin 7)), (''favorite'', JBool True)]"
  let ?cache = "[([JStr ''users-list''], JArr [?user])]"
  let ?item = "\<lambda>n. \<lparr>fk_site = ''of'', fk_type = FUser, fk_id = n, item_rest = ()\<rparr>"
  have c: "patchFavouriteProjections (\<lambda>_. []) demo_key True ?cache = ?cache" by code_simp
  have n: "patchFavouriteProjections (\<lambda>_. []) demo_key False ?cache \<noteq> ?cache" by code_simp
  show ?thesis
    using failed_removal_restores [OF c, of "[[?item 5, ?item 7, ?item 9]]" "?item 7" False "\<lambda>x. fk_id x \<noteq> 9"] n
    by (simp add: favouriteKey_def demo_key_def sameEntity_def)
qed

end
