(* ===== verification/Users.thy ===== *)
theory Users
  imports JsJson JsRegex JobProgress
begin

text \<open>
  Users and their profiles: \<open>features/users/lib/usersUtils.ts\<close>, \<open>features/user-profile/lib/userProfileUtils.ts\<close> and
  \<open>identityDraft.ts\<close>, \<open>features/favourites/favouriteFilters.ts\<close>, \<open>shared/lib/format.ts\<close>. Labels, query parameters, saved
  searches, the identity form, and short forms of byte counts, numbers and times. Non-ASCII text is written as UTF-8
  bytes; dates and \<open>toLocaleString\<close> are parameters.
\<close>

section \<open>Labels\<close>

definition dash :: string where
  "dash = [CHR 0xE2, CHR 0x80, CHR 0x94]"

definition sexLabel :: "rat option \<Rightarrow> string" where
  "sexLabel sex = (if sex = Some 0 then ''Female'' else if sex = Some 1 then ''Male'' else if sex = Some 2 then ''Other'' else dash)"

definition genderLabel :: "rat option \<Rightarrow> string" where
  "genderLabel g = (if g = Some 0 then ''Woman'' else if g = Some 1 then ''Man'' else if g = Some 2 then ''Other'' else dash)"

definition profileTypeLabel :: "rat option \<Rightarrow> string" where
  "profileTypeLabel p = (if p = Some 0 then ''Solo'' else if p = Some 1 then ''Couple'' else if p = Some 2 then ''Group''
     else if p = Some 3 then ''Other'' else dash)"

definition sexualContentLabel :: "rat option \<Rightarrow> string" where
  "sexualContentLabel c =
     (if c = Some 0 then ''Heterosexual (B/G)'' else if c = Some 1 then ''Lesbian (G/G)'' else if c = Some 2 then ''Gay (M/M)''
      else if c = Some 3 then ''Bisexual'' else if c = Some 4 then ''Trans / Queer'' else if c = Some 5 then ''Solo''
      else if c = Some 6 then ''Other'' else dash)"

record identity =
  id_sex :: "rat option"
  id_gender :: "rat option"
  id_partner_sex :: "rat option"
  id_partner_gender :: "rat option"
  id_profile_type :: "rat option"
  id_sexual_content :: "rat option"

text \<open>The transgender flag: U+1F3F3 U+FE0F U+200D U+26A7 U+FE0F.\<close>

definition trans_flag :: string where
  "trans_flag = [CHR 0xF0, CHR 0x9F, CHR 0x8F, CHR 0xB3, CHR 0xEF, CHR 0xB8, CHR 0x8F, CHR 0xE2, CHR 0x80, CHR 0x8D,
     CHR 0xE2, CHR 0x9A, CHR 0xA7, CHR 0xEF, CHR 0xB8, CHR 0x8F]"

definition dot :: string where
  "dot = [CHR 0xC2, CHR 0xB7]"

definition userIdentityLabel :: "identity \<Rightarrow> string" where
  "userIdentityLabel u =
     (if id_sexual_content u = Some 4
      then (if id_gender u = Some 0 \<or> (id_sex u = Some 1 \<and> id_gender u = Some 0) then trans_flag @ '' Trans Woman''
            else if id_gender u = Some 1 \<or> (id_sex u = Some 0 \<and> id_gender u = Some 1) then trans_flag @ '' Trans Man''
            else let s = sexLabel (id_sex u) in if s \<noteq> [] \<and> s \<noteq> dash then trans_flag @ '' Trans ('' @ s @ '')'' else trans_flag @ '' Trans'')
      else if id_sex u = Some 1 \<and> id_gender u = Some 0 then trans_flag @ '' Trans Woman''
      else if id_sex u = Some 0 \<and> id_gender u = Some 1 then trans_flag @ '' Trans Man''
      else if id_profile_type u = Some 1
      then (if id_sexual_content u \<noteq> None \<and> sexualContentLabel (id_sexual_content u) \<noteq> dash
            then ''Couple '' @ dot @ '' '' @ sexualContentLabel (id_sexual_content u)
            else if id_partner_sex u \<noteq> None
            then ''Couple ('' @ sexLabel (id_sex u) @ '' & '' @ sexLabel (id_partner_sex u) @ '')''
            else ''Couple'')
      else if id_profile_type u = Some 2 then ''Group''
      else sexLabel (id_sex u))"

section \<open>Query parameters and saved searches\<close>

definition USERS_SORT_OPTIONS :: "string list" where
  "USERS_SORT_OPTIONS = [''username'', ''price'', ''post_count'', ''last_checked_at'', ''created_at'', ''id'']"

definition FAVORITE_USERS_SORT_OPTIONS :: "string list" where
  "FAVORITE_USERS_SORT_OPTIONS = filter (\<lambda>v. v \<noteq> ''created_at'') USERS_SORT_OPTIONS"

definition SEX_FILTER_OPTIONS :: "int list" where
  "SEX_FILTER_OPTIONS = [- 1, 0, 1, 2]"

definition GENDER_FILTER_OPTIONS :: "int list" where
  "GENDER_FILTER_OPTIONS = [- 1, 0, 1, 2]"

definition PROFILE_TYPE_FILTER_OPTIONS :: "int list" where
  "PROFILE_TYPE_FILTER_OPTIONS = [- 1, 0, 1, 2, 3]"

definition SEXUAL_CONTENT_FILTER_OPTIONS :: "int list" where
  "SEXUAL_CONTENT_FILTER_OPTIONS = [- 1, 0, 1, 2, 3, 4, 5, 6]"

definition parseBooleanParam :: "string option \<Rightarrow> bool \<Rightarrow> bool" where
  "parseBooleanParam v fallback = (case v of None \<Rightarrow> fallback | Some s \<Rightarrow> s = ''true'' \<or> s = ''1'')"

text \<open>The numbers of a list that are integers and allowed.\<close>

definition allowed_int :: "int list \<Rightarrow> jsnum \<Rightarrow> int option" where
  "allowed_int allowed n = (case n of
      Fin q \<Rightarrow> if is_integral q \<and> \<lfloor>q\<rfloor> \<in> set allowed then Some \<lfloor>q\<rfloor> else None
    | _ \<Rightarrow> None)"

definition parseIntListParam :: "string option \<Rightarrow> int list \<Rightarrow> int list" where
  "parseIntListParam v allowed =
     (case Option.bind v nonempty of
        None \<Rightarrow> []
      | Some s \<Rightarrow> List.map_filter (\<lambda>item. allowed_int allowed (js_Number item)) (split_on CHR '','' s))"

record users_stats =
  us_total :: rat
  us_active :: rat
  us_inactive :: rat
  us_free :: rat
  us_paid :: rat
  us_avgPrice :: string

record users_response =
  ur_success :: bool
  ur_total :: "rat option"
  ur_active :: "rat option"
  ur_inactive :: "rat option"
  ur_free :: "rat option"
  ur_paid :: "rat option"
  ur_avg_price :: "rat option"

definition buildUsersStats :: "users_response option \<Rightarrow> users_stats option" where
  "buildUsersStats data =
     (case data of
        None \<Rightarrow> None
      | Some d \<Rightarrow>
          (case ur_total d of
             None \<Rightarrow> None
           | Some t \<Rightarrow>
               if \<not> ur_success d then None
               else Some \<lparr>us_total = t, us_active = or_else (ur_active d) 0, us_inactive = or_else (ur_inactive d) 0,
                 us_free = or_else (ur_free d) 0, us_paid = or_else (ur_paid d) 0,
                 us_avgPrice = to_fixed 2 (or_else (ur_avg_price d) 0)\<rparr>))"

text \<open>\<open>value.trim().replace(/\s+/g, ' ').slice(0, n)\<close>\<close>

lemma dropWhile_Suc_length [termination_simp]: "length (dropWhile P s) < Suc (length s)"
  by (simp add: less_Suc_eq_le length_dropWhile_le)

fun squeeze_ws :: "string \<Rightarrow> string" where
  "squeeze_ws [] = []"
| "squeeze_ws (c # s) = (if is_ws c then CHR '' '' # squeeze_ws (dropWhile is_ws s) else c # squeeze_ws s)"

definition short_text :: "nat \<Rightarrow> string \<Rightarrow> string" where
  "short_text n s = take n (squeeze_ws (trim s))"

record loadout_options =
  selectedSite :: string
  searchQuery :: string
  searchTerm :: string
  searchDescriptionQuery :: string
  searchDescriptionTerm :: string

definition buildUsersLoadoutName :: "loadout_options \<Rightarrow> string" where
  "buildUsersLoadoutName opts =
     (let siteValue = or_str (Some (short_text 24 (or_str (Some (selectedSite opts)) ''all''))) ''all'';
          identifierValue = short_text 36 (or_str (Some (searchQuery opts)) (searchTerm opts));
          descriptionValue = short_text 36 (or_str (Some (searchDescriptionQuery opts)) (searchDescriptionTerm opts))
      in join '' | '' ([''site:'' @ siteValue]
           @ (if identifierValue \<noteq> [] then [''identifier:'' @ identifierValue] else [])
           @ (if descriptionValue \<noteq> [] then [''description:'' @ descriptionValue] else [])))"

definition getUsersSortOptions :: "bool \<Rightarrow> string list" where
  "getUsersSortOptions favoriteOnly = (if favoriteOnly then FAVORITE_USERS_SORT_OPTIONS else USERS_SORT_OPTIONS)"

definition normalizeUsersSortBy :: "string option \<Rightarrow> bool \<Rightarrow> string" where
  "normalizeUsersSortBy sortBy favoriteOnly =
     (case sortBy of
        None \<Rightarrow> ''id''
      | Some s \<Rightarrow> if s \<in> set (getUsersSortOptions favoriteOnly) then s else ''id'')"

record loadout_item =
  lo_identifier :: "string option"
  lo_description :: "string option"
  lo_site :: "string option"
  lo_filters :: json

record loadout_state =
  ls_identifier :: string
  ls_description :: string
  ls_site :: string
  ls_sex :: "int list"
  ls_gender :: "int list"
  ls_performer :: string
  ls_subscribed :: string
  ls_sortBy :: string
  ls_sortOrder :: string
  ls_minPrice :: string
  ls_maxPrice :: string
  ls_minPostCount :: string
  ls_maxPostCount :: string
  ls_minImageCount :: string
  ls_maxImageCount :: string
  ls_minVideoCount :: string
  ls_maxVideoCount :: string
  ls_activeOnly :: bool

definition saved_numbers :: "(rat \<Rightarrow> string) \<Rightarrow> json \<Rightarrow> int list" where
  "saved_numbers fs v = (case v of JArr xs \<Rightarrow> List.map_filter (\<lambda>x. allowed_int [- 1, 0, 1, 2] (number_of fs x)) xs | _ \<Rightarrow> [])"

definition saved_text :: "json \<Rightarrow> string" where
  "saved_text v = (case v of JStr s \<Rightarrow> s | _ \<Rightarrow> [])"

definition applyUsersLoadoutState :: "(rat \<Rightarrow> string) \<Rightarrow> loadout_item \<Rightarrow> bool \<Rightarrow> loadout_state" where
  "applyUsersLoadoutState fs l favoriteOnly =
     (let f = jget (lo_filters l)
      in \<lparr>ls_identifier = or_else (lo_identifier l) [], ls_description = or_else (lo_description l) [],
          ls_site = or_else (lo_site l) [], ls_sex = saved_numbers fs (f ''sex''), ls_gender = saved_numbers fs (f ''gender''),
          ls_performer = (case f ''performer_filter'' of JStr s \<Rightarrow> if s = ''exclude'' \<or> s = ''none'' then s else ''include'' | _ \<Rightarrow> ''include''),
          ls_subscribed = (case f ''subscribed_filter'' of JStr s \<Rightarrow> if s = ''include'' \<or> s = ''exclude'' then s else ''none'' | _ \<Rightarrow> ''none''),
          ls_sortBy = normalizeUsersSortBy (case f ''sort_by'' of JStr s \<Rightarrow> Some s | _ \<Rightarrow> None) favoriteOnly,
          ls_sortOrder = (if f ''sort_order'' = JStr ''asc'' then ''asc'' else ''desc''),
          ls_minPrice = saved_text (f ''min_price''), ls_maxPrice = saved_text (f ''max_price''),
          ls_minPostCount = saved_text (f ''min_post_count''), ls_maxPostCount = saved_text (f ''max_post_count''),
          ls_minImageCount = saved_text (f ''min_image_count''), ls_maxImageCount = saved_text (f ''max_image_count''),
          ls_minVideoCount = saved_text (f ''min_video_count''), ls_maxVideoCount = saved_text (f ''max_video_count''),
          ls_activeOnly = (case f ''active_only'' of JBool b \<Rightarrow> b | _ \<Rightarrow> True)\<rparr>)"

section \<open>Filters of the favourites page\<close>

definition fav_ranges :: "string list" where
  "fav_ranges = [''price'', ''post_count'', ''image_count'', ''video_count'']"

definition fav_identity :: "(string \<times> int list) list" where
  "fav_identity = [(''sex'', SEX_FILTER_OPTIONS), (''gender'', GENDER_FILTER_OPTIONS),
     (''profile_type'', PROFILE_TYPE_FILTER_OPTIONS), (''sexual_content'', SEXUAL_CONTENT_FILTER_OPTIONS)]"

definition fav_availability :: "string list" where
  "fav_availability = [''available'', ''inactive'', ''deleted'', ''expired'', ''unavailable'']"

definition range_value :: "string \<Rightarrow> string option \<Rightarrow> rat option" where
  "range_value name v =
     (case v of
        None \<Rightarrow> None
      | Some s \<Rightarrow>
          if trim s = [] then None
          else case js_Number s of
                 Fin q \<Rightarrow> if q \<ge> 0 \<and> (name = ''price'' \<or> is_safe_integer (Fin q)) then Some q else None
               | _ \<Rightarrow> None)"

definition filter_keys :: "string list" where
  "filter_keys = [''availability'', ''active_only'', ''performer'', ''subscribed''] @ map fst fav_identity
     @ concat (map (\<lambda>name. [''min_'' @ name, ''max_'' @ name]) fav_ranges)"

definition parseFavouriteFilters :: "(string \<Rightarrow> string option) \<Rightarrow> jsobject" where
  "parseFavouriteFilters params =
     (case params ''availability'' of Some s \<Rightarrow> if s \<in> set fav_availability then [(''availability'', JStr s)] else [] | None \<Rightarrow> [])
   @ (if params ''active_only'' = Some ''true'' then [(''active_only'', JBool True)] else [])
   @ concat (map (\<lambda>key. case params key of Some s \<Rightarrow> if s = ''include'' \<or> s = ''exclude'' then [(key, JStr s)] else [] | None \<Rightarrow> [])
       [''performer'', ''subscribed''])
   @ concat (map (\<lambda>(key, options). let values = parseIntListParam (params key) options
       in if values = [] then [] else [(key, JArr (map (\<lambda>i. JNum (Fin (of_int i))) values))]) fav_identity)
   @ concat (map (\<lambda>name. concat (map (\<lambda>bound. let key = bound @ ''_'' @ name
       in case range_value name (params key) of Some q \<Rightarrow> [(key, JNum (Fin q))] | None \<Rightarrow> []) [''min'', ''max''])) fav_ranges)"

section \<open>The identity form\<close>

record identity_preset =
  ip_id :: string
  ip_label :: string
  ip_category :: string
  ip_profileType :: int
  ip_sexualContent :: int
  ip_sex :: int
  ip_gender :: int
  ip_partnerSex :: "int option"
  ip_partnerGender :: "int option"

abbreviation preset :: "string \<Rightarrow> string \<Rightarrow> string \<Rightarrow> int \<Rightarrow> int \<Rightarrow> int \<Rightarrow> int \<Rightarrow> int option \<Rightarrow> int option \<Rightarrow> identity_preset" where
  "preset i l c pt sc s g ps pg \<equiv> \<lparr>ip_id = i, ip_label = l, ip_category = c, ip_profileType = pt, ip_sexualContent = sc,
     ip_sex = s, ip_gender = g, ip_partnerSex = ps, ip_partnerGender = pg\<rparr>"

definition IDENTITY_PRESETS :: "identity_preset list" where
  "IDENTITY_PRESETS =
     [preset ''cis_woman'' ''Cis Woman'' ''solo'' 0 5 0 0 None None,
      preset ''cis_man'' ''Cis Man'' ''solo'' 0 5 1 1 None None,
      preset ''trans_woman'' ''Trans Woman'' ''solo'' 0 4 1 0 None None,
      preset ''trans_man'' ''Trans Man'' ''solo'' 0 4 0 1 None None,
      preset ''straight_couple'' ''Straight Couple (F/M)'' ''couple'' 1 0 0 0 (Some 1) (Some 1),
      preset ''lesbian_couple'' ''Lesbian Couple (F/F)'' ''couple'' 1 1 0 0 (Some 0) (Some 0),
      preset ''gay_couple'' ''Gay Couple (M/M)'' ''couple'' 1 2 1 1 (Some 1) (Some 1),
      preset ''trans_couple'' ''Trans / Queer Couple'' ''couple'' 1 4 1 0 (Some 0) (Some 0)]"

record identity_draft =
  dr_profileType :: string
  dr_sexualContent :: string
  dr_sex :: string
  dr_gender :: string
  dr_partnerSex :: string
  dr_partnerGender :: string

record identity_values =
  iv_sex :: "jsnum option"
  iv_gender :: "jsnum option"
  iv_profile_type :: "jsnum option"
  iv_sexual_content :: "jsnum option"
  iv_partner_sex :: "jsnum option"
  iv_partner_gender :: "jsnum option"

definition EMPTY_IDENTITY_DRAFT :: identity_draft where
  "EMPTY_IDENTITY_DRAFT = \<lparr>dr_profileType = [], dr_sexualContent = [], dr_sex = [], dr_gender = [], dr_partnerSex = [], dr_partnerGender = []\<rparr>"

definition draftValue :: "int option \<Rightarrow> string" where
  "draftValue v = (case v of None \<Rightarrow> [] | Some i \<Rightarrow> show_int i)"

definition parsedValue :: "string \<Rightarrow> jsnum option" where
  "parsedValue s = (if s = [] then None else Some (js_Number s))"

record identity_source =
  src_sex :: "int option"
  src_gender :: "int option"
  src_profile_type :: "int option"
  src_sexual_content :: "int option"
  src_partner_sex :: "int option"
  src_partner_gender :: "int option"

definition identityDraftFromUser :: "identity_source \<Rightarrow> identity_draft" where
  "identityDraftFromUser u = \<lparr>dr_profileType = draftValue (src_profile_type u), dr_sexualContent = draftValue (src_sexual_content u),
     dr_sex = draftValue (src_sex u), dr_gender = draftValue (src_gender u),
     dr_partnerSex = draftValue (src_partner_sex u), dr_partnerGender = draftValue (src_partner_gender u)\<rparr>"

definition identityDraftFromPreset :: "identity_preset \<Rightarrow> identity_draft" where
  "identityDraftFromPreset p = \<lparr>dr_profileType = show_int (ip_profileType p), dr_sexualContent = show_int (ip_sexualContent p),
     dr_sex = show_int (ip_sex p), dr_gender = show_int (ip_gender p),
     dr_partnerSex = draftValue (ip_partnerSex p), dr_partnerGender = draftValue (ip_partnerGender p)\<rparr>"

definition valid_sex_or_gender :: "jsnum option \<Rightarrow> bool" where
  "valid_sex_or_gender v \<longleftrightarrow> v \<in> {None, Some (Fin 0), Some (Fin 1), Some (Fin 2)}"

definition parseIdentityDraft :: "identity_draft \<Rightarrow> string + identity_values" where
  "parseIdentityDraft d =
     (let v = \<lparr>iv_sex = parsedValue (dr_sex d), iv_gender = parsedValue (dr_gender d),
               iv_profile_type = parsedValue (dr_profileType d), iv_sexual_content = parsedValue (dr_sexualContent d),
               iv_partner_sex = parsedValue (dr_partnerSex d), iv_partner_gender = parsedValue (dr_partnerGender d)\<rparr>
      in case List.find (\<lambda>(x, e). \<not> valid_sex_or_gender x)
           [(iv_sex v, ''Invalid sex value''), (iv_gender v, ''Invalid gender value''),
            (iv_partner_sex v, ''Invalid partner sex value''), (iv_partner_gender v, ''Invalid partner gender value'')] of
           Some (_, e) \<Rightarrow> Inl e
         | None \<Rightarrow> Inr v)"

section \<open>Short forms of numbers, sizes and times\<close>

definition BYTE_UNITS :: "string list" where
  "BYTE_UNITS = [''B'', ''KB'', ''MB'', ''GB'', ''TB'', ''PB'']"

text \<open>
  \<open>Math.min(5, Math.max(0, Math.floor(Math.log(|bytes|) / Math.log(1024))))\<close>, as the number of the powers
  \<open>1024 .. 1024 ^ 5\<close> that do not exceed the magnitude.
\<close>

definition byte_exponent :: "rat \<Rightarrow> nat" where
  "byte_exponent b = length (filter (\<lambda>k. 1024 ^ k \<le> \<bar>b\<bar>) [1, 2, 3, 4, 5])"

definition formatBytes :: "jsnum \<Rightarrow> nat \<Rightarrow> string" where
  "formatBytes bytes fractionDigits =
     (case bytes of
        Fin b \<Rightarrow>
          if b = 0 then ''0 B''
          else let k = byte_exponent b
               in to_fixed (if k = 0 then 0 else fractionDigits) (b / 1024 ^ k) @ '' '' @ BYTE_UNITS ! k
      | _ \<Rightarrow> ''0 B'')"

definition formatBytes_system :: "jsnum \<Rightarrow> string" where
  "formatBytes_system bytes = formatBytes bytes 2"

definition formatCompactNumber :: "(rat \<Rightarrow> string) \<Rightarrow> rat \<Rightarrow> string" where
  "formatCompactNumber toLocaleString v =
     (if v \<ge> 1000000 then to_fixed 1 (v / 1000000) @ ''M''
      else if v \<ge> 1000 then to_fixed 1 (v / 1000) @ ''K''
      else toLocaleString v)"

definition formatPrice :: "rat \<Rightarrow> string" where
  "formatPrice price = ''$'' @ to_fixed 2 price"

text \<open>A date that does not parse makes every comparison false.\<close>

definition formatRelativeTime :: "clock \<Rightarrow> int \<Rightarrow> string option \<Rightarrow> string" where
  "formatRelativeTime clk now_ms isoDate =
     (case Option.bind isoDate nonempty of
        None \<Rightarrow> ''Never''
      | Some s \<Rightarrow>
          (case getTime clk s of
             None \<Rightarrow> ''NaNy ago''
           | Some t \<Rightarrow>
               let diffMs = now_ms - t; diffMins = diffMs div 60000; diffHours = diffMs div 3600000; diffDays = diffMs div 86400000
               in if diffMins < 1 then ''Just now''
                  else if diffMins < 60 then show_int diffMins @ ''m ago''
                  else if diffHours < 24 then show_int diffHours @ ''h ago''
                  else if diffDays < 7 then show_int diffDays @ ''d ago''
                  else if diffDays < 30 then show_int (diffDays div 7) @ ''w ago''
                  else if diffDays < 365 then show_int (diffDays div 30) @ ''mo ago''
                  else show_int (diffDays div 365) @ ''y ago''))"

definition formatDate :: "clock \<Rightarrow> string option \<Rightarrow> string" where
  "formatDate clk iso_date = (case Option.bind iso_date nonempty of None \<Rightarrow> dash | Some s \<Rightarrow> toLocaleDateString clk (getTime clk s))"

definition formatDateTime :: "clock \<Rightarrow> string option \<Rightarrow> string" where
  "formatDateTime clk iso_date = (case Option.bind iso_date nonempty of None \<Rightarrow> dash | Some s \<Rightarrow> toLocaleString_date clk (getTime clk s))"

definition formatDuration_ms :: "int \<Rightarrow> string" where
  "formatDuration_ms diffMs =
     (let totalMinutes = max 0 (diffMs div 60000);
          days = totalMinutes div 1440; hours = totalMinutes mod 1440 div 60; minutes = totalMinutes mod 60
      in if days > 0 then show_int days @ ''d '' @ show_int hours @ ''h''
         else if hours > 0 then show_int hours @ ''h '' @ show_int minutes @ ''m''
         else if minutes > 0 then show_int minutes @ ''m''
         else ''<1m'')"

datatype tone = Active | Expired | Neutral

record subscription_countdown =
  sc_value :: string
  sc_detail :: string
  sc_tone :: tone

definition getSubscriptionCountdown :: "clock \<Rightarrow> string option \<Rightarrow> bool \<Rightarrow> int \<Rightarrow> subscription_countdown" where
  "getSubscriptionCountdown clk expiresAt isSubscribed nowMs =
     (case Option.bind expiresAt nonempty of
        None \<Rightarrow> \<lparr>sc_value = ''N/A'', sc_detail = (if isSubscribed then ''Subscription expiry unavailable'' else ''No subscription expiry''),
                  sc_tone = Neutral\<rparr>
      | Some s \<Rightarrow>
          (case getTime clk s of
             None \<Rightarrow> \<lparr>sc_value = ''Unknown'', sc_detail = ''Invalid expiry timestamp'', sc_tone = Neutral\<rparr>
           | Some expiresMs \<Rightarrow>
               let diffMs = expiresMs - nowMs
               in if diffMs \<le> 0
                  then \<lparr>sc_value = formatDuration_ms \<bar>diffMs\<bar> @ '' ago'', sc_detail = ''Expired '' @ formatDateTime clk expiresAt, sc_tone = Expired\<rparr>
                  else \<lparr>sc_value = formatDuration_ms diffMs, sc_detail = ''Expires '' @ formatDateTime clk expiresAt, sc_tone = Active\<rparr>))"

section \<open>Social links\<close>

text \<open>The address each site puts before the identifier.\<close>

definition social_prefix :: "string \<Rightarrow> string option" where
  "social_prefix site =
     (if site = ''x'' \<or> site = ''twitter'' then Some ''https://x.com/''
      else map_of [(''instagram'', ''https://www.instagram.com/''), (''tiktok'', ''https://www.tiktok.com/@''),
        (''youtube'', ''https://www.youtube.com/@''), (''reddit'', ''https://www.reddit.com/user/''),
        (''snapchat'', ''https://www.snapchat.com/add/''), (''threads'', ''https://www.threads.net/@''),
        (''facebook'', ''https://www.facebook.com/''), (''twitch'', ''https://www.twitch.tv/''),
        (''linktree'', ''https://linktr.ee/'')] site)"

definition getSocialUrl :: "string \<Rightarrow> string \<Rightarrow> string option" where
  "getSocialUrl site identifier =
     (let normalizedSite = lower (trim site);
          bare = trim identifier;
          normalizedIdentifier = (if starts_with ''@'' bare then tl bare else bare)
      in if normalizedIdentifier = [] then None
         else if starts_with ''http://'' (lower bare) \<or> starts_with ''https://'' (lower bare) then Some bare
         else map_option (\<lambda>prefix. prefix @ normalizedIdentifier) (social_prefix normalizedSite))"

section \<open>Facts on the forms\<close>

text \<open>The values a source holds, as the form returns them.\<close>

definition source_values :: "identity_source \<Rightarrow> identity_values" where
  "source_values u = (let v = map_option (\<lambda>i. Fin (of_int i))
     in \<lparr>iv_sex = v (src_sex u), iv_gender = v (src_gender u), iv_profile_type = v (src_profile_type u),
        iv_sexual_content = v (src_sexual_content u), iv_partner_sex = v (src_partner_sex u), iv_partner_gender = v (src_partner_gender u)\<rparr>)"

definition known_value :: "int option \<Rightarrow> bool" where
  "known_value v \<longleftrightarrow> (case v of None \<Rightarrow> True | Some i \<Rightarrow> i \<in> {0, 1, 2})"

lemma show_int_ne_Nil [simp]: "show_int i \<noteq> []"
  by (simp add: show_int_def)

lemma parsedValue_draftValue [simp]: "parsedValue (draftValue v) = map_option (\<lambda>i. Fin (of_int i)) v"
  by (cases v) (simp_all add: parsedValue_def draftValue_def)

lemma parsedValue_show_int [simp]: "parsedValue (show_int i) = Some (Fin (of_int i))"
  by (simp add: parsedValue_def)

lemma valid_sex_or_gender_int [simp]: "valid_sex_or_gender (map_option (\<lambda>i. Fin (of_int i)) v) \<longleftrightarrow> known_value v"
  by (cases v) (simp_all add: valid_sex_or_gender_def known_value_def)

text \<open>
  C30. A user's identity read into the form and parsed back is the identity itself, every unset field unset, as soon as sex,
  gender and the partner's are each unset or 0, 1 or 2; otherwise the first field that is not, in the order sex, gender,
  partner sex, partner gender, is the one reported. Profile type and sexual content are not checked.
\<close>

theorem identity_form_roundtrip:
  "parseIdentityDraft (identityDraftFromUser u) =
     (if \<not> known_value (src_sex u) then Inl ''Invalid sex value''
      else if \<not> known_value (src_gender u) then Inl ''Invalid gender value''
      else if \<not> known_value (src_partner_sex u) then Inl ''Invalid partner sex value''
      else if \<not> known_value (src_partner_gender u) then Inl ''Invalid partner gender value''
      else Inr (source_values u))"
  by (simp add: parseIdentityDraft_def identityDraftFromUser_def source_values_def Let_def)

lemma presets_parse:
  "list_all (\<lambda>p. case parseIdentityDraft (identityDraftFromPreset p) of Inl e \<Rightarrow> False
     | Inr v \<Rightarrow> iv_sex v = Some (Fin (of_int (ip_sex p))) \<and> iv_gender v = Some (Fin (of_int (ip_gender p)))) IDENTITY_PRESETS"
  unfolding IDENTITY_PRESETS_def identityDraftFromPreset_def
  by (simp add: parseIdentityDraft_def parsedValue_show_int valid_sex_or_gender_def Let_def)

text \<open>An empty item of a list parameter reads as 0 and selects the option 0.\<close>

lemma empty_item_counts_as_zero: "parseIntListParam (Some ''1,'') SEX_FILTER_OPTIONS = [1, 0]"
  by code_simp

lemma parseIntListParam_allowed: "set (parseIntListParam v allowed) \<subseteq> set allowed"
  by (auto simp: parseIntListParam_def allowed_int_def map_filter_def split: option.splits jsnum.splits if_splits)

text \<open>What the server may be sent for a key.\<close>

definition valid_filter :: "string \<times> json \<Rightarrow> bool" where
  "valid_filter kv = (case kv of (key, v) \<Rightarrow>
     if key = ''availability'' then \<exists>s. v = JStr s \<and> s \<in> set fav_availability
     else if key = ''active_only'' then v = JBool True
     else if key \<in> {''performer'', ''subscribed''} then v \<in> {JStr ''include'', JStr ''exclude''}
     else case map_of fav_identity key of
            Some allowed \<Rightarrow> \<exists>is. v = JArr (map (\<lambda>i. JNum (Fin (of_int i))) is) \<and> is \<noteq> [] \<and> set is \<subseteq> set allowed
          | None \<Rightarrow> \<exists>q. v = JNum (Fin q) \<and> q \<ge> 0 \<and> (key \<in> {''min_price'', ''max_price''} \<or> is_integral q))"

lemma subseq_concat_map:
  assumes "\<And>k. k \<in> set ks \<Longrightarrow> subseq (map fst (f k)) (g k)"
  shows "subseq (map fst (concat (map f ks))) (concat (map g ks))"
  using assms by (induction ks) (auto intro!: list_emb_append_mono)

lemma subseq_optional [simp]:
  "subseq (map fst (if c then [(k, v)] else [])) [k]"
  "subseq (map fst (case x of None \<Rightarrow> [] | Some a \<Rightarrow> [(k, h a)])) [k]"
  "subseq (map fst (case x of None \<Rightarrow> [] | Some a \<Rightarrow> if p a then [(k, h a)] else [])) [k]"
  by (simp_all split: option.splits)

lemma filter_keys_parts:
  "filter_keys = [''availability''] @ [''active_only''] @ concat (map (\<lambda>k. [k]) [''performer'', ''subscribed''])
     @ concat (map (\<lambda>(key, options). [key]) fav_identity)
     @ concat (map (\<lambda>name. concat (map (\<lambda>bound. [bound @ ''_'' @ name]) [''min'', ''max''])) fav_ranges)"
  by code_simp

lemma parseFavouriteFilters_keys: "subseq (map fst (parseFavouriteFilters params)) filter_keys"
  unfolding parseFavouriteFilters_def filter_keys_parts map_append
  by (intro list_emb_append_mono subseq_concat_map subseq_optional)
    (auto simp: Let_def split: option.splits intro!: subseq_concat_map)

lemma valid_filter_identity:
  assumes "(key, options) \<in> set fav_identity" "parseIntListParam v options \<noteq> []"
  shows "valid_filter (key, JArr (map (\<lambda>i. JNum (Fin (of_int i))) (parseIntListParam v options)))"
proof -
  have "list_all (\<lambda>(k, opts). k \<notin> {''availability'', ''active_only'', ''performer'', ''subscribed''} \<and> map_of fav_identity k = Some opts) fav_identity"
    by code_simp
  then have "key \<notin> {''availability'', ''active_only'', ''performer'', ''subscribed''}" "map_of fav_identity key = Some options"
    using assms(1) by (auto simp only: list_all_iff)
  then show ?thesis
    using assms(2) parseIntListParam_allowed [of v options] unfolding valid_filter_def by simp blast
qed

lemma range_valueD: "range_value name v = Some q \<Longrightarrow> q \<ge> 0 \<and> (name = ''price'' \<or> is_integral q)"
  by (auto simp: range_value_def is_safe_integer_def split: option.splits if_splits jsnum.splits)

lemma valid_filter_range:
  assumes "name \<in> set fav_ranges" "bound \<in> {''min'', ''max''}" "range_value name v = Some q"
  shows "valid_filter (bound @ ''_'' @ name, JNum (Fin q))"
proof -
  have "list_all (\<lambda>n. list_all (\<lambda>b. let k = b @ ''_'' @ n in k \<notin> {''availability'', ''active_only'', ''performer'', ''subscribed''}
      \<and> map_of fav_identity k = None \<and> (n = ''price'' \<longrightarrow> k \<in> {''min_price'', ''max_price''})) [''min'', ''max'']) fav_ranges"
    by code_simp
  then have "bound @ ''_'' @ name \<notin> {''availability'', ''active_only'', ''performer'', ''subscribed''}"
    "map_of fav_identity (bound @ ''_'' @ name) = None" "name = ''price'' \<longrightarrow> bound @ ''_'' @ name \<in> {''min_price'', ''max_price''}"
    using assms(1,2) by (auto simp only: list_all_iff Let_def list.set insert_iff)
  then show ?thesis
    using range_valueD [OF assms(3)] unfolding valid_filter_def by auto
qed

lemma parseFavouriteFilters_valid: "list_all valid_filter (parseFavouriteFilters params)"
proof -
  have flags: "valid_filter (''active_only'', JBool True)"
    "s \<in> set fav_availability \<Longrightarrow> valid_filter (''availability'', JStr s)"
    "k \<in> {''performer'', ''subscribed''} \<Longrightarrow> s = ''include'' \<or> s = ''exclude'' \<Longrightarrow> valid_filter (k, JStr s)" for s k
    by (auto simp: valid_filter_def)
  note bounds = valid_filter_range [of _ "''min''", simplified] valid_filter_range [of _ "''max''", simplified]
  show ?thesis
    unfolding parseFavouriteFilters_def list_all_append list_all_iff [of _ "concat _"] set_concat
    using flags by (auto simp: Let_def split: option.splits if_splits intro: valid_filter_identity bounds dest!: sym [of "Some _"])
qed

text \<open>
  C31. Whatever the address bar holds, the filters read from it name known keys, each at most once and in their fixed order, and
  every value is one the key allows: a known availability, \<open>true\<close>, \<open>include\<close> or \<open>exclude\<close>, a non-empty list of offered numbers,
  or a bound that is not negative and, but for prices, whole.
\<close>

theorem favourite_filters_well_formed:
  "subseq (map fst (parseFavouriteFilters params)) filter_keys \<and> list_all valid_filter (parseFavouriteFilters params)"
  by (simp add: parseFavouriteFilters_keys parseFavouriteFilters_valid)

text \<open>The exponent of \<open>formatBytes\<close> is the one its source computes with logarithms.\<close>

lemma power_le_log:
  assumes "b > 0"
  shows "(1024::rat) ^ k \<le> b \<longleftrightarrow> int k \<le> \<lfloor>log 1024 (of_rat b)\<rfloor>"
proof -
  have "int k \<le> \<lfloor>log 1024 (of_rat b)\<rfloor> \<longleftrightarrow> 1024 powr real k \<le> real_of_rat b"
    using assms by (simp add: le_floor_iff le_log_iff)
  also have "\<dots> \<longleftrightarrow> real_of_rat (1024 ^ k) \<le> real_of_rat b"
    by (simp add: powr_realpow of_rat_power)
  finally show ?thesis
    by (simp only: of_rat_less_eq)
qed

lemma length_upto_five: "int (length (filter (\<lambda>k. int k \<le> L) [1, 2, 3, 4, 5])) = min 5 (max 0 L)"
  by simp

lemma byte_exponent_log:
  assumes "b \<noteq> 0"
  shows "int (byte_exponent b) = min 5 (max 0 \<lfloor>log 1024 (of_rat \<bar>b\<bar>)\<rfloor>)"
  unfolding length_upto_five [symmetric]
  using assms by (simp only: byte_exponent_def power_le_log zero_less_abs_iff not_False_eq_True)

lemma byte_exponent_bounds:
  "byte_exponent b \<le> 5"
  "byte_exponent b \<noteq> 0 \<Longrightarrow> 1 \<le> \<bar>b\<bar> / 1024 ^ byte_exponent b"
  "byte_exponent b \<noteq> 5 \<Longrightarrow> \<bar>b\<bar> / 1024 ^ byte_exponent b < 1024"
  by (auto simp: byte_exponent_def)

lemma countdown_tone:
  "sc_tone (getSubscriptionCountdown clk (Some s) subscribed n) =
     (case Option.bind (nonempty s) (getTime clk) of None \<Rightarrow> Neutral | Some t \<Rightarrow> if t \<le> n then Expired else Active)"
  by (simp add: getSubscriptionCountdown_def Let_def split: option.split)

text \<open>A date that does not parse is shown as an age of NaN years.\<close>

lemma unreadable_date_years: "s \<noteq> [] \<Longrightarrow> getTime clk s = None \<Longrightarrow> formatRelativeTime clk n (Some s) = ''NaNy ago''"
  by (simp add: formatRelativeTime_def nonempty_def)

end
