(* ===== verification/Statistics.thy ===== *)
theory Statistics
  imports Users
begin

text \<open>
  Statistics: \<open>themes/ultima-atlas/views/statistics\<close> (\<open>statisticsModel.ts\<close>, \<open>statisticsActivityModel.ts\<close>). Totals and breakdowns over the
  snapshots of the sites, calendar series and their trend, activity buckets, and the regression over them. A count that a
  snapshot does not have is \<open>None\<close>. Dates are parsed and printed, and months and years advanced, by parameters; so are the
  logarithm and the exponential of the exponential fit. Colours are constants of the style and left out.
\<close>

section \<open>Snapshots and totals\<close>

datatype count_field = UserRecords | PerformerProfiles | ActiveUsers | ArchivedContent | Posts | Messages | Stories | MassMessages
  | DownloadedMedia | TotalMedia | SizedMedia | TotalKnownBytes | ImageMedia | VideoMedia | AudioMedia | OtherMedia

datatype trend_metric = Metric count_field | Downloads

datatype media_type = Images | Videos | Audio | OtherFiles

record snapshot =
  sn_bucket_date :: string
  sn_count :: "count_field \<Rightarrow> rat option"
  sn_sized :: "media_type \<Rightarrow> rat"
  sn_average :: "media_type \<Rightarrow> rat"

record site_statistics =
  st_site :: string
  st_availability_error :: "string option"
  st_snapshot :: "snapshot option"

record metric_total =
  mt_value :: "rat option"
  mt_partial :: bool

definition TREND_OPTIONS :: "(trend_metric \<times> string) list" where
  "TREND_OPTIONS = [(Metric UserRecords, ''User records''), (Metric PerformerProfiles, ''Performer profiles''), (Metric ArchivedContent, ''Content items''),
     (Metric TotalMedia, ''Media records''), (Downloads, ''Downloaded vs pending''), (Metric TotalKnownBytes, ''Known source size''),
     (Metric ImageMedia, ''Images''), (Metric VideoMedia, ''Videos''), (Metric AudioMedia, ''Audio''), (Metric OtherMedia, ''Other media'')]"

definition MEDIA_TYPES :: "(string \<times> count_field \<times> media_type) list" where
  "MEDIA_TYPES = [(''Images'', ImageMedia, Images), (''Videos'', VideoMedia, Videos), (''Audio'', AudioMedia, Audio), (''Other'', OtherMedia, OtherFiles)]"

definition CONTENT_TYPES :: "(string \<times> count_field) list" where
  "CONTENT_TYPES = [(''Posts'', Posts), (''Messages'', Messages), (''Stories'', Stories), (''Mass messages'', MassMessages)]"

definition formatPercent :: "rat \<Rightarrow> string" where
  "formatPercent v = to_fixed 1 (v * 100) @ ''%''"

definition formatSiteLabel :: "string \<Rightarrow> string" where
  "formatSiteLabel site = (case site of [] \<Rightarrow> [] | c # s \<Rightarrow> upper_char c # s)"

definition formatMetric :: "(rat \<Rightarrow> string) \<Rightarrow> rat \<Rightarrow> trend_metric \<Rightarrow> string" where
  "formatMetric toLocaleString v metric = (if metric = Metric TotalKnownBytes then formatBytes (Fin v) 1 else toLocaleString v)"

definition availableSnapshots :: "site_statistics list \<Rightarrow> snapshot list" where
  "availableSnapshots statistics =
     List.map_filter (\<lambda>i. if Option.bind (st_availability_error i) nonempty = None then st_snapshot i else None) statistics"

text \<open>The sum of counts, a missing one counting as 0.\<close>

definition sum_known :: "rat option list \<Rightarrow> rat" where
  "sum_known vs = sum_list (map (\<lambda>v. or_else v 0) vs)"

definition sumMetric :: "site_statistics list \<Rightarrow> count_field \<Rightarrow> metric_total" where
  "sumMetric statistics f =
     (let snapshots = availableSnapshots statistics; vs = map (\<lambda>s. sn_count s f) snapshots; unknown = list_ex (\<lambda>v. v = None) vs
      in \<lparr>mt_value = (if snapshots = [] \<or> unknown then None else Some (sum_known vs)),
          mt_partial = (length snapshots \<noteq> length statistics \<or> unknown)\<rparr>)"

definition getPendingCount :: "snapshot option \<Rightarrow> rat option" where
  "getPendingCount s =
     (case s of
        None \<Rightarrow> None
      | Some x \<Rightarrow> map_option (\<lambda>d. max 0 (or_else (sn_count x TotalMedia) 0 - d)) (sn_count x DownloadedMedia))"

record media_row =
  mr_label :: string
  mr_value :: "rat option"
  mr_sized :: "rat option"
  mr_average :: "rat option"
  mr_totalBytes :: "rat option"

definition buildMediaBreakdown :: "site_statistics list \<Rightarrow> media_row list" where
  "buildMediaBreakdown statistics =
     (let snapshots = availableSnapshots statistics
      in map (\<lambda>(label, f, t).
           let sized = sum_list (map (\<lambda>s. sn_sized s t) snapshots);
               weightedBytes = sum_list (map (\<lambda>s. sn_average s t * sn_sized s t) snapshots)
           in \<lparr>mr_label = label, mr_value = mt_value (sumMetric statistics f), mr_sized = (if snapshots \<noteq> [] then Some sized else None),
               mr_average = (if sized > 0 then Some (weightedBytes / sized) else None),
               mr_totalBytes = (if snapshots \<noteq> [] then Some weightedBytes else None)\<rparr>) MEDIA_TYPES)"

text \<open>The two breakdowns of the users have the same shape: a part of all users, and the rest of them.\<close>

record user_breakdown =
  ub_total :: "rat option"
  ub_part :: "rat option"
  ub_rest :: "rat option"
  ub_partial :: bool

definition user_breakdown_by :: "count_field \<Rightarrow> site_statistics list \<Rightarrow> user_breakdown" where
  "user_breakdown_by f statistics =
     (let snapshots = filter (\<lambda>s. sn_count s UserRecords \<noteq> None \<and> sn_count s f \<noteq> None) (availableSnapshots statistics);
          total_of = (\<lambda>g. if snapshots \<noteq> [] then Some (sum_known (map (\<lambda>s. sn_count s g) snapshots)) else None);
          users = total_of UserRecords; part = total_of f
      in \<lparr>ub_total = users, ub_part = part,
          ub_rest = (case (users, part) of (Some u, Some p) \<Rightarrow> Some (max 0 (u - p)) | _ \<Rightarrow> None),
          ub_partial = (length snapshots \<noteq> length statistics)\<rparr>)"

definition buildUserRoleBreakdown :: "site_statistics list \<Rightarrow> rat option \<times> bool \<times> (string \<times> rat option) list" where
  "buildUserRoleBreakdown statistics =
     (let b = user_breakdown_by PerformerProfiles statistics
      in (ub_total b, ub_partial b, [(''Users'', ub_rest b), (''Performers'', ub_part b)]))"

definition buildUserActivityBreakdown :: "site_statistics list \<Rightarrow> user_breakdown \<times> (string \<times> rat option) list" where
  "buildUserActivityBreakdown statistics =
     (let b = user_breakdown_by ActiveUsers statistics in (b, [(''Active'', ub_part b), (''Inactive'', ub_rest b)]))"

record content_breakdown =
  cb_total :: "rat option"
  cb_hasTypeBreakdown :: bool
  cb_partial :: bool
  cb_items :: "(string \<times> rat option) list"

definition buildContentBreakdown :: "site_statistics list \<Rightarrow> content_breakdown" where
  "buildContentBreakdown statistics =
     (let totalContent = sumMetric statistics ArchivedContent; snapshots = availableSnapshots statistics;
          items = map (\<lambda>(label, f). let known = List.map_filter (\<lambda>s. sn_count s f) snapshots
            in (label, if known \<noteq> [] then Some (sum_list known) else None)) CONTENT_TYPES;
          hasPartial = list_ex (\<lambda>s. list_ex (\<lambda>(label, f). sn_count s f = None) CONTENT_TYPES) snapshots;
          hasType = (list_ex (\<lambda>(label, v). case v of Some q \<Rightarrow> q > 0 | None \<Rightarrow> False) items \<or> list_all (\<lambda>(label, v). v \<noteq> None) items);
          typedTotal = sum_known (map snd items)
      in \<lparr>cb_total = (if hasType \<and> typedTotal > 0 then Some typedTotal else mt_value totalContent), cb_hasTypeBreakdown = hasType,
          cb_partial = (mt_partial totalContent \<or> hasPartial), cb_items = items\<rparr>)"

section \<open>Series over the calendar\<close>

record site_history =
  sh_site :: string
  sh_available :: bool
  sh_points :: "snapshot list"

text \<open>Dates of the form \<open>YYYY-MM-DD\<close>: the day of a date, if it parses, and the date of a day.\<close>

record day_calendar =
  day_of :: "string \<Rightarrow> int option"
  date_of :: "int \<Rightarrow> string"

definition calendar_axis :: "day_calendar \<Rightarrow> string \<Rightarrow> string \<Rightarrow> string list" where
  "calendar_axis cal start end_date =
     (case (day_of cal start, day_of cal end_date) of
        (Some a, Some b) \<Rightarrow> map (date_of cal) [a..b]
      | _ \<Rightarrow> [])"

text \<open>\<open>new Map(points)\<close>: the last point of a date counts.\<close>

definition point_on :: "string \<Rightarrow> snapshot list \<Rightarrow> snapshot option" where
  "point_on date points = List.find (\<lambda>p. sn_bucket_date p = date) (rev points)"

definition metric_of :: "trend_metric \<Rightarrow> snapshot \<Rightarrow> rat option" where
  "metric_of metric s = (case metric of Metric f \<Rightarrow> sn_count s f | Downloads \<Rightarrow> sn_count s DownloadedMedia)"

text \<open>A day's sum over the sites, \<open>None\<close> as soon as one site has none.\<close>

definition all_or_nothing :: "rat option list \<Rightarrow> rat option" where
  "all_or_nothing vs = (if list_ex (\<lambda>v. v = None) vs then None else Some (sum_known vs))"

definition dates_of :: "site_history list \<Rightarrow> string list" where
  "dates_of selected = sort_cmp cmp_units (remdups (concat (map (\<lambda>s. map sn_bucket_date (sh_points s)) selected)))"

definition buildTrendData ::
  "day_calendar \<Rightarrow> site_history list \<Rightarrow> string \<Rightarrow> trend_metric \<Rightarrow> string option \<Rightarrow> string option
   \<Rightarrow> string list \<times> (string \<times> rat option list) list" where
  "buildTrendData cal sites siteScope metric startDate endDate =
     (let selected = filter (\<lambda>s. sh_available s \<and> (siteScope = ''all'' \<or> sh_site s = siteScope)) sites;
          recordedDates = dates_of selected
      in if recordedDates = [] then ([], [])
         else let dates = calendar_axis cal (or_else startDate (hd recordedDates)) (or_else endDate (last recordedDates));
                  series = (\<lambda>value. map (\<lambda>date. all_or_nothing (map (\<lambda>s. Option.bind (point_on date (sh_points s)) value) selected)) dates)
              in (dates, if metric = Downloads
                         then [(''Downloaded'', series (metric_of metric)), (''Pending'', series (\<lambda>s. getPendingCount (Some s)))]
                         else [(or_else (map_of TREND_OPTIONS metric) ''Total'', series (metric_of metric))]))"

fun changes_after :: "rat option \<Rightarrow> rat option list \<Rightarrow> rat option list" where
  "changes_after previous [] = []"
| "changes_after previous (v # vs) =
     (case (v, previous) of (Some x, Some p) \<Rightarrow> Some (x - p) | _ \<Rightarrow> None) # changes_after v vs"

definition dailyChanges :: "rat option list \<Rightarrow> rat option list" where
  "dailyChanges vs = changes_after None vs"

record trend_summary =
  tr_first :: "(rat \<times> string option) option"
  tr_last :: "(rat \<times> string option) option"
  tr_net :: "rat option"
  tr_percent :: "rat option"
  tr_averageDaily :: "rat option"
  tr_comparedDays :: nat
  tr_recordedDays :: nat

definition summarizeTrend :: "string list \<Rightarrow> rat option list \<Rightarrow> trend_summary" where
  "summarizeTrend dates vs =
     (let known = List.map_filter id (map_index (\<lambda>i. map_option (\<lambda>x. (x, if i < length dates then Some (dates ! i) else None))) 0 vs);
          changes = List.map_filter id (dailyChanges vs);
          first_value = (if known = [] then None else Some (hd known)); last_value = (if known = [] then None else Some (last known));
          net = (if length known \<ge> 2 then Some (fst (last known) - fst (hd known)) else None)
      in \<lparr>tr_first = first_value, tr_last = last_value, tr_net = net,
          tr_percent = (case net of Some n \<Rightarrow> if fst (hd known) > 0 then Some (n / fst (hd known)) else None | None \<Rightarrow> None),
          tr_averageDaily = (if changes \<noteq> [] then Some (sum_list changes / of_nat (length changes)) else None),
          tr_comparedDays = length changes, tr_recordedDays = length known\<rparr>)"

section \<open>Activity\<close>

datatype activity_interval = Minute | Hour | Day | Month | Year

definition ACTIVITY_RANGES :: "activity_interval \<Rightarrow> string list" where
  "ACTIVITY_RANGES interval = (case interval of
      Minute \<Rightarrow> [''all'', ''1h'', ''24h''] | Hour \<Rightarrow> [''all'', ''24h'', ''7d'', ''30d'']
    | Day \<Rightarrow> [''all'', ''7d'', ''30d'', ''90d'', ''1y''] | Month \<Rightarrow> [''all'', ''1y''] | Year \<Rightarrow> [''all''])"

definition ACTIVITY_RANGE_LABELS :: "(string \<times> string) list" where
  "ACTIVITY_RANGE_LABELS = [(''1h'', ''Past hour''), (''24h'', ''Past 24 hours''), (''7d'', ''Past 7 days''), (''30d'', ''Past 30 days''),
     (''90d'', ''Past 90 days''), (''1y'', ''Past year''), (''all'', ''Start to now''), (''custom'', ''Custom dates'')]"

text \<open>\<open>Date.parse\<close>, and the time one month or year later, in milliseconds.\<close>

record activity_calendar =
  date_parse :: "string \<Rightarrow> int option"
  next_month :: "int \<Rightarrow> int"
  next_year :: "int \<Rightarrow> int"

definition advanceActivityBucket :: "activity_calendar \<Rightarrow> int \<Rightarrow> activity_interval \<Rightarrow> int" where
  "advanceActivityBucket cal start interval = (case interval of
      Year \<Rightarrow> next_year cal start | Month \<Rightarrow> next_month cal start
    | Minute \<Rightarrow> start + 60000 | Hour \<Rightarrow> start + 3600000 | Day \<Rightarrow> start + 86400000)"

record activity_site =
  as_site :: string
  as_available :: bool
  as_undated_count :: "rat option"
  as_total_count :: "rat option"
  as_completed_count :: "rat option"
  as_points :: "(string \<times> rat) list"

record activity_response =
  ar_interval :: activity_interval
  ar_start_at :: string
  ar_end_at :: string
  ar_calculated_at :: string
  ar_coverage_start_at :: "string option"
  ar_coverage_end_at :: "string option"
  ar_window_start_at :: "string option"
  ar_window_end_at :: "string option"
  ar_completed_bucket_count :: "rat option"
  ar_sites :: "activity_site list"

record activity_bucket =
  ab_start :: int
  ab_count :: "rat option"
  ab_counts :: "rat list"
  ab_partial :: bool

definition available_sites :: "activity_response \<Rightarrow> activity_site list" where
  "available_sites d = filter as_available (ar_sites d)"

text \<open>\<open>points.get(start) ?? 0\<close>, the last point with that start.\<close>

definition count_at :: "activity_calendar \<Rightarrow> int \<Rightarrow> activity_site \<Rightarrow> rat" where
  "count_at cal start s = (case List.find (\<lambda>p. date_parse cal (fst p) = Some start) (rev (as_points s)) of Some p \<Rightarrow> snd p | None \<Rightarrow> 0)"

text \<open>A comparison with a date that does not parse is false.\<close>

definition less_opt :: "int option \<Rightarrow> int option \<Rightarrow> bool" where
  "less_opt a b \<longleftrightarrow> (case (a, b) of (Some x, Some y) \<Rightarrow> x < y | _ \<Rightarrow> False)"

definition bucket_at :: "activity_calendar \<Rightarrow> activity_response \<Rightarrow> int \<Rightarrow> activity_bucket" where
  "bucket_at cal d start =
     (let counts = map (count_at cal start) (available_sites d)
      in \<lparr>ab_start = start, ab_count = (if available_sites d \<noteq> [] then Some (sum_list counts) else None), ab_counts = counts,
          ab_partial = (less_opt (Some start) (date_parse cal (or_else (ar_coverage_start_at d) (ar_start_at d)))
            \<or> less_opt (date_parse cal (or_else (ar_coverage_end_at d) (ar_calculated_at d))) (Some (advanceActivityBucket cal start (ar_interval d))))\<rparr>)"

text \<open>The loop; its first argument is how many buckets may still be added.\<close>

fun bucket_loop :: "nat \<Rightarrow> activity_calendar \<Rightarrow> activity_response \<Rightarrow> int \<Rightarrow> int \<Rightarrow> string + activity_bucket list" where
  "bucket_loop left cal d start end_ms =
     (if start < end_ms
      then (case left of
              0 \<Rightarrow> Inl ''Activity window exceeds the chart limit.''
            | Suc n \<Rightarrow> map_sum id (\<lambda>bs. bucket_at cal d start # bs) (bucket_loop n cal d (advanceActivityBucket cal start (ar_interval d)) end_ms))
      else Inr [])"

declare bucket_loop.simps [simp del]

record activity_summary =
  av_sites :: "activity_site list"
  av_buckets :: "activity_bucket list"
  av_partialSites :: bool
  av_undated :: "rat option"
  av_total :: "rat option"
  av_average :: "rat option"
  av_peak :: "rat option"

definition activity_summary_of :: "activity_response \<Rightarrow> activity_bucket list \<Rightarrow> activity_summary" where
  "activity_summary_of d buckets =
     (let sites = available_sites d; n = or_else (ar_completed_bucket_count d) 0;
          done_buckets = filter (\<lambda>b. \<not> ab_partial b \<and> ab_count b \<noteq> None) buckets;
          bucket_sum = (\<lambda>bs. sum_known (map ab_count bs))
      in \<lparr>av_sites = sites, av_buckets = buckets, av_partialSites = (length sites \<noteq> length (ar_sites d)),
          av_undated = (if sites \<noteq> [] then Some (sum_known (map as_undated_count sites)) else None),
          av_total = (if sites \<noteq> [] \<and> list_all (\<lambda>s. as_total_count s \<noteq> None) sites then Some (sum_known (map as_total_count sites))
                      else if sites \<noteq> [] then Some (bucket_sum buckets) else None),
          av_average = (if sites \<noteq> [] \<and> list_all (\<lambda>s. as_completed_count s \<noteq> None) sites
                        then (if n \<noteq> 0 then Some (sum_known (map as_completed_count sites) / n) else None)
                        else if done_buckets \<noteq> [] then Some (bucket_sum done_buckets / of_nat (length done_buckets)) else None),
          av_peak = (if sites \<noteq> [] then Some (fold (\<lambda>b m. max m (or_else (ab_count b) 0)) buckets 0) else None)\<rparr>)"

definition buildActivityBuckets :: "activity_calendar \<Rightarrow> activity_response \<Rightarrow> string + activity_summary" where
  "buildActivityBuckets cal d =
     (case (date_parse cal (or_else (ar_window_start_at d) (ar_start_at d)), date_parse cal (or_else (ar_window_end_at d) (ar_end_at d))) of
        (Some a, Some b) \<Rightarrow> map_sum id (activity_summary_of d) (bucket_loop 2000 cal d a b)
      | _ \<Rightarrow> Inr (activity_summary_of d []))"

section \<open>Rates and regression\<close>

text \<open>Window sizes are positive; the page uses 3 and 7.\<close>

definition rolling_mean :: "nat \<Rightarrow> rat option list \<Rightarrow> nat \<Rightarrow> rat option" where
  "rolling_mean w vs i =
     (let window = drop (Suc i - w) (take (Suc i) vs)
      in if vs ! i = None \<or> length window < w \<or> list_ex (\<lambda>v. v = None) window then None
         else Some (sum_known window / of_nat (length window)))"

fun running_sums :: "rat \<Rightarrow> rat option list \<Rightarrow> rat option list" where
  "running_sums acc [] = []"
| "running_sums acc (None # vs) = None # running_sums acc vs"
| "running_sums acc (Some v # vs) = Some (acc + v) # running_sums (acc + v) vs"

definition mean :: "rat list \<Rightarrow> rat" where
  "mean xs = sum_list xs / of_nat (length xs)"

text \<open>The points of a series, with their positions.\<close>

definition series_points :: "rat option list \<Rightarrow> (rat \<times> rat) list" where
  "series_points vs = List.map_filter id (map_index (\<lambda>i. map_option (\<lambda>v. (of_nat i, v))) 0 vs)"

definition variance_x :: "(rat \<times> rat) list \<Rightarrow> rat" where
  "variance_x ps = sum_list (map (\<lambda>p. (fst p - mean (map fst ps))\<^sup>2) ps)"

definition slope_of :: "(rat \<times> rat) list \<Rightarrow> rat" where
  "slope_of ps = sum_list (map (\<lambda>p. (fst p - mean (map fst ps)) * (snd p - mean (map snd ps))) ps) / variance_x ps"

definition predict :: "(rat \<times> rat) list \<Rightarrow> rat \<Rightarrow> rat" where
  "predict ps x = mean (map snd ps) + slope_of ps * (x - mean (map fst ps))"

definition sse :: "(rat \<times> rat) list \<Rightarrow> rat" where
  "sse ps = sum_list (map (\<lambda>p. (snd p - predict ps (fst p))\<^sup>2) ps)"

definition sst :: "(rat \<times> rat) list \<Rightarrow> rat" where
  "sst ps = sum_list (map (\<lambda>p. (snd p - mean (map snd ps))\<^sup>2) ps)"

record fit_result =
  fit_values :: "rat list"
  fit_r2 :: rat
  fit_rate :: jsnum

text \<open>\<open>Math.log\<close>, \<open>Math.exp\<close> and \<open>Math.expm1\<close> of the engine.\<close>

record math_lib =
  math_log :: "rat \<Rightarrow> rat"
  math_exp :: "rat \<Rightarrow> jsnum"
  math_expm1 :: "rat \<Rightarrow> jsnum"

definition fit :: "math_lib \<Rightarrow> bool \<Rightarrow> rat option list \<Rightarrow> fit_result option" where
  "fit lib exponential vs =
     (let raw = series_points vs; ps = (if exponential then map (\<lambda>(x, y). (x, math_log lib y)) raw else raw);
          fitted = map (\<lambda>x. if exponential then math_exp lib (predict ps (of_nat x)) else Fin (max 0 (predict ps (of_nat x)))) [0..<length vs]
      in if length raw < 6 \<or> (exponential \<and> list_ex (\<lambda>(x, y). y \<le> 0) raw) then None
         else if variance_x ps = 0 then None
         else if list_ex (\<lambda>v. case v of Fin q \<Rightarrow> False | _ \<Rightarrow> True) fitted then None
         else Some \<lparr>fit_values = map (\<lambda>v. case v of Fin q \<Rightarrow> q | _ \<Rightarrow> 0) fitted,
                fit_r2 = (if sst ps = 0 then 1 else max 0 (1 - sse ps / sst ps)), fit_rate = math_expm1 lib (slope_of ps)\<rparr>)"

record activity_analysis =
  aa_rolling :: "rat option list"
  aa_previous :: "rat option"
  aa_recent :: "rat option"
  aa_change :: "rat option"
  aa_n :: nat
  aa_signal :: string
  aa_cumulative :: "rat option list"
  aa_linear :: "fit_result option"
  aa_exponential :: "fit_result option"

definition analyzeActivity :: "math_lib \<Rightarrow> rat option list \<Rightarrow> nat \<Rightarrow> activity_analysis" where
  "analyzeActivity lib vs windowSize =
     (let known = List.map_filter id vs; n = min windowSize (length known div 2);
          previous = (if n \<noteq> 0 then Some (sum_list (take n (drop (length known - 2 * n) known)) / of_nat n) else None);
          recent = (if n \<noteq> 0 then Some (sum_list (drop (length known - n) known) / of_nat n) else None);
          change = (case (previous, recent) of (Some p, Some r) \<Rightarrow> if p \<noteq> 0 then Some ((r - p) / p) else None | _ \<Rightarrow> None)
      in \<lparr>aa_rolling = map (rolling_mean windowSize vs) [0..<length vs], aa_previous = previous, aa_recent = recent, aa_change = change, aa_n = n,
          aa_signal = (if n < 3 then ''More history needed''
            else case change of None \<Rightarrow> ''No baseline rate''
                 | Some c \<Rightarrow> if c > 1 / 5 then ''Accelerating'' else if c < - 1 / 5 then ''Slowing down'' else ''Steady rate''),
          aa_cumulative = running_sums 0 vs, aa_linear = fit lib False vs, aa_exponential = fit lib True vs\<rparr>)"

section \<open>The linear fit\<close>

lemma sum_deviations: "xs \<noteq> [] \<Longrightarrow> sum_list (map (\<lambda>x. x - mean xs) xs) = 0"
  by (simp add: mean_def sum_list_subtractf sum_list_triv)

lemma sum_fst_deviations: "ps \<noteq> [] \<Longrightarrow> sum_list (map (\<lambda>p. fst p - mean (map fst ps)) ps) = 0"
  using sum_deviations [of "map fst ps"] by (simp add: o_def)

lemma sum_snd_deviations: "ps \<noteq> [] \<Longrightarrow> sum_list (map (\<lambda>p. snd p - mean (map snd ps)) ps) = 0"
  using sum_deviations [of "map snd ps"] by (simp add: o_def)

text \<open>The residuals add up to zero and are orthogonal to the positions.\<close>

definition residual :: "(rat \<times> rat) list \<Rightarrow> rat \<times> rat \<Rightarrow> rat" where
  "residual ps p = snd p - predict ps (fst p)"

lemma residual_eq: "residual ps p = (snd p - mean (map snd ps)) - slope_of ps * (fst p - mean (map fst ps))"
  by (simp add: residual_def predict_def)

lemma sum_residuals: "ps \<noteq> [] \<Longrightarrow> sum_list (map (residual ps) ps) = 0"
  unfolding residual_eq [abs_def]
  by (subst sum_list_subtractf) (simp only: sum_list_const_mult sum_fst_deviations sum_snd_deviations mult_zero_right diff_zero not_False_eq_True)

lemma sum_residuals_positions:
  assumes "variance_x ps \<noteq> 0"
  shows "sum_list (map (\<lambda>p. residual ps p * (fst p - mean (map fst ps))) ps) = 0"
proof -
  have "residual ps p * (fst p - mean (map fst ps))
      = (fst p - mean (map fst ps)) * (snd p - mean (map snd ps)) - slope_of ps * (fst p - mean (map fst ps))\<^sup>2" for p
    by (simp add: residual_eq algebra_simps power2_eq_square)
  then have "sum_list (map (\<lambda>p. residual ps p * (fst p - mean (map fst ps))) ps)
      = sum_list (map (\<lambda>p. (fst p - mean (map fst ps)) * (snd p - mean (map snd ps))) ps) - slope_of ps * variance_x ps"
    by (simp add: sum_list_subtractf sum_list_const_mult variance_x_def)
  then show ?thesis
    using assms by (simp add: slope_of_def)
qed

lemma sum_list_nonneg': "(\<And>x. x \<in> set xs \<Longrightarrow> f x \<ge> (0::rat)) \<Longrightarrow> sum_list (map f xs) \<ge> 0"
  by (induction xs) auto

lemma least_squares:
  assumes "variance_x ps \<noteq> 0"
  shows "sse ps \<le> sum_list (map (\<lambda>p. (snd p - (a + b * fst p))\<^sup>2) ps)"
proof -
  have ne: "ps \<noteq> []" using assms by (auto simp: variance_x_def)
  let ?d = "\<lambda>p. fst p - mean (map fst ps)"
  define c k where "c = mean (map snd ps) - a - b * mean (map fst ps)" and "k = slope_of ps - b"
  have "(snd p - (a + b * fst p))\<^sup>2 = (residual ps p)\<^sup>2 + (2 * c * residual ps p + 2 * k * (residual ps p * ?d p) + (c + k * ?d p)\<^sup>2)" for p
  proof -
    have "snd p - (a + b * fst p) = residual ps p + (c + k * ?d p)"
      by (simp add: residual_eq c_def k_def algebra_simps)
    then have "(snd p - (a + b * fst p))\<^sup>2 = (residual ps p + (c + k * ?d p))\<^sup>2" by (rule arg_cong)
    then show ?thesis by (simp only: power2_sum) (simp add: algebra_simps)
  qed
  then have "sum_list (map (\<lambda>p. (snd p - (a + b * fst p))\<^sup>2) ps) = sum_list (map (\<lambda>p. (residual ps p)\<^sup>2) ps)
      + (2 * c * sum_list (map (residual ps) ps) + 2 * k * sum_list (map (\<lambda>p. residual ps p * ?d p) ps)
         + sum_list (map (\<lambda>p. (c + k * ?d p)\<^sup>2) ps))"
    by (simp add: sum_list_addf sum_list_const_mult)
  then show ?thesis
    using sum_residuals [OF ne] sum_residuals_positions [OF assms] sum_list_nonneg' [of ps "\<lambda>p. (c + k * ?d p)\<^sup>2"]
    by (simp add: sse_def residual_def)
qed

lemma sst_as_line: "sst ps = sum_list (map (\<lambda>p. (snd p - (mean (map snd ps) + 0 * fst p))\<^sup>2) ps)"
  by (simp add: sst_def)


definition demo_lib :: math_lib where
  "demo_lib = \<lparr>math_log = (\<lambda>q. q), math_exp = Fin, math_expm1 = Fin\<rparr>"


section \<open>Buckets cover the window\<close>

lemma bucket_loop_result:
  "case bucket_loop left cal d a b of
     Inl e \<Rightarrow> e = ''Activity window exceeds the chart limit.'' \<and> (\<forall>k \<le> left. ((\<lambda>t. advanceActivityBucket cal t (ar_interval d)) ^^ k) a < b)
   | Inr bs \<Rightarrow> length bs \<le> left \<and> bs = map (\<lambda>k. bucket_at cal d (((\<lambda>t. advanceActivityBucket cal t (ar_interval d)) ^^ k) a)) [0..<length bs]
       \<and> list_all (\<lambda>x. ab_start x < b) bs \<and> b \<le> ((\<lambda>t. advanceActivityBucket cal t (ar_interval d)) ^^ length bs) a"
proof (induction left arbitrary: a)
  case 0
  then show ?case by (subst bucket_loop.simps) simp
next
  case (Suc n)
  let ?adv = "\<lambda>t. advanceActivityBucket cal t (ar_interval d)"
  show ?case
  proof (cases "a < b")
    case True
    have l: "bucket_loop (Suc n) cal d a b = map_sum id (\<lambda>bs. bucket_at cal d a # bs) (bucket_loop n cal d (?adv a) b)"
      using True by (subst bucket_loop.simps) simp
    show ?thesis
    proof (cases "bucket_loop n cal d (?adv a) b")
      case (Inl e)
      have "(?adv ^^ k) a < b" if "k \<le> Suc n" for k
        using Suc [of "?adv a"] Inl True that by (cases k) (auto simp: funpow_Suc_right simp del: funpow.simps(2))
      then show ?thesis using Suc [of "?adv a"] by (simp add: l Inl)
    next
      case (Inr bs)
      have "bs = map (\<lambda>k. bucket_at cal d ((?adv ^^ k) (?adv a))) [0..<length bs]" using Suc [of "?adv a"] Inr by simp
      then have "bs = map (\<lambda>k. bucket_at cal d ((?adv ^^ Suc k) a)) [0..<length bs]" by (simp only: funpow_Suc_right o_apply)
      moreover have "ab_start (bucket_at cal d a) = a" by (simp add: bucket_at_def Let_def)
      ultimately show ?thesis
        using Suc [of "?adv a"] True
        by (simp add: l Inr upt_conv_Cons map_Suc_upt [symmetric] funpow_Suc_right o_def del: upt_Suc funpow.simps(2))
    qed
  next
    case False
    then show ?thesis by (subst bucket_loop.simps) simp
  qed
qed

text \<open>
  C33. The activity chart covers its window or refuses it (\<open>buildActivityBuckets\<close>). When the ends of the window parse, the call fails
  exactly when 2000 buckets do not reach the end of the window; otherwise the buckets are the consecutive intervals from
  its start, at most 2000 of them, each starting inside the window, and the last one reaches its end.
\<close>

theorem activity_buckets_cover:
  assumes "date_parse cal (or_else (ar_window_start_at d) (ar_start_at d)) = Some a" "date_parse cal (or_else (ar_window_end_at d) (ar_end_at d)) = Some b"
  shows "let start_of = (\<lambda>k. ((\<lambda>t. advanceActivityBucket cal t (ar_interval d)) ^^ k) a)
    in case buildActivityBuckets cal d of
         Inl e \<Rightarrow> e = ''Activity window exceeds the chart limit.'' \<and> (\<forall>k \<le> 2000. start_of k < b)
       | Inr r \<Rightarrow> length (av_buckets r) \<le> 2000 \<and> map ab_start (av_buckets r) = map start_of [0..<length (av_buckets r)]
           \<and> list_all (\<lambda>x. ab_start x < b) (av_buckets r) \<and> b \<le> start_of (length (av_buckets r))"
proof -
  let ?start_of = "\<lambda>k. ((\<lambda>t. advanceActivityBucket cal t (ar_interval d)) ^^ k) a"
  have r: "buildActivityBuckets cal d = map_sum id (activity_summary_of d) (bucket_loop 2000 cal d a b)"
    using assms by (simp add: buildActivityBuckets_def)
  note loop = bucket_loop_result [of 2000 cal d a b]
  show ?thesis
  proof (cases "bucket_loop 2000 cal d a b")
    case (Inl e)
    then show ?thesis using loop by (simp add: r)
  next
    case (Inr bs)
    then have "bs = map (\<lambda>k. bucket_at cal d (?start_of k)) [0..<length bs]" using loop by simp
    then have "map ab_start bs = map ab_start (map (\<lambda>k. bucket_at cal d (?start_of k)) [0..<length bs])" by (rule arg_cong)
    also have "\<dots> = map ?start_of [0..<length bs]" by (simp add: bucket_at_def Let_def o_def)
    finally have "map ab_start bs = map ?start_of [0..<length bs]" .
    moreover have "av_buckets (activity_summary_of d bs) = bs" by (simp add: activity_summary_of_def Let_def)
    ultimately show ?thesis using loop Inr by (simp add: r)
  qed
qed

definition demo_calendar :: activity_calendar where
  "demo_calendar = \<lparr>date_parse = (\<lambda>s. if s = ''a'' then Some 0 else if s = ''b'' then Some 150000 else None), next_month = (\<lambda>t. t + 2678400000),
     next_year = (\<lambda>t. t + 31536000000)\<rparr>"

definition demo_activity :: activity_response where
  "demo_activity = \<lparr>ar_interval = Minute, ar_start_at = ''a'', ar_end_at = ''b'', ar_calculated_at = ''b'', ar_coverage_start_at = None,
     ar_coverage_end_at = None, ar_window_start_at = None, ar_window_end_at = None, ar_completed_bucket_count = None, ar_sites = []\<rparr>"

theorem activity_buckets_cover_witness:
  "\<exists>r. buildActivityBuckets demo_calendar demo_activity = Inr r \<and> length (av_buckets r) = 3 \<and> list_all (\<lambda>x. ab_start x < 150000) (av_buckets r)"
proof -
  have p: "date_parse demo_calendar (or_else (ar_window_start_at demo_activity) (ar_start_at demo_activity)) = Some 0"
    "date_parse demo_calendar (or_else (ar_window_end_at demo_activity) (ar_end_at demo_activity)) = Some 150000" by code_simp+
  have "(case bucket_loop 2000 demo_calendar demo_activity 0 150000 of Inl e \<Rightarrow> 0 | Inr bs \<Rightarrow> length bs) = 3"
    by (simp add: bucket_loop.simps advanceActivityBucket_def demo_activity_def numeral_eq_Suc)
  then obtain bs where bs: "bucket_loop 2000 demo_calendar demo_activity 0 150000 = Inr bs" "length bs = 3" by (cases "bucket_loop 2000 demo_calendar demo_activity 0 150000") auto
  have r: "buildActivityBuckets demo_calendar demo_activity = Inr (activity_summary_of demo_activity bs)"
    unfolding buildActivityBuckets_def p prod.case option.case bs(1) by simp
  moreover have "av_buckets (activity_summary_of demo_activity bs) = bs" by (simp add: activity_summary_of_def Let_def)
  ultimately show ?thesis
    using activity_buckets_cover [OF p] bs(2) unfolding Let_def by simp
qed

section \<open>Averages\<close>

lemma weighted_mean_bounds:
  assumes "\<forall>s \<in> set xs. (0::rat) \<le> w s \<and> lo \<le> v s \<and> v s \<le> hi"
  shows "lo * sum_list (map w xs) \<le> sum_list (map (\<lambda>s. v s * w s) xs) \<and> sum_list (map (\<lambda>s. v s * w s) xs) \<le> hi * sum_list (map w xs)"
  using assms by (induction xs) (auto simp: distrib_left intro!: add_mono mult_right_mono)

lemma media_average_bounds:
  assumes "row \<in> set (buildMediaBreakdown statistics)" "mr_average row = Some q"
    "\<And>s t. s \<in> set (availableSnapshots statistics) \<Longrightarrow> 0 \<le> sn_sized s t \<and> lo \<le> sn_average s t \<and> sn_average s t \<le> hi"
  shows "lo \<le> q \<and> q \<le> hi"
proof -
  obtain t where t: "sum_list (map (\<lambda>s. sn_sized s t) (availableSnapshots statistics)) > 0"
      "q = sum_list (map (\<lambda>s. sn_average s t * sn_sized s t) (availableSnapshots statistics)) / sum_list (map (\<lambda>s. sn_sized s t) (availableSnapshots statistics))"
    using assms(1,2) by (auto simp: buildMediaBreakdown_def Let_def split: if_splits)
  have "\<forall>s \<in> set (availableSnapshots statistics). 0 \<le> sn_sized s t \<and> lo \<le> sn_average s t \<and> sn_average s t \<le> hi" using assms(3) by blast
  from weighted_mean_bounds [OF this] t show ?thesis by (simp add: pos_le_divide_eq pos_divide_le_eq)
qed

lemma changes_telescope: "changes_after (Some p) (map Some xs) = map Some (map2 (\<lambda>x y. x - y) xs (p # xs))"
  by (induction xs arbitrary: p) auto

lemma sum_changes: "sum_list (map2 (\<lambda>x y. x - y) xs (p # xs)) = last (p # xs) - (p :: rat)"
  by (induction xs arbitrary: p) auto

lemma map_filter_Some [simp]: "List.map_filter id (map Some xs) = xs"
  by (induction xs) auto

lemma known_values: "map fst (List.map_filter id (map_index (\<lambda>i. map_option (\<lambda>x. (x, f i))) k (map Some xs))) = xs"
  by (induction xs arbitrary: k) auto

lemma trend_without_gaps:
  assumes "xs \<noteq> []" and r_def: "r = summarizeTrend dates (map Some (x # xs))"
  shows "tr_net r = Some (last xs - x) \<and> tr_comparedDays r = length xs \<and> tr_averageDaily r = Some ((last xs - x) / of_nat (length xs))"
proof -
  let ?known = "List.map_filter id (map_index (\<lambda>i. map_option (\<lambda>v. (v, if i < length dates then Some (dates ! i) else None))) 0 (map Some (x # xs)))"
  obtain p ps where known: "?known = p # ps" "fst p = x" "map fst ps = xs"
    using known_values [of "\<lambda>i. if i < length dates then Some (dates ! i) else None" 0 "x # xs"] by (auto simp: map_eq_Cons_conv)
  then have ne: "ps \<noteq> []" using assms(1) by auto
  then have k: "length ?known \<ge> 2" "fst (last ?known) - fst (hd ?known) = last xs - x"
    unfolding known(1) using known(2,3) by (auto simp: Suc_le_eq last_map)
  have c: "List.map_filter id (dailyChanges (map Some (x # xs))) = map2 (\<lambda>x y. x - y) xs (x # xs)"
    by (simp add: dailyChanges_def changes_telescope del: map_map)
  show ?thesis
    using assms(1) k sum_changes [of xs x] unfolding r_def summarizeTrend_def Let_def c by simp
qed

end
