(* ===== verification/Session.thy ===== *)
theory Session
  imports JsJson ApiUrls
begin

text \<open>
  State that lives as long as the page: the query caches of the backends used last (\<open>app/backends/backendQueryClients.ts\<close>), values in the
  browser's storage with its failures (\<open>shared/lib/browserStorage.ts\<close>, \<open>components/videoPlayerStorage.ts\<close>,
  \<open>app/bootstrap/startupMigrationState.ts\<close>, \<open>app/theme/theme-storage.ts\<close>, \<open>features/settings/hooks/useWebUIPreferences.ts\<close>), the view of a canvas that is
  panned and zoomed (\<open>features/setup-wizard/lib/usePanZoom.ts\<close>) and the run of an install that is polled
  (\<open>features/connections/lib/useInstallRun.ts\<close>). Browser events and answers of the server are the environment.
\<close>

section \<open>Query caches of the backends\<close>

definition KEPT_CLIENTS :: nat where
  "KEPT_CLIENTS = 3"

text \<open>A client is a number; \<open>qc_cleared\<close> are the ones that were cleared, in order.\<close>

record query_clients =
  qc_clients :: "(string \<times> nat) list"
  qc_created :: nat
  qc_cleared :: "nat list"

definition no_clients :: query_clients where
  "no_clients = \<lparr>qc_clients = [], qc_created = 0, qc_cleared = []\<rparr>"

text \<open>The loop over the map, oldest first, until few enough are left.\<close>

fun evict :: "query_clients \<Rightarrow> (string \<times> nat) list \<Rightarrow> query_clients" where
  "evict st [] = st\<lparr>qc_clients := []\<rparr>"
| "evict st (x # m) =
     (if length (x # m) \<le> KEPT_CLIENTS then st\<lparr>qc_clients := x # m\<rparr>
      else evict (st\<lparr>qc_cleared := qc_cleared st @ [snd x]\<rparr>) m)"

definition queryClientFor :: "string \<Rightarrow> query_clients \<Rightarrow> nat \<times> query_clients" where
  "queryClientFor connectionId st =
     (case map_of (qc_clients st) connectionId of
        Some client \<Rightarrow> (client, evict st (filter (\<lambda>x. fst x \<noteq> connectionId) (qc_clients st) @ [(connectionId, client)]))
      | None \<Rightarrow> (qc_created st, evict (st\<lparr>qc_created := Suc (qc_created st)\<rparr>) (qc_clients st @ [(connectionId, qc_created st)])))"

definition forgetQueryClients :: "query_clients \<Rightarrow> query_clients" where
  "forgetQueryClients st = st\<lparr>qc_clients := [], qc_cleared := qc_cleared st @ map snd (qc_clients st)\<rparr>"

section \<open>The browser's storage\<close>

text \<open>An area of the storage: what it holds and whether reading and writing throw. A missing area is \<open>None\<close>.\<close>

record web_storage =
  ws_items :: "string \<rightharpoonup> string"
  ws_readable :: bool
  ws_writable :: bool

datatype storage_area = Local | Session_area

record browser =
  br_local :: "web_storage option"
  br_session :: "web_storage option"

definition storageFor :: "storage_area \<Rightarrow> browser \<Rightarrow> web_storage option" where
  "storageFor area b = (case area of Local \<Rightarrow> br_local b | Session_area \<Rightarrow> br_session b)"

definition put_area :: "storage_area \<Rightarrow> web_storage \<Rightarrow> browser \<Rightarrow> browser" where
  "put_area area s b = (case area of Local \<Rightarrow> b\<lparr>br_local := Some s\<rparr> | Session_area \<Rightarrow> b\<lparr>br_session := Some s\<rparr>)"

definition readStorage :: "string \<Rightarrow> storage_area \<Rightarrow> browser \<Rightarrow> string option" where
  "readStorage key area b = (case storageFor area b of None \<Rightarrow> None | Some s \<Rightarrow> if ws_readable s then ws_items s key else None)"

definition writeStorage :: "string \<Rightarrow> string \<Rightarrow> storage_area \<Rightarrow> browser \<Rightarrow> bool \<times> browser" where
  "writeStorage key v area b =
     (case storageFor area b of
        None \<Rightarrow> (False, b)
      | Some s \<Rightarrow> if ws_writable s then (True, put_area area (s\<lparr>ws_items := (ws_items s)(key \<mapsto> v)\<rparr>) b) else (False, b))"

definition removeStorage :: "string \<Rightarrow> storage_area \<Rightarrow> browser \<Rightarrow> browser" where
  "removeStorage key area b =
     (case storageFor area b of
        None \<Rightarrow> b
      | Some s \<Rightarrow> if ws_writable s then put_area area (s\<lparr>ws_items := (ws_items s)(key := None)\<rparr>) b else b)"

subsection \<open>Volume of the player\<close>

record player_memory =
  memoryVolume :: "rat option"
  memoryMuted :: "bool option"

definition getPersistedVolume :: "player_memory \<Rightarrow> browser \<Rightarrow> rat option" where
  "getPersistedVolume mem b =
     (case map_option parse_float (readStorage ''usr_video_player_volume'' Local b) of
        Some (Fin q) \<Rightarrow> if 0 \<le> q \<and> q \<le> 1 then Some q else memoryVolume mem
      | _ \<Rightarrow> memoryVolume mem)"

definition setPersistedVolume :: "(rat \<Rightarrow> string) \<Rightarrow> rat \<Rightarrow> player_memory \<times> browser \<Rightarrow> player_memory \<times> browser" where
  "setPersistedVolume fs volume s =
     (case s of (mem, b) \<Rightarrow>
        let clamped = max 0 (min 1 volume)
        in (mem\<lparr>memoryVolume := Some clamped\<rparr>, snd (writeStorage ''usr_video_player_volume'' (js_num_str fs (Fin clamped)) Local b)))"

definition getPersistedMuted :: "player_memory \<Rightarrow> browser \<Rightarrow> bool option" where
  "getPersistedMuted mem b =
     (case readStorage ''usr_video_player_muted'' Local b of Some v \<Rightarrow> Some (v = ''true'') | None \<Rightarrow> memoryMuted mem)"

definition setPersistedMuted :: "bool \<Rightarrow> player_memory \<times> browser \<Rightarrow> player_memory \<times> browser" where
  "setPersistedMuted muted s =
     (case s of (mem, b) \<Rightarrow>
        (mem\<lparr>memoryMuted := Some muted\<rparr>, snd (writeStorage ''usr_video_player_muted'' (if muted then ''true'' else ''false'') Local b)))"

subsection \<open>Migration checks and the theme\<close>

text \<open>\<open>key\<close> is the key scoped to the active connection.\<close>

definition hasMigrationCheckForStartup :: "string \<Rightarrow> string \<Rightarrow> browser \<Rightarrow> bool" where
  "hasMigrationCheckForStartup key startupId b \<longleftrightarrow>
     readStorage key Local b = Some startupId \<or> readStorage key Session_area b = Some startupId"

definition hasAnyMigrationCheck :: "string \<Rightarrow> browser \<Rightarrow> bool" where
  "hasAnyMigrationCheck key b \<longleftrightarrow>
     Option.bind (readStorage key Local b) nonempty \<noteq> None \<or> Option.bind (readStorage key Session_area b) nonempty \<noteq> None"

definition recordMigrationCheckForStartup :: "string \<Rightarrow> string \<Rightarrow> browser \<Rightarrow> browser" where
  "recordMigrationCheckForStartup key startupId b =
     snd (writeStorage key startupId Session_area (snd (writeStorage key startupId Local b)))"

definition loadStoredThemeId :: "string \<Rightarrow> browser \<Rightarrow> string" where
  "loadStoredThemeId defaultThemeId b =
     (case readStorage ''usr_theme'' Local b of Some v \<Rightarrow> if v = ''ultima-atlas'' then v else defaultThemeId | None \<Rightarrow> defaultThemeId)"

definition persistThemeId :: "string \<Rightarrow> browser \<Rightarrow> browser" where
  "persistThemeId themeId b = snd (writeStorage ''usr_theme'' themeId Local b)"

subsection \<open>Preferences\<close>

record preferences =
  compactMode :: bool
  telemetryPollRate :: rat
  toastDuration :: rat
  autoFailover :: bool
  confirmDestructiveActions :: bool
  enableSoundCues :: bool
  devMode :: bool

definition DEFAULT_PREFERENCES :: preferences where
  "DEFAULT_PREFERENCES = \<lparr>compactMode = False, telemetryPollRate = 3000, toastDuration = 4000, autoFailover = True,
     confirmDestructiveActions = True, enableSoundCues = False, devMode = False\<rparr>"

text \<open>\<open>Partial<WebUIPreferences>\<close>, and \<open>{ ...p, ...patch }\<close>.\<close>

record preferences_patch =
  pp_compactMode :: "bool option"
  pp_telemetryPollRate :: "rat option"
  pp_toastDuration :: "rat option"
  pp_autoFailover :: "bool option"
  pp_confirmDestructiveActions :: "bool option"
  pp_enableSoundCues :: "bool option"
  pp_devMode :: "bool option"

definition overlay :: "preferences \<Rightarrow> preferences_patch \<Rightarrow> preferences" where
  "overlay p d = \<lparr>compactMode = or_else (pp_compactMode d) (compactMode p), telemetryPollRate = or_else (pp_telemetryPollRate d) (telemetryPollRate p),
     toastDuration = or_else (pp_toastDuration d) (toastDuration p), autoFailover = or_else (pp_autoFailover d) (autoFailover p),
     confirmDestructiveActions = or_else (pp_confirmDestructiveActions d) (confirmDestructiveActions p),
     enableSoundCues = or_else (pp_enableSoundCues d) (enableSoundCues p), devMode = or_else (pp_devMode d) (devMode p)\<rparr>"

definition full_patch :: "preferences \<Rightarrow> preferences_patch" where
  "full_patch p = \<lparr>pp_compactMode = Some (compactMode p), pp_telemetryPollRate = Some (telemetryPollRate p), pp_toastDuration = Some (toastDuration p),
     pp_autoFailover = Some (autoFailover p), pp_confirmDestructiveActions = Some (confirmDestructiveActions p),
     pp_enableSoundCues = Some (enableSoundCues p), pp_devMode = Some (devMode p)\<rparr>"

text \<open>The cached copy and the storage; \<open>decode\<close> is \<open>JSON.parse\<close> of a preferences object, \<open>None\<close> where it throws.\<close>

record preference_store =
  ps_cached :: "(string option \<times> preferences) option"
  ps_browser :: browser
  ps_notified :: nat

definition readRaw :: "browser \<Rightarrow> string option" where
  "readRaw b = readStorage ''usr_webui_preferences'' Local b"

definition parsePreferences :: "(string \<Rightarrow> preferences_patch option) \<Rightarrow> string option \<Rightarrow> preferences" where
  "parsePreferences decode raw =
     (case Option.bind raw nonempty of
        None \<Rightarrow> DEFAULT_PREFERENCES
      | Some s \<Rightarrow> (case decode s of Some d \<Rightarrow> overlay DEFAULT_PREFERENCES d | None \<Rightarrow> DEFAULT_PREFERENCES))"

definition getPreferences :: "(string \<Rightarrow> preferences_patch option) \<Rightarrow> preference_store \<Rightarrow> preferences \<times> preference_store" where
  "getPreferences decode st =
     (let raw = readRaw (ps_browser st)
      in case ps_cached st of
           Some (r, v) \<Rightarrow> if r = raw then (v, st) else (parsePreferences decode raw, st\<lparr>ps_cached := Some (raw, parsePreferences decode raw)\<rparr>)
         | None \<Rightarrow> (parsePreferences decode raw, st\<lparr>ps_cached := Some (raw, parsePreferences decode raw)\<rparr>))"

definition notify :: "preference_store \<Rightarrow> preference_store" where
  "notify st = st\<lparr>ps_notified := Suc (ps_notified st)\<rparr>"

definition updatePreferences ::
  "(string \<Rightarrow> preferences_patch option) \<Rightarrow> (preferences \<Rightarrow> string) \<Rightarrow> preferences_patch \<Rightarrow> preference_store \<Rightarrow> preference_store" where
  "updatePreferences decode encode patch st =
     (let (current, st1) = getPreferences decode st; next_prefs = overlay current patch;
          (stored, b) = writeStorage ''usr_webui_preferences'' (encode next_prefs) Local (ps_browser st1)
      in notify (if stored then st1\<lparr>ps_browser := b\<rparr> else st1\<lparr>ps_cached := Some (readRaw (ps_browser st1), next_prefs)\<rparr>))"

definition resetPreferences :: "preference_store \<Rightarrow> preference_store" where
  "resetPreferences st =
     (let b = removeStorage ''usr_webui_preferences'' Local (ps_browser st)
      in notify (st\<lparr>ps_browser := b, ps_cached := Some (readRaw b, DEFAULT_PREFERENCES)\<rparr>))"

section \<open>Pan and zoom\<close>

record view =
  view_x :: rat
  view_y :: rat
  view_scale :: rat

definition MIN_SCALE :: rat where
  "MIN_SCALE = 1 / 5"

definition MAX_SCALE :: rat where
  "MAX_SCALE = 3"

definition BUTTON_STEP :: rat where
  "BUTTON_STEP = 5 / 4"

definition clamp_scale :: "rat \<Rightarrow> rat" where
  "clamp_scale s = min MAX_SCALE (max MIN_SCALE s)"

text \<open>Width and height of the viewport and of the canvas, \<open>None\<close> while they are not mounted.\<close>

record layout =
  lay_vw :: rat
  lay_vh :: rat
  lay_cw :: rat
  lay_ch :: rat

definition fitted :: "layout option \<Rightarrow> view option" where
  "fitted l =
     (case l of
        None \<Rightarrow> None
      | Some d \<Rightarrow>
          if lay_vw d = 0 \<or> lay_vh d = 0 \<or> lay_cw d = 0 \<or> lay_ch d = 0 then None
          else let scale = clamp_scale (min (min (lay_vw d / lay_cw d) (lay_vh d / lay_ch d)) 1)
               in Some \<lparr>view_x = (lay_vw d - lay_cw d * scale) / 2, view_y = max 0 ((lay_vh d - lay_ch d * scale) / 2), view_scale = scale\<rparr>)"

definition zoom_view :: "rat \<Rightarrow> rat \<Rightarrow> rat \<Rightarrow> view \<Rightarrow> view" where
  "zoom_view factor px py v =
     (let scale = clamp_scale (view_scale v * factor); ratio = scale / view_scale v
      in \<lparr>view_x = px - (px - view_x v) * ratio, view_y = py - (py - view_y v) * ratio, view_scale = scale\<rparr>)"

record canvas =
  cv_view :: view
  cv_moved :: bool
  cv_pointers :: "(nat \<times> rat \<times> rat) list"

definition new_canvas :: canvas where
  "new_canvas = \<lparr>cv_view = \<lparr>view_x = 0, view_y = 0, view_scale = 1\<rparr>, cv_moved = False, cv_pointers = []\<rparr>"

definition zoomAt :: "rat \<Rightarrow> rat \<Rightarrow> rat \<Rightarrow> canvas \<Rightarrow> canvas" where
  "zoomAt factor px py c = c\<lparr>cv_view := zoom_view factor px py (cv_view c)\<rparr>"

fun set_pointer :: "nat \<Rightarrow> rat \<times> rat \<Rightarrow> (nat \<times> rat \<times> rat) list \<Rightarrow> (nat \<times> rat \<times> rat) list" where
  "set_pointer i p [] = [(i, p)]"
| "set_pointer i p ((j, q) # m) = (if j = i then (i, p) # m else (j, q) # set_pointer i p m)"

definition on_resize :: "layout option \<Rightarrow> canvas \<Rightarrow> canvas" where
  "on_resize l c = (if cv_moved c then c else case fitted l of Some v \<Rightarrow> c\<lparr>cv_view := v\<rparr> | None \<Rightarrow> c)"

definition on_wheel :: "rat \<Rightarrow> rat \<Rightarrow> rat \<Rightarrow> canvas \<Rightarrow> canvas" where
  "on_wheel factor px py c = zoomAt factor px py (c\<lparr>cv_moved := True\<rparr>)"

definition onPointerDown :: "bool \<Rightarrow> nat \<Rightarrow> rat \<times> rat \<Rightarrow> canvas \<Rightarrow> canvas" where
  "onPointerDown on_control i p c = (if on_control then c else c\<lparr>cv_pointers := set_pointer i p (cv_pointers c)\<rparr>)"

text \<open>\<open>hypot\<close> is \<open>Math.hypot\<close>; \<open>left\<close> and \<open>top_edge\<close> are those of the box of the element.\<close>

definition onPointerMove :: "(rat \<Rightarrow> rat \<Rightarrow> rat) \<Rightarrow> nat \<Rightarrow> rat \<times> rat \<Rightarrow> rat \<Rightarrow> rat \<Rightarrow> canvas \<Rightarrow> canvas" where
  "onPointerMove hypot i p left top_edge c =
     (case map_of (cv_pointers c) i of
        None \<Rightarrow> c
      | Some previous \<Rightarrow>
          let c1 = c\<lparr>cv_moved := True, cv_pointers := set_pointer i p (cv_pointers c)\<rparr>; v = cv_view c
          in if length (cv_pointers c) = 1
             then c1\<lparr>cv_view := v\<lparr>view_x := view_x v + fst p - fst previous, view_y := view_y v + snd p - snd previous\<rparr>\<rparr>
             else case List.find (\<lambda>x. fst x \<noteq> i) (cv_pointers c) of
                    None \<Rightarrow> c1
                  | Some (_, other) \<Rightarrow>
                      let before_gap = hypot (fst previous - fst other) (snd previous - snd other);
                          after_gap = hypot (fst p - fst other) (snd p - snd other)
                      in if before_gap = 0 then c1
                         else zoomAt (after_gap / before_gap) ((fst p + fst other) / 2 - left) ((snd p + snd other) / 2 - top_edge) c1)"

definition onPointerEnd :: "nat \<Rightarrow> canvas \<Rightarrow> canvas" where
  "onPointerEnd i c = c\<lparr>cv_pointers := filter (\<lambda>x. fst x \<noteq> i) (cv_pointers c)\<rparr>"

definition zoomBy :: "rat \<Rightarrow> (rat \<times> rat) option \<Rightarrow> canvas \<Rightarrow> canvas" where
  "zoomBy factor viewport c =
     (case viewport of
        None \<Rightarrow> c
      | Some (w, h) \<Rightarrow> zoomAt factor (w / 2) (h / 2) (c\<lparr>cv_moved := True\<rparr>))"

definition fit_canvas :: "layout option \<Rightarrow> canvas \<Rightarrow> canvas" where
  "fit_canvas l c = (let c1 = c\<lparr>cv_moved := False\<rparr> in case fitted l of Some v \<Rightarrow> c1\<lparr>cv_view := v\<rparr> | None \<Rightarrow> c1)"

definition canZoomIn :: "canvas \<Rightarrow> bool" where
  "canZoomIn c \<longleftrightarrow> view_scale (cv_view c) < MAX_SCALE"

definition canZoomOut :: "canvas \<Rightarrow> bool" where
  "canZoomOut c \<longleftrightarrow> view_scale (cv_view c) > MIN_SCALE"

datatype canvas_event =
    Resize "layout option" | Wheel rat rat rat | PointerDown bool nat "rat \<times> rat" | PointerMove nat "rat \<times> rat" rat rat | PointerEnd nat
  | ZoomIn "(rat \<times> rat) option" | ZoomOut "(rat \<times> rat) option" | FitView "layout option"

fun canvas_step :: "(rat \<Rightarrow> rat \<Rightarrow> rat) \<Rightarrow> canvas_event \<Rightarrow> canvas \<Rightarrow> canvas" where
  "canvas_step hypot (Resize l) c = on_resize l c"
| "canvas_step hypot (Wheel factor px py) c = on_wheel factor px py c"
| "canvas_step hypot (PointerDown b i p) c = onPointerDown b i p c"
| "canvas_step hypot (PointerMove i p l t) c = onPointerMove hypot i p l t c"
| "canvas_step hypot (PointerEnd i) c = onPointerEnd i c"
| "canvas_step hypot (ZoomIn v) c = zoomBy BUTTON_STEP v c"
| "canvas_step hypot (ZoomOut v) c = zoomBy (1 / BUTTON_STEP) v c"
| "canvas_step hypot (FitView l) c = fit_canvas l c"

section \<open>Following an install\<close>

text \<open>
  Each effect of the hook starts a poller: its run, the last event it has seen, whether it was stopped, and whether a
  request is on its way. An answer carries the state of the run and the events after the ones asked for.
\<close>

record install_event =
  ie_seq :: nat
  ie_text :: string

datatype poll_phase = Waiting | Asking | Finished

record poller =
  po_run :: string
  po_after :: nat
  po_stopped :: bool
  po_phase :: poll_phase

record install_view =
  iv_id :: "string option"
  iv_state :: "string option"
  iv_events :: "install_event list"

record install_hook =
  ih_runId :: "string option"
  ih_run :: install_view
  ih_pollers :: "poller list"

definition no_run :: install_view where
  "no_run = \<lparr>iv_id = None, iv_state = None, iv_events = []\<rparr>"

definition new_hook :: install_hook where
  "new_hook = \<lparr>ih_runId = None, ih_run = no_run, ih_pollers = []\<rparr>"

text \<open>\<open>runId\<close> changes: the effect of the old one is cleaned up, the new one polls from the start.\<close>

definition watch_run :: "string option \<Rightarrow> install_hook \<Rightarrow> install_hook" where
  "watch_run r h =
     h\<lparr>ih_runId := r,
       ih_pollers := map (\<lambda>p. p\<lparr>po_stopped := True\<rparr>) (ih_pollers h)
         @ (case Option.bind r nonempty of None \<Rightarrow> [] | Some i \<Rightarrow> [\<lparr>po_run = i, po_after = 0, po_stopped = False, po_phase = Waiting\<rparr>])\<rparr>"

definition ask_run :: "nat \<Rightarrow> install_hook \<Rightarrow> install_hook" where
  "ask_run k h = h\<lparr>ih_pollers := (ih_pollers h)[k := (ih_pollers h ! k)\<lparr>po_phase := Asking\<rparr>]\<rparr>"

definition answer_run :: "nat \<Rightarrow> string \<Rightarrow> install_event list \<Rightarrow> install_hook \<Rightarrow> install_hook" where
  "answer_run k state events h =
     (let p = ih_pollers h ! k
      in h\<lparr>ih_run := \<lparr>iv_id = Some (po_run p), iv_state = Some state,
             iv_events = (if iv_id (ih_run h) = Some (po_run p) then iv_events (ih_run h) else []) @ events\<rparr>,
           ih_pollers := (ih_pollers h)[k := p\<lparr>po_after := (if events = [] then po_after p else ie_seq (last events)),
             po_phase := (if state \<noteq> ''running'' then Finished else Waiting)\<rparr>]\<rparr>)"

definition fail_run :: "nat \<Rightarrow> install_hook \<Rightarrow> install_hook" where
  "fail_run k h = h\<lparr>ih_pollers := (ih_pollers h)[k := (ih_pollers h ! k)\<lparr>po_phase := Waiting\<rparr>]\<rparr>"

definition shown_run :: "install_hook \<Rightarrow> install_view" where
  "shown_run h = (if iv_id (ih_run h) = ih_runId h then ih_run h else no_run)"

text \<open>The log of a run on the server; an answer has what was logged so far after the event asked for.\<close>

type_synonym install_log = "string \<Rightarrow> install_event list"

definition events_after :: "install_log \<Rightarrow> string \<Rightarrow> nat \<Rightarrow> nat \<Rightarrow> install_event list" where
  "events_after log_of i after n = filter (\<lambda>e. after < ie_seq e) (take n (log_of i))"

datatype install_action = WatchRun "string option" | AskRun nat | AnswerRun nat string nat | FailRun nat

fun install_step :: "install_log \<Rightarrow> install_action \<Rightarrow> install_hook \<Rightarrow> install_hook" where
  "install_step log_of (WatchRun r) h = watch_run r h"
| "install_step log_of (AskRun k) h = ask_run k h"
| "install_step log_of (AnswerRun k state n) h =
     answer_run k state (events_after log_of (po_run (ih_pollers h ! k)) (po_after (ih_pollers h ! k)) n) h"
| "install_step log_of (FailRun k) h = fail_run k h"

text \<open>
  What can happen: a new id, a request of a poller that was not stopped, an answer or failure of one that asked.
  \<open>install_orderly\<close> leaves out a return to the run that is still kept and late answers of stopped pollers.
\<close>

fun install_possible :: "install_action \<Rightarrow> install_hook \<Rightarrow> bool" where
  "install_possible (WatchRun r) h \<longleftrightarrow> r \<noteq> ih_runId h"
| "install_possible (AskRun k) h \<longleftrightarrow> k < length (ih_pollers h) \<and> \<not> po_stopped (ih_pollers h ! k) \<and> po_phase (ih_pollers h ! k) = Waiting"
| "install_possible (AnswerRun k state n) h \<longleftrightarrow> k < length (ih_pollers h) \<and> po_phase (ih_pollers h ! k) = Asking"
| "install_possible (FailRun k) h \<longleftrightarrow> k < length (ih_pollers h) \<and> po_phase (ih_pollers h ! k) = Asking"

fun install_orderly :: "install_action \<Rightarrow> install_hook \<Rightarrow> bool" where
  "install_orderly (WatchRun r) h \<longleftrightarrow> r \<noteq> ih_runId h \<and> (r = None \<or> r \<noteq> iv_id (ih_run h))"
| "install_orderly (AnswerRun k state n) h \<longleftrightarrow> install_possible (AnswerRun k state n) h \<and> \<not> po_stopped (ih_pollers h ! k)"
| "install_orderly a h \<longleftrightarrow> install_possible a h"

section \<open>The caches of the backends used last\<close>

lemma evict_eq:
  "evict st m = st\<lparr>qc_clients := drop (length m - KEPT_CLIENTS) m, qc_cleared := qc_cleared st @ map snd (take (length m - KEPT_CLIENTS) m)\<rparr>"
  by (induction st m rule: evict.induct) (auto simp: Suc_diff_le)

definition last_kept :: "'a list \<Rightarrow> 'a list" where
  "last_kept xs = drop (length xs - KEPT_CLIENTS) xs"

lemma last_kept_rev: "last_kept xs = rev (take KEPT_CLIENTS (rev xs))"
  by (simp add: last_kept_def rev_take)

lemma take_filter_neq:
  "distinct xs \<Longrightarrow> take n (filter (\<lambda>x. x \<noteq> u) (take (Suc n) xs)) = take n (filter (\<lambda>x. x \<noteq> u) xs)"
proof (induction xs arbitrary: n)
  case (Cons x xs)
  show ?case
  proof (cases "x = u")
    case True
    then have "filter (\<lambda>x. x \<noteq> u) xs = xs" "filter (\<lambda>x. x \<noteq> u) (take n xs) = take n xs"
      using Cons.prems by (auto simp: filter_id_conv dest: in_set_takeD)
    then show ?thesis using True by simp
  next
    case False
    then show ?thesis using Cons by (cases n) simp_all
  qed
qed simp

text \<open>The ids used last, each once, the most recent one at the end.\<close>

definition recent :: "string list \<Rightarrow> string list" where
  "recent uses = last_kept (remdups uses)"

lemma remdups_snoc: "remdups (us @ [u]) = filter (\<lambda>x. x \<noteq> u) (remdups us) @ [u]"
  by (induction us) auto

lemma recent_snoc: "recent (us @ [u]) = last_kept (filter (\<lambda>x. x \<noteq> u) (recent us) @ [u])"
proof -
  have "take 2 (filter (\<lambda>x. x \<noteq> u) (take 3 (rev (remdups us)))) = take 2 (filter (\<lambda>x. x \<noteq> u) (rev (remdups us)))"
    using take_filter_neq [of "rev (remdups us)" 2 u] by (simp add: numeral_eq_Suc)
  then show ?thesis
    unfolding recent_def last_kept_rev remdups_snoc KEPT_CLIENTS_def
    by (simp add: rev_filter [symmetric] numeral_eq_Suc)
qed

definition clients_after :: "string list \<Rightarrow> query_clients" where
  "clients_after uses = fold (\<lambda>i st. snd (queryClientFor i st)) uses no_clients"

text \<open>Every client that was created is kept or was cleared, and only once.\<close>

definition clients_inv :: "query_clients \<Rightarrow> bool" where
  "clients_inv st \<longleftrightarrow> distinct (map fst (qc_clients st)) \<and> length (qc_clients st) \<le> KEPT_CLIENTS
     \<and> mset (map snd (qc_clients st)) + mset (qc_cleared st) = mset [0..<qc_created st]"

lemma evict_mset: "mset (map snd (qc_clients (evict st m))) + mset (qc_cleared (evict st m)) = mset (map snd m) + mset (qc_cleared st)"
proof -
  have "mset (map snd (take k m)) + mset (map snd (drop k m)) = mset (map snd m)" for k
    by (metis append_take_drop_id map_append mset_append)
  then show ?thesis by (simp add: evict_eq ac_simps)
qed

lemma filter_key_mset:
  assumes "distinct (map fst m)" "map_of m i = Some c"
  shows "mset (map snd (filter (\<lambda>x. fst x \<noteq> i) m)) + {#c#} = mset (map snd m)"
  using assms
proof (induction m)
  case (Cons x m)
  show ?case
  proof (cases "fst x = i")
    case True
    then have "i \<notin> fst ` set m" using Cons.prems(1) by simp
    then have "filter (\<lambda>x. fst x \<noteq> i) m = m" by (intro filter_True) blast
    then show ?thesis using True Cons.prems(2) by (cases x) simp
  next
    case False
    then show ?thesis using Cons by (cases x) auto
  qed
qed simp

lemma evict_inv:
  assumes "distinct (map fst m)" "mset (map snd m) + mset (qc_cleared st) = mset [0..<qc_created st]"
  shows "clients_inv (evict st m)"
proof -
  have "distinct (map fst (drop (length m - KEPT_CLIENTS) m))" using assms(1) by (metis distinct_drop drop_map)
  moreover have "length (drop (length m - KEPT_CLIENTS) m) \<le> KEPT_CLIENTS" by simp
  moreover have "qc_clients (evict st m) = drop (length m - KEPT_CLIENTS) m" "qc_created (evict st m) = qc_created st"
    by (simp_all add: evict_eq)
  ultimately show ?thesis
    unfolding clients_inv_def using evict_mset [of st m] assms(2) by metis
qed

lemma clients_inv_step: "clients_inv st \<Longrightarrow> clients_inv (snd (queryClientFor i st))"
proof (cases "map_of (qc_clients st) i")
  case None
  assume inv: "clients_inv st"
  have "i \<notin> fst ` set (qc_clients st)" using None by (simp only: map_of_eq_None_iff not_False_eq_True)
  then have "clients_inv (evict (st\<lparr>qc_created := Suc (qc_created st)\<rparr>) (qc_clients st @ [(i, qc_created st)]))"
    using inv by (intro evict_inv) (simp_all add: clients_inv_def ac_simps)
  then show ?thesis using None by (simp add: queryClientFor_def)
next
  case (Some c)
  assume inv: "clients_inv st"
  then have "clients_inv (evict st (filter (\<lambda>x. fst x \<noteq> i) (qc_clients st) @ [(i, c)]))"
    using filter_key_mset [OF _ Some] by (intro evict_inv) (auto simp: clients_inv_def distinct_map inj_on_def)
  then show ?thesis using Some by (simp add: queryClientFor_def)
qed

interpretation caches: invariant_machine "\<lambda>st. st = no_clients" "\<lambda>_ _. True" "\<lambda>i st. snd (queryClientFor i st)" clients_inv
  by unfold_locales (simp_all add: clients_inv_step, simp add: clients_inv_def no_clients_def)

lemma clients_after_inv: "clients_inv (clients_after uses)"
  unfolding clients_after_def by (rule caches.inv_run [OF _ run_always]) (simp add: clients_inv_def no_clients_def)

lemma map_fst_evict: "map fst (qc_clients (evict st m)) = last_kept (map fst m)"
  by (simp add: evict_eq last_kept_def drop_map)

lemma map_fst_queryClientFor:
  "map fst (qc_clients (snd (queryClientFor i st))) = last_kept (filter (\<lambda>x. x \<noteq> i) (map fst (qc_clients st)) @ [i])"
proof (cases "map_of (qc_clients st) i")
  case None
  then have "i \<notin> set (map fst (qc_clients st))" by (simp only: map_of_eq_None_iff set_map not_False_eq_True)
  then have "filter (\<lambda>x. x \<noteq> i) (map fst (qc_clients st)) = map fst (qc_clients st)" by (intro filter_True) auto
  then show ?thesis using None by (simp add: queryClientFor_def map_fst_evict)
next
  case (Some c)
  have "filter (\<lambda>x. x \<noteq> i) (map fst (qc_clients st)) = map fst (filter (\<lambda>x. fst x \<noteq> i) (qc_clients st))" by (simp add: filter_map o_def)
  then show ?thesis using Some by (simp add: queryClientFor_def map_fst_evict)
qed

lemma clients_after_recent: "map fst (qc_clients (clients_after uses)) = recent uses"
proof (induction uses rule: rev_induct)
  case (snoc u us)
  then show ?case using map_fst_queryClientFor [of u "clients_after us"] by (simp add: clients_after_def recent_snoc)
qed (simp add: clients_after_def no_clients_def recent_def last_kept_def)

text \<open>
  C34. The caches refine a least-recently-used list (\<open>queryClientFor\<close>). After any sequence of uses, the backends whose cache is kept are the
  last three different ones, in the order of their last use. A backend among them gets the cache it had, another one gets a
  new cache; and every cache that was ever created is either kept or was cleared exactly once.
\<close>

theorem query_clients_refine_lru:
  "map fst (qc_clients (clients_after uses)) = recent uses
   \<and> (case map_of (qc_clients (clients_after uses)) i of
        Some c \<Rightarrow> i \<in> set (recent uses) \<and> fst (queryClientFor i (clients_after uses)) = c
      | None \<Rightarrow> i \<notin> set (recent uses) \<and> fst (queryClientFor i (clients_after uses)) = qc_created (clients_after uses))
   \<and> mset (map snd (qc_clients (clients_after uses))) + mset (qc_cleared (clients_after uses)) = mset [0..<qc_created (clients_after uses)]"
proof -
  have "i \<in> set (recent uses) \<longleftrightarrow> map_of (qc_clients (clients_after uses)) i \<noteq> None"
    unfolding clients_after_recent [symmetric] map_of_eq_None_iff set_map by simp
  moreover have "mset (map snd (qc_clients (clients_after uses))) + mset (qc_cleared (clients_after uses)) = mset [0..<qc_created (clients_after uses)]"
    using clients_after_inv [of uses] unfolding clients_inv_def by blast
  ultimately show ?thesis
    unfolding clients_after_recent by (intro conjI) (simp_all add: queryClientFor_def split: option.split)
qed

section \<open>Stored values\<close>

lemma read_write:
  "writeStorage key v area b = (True, b') \<Longrightarrow> ws_readable (the (storageFor area b)) \<Longrightarrow> readStorage k area b' = (if k = key then Some v else readStorage k area b)"
  by (auto simp: writeStorage_def readStorage_def storageFor_def put_area_def split: option.splits storage_area.splits if_splits)

lemma write_fails: "writeStorage key v area b = (False, b') \<Longrightarrow> b' = b"
  by (auto simp: writeStorage_def split: option.splits if_splits)

lemma overlay_full [simp]: "overlay p (full_patch q) = q"
  by (simp add: overlay_def full_patch_def or_else_def)

lemma write_readable:
  "writeStorage key v area b = (True, b') \<Longrightarrow> storageFor area b \<noteq> None \<and> ws_writable (the (storageFor area b))"
  by (auto simp: writeStorage_def split: option.splits if_splits)

lemma fst_getPreferences:
  "fst (getPreferences decode st) =
     (case ps_cached st of Some (r, v) \<Rightarrow> if r = readRaw (ps_browser st) then v else parsePreferences decode (readRaw (ps_browser st))
      | None \<Rightarrow> parsePreferences decode (readRaw (ps_browser st)))"
  by (simp add: getPreferences_def Let_def split: option.split prod.split)

lemma snd_getPreferences:
  "ps_browser (snd (getPreferences decode st)) = ps_browser st" "ps_notified (snd (getPreferences decode st)) = ps_notified st"
  "ps_cached (snd (getPreferences decode st)) = Some (readRaw (ps_browser st), fst (getPreferences decode st))"
  by (simp_all add: getPreferences_def Let_def split: option.split prod.split)

lemma updatePreferences_eq:
  "updatePreferences decode encode patch st =
     (let st1 = snd (getPreferences decode st); p = overlay (fst (getPreferences decode st)) patch;
          w = writeStorage ''usr_webui_preferences'' (encode p) Local (ps_browser st)
      in notify (if fst w then st1\<lparr>ps_browser := snd w\<rparr> else st1\<lparr>ps_cached := Some (readRaw (ps_browser st), p)\<rparr>))"
  unfolding updatePreferences_def Let_def case_prod_beta snd_getPreferences ..


definition broken_browser :: browser where
  "broken_browser = \<lparr>br_local = Some \<lparr>ws_items = Map.empty, ws_readable = True, ws_writable = False\<rparr>, br_session = None\<rparr>"

definition dev_patch :: preferences_patch where
  "dev_patch = \<lparr>pp_compactMode = None, pp_telemetryPollRate = None, pp_toastDuration = None, pp_autoFailover = None,
     pp_confirmDestructiveActions = None, pp_enableSoundCues = None, pp_devMode = Some True\<rparr>"


text \<open>
  After an update that could not be stored, the cached copy differs from what is stored. When the next update can be stored and
  brings back exactly the stored text, the copy is still taken for current, and the second update has no effect.
\<close>

lemma restored_preferences_ignored:
  assumes "readRaw (ps_browser st) = Some (encode p)" "ps_cached st = Some (Some (encode p), q)" "overlay q patch = p"
    "br_local (ps_browser st) = Some s" "ws_writable s" "ws_readable s"
  shows "fst (getPreferences decode (updatePreferences decode encode patch st)) = q"
proof -
  have g: "fst (getPreferences decode st) = q" using assms(1,2) by (simp add: fst_getPreferences)
  obtain b where w: "writeStorage ''usr_webui_preferences'' (encode p) Local (ps_browser st) = (True, b)"
    using assms(4,5) by (simp add: writeStorage_def storageFor_def)
  have "readRaw b = Some (encode p)"
    using read_write [OF w, of "''usr_webui_preferences''"] assms(4,6) by (simp add: readRaw_def storageFor_def)
  moreover have "updatePreferences decode encode patch st = notify ((snd (getPreferences decode st))\<lparr>ps_browser := b\<rparr>)"
    by (simp add: updatePreferences_eq Let_def g assms(3) w)
  ultimately show ?thesis
    using assms(1) g by (simp add: fst_getPreferences [of decode "notify _"]) (simp add: notify_def snd_getPreferences)
qed

section \<open>The view of the canvas\<close>

definition canvas_inv :: "canvas \<Rightarrow> bool" where
  "canvas_inv c \<longleftrightarrow> MIN_SCALE \<le> view_scale (cv_view c) \<and> view_scale (cv_view c) \<le> MAX_SCALE \<and> distinct (map fst (cv_pointers c))"

lemma clamp_scale_bounds [simp]: "MIN_SCALE \<le> clamp_scale s" "clamp_scale s \<le> MAX_SCALE" "0 < clamp_scale s"
  by (simp_all add: clamp_scale_def MIN_SCALE_def MAX_SCALE_def)

lemma fitted_scale: "fitted l = Some v \<Longrightarrow> MIN_SCALE \<le> view_scale v \<and> view_scale v \<le> MAX_SCALE"
  by (auto simp: fitted_def Let_def split: option.splits if_splits)

lemma zoomAt_canvas [simp]:
  "view_scale (cv_view (zoomAt f px py c)) = clamp_scale (view_scale (cv_view c) * f)" "cv_pointers (zoomAt f px py c) = cv_pointers c"
  "cv_moved (zoomAt f px py c) = cv_moved c"
  by (simp_all add: zoomAt_def zoom_view_def Let_def)

lemma set_pointer_keys: "fst ` set (set_pointer i p m) = insert i (fst ` set m)"
  by (induction i p m rule: set_pointer.induct) auto

lemma set_pointer_distinct: "distinct (map fst m) \<Longrightarrow> distinct (map fst (set_pointer i p m))"
proof (induction i p m rule: set_pointer.induct)
  case (2 i p j q m)
  then show ?case using set_pointer_keys [of i p m] by auto
qed simp

lemma distinct_filter_keys: "distinct (map fst m) \<Longrightarrow> distinct (map fst (filter P m))"
  by (induction m) auto

lemma canvas_inv_step: "canvas_inv c \<Longrightarrow> canvas_inv (canvas_step hypot e c)"
  by (cases e)
    (auto simp: canvas_inv_def on_resize_def on_wheel_def onPointerDown_def onPointerMove_def onPointerEnd_def zoomBy_def fit_canvas_def Let_def
        set_pointer_distinct distinct_filter_keys dest: fitted_scale split: option.splits)

interpretation canvas: invariant_machine "\<lambda>c. c = new_canvas" "\<lambda>_ _. True" "canvas_step hypot" canvas_inv for hypot
  by unfold_locales (simp_all add: canvas_inv_step, simp add: canvas_inv_def new_canvas_def MIN_SCALE_def MAX_SCALE_def)

lemma zoom_view_still:
  assumes "view_scale v \<noteq> 0"
  shows "(px - view_x (zoom_view f px py v)) / view_scale (zoom_view f px py v) = (px - view_x v) / view_scale v"
    "(py - view_y (zoom_view f px py v)) / view_scale (zoom_view f px py v) = (py - view_y v) / view_scale v"
proof -
  have "clamp_scale (view_scale v * f) \<noteq> 0" using clamp_scale_bounds(3) [of "view_scale v * f"] by linarith
  then show "(px - view_x (zoom_view f px py v)) / view_scale (zoom_view f px py v) = (px - view_x v) / view_scale v"
    "(py - view_y (zoom_view f px py v)) / view_scale (zoom_view f px py v) = (py - view_y v) / view_scale v"
    using assms by (simp_all add: zoom_view_def Let_def)
qed

text \<open>A canvas fitted to a viewport that is large enough for the smallest scale lies inside it.\<close>

lemma fitted_inside:
  assumes "fitted (Some d) = Some v" "0 < lay_vw d" "0 < lay_vh d" "0 < lay_cw d" "0 < lay_ch d"
    "lay_cw d * MIN_SCALE \<le> lay_vw d" "lay_ch d * MIN_SCALE \<le> lay_vh d"
  shows "0 \<le> view_x v \<and> view_x v + lay_cw d * view_scale v \<le> lay_vw d \<and> 0 \<le> view_y v \<and> view_y v + lay_ch d * view_scale v \<le> lay_vh d"
proof -
  define s where "s = clamp_scale (min (min (lay_vw d / lay_cw d) (lay_vh d / lay_ch d)) 1)"
  have "s = max MIN_SCALE (min (min (lay_vw d / lay_cw d) (lay_vh d / lay_ch d)) 1)"
    by (auto simp: s_def clamp_scale_def MAX_SCALE_def MIN_SCALE_def)
  moreover have "MIN_SCALE \<le> lay_vw d / lay_cw d" "MIN_SCALE \<le> lay_vh d / lay_ch d"
    using assms(4-7) by (simp_all add: field_simps)
  ultimately have "s \<le> lay_vw d / lay_cw d" "s \<le> lay_vh d / lay_ch d" by (simp_all add: MIN_SCALE_def)
  then have fits: "lay_cw d * s \<le> lay_vw d" "lay_ch d * s \<le> lay_vh d"
    using assms(4,5) by (simp_all add: field_simps)
  have "v = \<lparr>view_x = (lay_vw d - lay_cw d * s) / 2, view_y = max 0 ((lay_vh d - lay_ch d * s) / 2), view_scale = s\<rparr>"
    using assms(1-5) by (simp add: fitted_def s_def Let_def)
  then show ?thesis using fits by (simp add: field_simps)
qed

text \<open>
  Zooming keeps the point under the pointer still (\<open>usePanZoom.ts\<close>). After any resizes, wheel turns, drags, pinches and buttons the
  scale lies between its two limits. Zooming such a canvas at a point shows the same place of the drawing at that point
  afterwards, at the scale asked for, as far as the limits allow; a button that is disabled because a limit is
  reached would change nothing.
\<close>

lemma zoom_keeps_point:
  assumes "reachable (\<lambda>c. c = new_canvas) (\<lambda>_ _. True) (canvas_step hypot) c"
  shows "MIN_SCALE \<le> view_scale (cv_view c) \<and> view_scale (cv_view c) \<le> MAX_SCALE
    \<and> view_scale (cv_view (zoomAt f px py c)) = clamp_scale (view_scale (cv_view c) * f)
    \<and> (px - view_x (cv_view (zoomAt f px py c))) / view_scale (cv_view (zoomAt f px py c)) = (px - view_x (cv_view c)) / view_scale (cv_view c)
    \<and> (py - view_y (cv_view (zoomAt f px py c))) / view_scale (cv_view (zoomAt f px py c)) = (py - view_y (cv_view c)) / view_scale (cv_view c)
    \<and> (canZoomIn c \<or> cv_view (zoomBy BUTTON_STEP w c) = cv_view c)
    \<and> (canZoomOut c \<or> cv_view (zoomBy (1 / BUTTON_STEP) w c) = cv_view c)"
proof -
  have s: "MIN_SCALE \<le> view_scale (cv_view c)" "view_scale (cv_view c) \<le> MAX_SCALE"
    using canvas.inv_reachable [OF assms] by (simp_all add: canvas_inv_def)
  then have pos: "view_scale (cv_view c) \<noteq> 0" by (auto simp: MIN_SCALE_def)
  have still: "zoom_view f px py v = v" if "clamp_scale (view_scale v * f) = view_scale v" "view_scale v \<noteq> 0" for f px py v
    using that by (simp add: zoom_view_def)
  have "canZoomIn c \<or> cv_view (zoomBy BUTTON_STEP w c) = cv_view c"
    using s pos by (auto simp: canZoomIn_def zoomBy_def zoomAt_def clamp_scale_def MAX_SCALE_def MIN_SCALE_def BUTTON_STEP_def
        intro!: still split: option.splits)
  moreover have "canZoomOut c \<or> cv_view (zoomBy (1 / BUTTON_STEP) w c) = cv_view c"
    using s pos by (auto simp: canZoomOut_def zoomBy_def zoomAt_def clamp_scale_def MAX_SCALE_def MIN_SCALE_def BUTTON_STEP_def
        intro!: still split: option.splits)
  moreover have "cv_view (zoomAt f px py c) = zoom_view f px py (cv_view c)" "view_scale (zoom_view f px py (cv_view c)) = clamp_scale (view_scale (cv_view c) * f)"
    by (simp_all add: zoomAt_def zoom_view_def Let_def)
  ultimately show ?thesis using s zoom_view_still [OF pos] by metis
qed

section \<open>Events of an install\<close>

lemma sorted_partition:
  "sorted_wrt (\<lambda>x y. f x < f y) xs \<Longrightarrow> filter (\<lambda>x. f x \<le> (a :: nat)) xs @ filter (\<lambda>x. a < f x) xs = xs"
proof (induction xs)
  case (Cons x xs)
  show ?case
  proof (cases "f x \<le> a")
    case False
    then have "filter (\<lambda>x. f x \<le> a) xs = []" "filter (\<lambda>x. a < f x) xs = xs" using Cons.prems by (auto simp: filter_empty_conv filter_id_conv)
    then show ?thesis using False by simp
  qed (use Cons in simp)
qed simp

lemma sorted_take_filter:
  assumes "sorted_wrt (\<lambda>x y. f x < f y) xs" "take n xs \<noteq> []"
  shows "filter (\<lambda>x. f x \<le> (f (last (take n xs)) :: nat)) xs = take n xs"
proof -
  obtain ys l where t: "take n xs = ys @ [l]" using assms(2) by (metis append_butlast_last_id)
  have "sorted_wrt (\<lambda>x y. f x < f y) ((ys @ [l]) @ drop n xs)" using assms(1) t by (metis append_take_drop_id)
  then have "\<forall>x\<in>set ys. f x < f l" "\<forall>x\<in>set (drop n xs). f l < f x" by (auto simp: sorted_wrt_append)
  then have "filter (\<lambda>x. f x \<le> f l) ys = ys" "filter (\<lambda>x. f x \<le> f l) (drop n xs) = []" by (auto simp: filter_empty_conv filter_id_conv)
  then have "filter (\<lambda>x. f x \<le> f l) ((ys @ [l]) @ drop n xs) = ys @ [l]" by simp
  then show ?thesis using t by (metis append_take_drop_id last_snoc)
qed

text \<open>The events shown so far and the ones that an answer brings are the events up to the last one of the answer.\<close>

lemma events_carry_on:
  assumes s: "sorted_wrt (\<lambda>x y. ie_seq x < ie_seq y) (log_of i)"
  shows "filter (\<lambda>e. ie_seq e \<le> a) (log_of i) @ events_after log_of i a n =
    filter (\<lambda>e. ie_seq e \<le> (if events_after log_of i a n = [] then a else ie_seq (last (events_after log_of i a n)))) (log_of i)"
proof (cases "events_after log_of i a n = []")
  case False
  let ?t = "take n (log_of i)"
  have st: "sorted_wrt (\<lambda>x y. ie_seq x < ie_seq y) ?t" using s by (simp add: sorted_wrt_take)
  have ne: "?t \<noteq> []" and ev: "events_after log_of i a n = filter (\<lambda>e. a < ie_seq e) ?t" using False by (auto simp: events_after_def simp del: take_eq_Nil)
  have p: "filter (\<lambda>e. ie_seq e \<le> a) ?t @ events_after log_of i a n = ?t" unfolding ev by (rule sorted_partition [OF st])
  then have l: "last (events_after log_of i a n) = last ?t" using False by (metis last_appendR)
  then have la: "a < ie_seq (last ?t)" using False last_in_set [OF False] by (simp add: events_after_def)
  have "filter (\<lambda>e. ie_seq e \<le> a) (log_of i) = filter (\<lambda>e. ie_seq e \<le> a) (filter (\<lambda>e. ie_seq e \<le> ie_seq (last ?t)) (log_of i))"
    using la by (auto intro!: filter_cong)
  then show ?thesis using False p l by (simp add: sorted_take_filter [OF s ne])
qed simp

text \<open>Only the poller of the current run is not stopped, and what is shown of its run are the events up to the last one it has seen.\<close>

definition log_ok :: "install_log \<Rightarrow> bool" where
  "log_ok log_of \<longleftrightarrow> (\<forall>i. sorted_wrt (\<lambda>x y. ie_seq x < ie_seq y) (log_of i) \<and> (\<forall>e \<in> set (log_of i). 0 < ie_seq e))"

definition poller_inv :: "install_log \<Rightarrow> install_hook \<Rightarrow> nat \<Rightarrow> bool" where
  "poller_inv log_of h k \<longleftrightarrow>
     (let p = ih_pollers h ! k
      in po_stopped p \<or> Suc k = length (ih_pollers h) \<and> ih_runId h = Some (po_run p)
         \<and> (if iv_id (ih_run h) = Some (po_run p) then iv_events (ih_run h) = filter (\<lambda>e. ie_seq e \<le> po_after p) (log_of (po_run p))
            else po_after p = 0))"

definition install_inv :: "install_log \<Rightarrow> install_hook \<Rightarrow> bool" where
  "install_inv log_of h \<longleftrightarrow> (\<forall>k < length (ih_pollers h). poller_inv log_of h k)"

lemma install_inv_watch:
  assumes "install_orderly (WatchRun r) h"
  shows "install_inv log_of (watch_run r h)"
  using assms unfolding install_inv_def poller_inv_def watch_run_def
  by (auto simp: nth_append Let_def nonempty_def bind_eq_Some_conv split: option.splits if_splits)

lemma install_inv_phase:
  assumes "install_inv log_of h" "k < length (ih_pollers h)"
  shows "install_inv log_of (h\<lparr>ih_pollers := (ih_pollers h)[k := (ih_pollers h ! k)\<lparr>po_phase := f\<rparr>]\<rparr>)"
  using assms unfolding install_inv_def poller_inv_def by (auto simp: nth_list_update Let_def)

lemma install_inv_answer:
  assumes inv: "install_inv log_of h" and log: "log_ok log_of" and k: "k < length (ih_pollers h)" "\<not> po_stopped (ih_pollers h ! k)"
  shows "install_inv log_of (install_step log_of (AnswerRun k state n) h)"
proof -
  define p where "p = ih_pollers h ! k"
  define ev where "ev = events_after log_of (po_run p) (po_after p) n"
  have s: "sorted_wrt (\<lambda>x y. ie_seq x < ie_seq y) (log_of (po_run p))" and pos: "filter (\<lambda>e. ie_seq e = 0) (log_of (po_run p)) = []"
    using log by (auto simp: log_ok_def filter_empty_conv)
  have pk: "poller_inv log_of h k" using inv k(1) by (simp add: install_inv_def)
  then have old: "(if iv_id (ih_run h) = Some (po_run p) then iv_events (ih_run h) else []) = filter (\<lambda>e. ie_seq e \<le> po_after p) (log_of (po_run p))"
    using k(2) pos by (auto simp: poller_inv_def p_def [symmetric] Let_def)
  have "poller_inv log_of (answer_run k state ev h) j" if j: "j < length (ih_pollers h)" for j
  proof (cases "j = k")
    case True
    then show ?thesis
      using pk k events_carry_on [of log_of "po_run p" "po_after p" n, OF s]
      by (simp add: poller_inv_def answer_run_def Let_def p_def [symmetric] old ev_def)
  next
    case False
    then have "po_stopped (ih_pollers h ! j)" using inv j pk k by (auto simp: install_inv_def poller_inv_def Let_def)
    then show ?thesis using False by (simp add: poller_inv_def answer_run_def Let_def)
  qed
  then show ?thesis by (simp add: install_inv_def ev_def p_def answer_run_def Let_def)
qed

lemma install_inv_step:
  assumes "install_inv log_of h" "log_ok log_of" "install_orderly a h"
  shows "install_inv log_of (install_step log_of a h)"
proof (cases a)
  case (WatchRun r)
  then show ?thesis using assms install_inv_watch by simp
next
  case (AnswerRun k state n)
  then show ?thesis using assms install_inv_answer [of log_of h k state n] by simp
qed (use assms in \<open>simp_all add: ask_run_def fail_run_def install_inv_phase\<close>)

interpretation installs: invariant_machine "\<lambda>h. h = new_hook" "\<lambda>a h. log_ok log_of \<and> install_orderly a h" "install_step log_of" "install_inv log_of" for log_of
  by unfold_locales (simp_all add: install_inv_step, simp add: install_inv_def new_hook_def)

text \<open>
  C36. An install that is followed shows each event once and in order (\<open>useInstallRun.ts\<close>), however late the answers are and however many requests fail.
  Let the server number the events of a run upwards from one and answer with what it has logged after the event asked for. As long as no
  answer arrives for a run that is no longer watched, and a run is not watched again while its events are still kept, the events shown
  for the watched run are those of its log up to the last one seen, so the next request asks for exactly the ones that are missing.
\<close>

theorem install_events_once:
  assumes "log_ok log_of" "reachable (\<lambda>h. h = new_hook) (\<lambda>a h. log_ok log_of \<and> install_orderly a h) (install_step log_of) h"
    "k < length (ih_pollers h)" "\<not> po_stopped (ih_pollers h ! k)"
  shows "iv_events (shown_run h) = filter (\<lambda>e. ie_seq e \<le> po_after (ih_pollers h ! k)) (log_of (po_run (ih_pollers h ! k)))
    \<and> ih_runId h = Some (po_run (ih_pollers h ! k))"
proof -
  have "poller_inv log_of h k" using installs.inv_reachable [OF assms(2)] assms(3) by (simp add: install_inv_def)
  then have p: "ih_runId h = Some (po_run (ih_pollers h ! k))"
    "if iv_id (ih_run h) = Some (po_run (ih_pollers h ! k)) then iv_events (ih_run h) = filter (\<lambda>e. ie_seq e \<le> po_after (ih_pollers h ! k)) (log_of (po_run (ih_pollers h ! k)))
      else po_after (ih_pollers h ! k) = 0"
    using assms(4) by (simp_all add: poller_inv_def Let_def)
  have "filter (\<lambda>e. ie_seq e = 0) (log_of (po_run (ih_pollers h ! k))) = []" using assms(1) by (auto simp: log_ok_def filter_empty_conv)
  then show ?thesis using p by (auto simp: shown_run_def no_run_def split: if_splits)
qed

definition two_events :: install_log where
  "two_events i = (if i = ''a'' then [\<lparr>ie_seq = 1, ie_text = ''pull''\<rparr>, \<lparr>ie_seq = 2, ie_text = ''start''\<rparr>] else [\<lparr>ie_seq = 1, ie_text = ''stop''\<rparr>])"

definition slow_answers :: "install_action list" where
  "slow_answers = [WatchRun (Some ''a''), AskRun 0, FailRun 0, AskRun 0, AnswerRun 0 ''running'' 1, AskRun 0, AnswerRun 0 ''done'' 2]"

lemma two_events_ok: "log_ok two_events"
  by (simp add: log_ok_def two_events_def)

theorem install_events_once_witness:
  "iv_events (shown_run (the (run install_orderly (install_step two_events) slow_answers new_hook))) = two_events ''a''"
proof -
  define h where "h = the (run install_orderly (install_step two_events) slow_answers new_hook)"
  have e: "run install_orderly (install_step two_events) slow_answers new_hook = Some h"
    "0 < length (ih_pollers h) \<and> \<not> po_stopped (ih_pollers h ! 0) \<and> po_run (ih_pollers h ! 0) = ''a'' \<and> po_after (ih_pollers h ! 0) = 2"
    unfolding h_def by code_simp+
  have "reachable (\<lambda>h. h = new_hook) (\<lambda>a h. log_ok two_events \<and> install_orderly a h) (install_step two_events) h"
    by (rule run_reachable [of _ _ _ new_hook slow_answers]) (simp_all add: reachable.start two_events_ok e(1))
  from install_events_once [OF two_events_ok this, of 0] e(2) show ?thesis
    unfolding h_def [symmetric] by (simp add: two_events_def)
qed

text \<open>A run that is left and watched again starts over, and its events are appended to the ones still kept.\<close>

lemma rewatched_run_duplicates:
  "map ie_seq (iv_events (shown_run (the (run install_possible (install_step two_events)
     [WatchRun (Some ''a''), AskRun 0, AnswerRun 0 ''running'' 2, WatchRun None, WatchRun (Some ''a''), AskRun 1, AnswerRun 1 ''done'' 2] new_hook)))) = [1, 2, 1, 2]"
  by code_simp

text \<open>A late answer for the run watched before replaces what was kept of the new one, whose first events are not asked for again.\<close>

lemma late_answer_loses_events:
  "map ie_seq (iv_events (shown_run (the (run install_possible (install_step two_events)
     [WatchRun (Some ''b''), AskRun 0, WatchRun (Some ''a''), AskRun 1, AnswerRun 1 ''running'' 1, AnswerRun 0 ''running'' 1, AskRun 1, AnswerRun 1 ''done'' 2] new_hook)))) = [2]"
  by code_simp

section \<open>The volume that is kept\<close>

text \<open>A volume that could not be stored is not used while an older one can still be read.\<close>

lemma unstored_volume_ignored:
  assumes "br_local b = Some s" "ws_readable s" "\<not> ws_writable s" "ws_items s ''usr_video_player_volume'' = Some t" "parse_float t = Fin q" "0 \<le> q" "q \<le> 1"
  shows "(case setPersistedVolume fs v (mem, b) of (mem', b') \<Rightarrow> getPersistedVolume mem' b') = Some q"
  using assms by (simp add: setPersistedVolume_def getPersistedVolume_def writeStorage_def readStorage_def storageFor_def Let_def)

text \<open>Without storage, or without a stored value, the volume set last is the one that is used, within its range.\<close>

lemma volume_from_memory:
  assumes "br_local b = None"
  shows "(case setPersistedVolume fs v (mem, b) of (mem', b') \<Rightarrow> getPersistedVolume mem' b') = Some (max 0 (min 1 v))"
  using assms by (simp add: setPersistedVolume_def getPersistedVolume_def writeStorage_def readStorage_def storageFor_def Let_def)

text \<open>A check that was recorded is found again whenever one of the two areas works.\<close>

lemma recorded_migration_check:
  assumes "\<And>area s. storageFor area b = Some s \<Longrightarrow> ws_writable s \<Longrightarrow> ws_readable s"
    "storageFor area b = Some s" "ws_writable s"
  shows "hasMigrationCheckForStartup key startupId (recordMigrationCheckForStartup key startupId b)"
  using assms(2,3) assms(1) [of Local] assms(1) [of Session_area]
  by (cases area)
    (auto simp: hasMigrationCheckForStartup_def recordMigrationCheckForStartup_def readStorage_def writeStorage_def storageFor_def put_area_def split: option.splits)

end
