(* ===== verification/Webhooks.thy ===== *)
theory Webhooks
  imports JsJson
begin

text \<open>
  Live webhook messages and the routing of webhooks: \<open>hooks/useWebhookStream.tsx\<close> (categories, cut-down payloads, the batches in
  which messages are shown), \<open>features/webhooks/lib/webhooksUtils.ts\<close> (filters) and \<open>features/webhooks/lib/webhookConfiguration.ts\<close>
  (routing rules and their errors). The clock, the random suffix of an id and the URL parser are parameters.
\<close>

section \<open>Messages\<close>

datatype message_category = Backend | Usapi | System

record webhook_message =
  wm_id :: string
  wm_payloadId :: json
  wm_receivedAt :: string
  wm_event :: string
  wm_eventType :: "string option"
  wm_payload :: json
  wm_category :: message_category

text \<open>\<open>a || b\<close> on values, and a member that the code takes for a text.\<close>

definition jor :: "json \<Rightarrow> json \<Rightarrow> json" where
  "jor a b = (if truthy a then a else b)"

definition text_member :: "jsobject \<Rightarrow> string \<Rightarrow> string option" where
  "text_member ev k = (case oget ev k of JStr s \<Rightarrow> nonempty s | _ \<Rightarrow> None)"

definition has_key :: "string \<Rightarrow> jsobject \<Rightarrow> bool" where
  "has_key k ev \<longleftrightarrow> k \<in> fst ` set ev"

definition is_site_event :: "(rat \<Rightarrow> string) \<Rightarrow> jsobject \<Rightarrow> string \<Rightarrow> bool" where
  "is_site_event fs ev name \<longleftrightarrow>
     has_key ''api2_chat_message'' ev
     \<or> name \<in> {''api2_chat_message'', ''chat_message'', ''websocket_message'', ''subscription_added'', ''subscription_removed'',
         ''message_received'', ''story_update'', ''post_update'', ''stream_event''}
     \<or> truthy (oget ev ''source_id'') \<and> includes_str '':ws:'' (js_String fs (oget ev ''source_id''))
     \<or> oget ev ''channel'' = JStr ''ultimascraper:websocket:stream''"

definition detectCategory :: "(rat \<Rightarrow> string) \<Rightarrow> jsobject \<Rightarrow> string \<Rightarrow> message_category" where
  "detectCategory fs ev name =
     (if name \<in> {''queue_depth'', ''system_health'', ''heartbeat''} \<or> oget ev ''type'' \<in> {JStr ''queue_depth'', JStr ''system_health''} then System
      else if is_site_event fs ev name then Usapi
      else if includes_str ''job_'' name \<or> includes_str ''task_'' name \<or> starts_with ''JOB_'' name \<or> starts_with ''TASK_'' name
           \<or> truthy (oget ev ''job_id'') \<or> truthy (oget ev ''task_id'')
           \<or> name \<in> {''scrape_progress'', ''download_progress'', ''subscription_processing''} then Backend
      else Backend)"

section \<open>Payloads\<close>

definition MAX_MESSAGES :: nat where
  "MAX_MESSAGES = 10000"

definition MAX_STRING_LENGTH :: nat where
  "MAX_STRING_LENGTH = 2000"

definition MAX_OBJECT_KEYS :: nat where
  "MAX_OBJECT_KEYS = 40"

definition MAX_ARRAY_ITEMS :: nat where
  "MAX_ARRAY_ITEMS = 40"

definition MAX_DEPTH :: nat where
  "MAX_DEPTH = 4"

definition truncateString :: "string \<Rightarrow> string" where
  "truncateString s =
     (if length s \<le> MAX_STRING_LENGTH then s
      else take MAX_STRING_LENGTH s @ ''... [truncated '' @ show_nat (length s - MAX_STRING_LENGTH) @ '' chars]'')"

text \<open>\<open>String(v)\<close> for a value that is not of JSON (a function, a symbol, a big integer) does not arise from a parsed message.\<close>

function compactPayload :: "json \<Rightarrow> nat \<Rightarrow> json" where
  "compactPayload (JStr s) depth = JStr (truncateString s)"
| "compactPayload (JArr xs) depth =
     (if depth \<ge> MAX_DEPTH then JStr ''[truncated-depth]''
      else JArr (map (\<lambda>x. compactPayload x (Suc depth)) (take MAX_ARRAY_ITEMS xs)
             @ (if length xs > MAX_ARRAY_ITEMS then [JStr (''[+'' @ show_nat (length xs - MAX_ARRAY_ITEMS) @ '' more items]'')] else [])))"
| "compactPayload (JObj ob) depth =
     (if depth \<ge> MAX_DEPTH then JStr ''[truncated-depth]''
      else let compacted = fold (\<lambda>m. oset (fst m) (snd m)) (map (\<lambda>m. (fst m, compactPayload (snd m) (Suc depth))) (take MAX_OBJECT_KEYS ob)) []
           in JObj (if length ob > MAX_OBJECT_KEYS then oset ''__truncated_keys__'' (JNum (Fin (of_nat (length ob - MAX_OBJECT_KEYS)))) compacted
                    else compacted))"
| "compactPayload JUndef depth = JUndef"
| "compactPayload JNull depth = JNull"
| "compactPayload (JBool b) depth = JBool b"
| "compactPayload (JNum n) depth = JNum n"
  by pat_completeness auto
termination
  by (relation "measure (\<lambda>(v, depth). MAX_DEPTH - depth)") auto

text \<open>\<open>iso_now\<close> is the time of the clock as text and \<open>rnd\<close> the random part of the id.\<close>

definition event_name :: "jsobject \<Rightarrow> string" where
  "event_name ev =
     or_else (coalesce (text_member ev ''event'') (coalesce (text_member ev ''type'')
       (if has_key ''api2_chat_message'' ev then Some ''api2_chat_message'' else None))) ''message''"

definition event_members :: "json \<Rightarrow> jsobject" where
  "event_members event = (case event of JObj ob \<Rightarrow> ob | _ \<Rightarrow> [])"

definition buildWebhookMessage :: "(rat \<Rightarrow> string) \<Rightarrow> string \<Rightarrow> string \<Rightarrow> json \<Rightarrow> webhook_message option" where
  "buildWebhookMessage fs iso_now rnd event =
     (let ev = event_members event
      in if \<not> is_object event \<or> oget ev ''type'' \<in> {JStr ''log'', JStr ''ack'', JStr ''pong''} then None
         else let name = event_name ev;
                  timestamp = or_else (coalesce (text_member ev ''timestamp'') (text_member ev ''stored_at'')) iso_now
              in Some \<lparr>wm_id = name @ ''-'' @ timestamp @ ''-'' @ rnd,
                   wm_payloadId = jor (oget ev ''id'') (jor (oget ev ''job_id'') (oget ev ''task_id'')),
                   wm_receivedAt = timestamp, wm_event = name, wm_eventType = text_member ev ''event_type'',
                   wm_payload = compactPayload event 0, wm_category = detectCategory fs ev name\<rparr>)"

section \<open>The stream\<close>

text \<open>
  What is shown, newest batch first, what waits for the next batch, whether a timer is set, and how many views watch. An id is known when an
  equal one was seen; two objects are never the same one.
\<close>

record webhook_stream =
  ws_messages :: "webhook_message list"
  ws_pending :: "webhook_message list"
  ws_timer :: bool
  ws_watchers :: int

definition new_stream :: webhook_stream where
  "new_stream = \<lparr>ws_messages = [], ws_pending = [], ws_timer = False, ws_watchers = 0\<rparr>"

definition known_id :: "json \<Rightarrow> json list \<Rightarrow> bool" where
  "known_id i ids \<longleftrightarrow> truthy i \<and> \<not> is_object i \<and> i \<in> set ids"

definition message_ids :: "webhook_message list \<Rightarrow> json list" where
  "message_ids ms = filter truthy (map wm_payloadId ms)"

fun new_messages :: "json list \<Rightarrow> webhook_message list \<Rightarrow> webhook_message list" where
  "new_messages ids [] = []"
| "new_messages ids (m # batch) =
     (if known_id (wm_payloadId m) ids then new_messages ids batch
      else m # new_messages (if truthy (wm_payloadId m) then wm_payloadId m # ids else ids) batch)"

definition merge_batch :: "webhook_message list \<Rightarrow> webhook_message list \<Rightarrow> webhook_message list" where
  "merge_batch batch prev =
     (let newMessages = new_messages (message_ids prev) batch
      in if newMessages = [] then prev else take MAX_MESSAGES (newMessages @ prev))"

definition flushPending :: "webhook_stream \<Rightarrow> webhook_stream" where
  "flushPending st =
     (if ws_pending st = [] then st\<lparr>ws_timer := False\<rparr>
      else st\<lparr>ws_timer := False, ws_pending := [], ws_messages := merge_batch (ws_pending st) (ws_messages st)\<rparr>)"

definition handleWebSocketMessage :: "(rat \<Rightarrow> string) \<Rightarrow> string \<Rightarrow> string \<Rightarrow> json \<Rightarrow> webhook_stream \<Rightarrow> webhook_stream" where
  "handleWebSocketMessage fs iso_now rnd event st =
     (case buildWebhookMessage fs iso_now rnd event of
        None \<Rightarrow> st
      | Some m \<Rightarrow>
          if wm_event m \<in> {''scrape_progress'', ''download_progress'', ''task_progress''} then st
          else st\<lparr>ws_pending := ws_pending st @ [m], ws_timer := True\<rparr>)"

definition clearMessages :: "webhook_stream \<Rightarrow> webhook_stream" where
  "clearMessages st = st\<lparr>ws_messages := [], ws_pending := [], ws_timer := False\<rparr>"

definition watch_stream :: "webhook_stream \<Rightarrow> webhook_stream" where
  "watch_stream st = st\<lparr>ws_watchers := ws_watchers st + 1\<rparr>"

definition unwatch_stream :: "webhook_stream \<Rightarrow> webhook_stream" where
  "unwatch_stream st = st\<lparr>ws_watchers := ws_watchers st - 1\<rparr>"

definition stream_topics :: "webhook_stream \<Rightarrow> string list" where
  "stream_topics st = (if ws_watchers st > 0 then [''jobs'', ''system'', ''api_hooks''] else [''jobs'', ''system''])"

datatype stream_action = Arrive string string json | FlushTimer | ClearStream | WatchStream | UnwatchStream

fun stream_step :: "(rat \<Rightarrow> string) \<Rightarrow> stream_action \<Rightarrow> webhook_stream \<Rightarrow> webhook_stream" where
  "stream_step fs (Arrive iso_now rnd event) st = handleWebSocketMessage fs iso_now rnd event st"
| "stream_step fs FlushTimer st = flushPending st"
| "stream_step fs ClearStream st = clearMessages st"
| "stream_step fs WatchStream st = watch_stream st"
| "stream_step fs UnwatchStream st = unwatch_stream st"

text \<open>A timer runs when it is set, and a view stops watching once for each time it started.\<close>

fun stream_enabled :: "stream_action \<Rightarrow> webhook_stream \<Rightarrow> bool" where
  "stream_enabled FlushTimer st \<longleftrightarrow> ws_timer st"
| "stream_enabled UnwatchStream st \<longleftrightarrow> 0 < ws_watchers st"
| "stream_enabled _ st \<longleftrightarrow> True"

section \<open>Filters\<close>

definition isChatMessageEvent :: "(rat \<Rightarrow> string) \<Rightarrow> webhook_message \<Rightarrow> bool" where
  "isChatMessageEvent fs m \<longleftrightarrow>
     (case wm_payload m of
        JObj ob \<Rightarrow> has_key ''api2_chat_message'' ob \<or> (case oget ob ''message'' of JStr _ \<Rightarrow> True | _ \<Rightarrow> False)
          \<or> truthy (oget ob ''source_id'') \<and> includes_str '':ws:'' (js_String fs (oget ob ''source_id''))
      | _ \<Rightarrow> False)"

definition is_webhook_event :: "(rat \<Rightarrow> string) \<Rightarrow> webhook_message \<Rightarrow> bool" where
  "is_webhook_event fs m \<longleftrightarrow>
     wm_event m \<in> {''subscription_processing'', ''scrape_progress'', ''download_progress'', ''chat_message'', ''webhook'', ''webhook_message'',
       ''websocket_message'', ''subscription_added''}
     \<or> Option.bind (wm_eventType m) nonempty \<noteq> None \<or> isChatMessageEvent fs m"

text \<open>\<open>JSON.stringify(v)\<close>, on one line.\<close>

fun json_line :: "(rat \<Rightarrow> string) \<Rightarrow> json \<Rightarrow> string" where
  "json_line fs JUndef = ''null''"
| "json_line fs JNull = ''null''"
| "json_line fs (JBool b) = (if b then ''true'' else ''false'')"
| "json_line fs (JNum n) = (case n of Fin q \<Rightarrow> js_num_str fs n | _ \<Rightarrow> ''null'')"
| "json_line fs (JStr s) = quote_string s"
| "json_line fs (JArr xs) = ''['' @ join '','' (map (json_line fs) xs) @ '']''"
| "json_line fs (JObj ob) =
     ''{'' @ join '','' (map (\<lambda>m. quote_string (fst m) @ '':'' @ json_line fs (snd m)) (filter (\<lambda>m. snd m \<noteq> JUndef) ob)) @ ''}''"

definition matches_text :: "(rat \<Rightarrow> string) \<Rightarrow> string \<Rightarrow> webhook_message \<Rightarrow> bool" where
  "matches_text fs needle m \<longleftrightarrow>
     includes_str needle (lower (wm_event m)) \<or> (case wm_eventType m of Some t \<Rightarrow> includes_str needle (lower t) | None \<Rightarrow> False)
     \<or> includes_str needle (lower (json_line fs (wm_payload m)))"

text \<open>A category filter is \<open>None\<close> for all.\<close>

definition filterWebhookMessages ::
  "(rat \<Rightarrow> string) \<Rightarrow> webhook_message list \<Rightarrow> message_category option \<Rightarrow> bool \<Rightarrow> string \<Rightarrow> webhook_message list" where
  "filterWebhookMessages fs messages categoryFilter showAllEvents filterText =
     (let in_category = (case categoryFilter of None \<Rightarrow> messages | Some c \<Rightarrow> filter (\<lambda>m. wm_category m = c) messages);
          filtered = (if showAllEvents then in_category else filter (is_webhook_event fs) in_category)
      in if trim filterText = [] then filtered else filter (matches_text fs (lower filterText)) filtered)"

section \<open>Routing\<close>

record webhook_destination =
  wd_id :: string
  wd_name :: string
  wd_url :: string
  wd_format :: string

record webhook_rule =
  wr_id :: string
  wr_name :: string
  wr_hooks :: "string list"
  wr_destination_ids :: "string list"
  wr_active :: bool
  wr_hide_info :: "string list"

record site_routing =
  sr_destinations :: "webhook_destination list"
  sr_rules :: "webhook_rule list"

record webhook_info =
  wi_active :: bool
  wi_url :: "string option"
  wi_hide_info :: "string list"

record webhooks_info =
  wk_auth :: webhook_info
  wk_download :: webhook_info

record hook_definition =
  hd_id :: string
  hd_label :: string
  hd_description :: string
  hd_sites :: "string list"
  hd_group :: string

record webhook_configuration =
  wc_version :: "int option"
  wc_catalog :: "hook_definition list"
  wc_onlyfans :: site_routing
  wc_fansly :: site_routing

record webhooks_response =
  wp_onlyfans :: webhooks_info
  wp_fansly :: webhooks_info
  wp_configuration :: "webhook_configuration option"

definition hook_of :: "string \<Rightarrow> string \<Rightarrow> string \<Rightarrow> string list \<Rightarrow> string \<Rightarrow> hook_definition" where
  "hook_of i l d s g = \<lparr>hd_id = i, hd_label = l, hd_description = d, hd_sites = s, hd_group = g\<rparr>"

definition webhookHookCatalog :: "hook_definition list" where
  "webhookHookCatalog =
     [hook_of ''auth'' ''Auth'' ''Accounts added, updated, or removed.'' [''onlyfans'', ''fansly''] ''Account'',
      hook_of ''download'' ''Download'' ''Completed or failed download batches.'' [''onlyfans'', ''fansly''] ''Downloads'',
      hook_of ''chat_message'' ''Chat messages'' ''Incoming API chat messages.'' [''onlyfans''] ''Site messages'',
      hook_of ''subscriber'' ''New subscribers'' ''New subscriptions, including trial subscribers.'' [''onlyfans''] ''Site messages'',
      hook_of ''post_published'' ''Published posts'' ''Notifications when a post is published.'' [''onlyfans''] ''Site messages'',
      hook_of ''post_updated'' ''Updated posts'' ''Notifications when a post changes.'' [''onlyfans''] ''Site messages'',
      hook_of ''stream_started'' ''Live streams'' ''New stream notifications.'' [''onlyfans''] ''Site messages'',
      hook_of ''comment'' ''Comments'' ''New comment notifications.'' [''onlyfans''] ''Site messages'',
      hook_of ''price_changed'' ''Price changes'' ''Subscription price changes.'' [''onlyfans''] ''Site messages'',
      hook_of ''online'' ''Online activity'' ''User online notifications.'' [''onlyfans''] ''Site messages'',
      hook_of ''site_message'' ''All site messages'' ''All incoming site notifications except connection keepalives.'' [''onlyfans''] ''Site messages'']"

text \<open>One pass of the loop over \<open>auth\<close> and \<open>download\<close>: the hook, its name, and what the old settings say.\<close>

definition add_legacy :: "string \<times> string \<times> webhook_info \<Rightarrow> site_routing \<Rightarrow> site_routing" where
  "add_legacy h r =
     (case h of (hook, title, legacy) \<Rightarrow>
        case Option.bind (wi_url legacy) nonempty of
          None \<Rightarrow> r
        | Some u \<Rightarrow>
            let (dest, ds) = (case List.find (\<lambda>d. wd_url d = u) (sr_destinations r) of
                  Some d \<Rightarrow> (d, sr_destinations r)
                | None \<Rightarrow> (let d = \<lparr>wd_id = ''legacy-'' @ hook, wd_name = title @ '' destination'', wd_url = u, wd_format = ''discord''\<rparr>
                           in (d, sr_destinations r @ [d])))
            in \<lparr>sr_destinations = ds,
                 sr_rules = sr_rules r @ [\<lparr>wr_id = ''legacy-'' @ hook, wr_name = title, wr_hooks = [hook], wr_destination_ids = [wd_id dest],
                   wr_active = wi_active legacy, wr_hide_info = wi_hide_info legacy\<rparr>]\<rparr>)"

definition legacy_routing :: "webhooks_info \<Rightarrow> site_routing" where
  "legacy_routing w =
     fold add_legacy [(''auth'', ''Auth'', wk_auth w), (''download'', ''Download'', wk_download w)] \<lparr>sr_destinations = [], sr_rules = []\<rparr>"

definition webhookConfiguration :: "webhooks_response \<Rightarrow> webhook_configuration" where
  "webhookConfiguration data =
     (case wp_configuration data of
        Some c \<Rightarrow> c
      | None \<Rightarrow> \<lparr>wc_version = None, wc_catalog = webhookHookCatalog, wc_onlyfans = legacy_routing (wp_onlyfans data), wc_fansly = legacy_routing (wp_fansly data)\<rparr>)"

text \<open>The parts of an address that are looked at, \<open>None\<close> where the parser throws.\<close>

record hook_url =
  hu_protocol :: string
  hu_username :: string
  hu_password :: string
  hu_hash :: string

definition url_ok :: "(string \<Rightarrow> hook_url option) \<Rightarrow> string \<Rightarrow> bool" where
  "url_ok parse u =
     (case parse u of
        None \<Rightarrow> False
      | Some p \<Rightarrow> hu_protocol p \<in> {''http:'', ''https:''} \<and> hu_username p = [] \<and> hu_password p = [] \<and> hu_hash p = [])"

fun destination_error :: "(string \<Rightarrow> hook_url option) \<Rightarrow> webhook_destination list \<Rightarrow> string option" where
  "destination_error parse [] = None"
| "destination_error parse (d # ds) =
     (if trim (wd_name d) = [] then Some ''Give each destination a name.''
      else if \<not> url_ok parse (wd_url d) then Some (''Enter a valid HTTP or HTTPS URL for '' @ wd_name d @ ''.'')
      else destination_error parse ds)"

fun rule_error :: "webhook_rule list \<Rightarrow> string option" where
  "rule_error [] = None"
| "rule_error (r # rs) =
     (if trim (wr_name r) = [] then Some ''Give each routing rule a name.''
      else if wr_hooks r = [] then Some (''Choose at least one hook for '' @ wr_name r @ ''.'')
      else if wr_destination_ids r = [] then Some (''Choose at least one destination for '' @ wr_name r @ ''.'')
      else rule_error rs)"

definition routingError :: "(string \<Rightarrow> hook_url option) \<Rightarrow> site_routing \<Rightarrow> string option" where
  "routingError parse r =
     (case destination_error parse (sr_destinations r) of
        Some e \<Rightarrow> Some e
      | None \<Rightarrow>
          if length (remdups (map (\<lambda>d. trim (wd_url d)) (sr_destinations r))) \<noteq> length (sr_destinations r)
          then Some ''This destination URL is already configured.'' else rule_error (sr_rules r))"

section \<open>Payloads are bounded\<close>

lemma show_nat_length: "n < 10 ^ Suc k \<Longrightarrow> length (show_nat n) \<le> Suc k"
proof (induction k arbitrary: n)
  case (Suc k)
  show ?case
  proof (cases "n < 10")
    case False
    then have "length (show_nat (n div 10)) \<le> Suc k" using Suc by (intro Suc.IH) (simp add: div_less_iff_less_mult mult.commute)
    then show ?thesis using False by (simp add: show_nat.simps [of n])
  qed (simp add: show_nat.simps [of n])
qed (simp add: show_nat.simps)

text \<open>No string or array of an engine reaches \<open>10 ^ 16\<close> elements.\<close>

fun engine_sized :: "json \<Rightarrow> bool" where
  "engine_sized (JStr s) \<longleftrightarrow> length s < 10 ^ 16"
| "engine_sized (JArr xs) \<longleftrightarrow> length xs < 10 ^ 16 \<and> (\<forall>x \<in> set xs. engine_sized x)"
| "engine_sized (JObj ob) \<longleftrightarrow> (\<forall>m \<in> set ob. engine_sized (snd m))"
| "engine_sized v \<longleftrightarrow> True"

text \<open>Values whose nesting, strings, arrays and objects keep to limits; in the second kind the keys are in the order of enumeration.\<close>

fun within_limits :: "nat \<Rightarrow> nat \<Rightarrow> nat \<Rightarrow> json \<Rightarrow> bool" where
  "within_limits chars items d (JStr s) \<longleftrightarrow> length s \<le> chars"
| "within_limits chars items d (JArr xs) \<longleftrightarrow> 0 < d \<and> length xs \<le> items \<and> (\<forall>x \<in> set xs. within_limits chars items (d - 1) x)"
| "within_limits chars items d (JObj ob) \<longleftrightarrow> 0 < d \<and> length ob \<le> items \<and> (\<forall>m \<in> set ob. within_limits chars items (d - 1) (snd m))"
| "within_limits chars items d v \<longleftrightarrow> True"

fun ordered_keys :: "json \<Rightarrow> bool" where
  "ordered_keys (JArr xs) \<longleftrightarrow> (\<forall>x \<in> set xs. ordered_keys x)"
| "ordered_keys (JObj ob) \<longleftrightarrow> js_ordered ob \<and> (\<forall>m \<in> set ob. ordered_keys (snd m))"
| "ordered_keys v \<longleftrightarrow> True"

lemma truncateString_length: "length s < 10 ^ 16 \<Longrightarrow> length (truncateString s) \<le> 2038"
  using show_nat_length [of "length s - MAX_STRING_LENGTH" 15] by (auto simp: truncateString_def MAX_STRING_LENGTH_def)

lemma set_oset_value: "m \<in> set (oset k v ob) \<Longrightarrow> m \<in> set ob \<or> snd m = v"
proof (cases "k \<in> fst ` set ob")
  case True
  assume "m \<in> set (oset k v ob)"
  moreover have "m \<in> set (replace_key k v ob) \<Longrightarrow> m \<in> set ob \<or> snd m = v" by (induction k v ob rule: replace_key.induct) (auto split: if_splits)
  ultimately show ?thesis using True by (simp add: oset_def)
next
  case False
  assume "m \<in> set (oset k v ob)"
  moreover have "m \<in> set (insert_key k v ob) \<Longrightarrow> m \<in> set ob \<or> snd m = v" by (induction k v ob rule: insert_key.induct) (auto split: if_splits)
  ultimately show ?thesis using False by (simp add: oset_def)
qed

lemma length_insert_key: "length (insert_key k v ob) = Suc (length ob)"
  by (induction k v ob rule: insert_key.induct) auto

lemma length_replace_key: "length (replace_key k v ob) = length ob"
  by (induction k v ob rule: replace_key.induct) auto

lemma length_oset: "length (oset k v ob) \<le> Suc (length ob)"
  by (simp add: oset_def length_insert_key length_replace_key)

lemma length_fold_oset: "length (fold (\<lambda>m. oset (fst m) (snd m)) ms acc) \<le> length acc + length ms"
proof (induction ms arbitrary: acc)
  case (Cons m ms)
  have "length (fold (\<lambda>m. oset (fst m) (snd m)) ms (oset (fst m) (snd m) acc)) \<le> length (oset (fst m) (snd m) acc) + length ms" by (rule Cons.IH)
  then show ?case using length_oset [of "fst m" "snd m" acc] by simp
qed simp

lemma values_fold_oset: "x \<in> set (fold (\<lambda>m. oset (fst m) (snd m)) ms acc) \<Longrightarrow> x \<in> set acc \<or> snd x \<in> snd ` set ms"
proof (induction ms arbitrary: acc)
  case (Cons m ms)
  then show ?case using Cons.IH [of "oset (fst m) (snd m) acc"] set_oset_value [of x "fst m" "snd m" acc] by auto
qed simp

lemma compactPayload_within:
  "engine_sized v \<Longrightarrow> depth \<le> MAX_DEPTH \<Longrightarrow> within_limits 2038 41 (MAX_DEPTH - depth) (compactPayload v depth)"
proof (induction v depth rule: compactPayload.induct)
  case (1 s depth)
  then show ?case by (simp add: truncateString_length)
next
  case (2 xs depth)
  have "length xs - MAX_ARRAY_ITEMS < 10 ^ Suc 15" using 2(2) by (simp add: less_imp_diff_less)
  then have "length (show_nat (length xs - MAX_ARRAY_ITEMS)) \<le> 16" using show_nat_length by fastforce
  moreover have "within_limits 2038 41 (MAX_DEPTH - Suc depth) (compactPayload x (Suc depth))" if "\<not> MAX_DEPTH \<le> depth" "x \<in> set (take MAX_ARRAY_ITEMS xs)" for x
    using that 2(2) in_set_takeD [OF that(2)] by (intro 2(1)) simp_all
  ultimately show ?case by (auto simp: MAX_ARRAY_ITEMS_def)
next
  case (3 ob depth)
  show ?case
  proof (cases "MAX_DEPTH \<le> depth")
    case False
    define ms where "ms = map (\<lambda>m. (fst m, compactPayload (snd m) (Suc depth))) (take MAX_OBJECT_KEYS ob)"
    define c where "c = fold (\<lambda>m. oset (fst m) (snd m)) ms []"
    have "within_limits 2038 41 (MAX_DEPTH - depth - 1) (compactPayload (snd m) (Suc depth))" if "m \<in> set (take MAX_OBJECT_KEYS ob)" for m
      using 3(1) [OF False that] 3(2) in_set_takeD [OF that] False by simp
    then have ms: "\<forall>x \<in> snd ` set ms. within_limits 2038 41 (MAX_DEPTH - depth - 1) x" by (auto simp: ms_def)
    have "length c \<le> 40" using length_fold_oset [of ms "[]"] by (simp add: c_def ms_def MAX_OBJECT_KEYS_def)
    moreover have "within_limits 2038 41 (MAX_DEPTH - depth - 1) (snd x)" if "x \<in> set c" for x
      using that values_fold_oset [of x ms "[]"] ms by (auto simp: c_def)
    moreover have "compactPayload (JObj ob) depth =
        JObj (if length ob > MAX_OBJECT_KEYS then oset ''__truncated_keys__'' (JNum (Fin (of_nat (length ob - MAX_OBJECT_KEYS)))) c else c)"
      using False by (simp add: c_def ms_def Let_def)
    ultimately show ?thesis
      using False length_oset [of "''__truncated_keys__''" "JNum (Fin (of_nat (length ob - MAX_OBJECT_KEYS)))" c]
        set_oset_value [of _ "''__truncated_keys__''" "JNum (Fin (of_nat (length ob - MAX_OBJECT_KEYS)))" c]
      by (fastforce simp del: compactPayload.simps)
  qed simp
qed simp_all

lemma compactPayload_small:
  "within_limits MAX_STRING_LENGTH MAX_ARRAY_ITEMS (MAX_DEPTH - depth) v \<Longrightarrow> ordered_keys v \<Longrightarrow> compactPayload v depth = v"
proof (induction v depth rule: compactPayload.induct)
  case (2 xs depth)
  then show ?case by (simp add: map_idI)
next
  case (3 ob depth)
  then have "map (\<lambda>m. (fst m, compactPayload (snd m) (Suc depth))) (take MAX_OBJECT_KEYS ob) = ob"
    by (simp add: MAX_OBJECT_KEYS_def MAX_ARRAY_ITEMS_def map_idI)
  then show ?case using 3 js_ordered_rebuild [of "[]" ob] by (simp add: MAX_OBJECT_KEYS_def MAX_ARRAY_ITEMS_def)
qed (simp_all add: truncateString_def)

text \<open>
  C38. A kept payload is small and a small one is kept as it is (\<open>compactPayload\<close>). Whatever arrives, as long as its strings and arrays have a
  length that an engine can hold, the kept payload nests at most four deep, has at most 41 entries in each array and object
  and at most 2038 characters in each string. A payload that nests at most four deep with at most 40 entries and 2000
  characters is kept unchanged.
\<close>

theorem compactPayload_limits:
  assumes "engine_sized v"
  shows "within_limits 2038 41 4 (compactPayload v 0)
    \<and> (within_limits 2000 40 4 v \<and> ordered_keys v \<longrightarrow> compactPayload v 0 = v)"
  using compactPayload_within [OF assms, of 0] compactPayload_small [of 0 v]
  by (simp add: MAX_DEPTH_def MAX_STRING_LENGTH_def MAX_ARRAY_ITEMS_def)

theorem compactPayload_limits_witness:
  "within_limits 2038 41 4 (compactPayload (JArr (replicate 50 (JStr ''x''))) 0) \<and> compactPayload (JArr [JStr ''x'', JNull]) 0 = JArr [JStr ''x'', JNull]"
  using compactPayload_limits [of "JArr (replicate 50 (JStr ''x''))"] compactPayload_limits [of "JArr [JStr ''x'', JNull]"] by simp

section \<open>Batches\<close>

definition plain_id :: "json \<Rightarrow> bool" where
  "plain_id i \<longleftrightarrow> truthy i \<and> \<not> is_object i"

definition plain_ids :: "webhook_message list \<Rightarrow> json list" where
  "plain_ids ms = filter plain_id (map wm_payloadId ms)"

lemma known_id_plain: "known_id i ids \<longleftrightarrow> plain_id i \<and> i \<in> set ids"
  by (auto simp: known_id_def plain_id_def)

lemma new_messages_ids:
  "distinct (plain_ids (new_messages ids batch)) \<and> (\<forall>i \<in> set (plain_ids (new_messages ids batch)). i \<notin> set ids)"
proof (induction ids batch rule: new_messages.induct)
  case (2 ids m batch)
  show ?case
  proof (cases "known_id (wm_payloadId m) ids")
    case False
    then show ?thesis
      using 2(2) [OF False] by (auto simp: plain_ids_def known_id_plain plain_id_def split: if_splits)
  qed (use 2(1) in simp)
qed (simp add: plain_ids_def)

lemma new_messages_keep:
  "m \<in> set batch \<Longrightarrow> m \<in> set (new_messages ids batch) \<or> wm_payloadId m \<in> set ids
     \<or> (\<exists>m' \<in> set (new_messages ids batch). wm_payloadId m' = wm_payloadId m)"
proof (induction ids batch rule: new_messages.induct)
  case (2 ids m' batch)
  show ?case
  proof (cases "known_id (wm_payloadId m') ids")
    case True
    then show ?thesis using 2(1) [OF True] 2(3) by (auto simp: known_id_plain)
  next
    case False
    then show ?thesis using 2(2) [OF False] 2(3) by (auto split: if_splits)
  qed
qed simp

lemma new_messages_subseq: "subseq (new_messages ids batch) batch"
  by (induction ids batch rule: new_messages.induct) (auto intro: list_emb.intros)

lemma message_ids_plain: "set (plain_ids ms) \<subseteq> set (message_ids ms)"
  by (auto simp: plain_ids_def message_ids_def plain_id_def)

lemma distinct_plain_take: "distinct (plain_ids ms) \<Longrightarrow> distinct (plain_ids (take n ms))"
proof -
  assume "distinct (plain_ids ms)"
  then have "distinct (plain_ids (take n ms) @ plain_ids (drop n ms))"
    unfolding plain_ids_def by (metis append_take_drop_id filter_append map_append)
  then show ?thesis by simp
qed

lemma merge_batch_distinct: "distinct (plain_ids prev) \<Longrightarrow> distinct (plain_ids (merge_batch batch prev))"
proof -
  assume d: "distinct (plain_ids prev)"
  let ?new = "new_messages (message_ids prev) batch"
  have "distinct (plain_ids ?new @ plain_ids prev)"
    using d new_messages_ids [of "message_ids prev" batch] message_ids_plain [of prev] by auto
  then have "distinct (plain_ids (?new @ prev))" by (simp add: plain_ids_def)
  then show ?thesis using d by (simp add: merge_batch_def Let_def distinct_plain_take del: take_append)
qed

definition stream_inv :: "webhook_stream \<Rightarrow> bool" where
  "stream_inv st \<longleftrightarrow> (ws_timer st \<longleftrightarrow> ws_pending st \<noteq> []) \<and> length (ws_messages st) \<le> MAX_MESSAGES \<and> distinct (plain_ids (ws_messages st)) \<and> 0 \<le> ws_watchers st"

lemma merge_batch_length: "length prev \<le> MAX_MESSAGES \<Longrightarrow> length (merge_batch batch prev) \<le> MAX_MESSAGES"
  by (simp add: merge_batch_def Let_def del: take_append)

lemma stream_inv_step: "stream_inv st \<Longrightarrow> stream_enabled a st \<Longrightarrow> stream_inv (stream_step fs a st)"
  by (cases a)
    (auto simp: stream_inv_def handleWebSocketMessage_def flushPending_def clearMessages_def watch_stream_def unwatch_stream_def
        merge_batch_length merge_batch_distinct plain_ids_def [of "[]"] split: option.split)

interpretation stream: invariant_machine "\<lambda>st. st = new_stream" stream_enabled "stream_step fs" stream_inv for fs
  by unfold_locales (simp_all add: stream_inv_step, simp add: stream_inv_def new_stream_def plain_ids_def)


definition sample_event :: "string \<Rightarrow> string \<Rightarrow> json" where
  "sample_event name i = JObj [(''event'', JStr name), (''job_id'', JStr i)]"


text \<open>Two events of one job that carry no id of their own are taken for one, so the end of a job is not shown after its start.\<close>

lemma job_events_taken_for_one:
  "map wm_event (ws_messages (the (run stream_enabled (stream_step (\<lambda>_. []))
     [Arrive ''t1'' ''a'' (sample_event ''job_started'' ''1''), FlushTimer, Arrive ''t2'' ''b'' (sample_event ''job_completed'' ''1''), FlushTimer] new_stream))) = [''job_started'']"
  by code_simp

text \<open>Batches are shown newest first, but the messages of one batch oldest first.\<close>

lemma batch_order_mixed:
  "map wm_receivedAt (ws_messages (the (run stream_enabled (stream_step (\<lambda>_. []))
     [Arrive ''t1'' ''a'' (sample_event ''job_started'' ''1''), FlushTimer, Arrive ''t2'' ''b'' (sample_event ''job_started'' ''2''),
      Arrive ''t3'' ''c'' (sample_event ''job_started'' ''3''), FlushTimer] new_stream))) = [''t2'', ''t3'', ''t1'']"
  by code_simp

section \<open>Routing rules\<close>

lemma destination_error_None: "destination_error parse ds = None \<longleftrightarrow> (\<forall>d \<in> set ds. trim (wd_name d) \<noteq> [] \<and> url_ok parse (wd_url d))"
  by (induction parse ds rule: destination_error.induct) auto

lemma rule_error_None: "rule_error rs = None \<longleftrightarrow> (\<forall>r \<in> set rs. trim (wr_name r) \<noteq> [] \<and> wr_hooks r \<noteq> [] \<and> wr_destination_ids r \<noteq> [])"
  by (induction rs rule: rule_error.induct) auto

lemma routingError_None:
  "routingError parse r = None \<longleftrightarrow>
     (\<forall>d \<in> set (sr_destinations r). trim (wd_name d) \<noteq> [] \<and> url_ok parse (wd_url d))
     \<and> distinct (map (\<lambda>d. trim (wd_url d)) (sr_destinations r))
     \<and> (\<forall>q \<in> set (sr_rules r). trim (wr_name q) \<noteq> [] \<and> wr_hooks q \<noteq> [] \<and> wr_destination_ids q \<noteq> [])"
proof -
  have "length (remdups (map (\<lambda>d. trim (wd_url d)) (sr_destinations r))) = length (sr_destinations r)
      \<longleftrightarrow> distinct (map (\<lambda>d. trim (wd_url d)) (sr_destinations r))"
    using length_remdups_eq [of "map (\<lambda>d. trim (wd_url d)) (sr_destinations r)"] remdups_id_iff_distinct [of "map (\<lambda>d. trim (wd_url d)) (sr_destinations r)"]
    by (simp only: length_map)
  then show ?thesis
    unfolding destination_error_None [symmetric] rule_error_None [symmetric] routingError_def by (simp split: option.split)
qed

definition routing_inv :: "site_routing \<Rightarrow> bool" where
  "routing_inv r \<longleftrightarrow> distinct (map wd_url (sr_destinations r)) \<and> distinct (map wd_id (sr_destinations r))
     \<and> (\<forall>q \<in> set (sr_rules r). wr_hooks q \<noteq> [] \<and> trim (wr_name q) \<noteq> [] \<and> (\<exists>d \<in> set (sr_destinations r). wr_destination_ids q = [wd_id d]))
     \<and> (\<forall>d \<in> set (sr_destinations r). trim (wd_name d) \<noteq> [])"

lemma find_url_None: "List.find (\<lambda>d. wd_url d = u) ds = None \<longleftrightarrow> u \<notin> wd_url ` set ds"
  by (auto simp: find_None_iff)

lemma trim_titles [simp]: "trim ''Auth'' = ''Auth''" "trim ''Download'' = ''Download''" "trim ''Auth destination'' = ''Auth destination''"
  "trim ''Download destination'' = ''Download destination''"
  by code_simp+

definition no_routing :: site_routing where
  "no_routing = \<lparr>sr_destinations = [], sr_rules = []\<rparr>"

lemma add_legacy_none: "Option.bind (wi_url i) nonempty = None \<Longrightarrow> add_legacy (hook, title, i) r = r"
  by (simp add: add_legacy_def)

lemma add_legacy_inv:
  assumes "routing_inv r" "''legacy-'' @ hook \<notin> wd_id ` set (sr_destinations r)" "trim title \<noteq> []" "trim (title @ '' destination'') \<noteq> []"
  shows "routing_inv (add_legacy (hook, title, i) r)"
proof (cases "Option.bind (wi_url i) nonempty")
  case (Some u)
  show ?thesis
  proof (cases "List.find (\<lambda>d. wd_url d = u) (sr_destinations r)")
    case None
    then have "u \<notin> wd_url ` set (sr_destinations r)" by (simp only: find_url_None not_False_eq_True)
    then show ?thesis using assms Some None by (simp add: add_legacy_def routing_inv_def Let_def)
  next
    case (Some d)
    then have "d \<in> set (sr_destinations r)" by (auto simp: find_Some_iff)
    then show ?thesis
      using assms \<open>Option.bind (wi_url i) nonempty = Some u\<close> Some by (simp add: add_legacy_def routing_inv_def) blast
  qed
qed (use assms in \<open>simp add: add_legacy_none\<close>)

lemma add_legacy_ids: "wd_id ` set (sr_destinations (add_legacy (hook, title, i) r)) \<subseteq> insert (''legacy-'' @ hook) (wd_id ` set (sr_destinations r))"
  by (auto simp: add_legacy_def Let_def split: option.splits)

lemma legacy_routing_inv: "routing_inv (legacy_routing w)"
proof -
  define a where "a = add_legacy (''auth'', ''Auth'', wk_auth w) no_routing"
  have "routing_inv a" unfolding a_def by (rule add_legacy_inv) (simp_all add: routing_inv_def no_routing_def)
  moreover have "wd_id ` set (sr_destinations a) \<subseteq> {''legacy-auth''}"
    using add_legacy_ids [of "''auth''" "''Auth''" "wk_auth w" no_routing] by (simp add: a_def no_routing_def)
  then have "''legacy-'' @ ''download'' \<notin> wd_id ` set (sr_destinations a)" by auto
  ultimately have "routing_inv (add_legacy (''download'', ''Download'', wk_download w) a)" by (intro add_legacy_inv) simp_all
  then show ?thesis by (simp add: legacy_routing_def a_def no_routing_def)
qed

text \<open>
  The routing built from old settings can be saved as it is: if the addresses of the old settings are valid and, up to space around them, equal only when
  they are the same, \<open>routingError\<close> finds nothing; every rule has one destination that exists.
\<close>

lemma legacy_routing_saves:
  assumes "\<forall>d \<in> set (sr_destinations (legacy_routing w)). url_ok parse (wd_url d) \<and> trim (wd_url d) = wd_url d"
  shows "routingError parse (legacy_routing w) = None
    \<and> (\<forall>q \<in> set (sr_rules (legacy_routing w)). \<exists>d \<in> set (sr_destinations (legacy_routing w)). wr_destination_ids q = [wd_id d])"
proof -
  have "map (\<lambda>d. trim (wd_url d)) (sr_destinations (legacy_routing w)) = map wd_url (sr_destinations (legacy_routing w))" using assms by simp
  then have "distinct (map (\<lambda>d. trim (wd_url d)) (sr_destinations (legacy_routing w)))" using legacy_routing_inv [of w] by (simp only: routing_inv_def)
  moreover have "wr_destination_ids q \<noteq> []" if "q \<in> set (sr_rules (legacy_routing w))" for q
    using that legacy_routing_inv [of w] by (auto simp: routing_inv_def)
  ultimately show ?thesis
    using legacy_routing_inv [of w] assms unfolding routingError_None routing_inv_def by blast
qed

end
