(* ===== verification/Telemetry.thy ===== *)
theory Telemetry
  imports Diagnostics
begin

text \<open>
  The telemetry of a job: \<open>features/jobs/lib/useJobDiagnosticsTelemetry.ts\<close>. Observations of the backend become snapshots; from these, the
  loaded tasks and the error groups come the distribution of responses, the health of each route, rates over
  windows, the velocity of errors, the load of the routes, a reconstructed history and the model of capacity. Each memo of the
  hook is a function of what it depends on; the effect that samples is a step on the state of the hook. The analysis of the bottleneck on
  top of it is the theory \<open>Diagnostics\<close>.
\<close>

section \<open>Inputs\<close>

record task_stats =
  ts_total :: rat
  ts_completed :: rat
  ts_failed :: rat
  ts_inflight :: rat
  ts_ready :: rat

text \<open>What is read of a job, or of its details; \<open>None\<close> for a member that is missing or null.\<close>

record job_view =
  jv_id :: string
  jv_settings :: job_settings
  jv_job_type :: string
  jv_created_at :: string
  jv_started_at :: "string option"
  jv_completed_at :: "string option"
  jv_last_activity_at :: "string option"
  jv_task_stats :: "task_stats option"
  jv_task_count :: "rat option"
  jv_completed_tasks :: "rat option"
  jv_failed_tasks :: "rat option"
  jv_error_total :: "rat option"
  jv_error_groups :: "(string \<times> jsnum) list option"
  jv_observed_at :: "rat option"
  jv_refill_slots :: "rat option list"

record pool_proxy =
  px_url :: string
  px_group :: "string option"
  px_country :: "string option"
  px_flag :: "string option"
  px_enabled :: "bool option"
  px_max_connections :: "rat option"

text \<open>\<open>details?.a ?? job.a\<close>\<close>

definition from_both :: "(job_view \<Rightarrow> 'a option) \<Rightarrow> job_view \<Rightarrow> job_view option \<Rightarrow> 'a option" where
  "from_both f job details = coalesce (Option.bind details f) (f job)"

definition details_settings :: "job_view option \<Rightarrow> job_settings option" where
  "details_settings details = map_option jv_settings details"

section \<open>Routes and capacity\<close>

definition proxy_enabled :: "pool_proxy \<Rightarrow> bool" where
  "proxy_enabled p \<longleftrightarrow> px_enabled p \<noteq> Some False"

definition enabledProxiesCount :: "pool_proxy list option \<Rightarrow> nat" where
  "enabledProxiesCount proxies = (case proxies of None \<Rightarrow> 107 | Some ps \<Rightarrow> length (filter proxy_enabled ps))"

definition flag_value :: "json \<Rightarrow> bool option" where
  "flag_value v =
     (if v \<in> {JBool False, JStr ''0'', JStr ''false''} then Some False
      else if v \<in> {JBool True, JStr ''1'', JStr ''true''} then Some True else None)"

definition is_mps_job :: "job_view \<Rightarrow> job_view option \<Rightarrow> bool" where
  "is_mps_job job details \<longleftrightarrow>
     (\<exists>v \<in> set (job # (case details of None \<Rightarrow> [] | Some d \<Rightarrow> [d])).
        truthy (jget (js_metadata (jv_settings v)) ''mps_manifest'') \<or> jv_job_type v = ''mass_profile_scrape''
        \<or> jget (js_metadata (jv_settings v)) ''job_resource_scope'' = JStr ''mps'')"

definition includeDirectConnection :: "job_view \<Rightarrow> job_view option \<Rightarrow> bool" where
  "includeDirectConnection job details =
     (case flag_value (jobSetting (jv_settings job) (details_settings details) js_metadata ''include_direct_connection'') of
        Some b \<Rightarrow> b
      | None \<Rightarrow>
          (case flag_value (jobSetting (jv_settings job) (details_settings details) js_args ''include_direct_connection'') of
             Some b \<Rightarrow> b
           | None \<Rightarrow> \<not> is_mps_job job details))"

definition planned_capacity :: "job_view \<Rightarrow> job_view option \<Rightarrow> json" where
  "planned_capacity job details =
     jcoalesce (jcoalesce (case details of None \<Rightarrow> JUndef | Some d \<Rightarrow> jget (js_metadata (jv_settings d)) ''proxy_capacity'')
       (jget (js_metadata (jv_settings job)) ''proxy_capacity'')) (jget (js_args (jv_settings job)) ''proxy_capacity'')"

text \<open>The slots of the last event of the trace that has any.\<close>

definition observed_slots :: "job_view option \<Rightarrow> rat option" where
  "observed_slots details =
     (case details of
        None \<Rightarrow> None
      | Some d \<Rightarrow> Option.bind (List.find (\<lambda>s. zero s > 0) (rev (jv_refill_slots d))) (\<lambda>s. s))"

definition declared_slots :: "bool \<Rightarrow> pool_proxy list \<Rightarrow> rat" where
  "declared_slots direct ps =
     sum_list (map (\<lambda>p. if zero (px_max_connections p) \<noteq> 0 then zero (px_max_connections p) else 8) (filter proxy_enabled ps)) + (if direct then 8 else 0)"

definition total_proxy_capacity :: "(rat \<Rightarrow> string) \<Rightarrow> job_view \<Rightarrow> job_view option \<Rightarrow> pool_proxy list option \<Rightarrow> rat" where
  "total_proxy_capacity fs job details proxies =
     (let fallback = (case observed_slots details of
            Some n \<Rightarrow> n
          | None \<Rightarrow>
              (case proxies of
                 None \<Rightarrow> 0
               | Some ps \<Rightarrow> if \<exists>p \<in> set ps. px_max_connections p \<noteq> None then declared_slots (includeDirectConnection job details) ps else 0))
      in case number_of fs (planned_capacity job details) of
           Fin q \<Rightarrow> if q > 0 then q else fallback
         | _ \<Rightarrow> fallback)"

section \<open>Counters\<close>

definition stat :: "(task_stats \<Rightarrow> rat) \<Rightarrow> (job_view \<Rightarrow> rat option) \<Rightarrow> job_view \<Rightarrow> job_view option \<Rightarrow> rat" where
  "stat f g job details =
     zero (coalesce (map_option f (from_both jv_task_stats job details)) (g job))"

definition totalJobTasks :: "job_view \<Rightarrow> job_view option \<Rightarrow> rat" where
  "totalJobTasks = stat ts_total jv_task_count"

definition completedJobTasks :: "job_view \<Rightarrow> job_view option \<Rightarrow> rat" where
  "completedJobTasks = stat ts_completed jv_completed_tasks"

definition failed_job_tasks :: "job_view \<Rightarrow> job_view option \<Rightarrow> rat" where
  "failed_job_tasks = stat ts_failed jv_failed_tasks"

definition inflightJobTasks :: "job_view \<Rightarrow> job_view option \<Rightarrow> rat" where
  "inflightJobTasks = stat ts_inflight (\<lambda>_. None)"

definition readyJobTasks :: "job_view \<Rightarrow> job_view option \<Rightarrow> rat" where
  "readyJobTasks = stat ts_ready (\<lambda>_. None)"

definition totalJobErrors :: "job_view \<Rightarrow> job_view option \<Rightarrow> rat" where
  "totalJobErrors job details = or_else (from_both jv_error_total job details) (failed_job_tasks job details)"

definition isCompleteTaskSample :: "job_view \<Rightarrow> job_view option \<Rightarrow> task_detail list \<Rightarrow> bool" where
  "isCompleteTaskSample job details tasks \<longleftrightarrow> totalJobTasks job details > 0 \<and> of_nat (length tasks) \<ge> totalJobTasks job details"

definition taskCoveragePercent :: "job_view \<Rightarrow> job_view option \<Rightarrow> task_detail list \<Rightarrow> rat" where
  "taskCoveragePercent job details tasks =
     (if totalJobTasks job details > 0 then fixed_value 1 (min 100 (of_nat (length tasks) / totalJobTasks job details * 100)) else 0)"

definition sampledItemsNow :: "job_view \<Rightarrow> job_view option \<Rightarrow> task_detail list \<Rightarrow> rat" where
  "sampledItemsNow job details tasks =
     (if isCompleteTaskSample job details tasks then sum_list (map td_items_processed tasks) else completedJobTasks job details)"

definition taskLatencies :: "clock \<Rightarrow> task_detail list \<Rightarrow> rat list" where
  "taskLatencies clk tasks = List.map_filter (parseTaskLatency clk) tasks"

section \<open>Distribution of responses\<close>

datatype response_class = Rate_limit | Forbidden | Not_found | Server_error | Timeout_error | Other_error

definition group_class :: "string \<Rightarrow> response_class" where
  "group_class msg =
     (let has = (\<lambda>p. includes_str p (lower msg))
      in if has ''429'' \<or> has ''rate limit'' \<or> has ''too many requests'' then Rate_limit
         else if has ''403'' \<or> has ''forbidden'' \<or> has ''ip_mismatch'' \<or> has ''route identity'' then Forbidden
         else if has ''404'' \<or> has ''not found'' \<or> has ''invalid_user'' \<or> has ''content_issues'' then Not_found
         else if has ''500'' \<or> has ''502'' \<or> has ''503'' \<or> has ''504'' \<or> has ''server error'' \<or> has ''bad gateway'' then Server_error
         else if has ''timeout'' \<or> has ''timed out'' \<or> has ''connect'' \<or> has ''connection reset'' \<or> has ''proxy route(s) failed'' then Timeout_error
         else Other_error)"

text \<open>\<open>/\b5\d{2}\b/\<close>\<close>

definition server_code_rx :: rx where
  "server_code_rx = rx_seq [RWordB, RChr (\<lambda>c. c = CHR ''5''), RChr is_digit, RChr is_digit, RWordB]"

definition task_class :: "string \<Rightarrow> response_class" where
  "task_class err =
     (let has = (\<lambda>p. includes_str p (lower err))
      in if has ''429'' \<or> has ''rate limit'' then Rate_limit
         else if has ''403'' \<or> has ''forbidden'' then Forbidden
         else if has ''404'' \<or> has ''not found'' then Not_found
         else if rx_test server_code_rx (lower err) \<or> has ''server error'' \<or> has ''bad gateway'' then Server_error
         else if has ''timeout'' \<or> has ''timed out'' \<or> has ''connection'' \<or> has ''connect'' then Timeout_error
         else Other_error)"

definition error_groups :: "job_view \<Rightarrow> job_view option \<Rightarrow> (string \<times> jsnum) list" where
  "error_groups job details = or_else (from_both jv_error_groups job details) []"

text \<open>Groups with a finite count above zero.\<close>

definition counted_groups :: "(string \<times> jsnum) list \<Rightarrow> (string \<times> rat) list" where
  "counted_groups groups = List.map_filter (\<lambda>(m, n). case n of Fin q \<Rightarrow> if q > 0 then Some (m, q) else None | _ \<Rightarrow> None) groups"

definition group_count :: "(string \<times> jsnum) list \<Rightarrow> response_class \<Rightarrow> rat" where
  "group_count groups c = sum_list (map snd (filter (\<lambda>g. group_class (fst g) = c) (counted_groups groups)))"

definition failed_texts :: "task_detail list \<Rightarrow> string list" where
  "failed_texts tasks = List.map_filter (\<lambda>t. if td_status t = ''failed'' then Option.bind (td_error t) nonempty else None) tasks"

definition task_count_of :: "task_detail list \<Rightarrow> response_class \<Rightarrow> rat" where
  "task_count_of tasks c = of_nat (length (filter (\<lambda>e. task_class e = c) (failed_texts tasks)))"

definition response_count :: "(string \<times> jsnum) list \<Rightarrow> task_detail list \<Rightarrow> response_class \<Rightarrow> rat" where
  "response_count groups tasks c =
     (if groups = [] then task_count_of tasks c
      else if task_count_of tasks c > 0 \<and> group_count groups c = 0 then task_count_of tasks c
      else group_count groups c)"

record http_distribution =
  hd_ok200 :: rat
  hd_rateLimit429 :: rat
  hd_forbidden403 :: rat
  hd_notFound404 :: rat
  hd_serverError5xx :: rat
  hd_timeoutErrors :: rat
  hd_otherErrors :: rat
  hd_totalObserved :: rat

definition http_distribution_of :: "job_view \<Rightarrow> job_view option \<Rightarrow> task_detail list \<Rightarrow> http_distribution" where
  "http_distribution_of job details tasks =
     (let ok = completedJobTasks job details; n = response_count (error_groups job details) tasks
      in \<lparr>hd_ok200 = ok, hd_rateLimit429 = n Rate_limit, hd_forbidden403 = n Forbidden, hd_notFound404 = n Not_found,
          hd_serverError5xx = n Server_error, hd_timeoutErrors = n Timeout_error, hd_otherErrors = n Other_error,
          hd_totalObserved = ok + n Rate_limit + n Forbidden + n Not_found + n Server_error + n Timeout_error + n Other_error\<rparr>)"

section \<open>Health of the routes\<close>

record route_entry =
  re_url :: string
  re_display :: string
  re_group :: "string option"
  re_country :: "string option"
  re_flag :: "string option"
  re_attempts :: rat
  re_failures :: rat
  re_rateLimits :: rat
  re_timeouts :: rat
  re_durations :: "rat list"

definition new_entry :: "url_reader \<Rightarrow> string \<Rightarrow> route_entry" where
  "new_entry reader u = \<lparr>re_url = u, re_display = maskProxyUrl reader (JStr u), re_group = None, re_country = None, re_flag = None,
     re_attempts = 0, re_failures = 0, re_rateLimits = 0, re_timeouts = 0, re_durations = []\<rparr>"

definition seed_entry :: "url_reader \<Rightarrow> pool_proxy \<Rightarrow> route_entry" where
  "seed_entry reader p = (new_entry reader (px_url p))\<lparr>re_group := px_group p, re_country := px_country p, re_flag := px_flag p\<rparr>"

text \<open>The map of entries in the order of insertion; setting a known url replaces its entry in place.\<close>

definition has_url :: "string \<Rightarrow> route_entry list \<Rightarrow> bool" where
  "has_url u m \<longleftrightarrow> u \<in> re_url ` set m"

definition put_route :: "route_entry \<Rightarrow> route_entry list \<Rightarrow> route_entry list" where
  "put_route e m = (if has_url (re_url e) m then update_first (\<lambda>x. re_url x = re_url e) (\<lambda>_. e) m else m @ [e])"

definition task_route :: "task_detail \<Rightarrow> string" where
  "task_route t =
     (case jcoalesce (jget (td_payload t) ''guest_proxy_url'') (jget (jget (td_payload t) ''params'') ''guest_proxy_url'') of
        JStr s \<Rightarrow> s
      | _ \<Rightarrow> ''direct'')"

definition attempt :: "clock \<Rightarrow> bool \<Rightarrow> task_detail \<Rightarrow> route_entry \<Rightarrow> route_entry" where
  "attempt clk aggregated t e =
     (let e1 = e\<lparr>re_attempts := re_attempts e + 1, re_durations := re_durations e @ (case parseTaskLatency clk t of Some l \<Rightarrow> [l] | None \<Rightarrow> [])\<rparr>;
          has = (\<lambda>p. includes_str p (lower (or_str (td_error t) [])))
      in if td_status t = ''failed'' \<and> \<not> aggregated
         then e1\<lparr>re_failures := re_failures e1 + 1,
                re_rateLimits := re_rateLimits e1 + (if has ''429'' \<or> has ''rate'' then 1 else 0),
                re_timeouts := re_timeouts e1 + (if has ''timeout'' \<or> has ''timed out'' \<or> has ''failed to initialize'' then 1 else 0)\<rparr>
         else e1)"

definition count_task :: "url_reader \<Rightarrow> clock \<Rightarrow> bool \<Rightarrow> bool \<Rightarrow> task_detail \<Rightarrow> route_entry list \<Rightarrow> route_entry list" where
  "count_task reader clk direct aggregated t m =
     (let u = task_route t
      in if \<not> direct \<and> u = ''direct'' then m
         else let m1 = (if has_url u m then m else m @ [new_entry reader u])
              in update_first (\<lambda>x. re_url x = u) (attempt clk aggregated t) m1)"

definition count_group :: "string \<times> rat \<Rightarrow> route_entry list \<Rightarrow> route_entry list" where
  "count_group g m =
     (case g of (msg, n) \<Rightarrow>
        let has = (\<lambda>p. includes_str p (lower msg))
        in map (\<lambda>e. if re_url e \<noteq> ''direct'' \<and> includes_str (re_url e) msg
                    then e\<lparr>re_failures := re_failures e + n, re_rateLimits := re_rateLimits e + (if has ''429'' then n else 0),
                           re_timeouts := re_timeouts e + (if has ''timeout'' \<or> has ''failed to initialize'' then n else 0)\<rparr>
                    else e) m)"

definition route_entries ::
  "url_reader \<Rightarrow> clock \<Rightarrow> bool \<Rightarrow> pool_proxy list option \<Rightarrow> (string \<times> jsnum) list \<Rightarrow> task_detail list \<Rightarrow> route_entry list" where
  "route_entries reader clk direct proxies groups tasks =
     fold count_group (counted_groups groups)
       (fold (count_task reader clk direct (groups \<noteq> [])) tasks
         (fold (\<lambda>p. put_route (seed_entry reader p)) (or_else proxies []) []))"

datatype route_health = Critical_route | Degraded_route | Healthy_route

record route_anomaly =
  ra_entry :: route_entry
  ra_failureRatePercent :: rat
  ra_avgLatencySec :: rat
  ra_score :: rat
  ra_status :: route_health
  ra_issue :: string

definition avg_latency :: "route_entry \<Rightarrow> rat" where
  "avg_latency e = (if re_durations e = [] then 0 else fixed_value 2 (sum_list (re_durations e) / of_nat (length (re_durations e))))"

definition failure_rate :: "route_entry \<Rightarrow> rat" where
  "failure_rate e =
     (if re_attempts e > 0 then fixed_value 1 (re_failures e / re_attempts e * 100) else if re_failures e > 0 then 100 else 0)"

definition anomaly_score :: "route_entry \<Rightarrow> rat" where
  "anomaly_score e = re_failures e * 3 + re_rateLimits e * 5 + re_timeouts e * 4 + (if re_durations e \<noteq> [] \<and> avg_latency e > 4 then 10 else 0)"

definition route_status :: "route_entry \<Rightarrow> route_health" where
  "route_status e =
     (if re_rateLimits e \<ge> 3 \<or> re_failures e \<ge> 5 \<or> failure_rate e > 30 then Critical_route
      else if re_timeouts e > 0 \<or> (re_durations e \<noteq> [] \<and> avg_latency e > 7 / 2) \<or> re_failures e > 0 then Degraded_route
      else Healthy_route)"

definition primary_issue :: "(rat \<Rightarrow> string) \<Rightarrow> route_entry \<Rightarrow> string" where
  "primary_issue fs e =
     (case route_status e of
        Critical_route \<Rightarrow>
          if re_rateLimits e > 0 then ''Excessive 429 rate limits ('' @ num fs (re_rateLimits e) @ '')''
          else ''High error rate ('' @ num fs (failure_rate e) @ ''%)''
      | Degraded_route \<Rightarrow>
          if re_timeouts e > 0 then ''Connection timeouts ('' @ num fs (re_timeouts e) @ '')''
          else ''Elevated latency ('' @ num fs (avg_latency e) @ ''s)''
      | Healthy_route \<Rightarrow> ''Normal operation'')"

definition route_anomaly_of :: "(rat \<Rightarrow> string) \<Rightarrow> route_entry \<Rightarrow> route_anomaly" where
  "route_anomaly_of fs e = \<lparr>ra_entry = e, ra_failureRatePercent = failure_rate e, ra_avgLatencySec = avg_latency e, ra_score = anomaly_score e,
     ra_status = route_status e, ra_issue = primary_issue fs e\<rparr>"

definition worse_route :: "route_anomaly \<Rightarrow> route_anomaly \<Rightarrow> int" where
  "worse_route = cmp_then (cmp_rev (cmp_on ra_score cmp_num)) (cmp_rev (cmp_on (\<lambda>a. re_failures (ra_entry a)) cmp_num))"

definition proxy_anomalies ::
  "(rat \<Rightarrow> string) \<Rightarrow> url_reader \<Rightarrow> clock \<Rightarrow> job_view \<Rightarrow> job_view option \<Rightarrow> pool_proxy list option \<Rightarrow> task_detail list \<Rightarrow> route_anomaly list" where
  "proxy_anomalies fs reader clk job details proxies tasks =
     (let direct = includeDirectConnection job details;
          entries = filter (\<lambda>e. direct \<or> re_url e \<noteq> ''direct'') (route_entries reader clk direct proxies (error_groups job details) tasks)
      in sort_cmp worse_route (filter (\<lambda>a. ra_score a > 0 \<or> re_attempts (ra_entry a) > 0) (map (route_anomaly_of fs) entries)))"

section \<open>Snapshots\<close>

record snapshot =
  sn_timestamp :: rat
  sn_start :: rat
  sn_completedDelta :: rat
  sn_itemsDelta :: rat
  sn_authoritative :: bool
  sn_items :: rat
  sn_completed :: rat
  sn_inflight :: rat
  sn_ready :: rat
  sn_failed :: rat
  sn_itemRate :: rat
  sn_taskRate :: rat
  sn_p50 :: rat
  sn_p95 :: rat
  sn_activeProxies :: rat
  sn_errors :: rat

definition MAX_SNAPSHOTS :: nat where
  "MAX_SNAPSHOTS = 2048"

record sample_baseline =
  sb_timestamp :: rat
  sb_completed :: rat
  sb_items :: rat
  sb_authoritative :: bool
  sb_errors :: rat

definition EMPTY_BASELINE :: sample_baseline where
  "EMPTY_BASELINE = \<lparr>sb_timestamp = 0, sb_completed = 0, sb_items = 0, sb_authoritative = False, sb_errors = 0\<rparr>"

text \<open>\<open>TelemetrySamplingInputs\<close>, with the job shown and the job the details belong to.\<close>

record sampling_inputs =
  si_jobId :: string
  si_detailsId :: "string option"
  si_observedAt :: rat
  si_completed :: rat
  si_items :: rat
  si_authoritative :: bool
  si_inflight :: rat
  si_ready :: rat
  si_failed :: rat
  si_errors :: rat
  si_p50 :: rat
  si_p95 :: rat
  si_capacity :: rat
  si_live :: bool

record sampler =
  sa_jobId :: string
  sa_last :: sample_baseline
  sa_has :: bool
  sa_historyJob :: string
  sa_history :: "snapshot list"

definition new_sampler :: "string \<Rightarrow> sampler" where
  "new_sampler i = \<lparr>sa_jobId = i, sa_last = EMPTY_BASELINE, sa_has = False, sa_historyJob = i, sa_history = []\<rparr>"

definition shown_snapshots :: "string \<Rightarrow> sampler \<Rightarrow> snapshot list" where
  "shown_snapshots i sa = (if sa_historyJob sa = i then sa_history sa else [])"

definition resetBaseline :: "sampling_inputs \<Rightarrow> sampler \<Rightarrow> sampler" where
  "resetBaseline x sa = sa\<lparr>sa_last := \<lparr>sb_timestamp = si_observedAt x, sb_completed = si_completed x, sb_items = si_items x,
     sb_authoritative = si_authoritative x, sb_errors = si_errors x\<rparr>, sa_has := True\<rparr>"

definition calculated_inflight :: "sampling_inputs \<Rightarrow> rat \<Rightarrow> rat" where
  "calculated_inflight x taskRate =
     (if si_inflight x > 0 then min (si_inflight x) (si_capacity x)
      else if \<not> si_live x \<and> taskRate > 0 then min (si_capacity x) (of_int (js_round (taskRate * (if si_p50 x > 0 then si_p50 x else 21 / 10))))
      else 0)"

definition new_snapshot :: "sampling_inputs \<Rightarrow> sample_baseline \<Rightarrow> snapshot" where
  "new_snapshot x previous =
     (let elapsedSeconds = (si_observedAt x - sb_timestamp previous) / 1000;
          deltaCompleted = si_completed x - sb_completed previous; deltaItems = si_items x - sb_items previous;
          taskRate = (if elapsedSeconds > 0 then deltaCompleted / elapsedSeconds else 0);
          itemRate = (if elapsedSeconds > 0 then deltaItems / elapsedSeconds else 0);
          inflight = calculated_inflight x taskRate
      in \<lparr>sn_timestamp = si_observedAt x, sn_start = sb_timestamp previous, sn_completedDelta = deltaCompleted, sn_itemsDelta = deltaItems,
          sn_authoritative = si_authoritative x, sn_items = si_items x, sn_completed = si_completed x, sn_inflight = inflight,
          sn_ready = si_ready x, sn_failed = si_failed x, sn_itemRate = fixed_value 1 itemRate, sn_taskRate = fixed_value 1 taskRate,
          sn_p50 = si_p50 x, sn_p95 = si_p95 x, sn_activeProxies = min inflight (si_capacity x), sn_errors = si_errors x\<rparr>)"

definition last_n :: "nat \<Rightarrow> 'a list \<Rightarrow> 'a list" where
  "last_n n xs = drop (length xs - n) xs"

definition for_job :: "sampling_inputs \<Rightarrow> sampler \<Rightarrow> sampler" where
  "for_job x sa = (if sa_jobId sa \<noteq> si_jobId x then sa\<lparr>sa_jobId := si_jobId x, sa_last := EMPTY_BASELINE, sa_has := False\<rparr> else sa)"

definition starts_over :: "sampling_inputs \<Rightarrow> sampler \<Rightarrow> bool" where
  "starts_over x sa \<longleftrightarrow> \<not> sa_has sa \<or> si_authoritative x \<noteq> sb_authoritative (sa_last sa) \<or> si_completed x < sb_completed (sa_last sa)
     \<or> si_items x < sb_items (sa_last sa)"

definition sample :: "sampling_inputs \<Rightarrow> sampler \<Rightarrow> sampler" where
  "sample x sa0 =
     (let sa = for_job x sa0; previous = sa_last sa
      in if si_observedAt x \<le> 0 \<or> si_detailsId x \<noteq> Some (si_jobId x) then sa
         else if sb_timestamp previous > 0 \<and> si_observedAt x \<le> sb_timestamp previous then sa
         else if starts_over x sa then resetBaseline x sa
         else resetBaseline x (sa\<lparr>sa_historyJob := si_jobId x,
                sa_history := last_n MAX_SNAPSHOTS (shown_snapshots (si_jobId x) sa @ [new_snapshot x previous])\<rparr>))"

section \<open>Rates\<close>

definition start_text :: "job_view \<Rightarrow> job_view option \<Rightarrow> string" where
  "start_text job details =
     (case Option.bind (Option.bind details jv_started_at) nonempty of
        Some s \<Rightarrow> s
      | None \<Rightarrow> or_else (jv_started_at job) (jv_created_at job))"

datatype rate_unit = Items | Tasks

definition unit_delta :: "rate_unit \<Rightarrow> snapshot \<Rightarrow> rat" where
  "unit_delta u s = (case u of Items \<Rightarrow> sn_itemsDelta s | Tasks \<Rightarrow> sn_completedDelta s)"

definition interval_ms :: "snapshot \<Rightarrow> rat" where
  "interval_ms s = sn_timestamp s - sn_start s"

text \<open>Whether the loop of \<open>observedRate\<close> counts a sample: a positive interval that lies wholly in the window.\<close>

definition counted_sample :: "rat \<Rightarrow> rat option \<Rightarrow> rate_unit \<Rightarrow> snapshot \<Rightarrow> bool" where
  "counted_sample end_ms window u s \<longleftrightarrow>
     (let overlap = max 0 (min (sn_timestamp s) end_ms - (case window of None \<Rightarrow> sn_start s | Some w \<Rightarrow> max (sn_start s) (end_ms - w)))
      in interval_ms s > 0 \<and> (u = Items \<longrightarrow> sn_authoritative s) \<and> overlap > 0 \<and> overlap \<ge> interval_ms s)"

definition observedRate :: "snapshot list \<Rightarrow> rat option \<Rightarrow> rate_unit \<Rightarrow> rat \<times> rat" where
  "observedRate snapshots window u =
     (let counted = filter (counted_sample (sn_timestamp (last snapshots)) window u) snapshots;
          delta = sum_list (map (unit_delta u) counted); coveredMs = sum_list (map interval_ms counted)
      in (if coveredMs > 0 then delta / (coveredMs / 1000) else 0, coveredMs / 1000))"

datatype rate_trend = Increasing | Decreasing | Steady

record throughput_stats =
  th_currentItems :: rat
  th_currentTasks :: rat
  th_sma1mItems :: rat
  th_sma1mTasks :: rat
  th_sma5mItems :: rat
  th_sma5mTasks :: rat
  th_sampleSec :: rat
  th_sma1mWindowSec :: rat
  th_trend :: rate_trend
  th_trendDelta :: rat
  th_unit :: rate_unit

definition trend_delta :: "rat \<Rightarrow> rat \<Rightarrow> rat" where
  "trend_delta recent average = (if average > 0 then fixed_value 1 ((recent - average) / average * 100) else 0)"

definition trend_of :: "rat \<Rightarrow> rate_trend" where
  "trend_of d = (if d > 5 then Increasing else if d < - 5 then Decreasing else Steady)"

text \<open>Without snapshots the average since the start is shown, for a job that is over; \<open>startMs\<close> and \<open>endMs\<close> are its times.\<close>

definition overall_stats :: "bool \<Rightarrow> rate_unit \<Rightarrow> rat \<Rightarrow> rat \<Rightarrow> rat \<Rightarrow> throughput_stats" where
  "overall_stats live u completed startMs endMs =
     (let r = (if live then 0 else fixed_value 1 (completed / max 1 ((endMs - startMs) / 1000)))
      in \<lparr>th_currentItems = r, th_currentTasks = r, th_sma1mItems = r, th_sma1mTasks = r, th_sma5mItems = r, th_sma5mTasks = r,
          th_sampleSec = 0, th_sma1mWindowSec = 0, th_trend = Steady, th_trendDelta = 0, th_unit = u\<rparr>)"

definition window_stats :: "rate_unit \<Rightarrow> snapshot list \<Rightarrow> throughput_stats" where
  "window_stats u snapshots =
     (let latest = last snapshots; latestMs = max 0 (interval_ms latest);
          items1 = observedRate snapshots (Some 60000) Items; tasks1 = observedRate snapshots (Some 60000) Tasks;
          items5 = observedRate snapshots (Some 300000) Items; tasks5 = observedRate snapshots (Some 300000) Tasks;
          recent = observedRate snapshots (Some 5000) u; avg1m = (if u = Items then items1 else tasks1);
          d = trend_delta (fst recent) (fst avg1m)
      in \<lparr>th_currentItems = (if sn_authoritative latest \<and> latestMs > 0 then fixed_value 1 (sn_itemsDelta latest / (latestMs / 1000)) else 0),
          th_currentTasks = (if latestMs > 0 then fixed_value 1 (sn_completedDelta latest / (latestMs / 1000)) else 0),
          th_sma1mItems = fixed_value 1 (fst items1), th_sma1mTasks = fixed_value 1 (fst tasks1),
          th_sma5mItems = fixed_value 1 (fst items5), th_sma5mTasks = fixed_value 1 (fst tasks5),
          th_sampleSec = fixed_value 1 (latestMs / 1000), th_sma1mWindowSec = fixed_value 1 (snd avg1m),
          th_trend = trend_of d, th_trendDelta = d, th_unit = u\<rparr>)"

definition throughput_of :: "bool \<Rightarrow> rate_unit \<Rightarrow> rat \<Rightarrow> rat \<Rightarrow> rat \<Rightarrow> snapshot list \<Rightarrow> throughput_stats" where
  "throughput_of live u completed startMs endMs snapshots =
     (if snapshots = [] then overall_stats live u completed startMs endMs else window_stats u snapshots)"

section \<open>Velocity of errors\<close>

datatype error_trend = Stable | Elevated | Critical_trend

definition window_change :: "(snapshot \<Rightarrow> rat) \<Rightarrow> rat \<Rightarrow> snapshot list \<Rightarrow> rat" where
  "window_change f now_ms snapshots =
     (case List.find (\<lambda>s. sn_timestamp s \<ge> now_ms - 60000) snapshots of
        Some old \<Rightarrow> max 0 (f (last snapshots) - f old)
      | None \<Rightarrow> if length snapshots \<ge> 2 then max 0 (f (last snapshots) - f (hd snapshots)) else 0)"

text \<open>A task without a time counts as time 0; a time that does not parse makes the comparison 0.\<close>

definition completion_ms :: "clock \<Rightarrow> task_detail \<Rightarrow> date" where
  "completion_ms clk t = (case Option.bind (td_completed_at t) nonempty of None \<Rightarrow> Some 0 | Some s \<Rightarrow> getTime clk s)"

definition later_first :: "clock \<Rightarrow> task_detail \<Rightarrow> task_detail \<Rightarrow> int" where
  "later_first clk a b = (case (completion_ms clk a, completion_ms clk b) of (Some x, Some y) \<Rightarrow> y - x | _ \<Rightarrow> 0)"

definition consecutiveFailures :: "clock \<Rightarrow> task_detail list \<Rightarrow> nat" where
  "consecutiveFailures clk tasks =
     length (takeWhile (\<lambda>t. td_status t = ''failed'')
       (sort_cmp (later_first clk) (filter (\<lambda>t. td_status t \<in> {''completed'', ''failed''}) tasks)))"

definition safety_margin :: "rat \<Rightarrow> rat \<Rightarrow> rat" where
  "safety_margin errors limit = min 100 (fixed_value 0 (errors / max 1 limit * 100))"

definition error_trend_of :: "rat \<Rightarrow> rat \<Rightarrow> rat \<Rightarrow> nat \<Rightarrow> error_trend" where
  "error_trend_of errors completed limit consecutive =
     (let rate = (if completed + errors > 0 then errors / (completed + errors) else 0); margin = safety_margin errors limit;
          share = (\<lambda>p. of_int \<lceil>limit * p\<rceil>)
      in if margin \<ge> 80 \<or> errors \<ge> max 5 (share (4 / 5)) \<or> (rate \<ge> 3 / 10 \<and> errors \<ge> max 10 (share (2 / 5))) then Critical_trend
         else if margin \<ge> 50 \<or> errors \<ge> max 3 (share (1 / 2)) \<or> (rate \<ge> 1 / 10 \<and> errors \<ge> max 5 (share (1 / 5))) \<or> consecutive \<ge> 5 then Elevated
         else Stable)"

record error_velocity_stats =
  ev_totalErrors :: rat
  ev_errorsLast60s :: rat
  ev_limit :: rat
  ev_margin :: rat
  ev_trend :: error_trend
  ev_rate429Count :: rat
  ev_rate429PerMin :: rat
  ev_jobAverage :: bool
  ev_observedWindow :: bool
  ev_windowSeconds :: rat

definition job_duration_sec :: "rat option \<Rightarrow> rat option \<Rightarrow> rat" where
  "job_duration_sec startMs endMs =
     (case (startMs, endMs) of (Some a, Some b) \<Rightarrow> if b > a then max 1 ((b - a) / 1000) else 1 | _ \<Rightarrow> 1)"

definition observed_window_sec :: "snapshot list \<Rightarrow> rat" where
  "observed_window_sec snapshots =
     (if length snapshots \<ge> 2 then max 1 ((sn_timestamp (last snapshots) - sn_timestamp (hd snapshots)) / 1000) else 0)"

text \<open>\<open>now_ms\<close> is the reference time; \<open>startMs\<close> and \<open>endMs\<close> are the times of the job, \<open>None\<close> where they do not parse.\<close>

definition error_velocity_of ::
  "clock \<Rightarrow> rat \<Rightarrow> rat option \<Rightarrow> rat option \<Rightarrow> rat \<Rightarrow> rat \<Rightarrow> bool \<Rightarrow> rat \<Rightarrow> task_detail list \<Rightarrow> snapshot list \<Rightarrow> error_velocity_stats" where
  "error_velocity_of clk now_ms startMs endMs totalErrors limit aggregated parsed429 tasks snapshots =
     (let errors = window_change sn_errors now_ms snapshots; completed = window_change sn_completed now_ms snapshots;
          observed = observed_window_sec snapshots; duration = job_duration_sec startMs endMs;
          window_start = (case List.find (\<lambda>s. sn_timestamp s \<ge> now_ms - 60000) snapshots of
             Some s \<Rightarrow> sn_timestamp s | None \<Rightarrow> (case snapshots of [] \<Rightarrow> now_ms | s # _ \<Rightarrow> sn_timestamp s));
          rate_window = (if aggregated then duration else if observed > 0 then observed else duration)
      in \<lparr>ev_totalErrors = totalErrors, ev_errorsLast60s = errors, ev_limit = limit, ev_margin = safety_margin errors limit,
          ev_trend = error_trend_of errors completed limit (consecutiveFailures clk tasks), ev_rate429Count = parsed429,
          ev_rate429PerMin = fixed_value 1 (parsed429 * (60 / max 1 rate_window)), ev_jobAverage = (aggregated \<or> observed \<le> 0),
          ev_observedWindow = (length snapshots \<ge> 2),
          ev_windowSeconds = (if length snapshots \<ge> 2 then max 1 ((sn_timestamp (last snapshots) - window_start) / 1000) else 0)\<rparr>)"

section \<open>Load of the routes\<close>

text \<open>Without a known capacity the share is \<open>0 / 0\<close>.\<close>

definition utilization :: "rat \<Rightarrow> rat \<Rightarrow> jsnum" where
  "utilization active capacity =
     (if capacity = 0 then (if active = 0 then NaN else if active > 0 then PosInf else NegInf) else Fin (fixed_value 1 (active / capacity * 100)))"

definition at_least :: "jsnum \<Rightarrow> rat \<Rightarrow> bool" where
  "at_least n q = (case n of Fin r \<Rightarrow> r \<ge> q | PosInf \<Rightarrow> True | _ \<Rightarrow> False)"

record capacity_stats =
  cs_totalRoutes :: rat
  cs_enabledProxies :: nat
  cs_directRoutes :: nat
  cs_activeRoutes :: rat
  cs_utilization :: jsnum
  cs_nearCapacity :: bool
  cs_saturated :: bool

definition proxy_capacity_of :: "rat \<Rightarrow> nat \<Rightarrow> bool \<Rightarrow> rat \<Rightarrow> capacity_stats" where
  "proxy_capacity_of capacity enabled direct inflight =
     (let active = min inflight capacity; u = utilization active capacity
      in \<lparr>cs_totalRoutes = capacity, cs_enabledProxies = enabled, cs_directRoutes = (if direct then 1 else 0), cs_activeRoutes = active,
          cs_utilization = u, cs_nearCapacity = at_least u 85, cs_saturated = at_least u 96\<rparr>)"

section \<open>Reconstructed history\<close>

record timed_task =
  tt_task :: task_detail
  tt_time :: int
  tt_latency :: rat

definition timed_tasks :: "clock \<Rightarrow> rat \<Rightarrow> task_detail list \<Rightarrow> timed_task list" where
  "timed_tasks clk median tasks =
     sort_cmp (cmp_on tt_time (-))
       (List.map_filter (\<lambda>t. map_option (\<lambda>ms. \<lparr>tt_task = t, tt_time = ms, tt_latency = or_else (parseTaskLatency clk t) median\<rparr>)
          (Option.bind (Option.bind (td_completed_at t) nonempty) (getTime clk))) tasks)"

text \<open>What the buckets are made of: unit, scale, median and 95th percentile of all latencies, routes, tasks of the job.\<close>

record bucket_setup =
  bk_unit :: rate_unit
  bk_scale :: rat
  bk_p50 :: rat
  bk_p95 :: rat
  bk_routes :: rat
  bk_totalTasks :: rat

definition in_bucket :: "rat \<Rightarrow> rat \<Rightarrow> timed_task \<Rightarrow> bool" where
  "in_bucket b_start b_end t \<longleftrightarrow> b_start \<le> of_int (tt_time t) \<and> of_int (tt_time t) < b_end"

record bucket_sums =
  bs_completed :: rat
  bs_items :: rat
  bs_errors :: rat

definition scaled :: "rat \<Rightarrow> rat \<Rightarrow> rat" where
  "scaled scale n = of_int (js_round (n * scale))"

definition bucket_counts :: "bucket_setup \<Rightarrow> timed_task list \<Rightarrow> bucket_sums" where
  "bucket_counts b inside =
     (let completed = scaled (bk_scale b) (of_nat (length inside));
          raw_items = sum_list (map (\<lambda>t. if td_items_processed (tt_task t) = 0 then 1 else td_items_processed (tt_task t)) inside)
      in \<lparr>bs_completed = completed, bs_items = (if bk_unit b = Items then scaled (bk_scale b) raw_items else completed),
          bs_errors = scaled (bk_scale b) (of_nat (length (filter (\<lambda>t. td_status (tt_task t) = ''failed'') inside)))\<rparr>)"

definition bucket_snapshot :: "bucket_setup \<Rightarrow> rat \<Rightarrow> rat \<Rightarrow> timed_task list \<Rightarrow> bucket_sums \<Rightarrow> snapshot" where
  "bucket_snapshot b b_start b_end inside acc =
     (let n = bucket_counts b inside; durSec = max (1 / 20) ((b_end - b_start) / 1000);
          tasksPerSec = fixed_value 1 (bs_completed n / durSec); pct = calculatePercentiles (map tt_latency inside);
          med = (if p50 pct > 0 then p50 pct else if bk_p50 b > 0 then bk_p50 b else 21 / 10);
          inflight = min (bk_routes b) (of_int (js_round (tasksPerSec * med)))
      in \<lparr>sn_timestamp = of_int (js_round b_end), sn_start = of_int (js_round b_start), sn_completedDelta = bs_completed n,
          sn_itemsDelta = bs_items n, sn_authoritative = (bk_unit b = Items), sn_items = bs_items acc, sn_completed = bs_completed acc,
          sn_inflight = inflight, sn_ready = max 0 (bk_totalTasks b - bs_completed acc), sn_failed = bs_errors acc,
          sn_itemRate = fixed_value 1 (bs_items n / durSec), sn_taskRate = tasksPerSec, sn_p50 = med,
          sn_p95 = (if p95 pct = 0 then bk_p95 b else p95 pct), sn_activeProxies = min inflight (bk_routes b), sn_errors = bs_errors acc\<rparr>)"

definition add_sums :: "bucket_sums \<Rightarrow> bucket_sums \<Rightarrow> bucket_sums" where
  "add_sums a b = \<lparr>bs_completed = bs_completed a + bs_completed b, bs_items = bs_items a + bs_items b, bs_errors = bs_errors a + bs_errors b\<rparr>"

text \<open>The loop over \<open>k\<close> more buckets from \<open>i\<close>, with the running acc.\<close>

fun reconstruct :: "bucket_setup \<Rightarrow> rat \<Rightarrow> rat \<Rightarrow> timed_task list \<Rightarrow> nat \<Rightarrow> nat \<Rightarrow> bucket_sums \<Rightarrow> snapshot list" where
  "reconstruct b start width ts i 0 acc = []"
| "reconstruct b start width ts i (Suc k) acc =
     (let b_start = start + of_nat i * width; b_end = b_start + width; inside = filter (in_bucket b_start b_end) ts;
          acc' = add_sums acc (bucket_counts b inside)
      in bucket_snapshot b b_start b_end inside acc' # reconstruct b start width ts (Suc i) k acc')"

definition has_progression :: "snapshot list \<Rightarrow> bool" where
  "has_progression snapshots \<longleftrightarrow> length snapshots \<ge> 5 \<and> sn_completed (last snapshots) > sn_completed (hd snapshots)"

definition bucket_count :: "timed_task list \<Rightarrow> nat" where
  "bucket_count ts = min 30 (max 10 (length ts))"

definition sample_scale :: "rat \<Rightarrow> timed_task list \<Rightarrow> rat" where
  "sample_scale completed ts = (if ts \<noteq> [] \<and> completed > of_nat (length ts) then completed / of_nat (length ts) else 1)"

text \<open>\<open>jobStart\<close> and \<open>jobEnd\<close> are the times in the details, \<open>None\<close> where they are missing.\<close>

definition time_span :: "rat option \<Rightarrow> rat option \<Rightarrow> timed_task list \<Rightarrow> rat" where
  "time_span jobStart jobEnd ts =
     (let s = of_int (tt_time (hd ts)); e = of_int (tt_time (last ts)) in max (e - s) (or_else jobEnd e - or_else jobStart s))"

definition effective_snapshots ::
  "clock \<Rightarrow> bool \<Rightarrow> rate_unit \<Rightarrow> latency_percentiles \<Rightarrow> rat option \<Rightarrow> rat option \<Rightarrow> rat \<Rightarrow> rat \<Rightarrow> rat \<Rightarrow> task_detail list \<Rightarrow> snapshot list \<Rightarrow> snapshot list" where
  "effective_snapshots clk live u pct jobStart jobEnd completed total_tasks routes tasks snapshots =
     (let ts = timed_tasks clk (p50 pct) tasks
      in if live \<and> snapshots \<noteq> [] then snapshots
         else if has_progression snapshots \<or> length ts < 2 \<or> time_span jobStart jobEnd ts \<le> 1000 then snapshots
         else reconstruct \<lparr>bk_unit = u, bk_scale = sample_scale completed ts, bk_p50 = p50 pct, bk_p95 = p95 pct, bk_routes = routes, bk_totalTasks = total_tasks\<rparr>
                (of_int (tt_time (hd ts))) (time_span jobStart jobEnd ts / of_nat (bucket_count ts)) ts 0 (bucket_count ts)
                \<lparr>bs_completed = 0, bs_items = 0, bs_errors = 0\<rparr>)"

section \<open>The model of capacity\<close>

text \<open>What is read of the runtime telemetry of the whole job.\<close>

record job_telemetry =
  jt_task_count :: rat
  jt_active_window_ms :: rat
  jt_mean_task_ms :: "rat option"
  jt_route_active_sum_ms :: rat
  jt_route_attempts :: rat
  jt_worker_capacity :: "rat option"
  jt_steady_throughput :: "rat option"
  jt_steady_mean_task_ms :: "rat option"
  jt_ramp_ms :: "rat option"
  jt_drain_ms :: "rat option"
  jt_workers_seen :: "rat option"
  jt_expected_workers :: "rat option"
  jt_recovery_count :: "rat option"
  jt_recovered_tasks :: "rat option"
  jt_inflight :: "rat option"
  jt_active_routes :: "rat option"

definition telemetry_complete :: "rat \<Rightarrow> job_telemetry option \<Rightarrow> bool" where
  "telemetry_complete terminal rt = (case rt of None \<Rightarrow> False | Some r \<Rightarrow> terminal > 0 \<and> jt_task_count r \<ge> terminal)"

text \<open>A number that is not zero, as the code asks for with \<open>&&\<close>.\<close>

definition nonzero :: "rat option \<Rightarrow> rat option" where
  "nonzero v = (case v of Some q \<Rightarrow> if q = 0 then None else Some q | None \<Rightarrow> None)"

definition active_window_sec :: "job_telemetry option \<Rightarrow> rat option" where
  "active_window_sec full = map_option (\<lambda>w. w / 1000) (nonzero (map_option jt_active_window_ms full))"

definition metadata_invalid :: "rat \<Rightarrow> rat option \<Rightarrow> bool" where
  "metadata_invalid metadataSec window = (case window of None \<Rightarrow> False | Some w \<Rightarrow> metadataSec + 1 < w * (95 / 100))"

definition total_duration_sec :: "rat \<Rightarrow> rat option \<Rightarrow> int" where
  "total_duration_sec metadataSec window =
     max 1 (js_round (if metadata_invalid metadataSec window then zero window else metadataSec))"

definition duration_text :: "int \<Rightarrow> string" where
  "duration_text s =
     (let hrs = s div 3600; mins = s mod 3600 div 60; secs = s mod 60
      in if hrs > 0 then show_int hrs @ ''h '' @ show_int mins @ ''m '' @ show_int secs @ ''s''
         else if mins > 0 then show_int mins @ ''m '' @ show_int secs @ ''s'' else show_int secs @ ''s'')"

text \<open>
  The inputs of the model: the telemetry when it is complete, the median latency, the routes, the workers, the
  tasks that each of them should run at once, and the tasks completed.
\<close>

record capacity_inputs =
  ci_full :: "job_telemetry option"
  ci_p50 :: rat
  ci_routes :: rat
  ci_workers :: rat
  ci_target :: rat

definition effective_service_time :: "capacity_inputs \<Rightarrow> rat" where
  "effective_service_time c =
     or_else (map_option (\<lambda>m. m / 1000) (nonzero (Option.bind (ci_full c) jt_mean_task_ms))) (if ci_p50 c > 0 then ci_p50 c else 21 / 10)"

definition mean_route_active :: "capacity_inputs \<Rightarrow> rat option" where
  "mean_route_active c =
     (case ci_full c of
        None \<Rightarrow> None
      | Some r \<Rightarrow> if jt_task_count r > 0 \<and> jt_route_active_sum_ms r > 0 then Some (jt_route_active_sum_ms r / jt_task_count r / 1000) else None)"

definition mean_route_attempt :: "capacity_inputs \<Rightarrow> rat option" where
  "mean_route_attempt c =
     (case ci_full c of
        None \<Rightarrow> None
      | Some r \<Rightarrow> if jt_route_attempts r > 0 \<and> jt_route_active_sum_ms r > 0 then Some (jt_route_active_sum_ms r / jt_route_attempts r / 1000) else None)"

definition effective_route_time :: "capacity_inputs \<Rightarrow> rat" where
  "effective_route_time c = or_else (mean_route_active c) (effective_service_time c)"

definition theoretical_proxy_max :: "capacity_inputs \<Rightarrow> rat" where
  "theoretical_proxy_max c = fixed_value 1 (ci_routes c / max (1 / 20) (effective_route_time c))"

definition concurrency_demand :: "capacity_inputs \<Rightarrow> rat" where
  "concurrency_demand c =
     (let measured = zero (Option.bind (ci_full c) jt_worker_capacity) in if measured > 0 then measured else max 1 (ci_workers c * ci_target c))"

definition theoretical_worker_max :: "capacity_inputs \<Rightarrow> rat" where
  "theoretical_worker_max c = fixed_value 1 (concurrency_demand c / effective_service_time c)"

definition governing_capacity :: "capacity_inputs \<Rightarrow> rat" where
  "governing_capacity c =
     (if ci_routes c > 0 then min (theoretical_proxy_max c) (theoretical_worker_max c) else theoretical_worker_max c)"

definition bound_by_routes :: "capacity_inputs \<Rightarrow> bool" where
  "bound_by_routes c \<longleftrightarrow> ci_routes c > 0 \<and> theoretical_proxy_max c \<le> theoretical_worker_max c"

subsection \<open>Peak\<close>

definition burst_cap :: "capacity_inputs \<Rightarrow> rat" where
  "burst_cap c = (if ci_routes c > 0 then fixed_value 1 (ci_routes c / min (effective_route_time c) (1 / 2)) else 0)"

definition recordPeakRate :: "rat \<Rightarrow> rat \<Rightarrow> rat \<Rightarrow> rat" where
  "recordPeakRate cap rate peak = (if rate \<le> 0 \<or> cap \<le> 0 then peak else max peak (fixed_value 1 (min rate cap)))"

fun step_rates :: "rate_unit \<Rightarrow> snapshot list \<Rightarrow> rat list" where
  "step_rates u (a # b # rest) =
     (let dt = (sn_timestamp b - sn_timestamp a) / 1000; dTasks = max 0 (sn_completed b - sn_completed a); dItems = max 0 (sn_items b - sn_items a)
      in (if dt \<ge> 2 / 5 \<and> dTasks > 0 then [(if u = Items then dItems else dTasks) / dt] else []) @ step_rates u (b # rest))"
| "step_rates u _ = []"

definition shown_rate :: "rate_unit \<Rightarrow> snapshot \<Rightarrow> rat" where
  "shown_rate u s = (if u = Items then sn_itemRate s else sn_taskRate s)"

definition second_weight :: "rate_unit \<Rightarrow> timed_task \<Rightarrow> rat" where
  "second_weight u t = (if u = Items \<and> td_items_processed (tt_task t) \<noteq> 0 then td_items_processed (tt_task t) else 1)"

text \<open>The largest number within one second after a completion, the tasks in the order of completion.\<close>

fun max_in_second :: "rate_unit \<Rightarrow> timed_task list \<Rightarrow> rat" where
  "max_in_second u [] = 0"
| "max_in_second u (t # ts) =
     max (sum_list (map (second_weight u) (takeWhile (\<lambda>s. tt_time s \<le> tt_time t + 1000) (t # ts)))) (max_in_second u ts)"

definition second_burst :: "rate_unit \<Rightarrow> timed_task list \<Rightarrow> rat list" where
  "second_burst u ts = (if length ts \<ge> 2 \<and> max_in_second u ts > 0 then [fixed_value 1 (max_in_second u ts)] else [])"

definition peak_rate :: "capacity_inputs \<Rightarrow> rate_unit \<Rightarrow> snapshot list \<Rightarrow> snapshot list \<Rightarrow> timed_task list \<Rightarrow> rat" where
  "peak_rate c u snapshots effective ts =
     fold (recordPeakRate (burst_cap c))
       (step_rates u snapshots @ map (shown_rate u) snapshots @ map (shown_rate u) effective @ second_burst u ts) 0"

definition peak_per_sec :: "capacity_inputs \<Rightarrow> rate_unit \<Rightarrow> snapshot list \<Rightarrow> snapshot list \<Rightarrow> timed_task list \<Rightarrow> rat \<Rightarrow> rat \<Rightarrow> rat" where
  "peak_per_sec c u snapshots effective ts current average =
     fixed_value 1 (min (burst_cap c) (max (max (peak_rate c u snapshots effective ts) current) average))"

definition peak_capped :: "capacity_inputs \<Rightarrow> rat \<Rightarrow> bool" where
  "peak_capped c peak \<longleftrightarrow> burst_cap c > 0 \<and> peak \<ge> burst_cap c"

subsection \<open>Efficiency and occupancy\<close>

definition efficiency_percent :: "capacity_inputs \<Rightarrow> rat \<Rightarrow> rat" where
  "efficiency_percent c average =
     (let activeThroughput = (case ci_full c of
            Some r \<Rightarrow> if jt_active_window_ms r > 0 then jt_task_count r / (jt_active_window_ms r / 1000) else average
          | None \<Rightarrow> average)
      in fixed_value 1 (activeThroughput / max 1 (governing_capacity c) * 100))"

definition steady_ceiling :: "capacity_inputs \<Rightarrow> rat" where
  "steady_ceiling c =
     (let serviceTime = or_else (map_option (\<lambda>m. m / 1000) (nonzero (Option.bind (ci_full c) jt_steady_mean_task_ms))) (effective_service_time c);
          proxyCeiling = ci_routes c / max (1 / 20) (effective_route_time c); workerCeiling = concurrency_demand c / max (1 / 20) serviceTime
      in if ci_routes c > 0 then min proxyCeiling workerCeiling else workerCeiling)"

definition steady_efficiency :: "capacity_inputs \<Rightarrow> rat option" where
  "steady_efficiency c =
     map_option (\<lambda>t. fixed_value 1 (t / steady_ceiling c * 100)) (Option.bind (ci_full c) jt_steady_throughput)"

definition ramp_drain_percent :: "job_telemetry option \<Rightarrow> rat option" where
  "ramp_drain_percent full =
     (case full of
        None \<Rightarrow> None
      | Some r \<Rightarrow>
          (case (jt_ramp_ms r, jt_drain_ms r) of
             (Some a, Some d) \<Rightarrow>
               if jt_active_window_ms r > 0 \<and> a + d \<le> jt_active_window_ms r then Some (fixed_value 1 ((a + d) / jt_active_window_ms r * 100)) else None
           | _ \<Rightarrow> None))"

datatype occupancy_gap =
  Routing_stall | Ramp_drain | Worker_availability | Queue_starvation | Intermittent_supply | Insufficient_data | Steady_saturated

definition occupancy_gap_of :: "rat \<Rightarrow> rat option \<Rightarrow> rat \<Rightarrow> rat option \<Rightarrow> rat option \<Rightarrow> rat option \<Rightarrow> occupancy_gap" where
  "occupancy_gap_of recoveries steady efficiency seen expected ready =
     (if recoveries > 0 then Routing_stall
      else case steady of
             None \<Rightarrow> Insufficient_data
           | Some s \<Rightarrow>
               if s \<ge> 90 \<and> s \<ge> efficiency + 5 then Ramp_drain
               else if (case (expected, seen) of (Some e, Some w) \<Rightarrow> e > 0 \<and> w < e | _ \<Rightarrow> False) then Worker_availability
               else if (case ready of Some r \<Rightarrow> r < 10 | None \<Rightarrow> False) then Queue_starvation
               else if s < 90 \<and> (case ready of Some r \<Rightarrow> r < 90 | None \<Rightarrow> False) then Intermittent_supply
               else if s < 90 then Insufficient_data
               else Steady_saturated)"

subsection \<open>Concurrency\<close>

definition littles_law :: "capacity_inputs \<Rightarrow> rat \<Rightarrow> rat" where
  "littles_law c tasksPerSec = fixed_value 1 (min (ci_routes c) (tasksPerSec * effective_service_time c))"

definition active_bucket :: "snapshot \<Rightarrow> bool" where
  "active_bucket s \<longleftrightarrow> sn_completed s > 0 \<and> (sn_taskRate s > 0 \<or> sn_itemRate s > 0) \<and> sn_inflight s > 0"

definition bucket_average :: "snapshot list \<Rightarrow> rat" where
  "bucket_average bs = fixed_value 1 (sum_list (map sn_inflight bs) / of_nat (length bs))"

text \<open>The concurrency and the routes in use before measurements replace them.\<close>

definition estimated_concurrency :: "capacity_inputs \<Rightarrow> bool \<Rightarrow> rat \<Rightarrow> rat \<Rightarrow> snapshot list \<Rightarrow> rat \<times> rat" where
  "estimated_concurrency c live running little effective =
     (let buckets = filter active_bucket effective; routes_of = (\<lambda>a. min (ci_routes c) (of_int (js_round a)))
      in if \<not> live \<and> little > 0
         then (let a = or_else (Option.bind (ci_full c) jt_inflight) little in (a, routes_of (or_else (Option.bind (ci_full c) jt_active_routes) a)))
         else if buckets \<noteq> []
         then (let o_avg = bucket_average buckets; a = (if o_avg \<ge> 3 / 4 * little \<and> o_avg > 0 then o_avg else if little > 0 then little else o_avg)
               in (a, routes_of a))
         else (let a = (if little > 0 then little else if live then running else 0) in (a, routes_of a)))"

definition active_concurrency :: "capacity_inputs \<Rightarrow> bool \<Rightarrow> rat \<Rightarrow> rat \<Rightarrow> snapshot list \<Rightarrow> rat \<times> rat" where
  "active_concurrency c live running tasksPerSec effective =
     (let little = littles_law c tasksPerSec; est = estimated_concurrency c live running little effective;
          a = or_else (Option.bind (ci_full c) jt_inflight) (fst est);
          r = (case Option.bind (ci_full c) jt_active_routes of Some m \<Rightarrow> of_int (js_round m) | None \<Rightarrow> snd est)
      in if a = 0 \<and> \<not> live \<and> tasksPerSec > 0 then (little, min (ci_routes c) (of_int (js_round little))) else (a, r))"

definition route_utilization :: "rat \<Rightarrow> rat \<Rightarrow> rat" where
  "route_utilization capacity routes = (if capacity > 0 then fixed_value 1 (routes / capacity * 100) else 0)"

definition route_counts :: "rat \<Rightarrow> route_anomaly list \<Rightarrow> rat \<times> nat \<times> nat" where
  "route_counts capacity anomalies =
     (let degraded = length (filter (\<lambda>a. ra_status a = Degraded_route) anomalies); critical = length (filter (\<lambda>a. ra_status a = Critical_route) anomalies)
      in (max 0 (capacity - of_nat degraded - of_nat critical), degraded, critical))"

section \<open>Responses are counted by class\<close>

definition all_classes :: "response_class list" where
  "all_classes = [Rate_limit, Forbidden, Not_found, Server_error, Timeout_error, Other_error]"

lemma sum_by_class: "sum_list (map (\<lambda>c. sum_list (map w (filter (\<lambda>x. k x = c) xs))) all_classes) = (sum_list (map w xs) :: rat)"
proof (induction xs)
  case (Cons x xs)
  then show ?case by (cases "k x") (simp_all add: all_classes_def)
qed (simp add: all_classes_def)

lemma total_task_counts: "sum_list (map (task_count_of tasks) all_classes) = of_nat (length (failed_texts tasks))"
  using sum_by_class [of "\<lambda>_. 1" task_class "failed_texts tasks"] by (simp add: task_count_of_def all_classes_def sum_list_triv)

lemma total_group_counts: "sum_list (map (group_count groups) all_classes) = sum_list (map snd (counted_groups groups))"
  using sum_by_class [of snd "\<lambda>g. group_class (fst g)" "counted_groups groups"] by (simp add: group_count_def [abs_def])

text \<open>Without groups every failed task with a message is counted once; with groups their counts, and the tasks of the classes that no group has.\<close>

lemma total_observed:
  "hd_totalObserved (http_distribution_of job details tasks) = completedJobTasks job details +
     (if error_groups job details = [] then of_nat (length (failed_texts tasks))
      else sum_list (map snd (counted_groups (error_groups job details)))
           + sum_list (map (task_count_of tasks) (filter (\<lambda>c. group_count (error_groups job details) c = 0) all_classes)))"
proof -
  define g where "g = error_groups job details"
  have nonneg: "0 \<le> task_count_of tasks c" for c by (simp add: task_count_of_def)
  have each: "response_count g tasks c = group_count g c + (if group_count g c = 0 then task_count_of tasks c else 0)" if "g \<noteq> []" for c
    using that nonneg [of c] by (auto simp: response_count_def)
  have obs: "hd_totalObserved (http_distribution_of job details tasks) = completedJobTasks job details + sum_list (map (response_count g tasks) all_classes)"
    by (simp add: http_distribution_of_def Let_def all_classes_def g_def)
  show ?thesis
  proof (cases "g = []")
    case True
    then have "response_count g tasks = task_count_of tasks" by (simp add: response_count_def fun_eq_iff)
    then show ?thesis using True obs total_task_counts [of tasks] by (simp add: g_def [symmetric])
  next
    case False
    have "sum_list (map (response_count g tasks) all_classes)
        = sum_list (map (group_count g) all_classes) + sum_list (map (\<lambda>c. if group_count g c = 0 then task_count_of tasks c else 0) all_classes)"
      by (simp add: all_classes_def each [OF False])
    also have "sum_list (map (\<lambda>c. if group_count g c = 0 then task_count_of tasks c else 0) all_classes)
        = sum_list (map (task_count_of tasks) (filter (\<lambda>c. group_count g c = 0) all_classes))"
      by (simp add: sum_list_map_filter')
    finally show ?thesis using False obs total_group_counts [of g] by (simp add: g_def [symmetric])
  qed
qed

definition failed_task :: task_detail where
  "failed_task = \<lparr>td_message = JNull, td_task_id = None, td_task_type = [], td_status = ''failed'', td_site = None, td_username = None,
     td_content_type = None, td_payload = JNull, td_worker_id = None, td_started_at = None, td_completed_at = None, td_progress = Fin 0,
     td_items_processed = 0, td_items_total = None, td_error = Some ''Too many requests'', td_result = JNull, td_proxy_url = JNull,
     td_proxy_routes = JNull, td_proxy_hop_used = JNull, td_duration = JNull\<rparr>"

text \<open>The two lists of patterns differ, so failures of one kind can be counted in two classes.\<close>

lemma many_requests_classes: "group_class ''Too many requests'' = Rate_limit" "task_class ''Too many requests'' = Other_error"
  by code_simp+

lemma failures_counted_twice:
  "response_count [(''Too many requests'', Fin 2)] [failed_task, failed_task] Rate_limit = 2
   \<and> response_count [(''Too many requests'', Fin 2)] [failed_task, failed_task] Other_error = 2"
proof -
  have "counted_groups [(''Too many requests'', Fin 2)] = [(''Too many requests'', 2)]" by (simp add: counted_groups_def map_filter_def)
  moreover have "failed_texts [failed_task, failed_task] = [''Too many requests'', ''Too many requests'']"
    by (simp add: failed_texts_def map_filter_def failed_task_def nonempty_def)
  ultimately show ?thesis
    by (simp only: response_count_def group_count_def task_count_of_def filter.simps fst_conv many_requests_classes) simp
qed

section \<open>Attempts of the routes\<close>

definition attempts_of :: "route_entry list \<Rightarrow> rat" where
  "attempts_of m = sum_list (map re_attempts m)"

lemma update_first_attempts:
  "has_url u m \<Longrightarrow> (\<And>e. re_attempts (f e) = re_attempts e + 1) \<Longrightarrow> attempts_of (update_first (\<lambda>x. re_url x = u) f m) = attempts_of m + 1"
  by (induction m) (auto simp: has_url_def attempts_of_def)

lemma update_first_urls: "(\<And>e. re_url e = u \<Longrightarrow> re_url (f e) = u) \<Longrightarrow> map re_url (update_first (\<lambda>x. re_url x = u) f m) = map re_url m"
  by (induction m) auto

lemma attempt_entry [simp]: "re_attempts (attempt clk agg t e) = re_attempts e + 1" "re_url (attempt clk agg t e) = re_url e"
  by (simp_all add: attempt_def Let_def)

lemma count_task_attempts:
  "attempts_of (count_task reader clk direct agg t m) = attempts_of m + (if direct \<or> task_route t \<noteq> ''direct'' then 1 else 0)"
proof -
  have "attempts_of (m @ [new_entry reader u]) = attempts_of m" for u by (simp add: attempts_of_def new_entry_def)
  moreover have "has_url u (m @ [new_entry reader u])" for u by (simp add: has_url_def new_entry_def)
  ultimately show ?thesis
    using update_first_attempts [of "task_route t" m "attempt clk agg t"]
      update_first_attempts [of "task_route t" "m @ [new_entry reader (task_route t)]" "attempt clk agg t"]
    unfolding count_task_def Let_def by simp
qed

lemma count_task_urls: "distinct (map re_url m) \<Longrightarrow> distinct (map re_url (count_task reader clk direct agg t m))"
  by (simp add: count_task_def Let_def update_first_urls has_url_def new_entry_def)

lemma fold_count_task:
  "attempts_of (fold (count_task reader clk direct agg) tasks m)
     = attempts_of m + of_nat (length (filter (\<lambda>t. direct \<or> task_route t \<noteq> ''direct'') tasks))"
  by (induction tasks arbitrary: m) (simp_all add: count_task_attempts)

lemma fold_count_task_urls: "distinct (map re_url m) \<Longrightarrow> distinct (map re_url (fold (count_task reader clk direct agg) tasks m))"
  by (induction tasks arbitrary: m) (simp_all add: count_task_urls)

lemma count_group_keeps: "map re_attempts (count_group g m) = map re_attempts m \<and> map re_url (count_group g m) = map re_url m"
  by (simp add: count_group_def split: prod.split)

lemma fold_count_group: "map re_attempts (fold count_group gs m) = map re_attempts m \<and> map re_url (fold count_group gs m) = map re_url m"
  by (induction gs arbitrary: m) (simp_all add: count_group_keeps)

lemma put_route_keeps:
  assumes "re_attempts e = 0" "distinct (map re_url m)" "\<forall>x \<in> set m. re_attempts x = 0"
  shows "distinct (map re_url (put_route e m)) \<and> (\<forall>x \<in> set (put_route e m). re_attempts x = 0)"
proof -
  have "\<forall>x \<in> set (update_first (\<lambda>x. re_url x = re_url e) (\<lambda>_. e) m). re_attempts x = 0" using assms(1,3) by (induction m) auto
  then show ?thesis using assms by (auto simp: put_route_def has_url_def update_first_urls)
qed

lemma seeded:
  "distinct (map re_url m) \<Longrightarrow> \<forall>x \<in> set m. re_attempts x = 0 \<Longrightarrow>
     distinct (map re_url (fold (\<lambda>p. put_route (seed_entry reader p)) ps m)) \<and> (\<forall>x \<in> set (fold (\<lambda>p. put_route (seed_entry reader p)) ps m). re_attempts x = 0)"
proof (induction ps arbitrary: m)
  case (Cons p ps)
  have "re_attempts (seed_entry reader p) = 0" by (simp add: seed_entry_def new_entry_def)
  from put_route_keeps [OF this Cons.prems] have "distinct (map re_url (put_route (seed_entry reader p) m))"
    "\<forall>x \<in> set (put_route (seed_entry reader p) m). re_attempts x = 0" by (rule conjunct1, rule conjunct2)
  from Cons.IH [OF this] show ?case unfolding fold.simps o_apply .
qed simp

text \<open>Each task is an attempt of exactly one route, and each route is listed once.\<close>

lemma route_attempts_account:
  "attempts_of (route_entries reader clk direct proxies groups tasks) = of_nat (length (filter (\<lambda>t. direct \<or> task_route t \<noteq> ''direct'') tasks))
   \<and> distinct (map re_url (route_entries reader clk direct proxies groups tasks))"
proof -
  define m where "m = fold (\<lambda>p. put_route (seed_entry reader p)) (or_else proxies []) []"
  have m: "distinct (map re_url m)" "\<forall>x \<in> set m. re_attempts x = 0" unfolding m_def using seeded [of "[]"] by simp_all
  have zero: "attempts_of m = 0" using m(2) by (simp add: attempts_of_def sum_list_0 cong: map_cong)
  have "attempts_of (route_entries reader clk direct proxies groups tasks) = attempts_of (fold (count_task reader clk direct (groups \<noteq> [])) tasks m)"
    by (simp add: route_entries_def attempts_of_def fold_count_group m_def)
  then show ?thesis
    using zero fold_count_task_urls [OF m(1)] by (simp add: fold_count_task route_entries_def fold_count_group m_def)
qed

section \<open>Snapshots of disjoint intervals\<close>

definition good_snapshot :: "snapshot \<Rightarrow> bool" where
  "good_snapshot s \<longleftrightarrow> 0 < sn_start s \<and> sn_start s < sn_timestamp s \<and> 0 \<le> sn_completedDelta s \<and> 0 \<le> sn_itemsDelta s"

definition good_history :: "snapshot list \<Rightarrow> bool" where
  "good_history h \<longleftrightarrow> sorted_wrt (\<lambda>s t. sn_timestamp s \<le> sn_start t) h \<and> (\<forall>s \<in> set h. good_snapshot s)"

definition sampler_inv :: "sampler \<Rightarrow> bool" where
  "sampler_inv sa \<longleftrightarrow> good_history (sa_history sa) \<and> length (sa_history sa) \<le> MAX_SNAPSHOTS \<and> (sa_has sa \<longrightarrow> 0 < sb_timestamp (sa_last sa))
     \<and> (sa_has sa \<and> sa_historyJob sa = sa_jobId sa \<longrightarrow> (\<forall>s \<in> set (sa_history sa). sn_timestamp s \<le> sb_timestamp (sa_last sa)))"

text \<open>The clock of the backend does not go back behind the observations of a job that are shown.\<close>

definition later_observation :: "sampling_inputs \<Rightarrow> sampler \<Rightarrow> bool" where
  "later_observation x sa \<longleftrightarrow> (\<forall>s \<in> set (shown_snapshots (si_jobId x) sa). sn_timestamp s \<le> si_observedAt x)"

lemma good_history_last_n: "good_history h \<Longrightarrow> good_history (last_n n h)"
  by (auto simp: good_history_def last_n_def sorted_wrt_drop dest: in_set_dropD)

lemma good_history_snoc:
  "good_history h \<Longrightarrow> \<forall>s \<in> set h. sn_timestamp s \<le> sn_start t \<Longrightarrow> good_snapshot t \<Longrightarrow> good_history (h @ [t])"
  by (auto simp: good_history_def sorted_wrt_append)

lemma set_last_n: "set (last_n n h) \<subseteq> set h"
  by (simp add: last_n_def set_drop_subset)

lemma new_snapshot_fields [simp]:
  "sn_timestamp (new_snapshot x b) = si_observedAt x" "sn_start (new_snapshot x b) = sb_timestamp b"
  "sn_completedDelta (new_snapshot x b) = si_completed x - sb_completed b" "sn_itemsDelta (new_snapshot x b) = si_items x - sb_items b"
  by (simp_all add: new_snapshot_def Let_def)

lemma resetBaseline_fields [simp]:
  "sa_history (resetBaseline x sa) = sa_history sa" "sa_historyJob (resetBaseline x sa) = sa_historyJob sa" "sa_jobId (resetBaseline x sa) = sa_jobId sa"
  "sa_has (resetBaseline x sa)" "sb_timestamp (sa_last (resetBaseline x sa)) = si_observedAt x"
  by (simp_all add: resetBaseline_def)

lemma for_job_inv: "sampler_inv sa \<Longrightarrow> sampler_inv (for_job x sa)"
  by (simp add: sampler_inv_def for_job_def)

lemma for_job_fields [simp]:
  "sa_jobId (for_job x sa) = si_jobId x" "sa_history (for_job x sa) = sa_history sa" "sa_historyJob (for_job x sa) = sa_historyJob sa"
  by (simp_all add: for_job_def)

lemma resetBaseline_inv:
  assumes "sampler_inv sa" "0 < si_observedAt x" "sa_historyJob sa = sa_jobId sa \<Longrightarrow> \<forall>s \<in> set (sa_history sa). sn_timestamp s \<le> si_observedAt x"
  shows "sampler_inv (resetBaseline x sa)"
  using assms by (simp add: sampler_inv_def)

lemma extended_inv:
  assumes inv: "sampler_inv sa" and id: "sa_jobId sa = si_jobId x" and pos: "0 < si_observedAt x"
    and new: "sb_timestamp (sa_last sa) < si_observedAt x" and on: "\<not> starts_over x sa"
  shows "sampler_inv (resetBaseline x (sa\<lparr>sa_historyJob := si_jobId x,
           sa_history := last_n MAX_SNAPSHOTS (shown_snapshots (si_jobId x) sa @ [new_snapshot x (sa_last sa)])\<rparr>))"
proof -
  let ?h = "shown_snapshots (si_jobId x) sa" and ?n = "new_snapshot x (sa_last sa)"
  have has: "sa_has sa" and d: "sb_completed (sa_last sa) \<le> si_completed x" "sb_items (sa_last sa) \<le> si_items x" using on by (auto simp: starts_over_def)
  have h: "good_history ?h" "\<forall>s \<in> set ?h. sn_timestamp s \<le> sb_timestamp (sa_last sa)"
    using inv id has by (auto simp: sampler_inv_def shown_snapshots_def good_history_def [of "[]"])
  have "good_snapshot ?n" using inv has new d by (simp add: good_snapshot_def sampler_inv_def)
  then have "good_history (?h @ [?n])" using h by (intro good_history_snoc) simp_all
  moreover have "\<forall>s \<in> set (?h @ [?n]). sn_timestamp s \<le> si_observedAt x" using h(2) new by auto
  ultimately show ?thesis
    using set_last_n [of MAX_SNAPSHOTS "?h @ [?n]"] pos id
    by (auto simp: sampler_inv_def good_history_last_n) (auto simp: last_n_def)
qed

lemma sampler_inv_step:
  assumes "sampler_inv sa" "later_observation x sa"
  shows "sampler_inv (sample x sa)"
proof -
  let ?sa = "for_job x sa"
  have inv: "sampler_inv ?sa" by (rule for_job_inv [OF assms(1)])
  have later: "sa_historyJob ?sa = sa_jobId ?sa \<Longrightarrow> \<forall>s \<in> set (sa_history ?sa). sn_timestamp s \<le> si_observedAt x"
    using assms(2) by (simp add: later_observation_def shown_snapshots_def)
  consider "sample x sa = ?sa" | "0 < si_observedAt x" "sample x sa = resetBaseline x ?sa"
    | "0 < si_observedAt x" "sb_timestamp (sa_last ?sa) < si_observedAt x" "\<not> starts_over x ?sa"
      "sample x sa = resetBaseline x (?sa\<lparr>sa_historyJob := si_jobId x,
         sa_history := last_n MAX_SNAPSHOTS (shown_snapshots (si_jobId x) ?sa @ [new_snapshot x (sa_last ?sa)])\<rparr>)"
    by (fastforce simp: sample_def Let_def not_le split: if_splits)
  then show ?thesis
  proof cases
    case 1
    then show ?thesis using inv by simp
  next
    case 2
    then show ?thesis using resetBaseline_inv [OF inv 2(1) later] by simp
  next
    case 3
    then show ?thesis using extended_inv [OF inv _ 3(1,2,3)] by simp
  qed
qed

interpretation sampling: invariant_machine "\<lambda>sa. \<exists>i. sa = new_sampler i" later_observation sample sampler_inv
proof
  show "sampler_inv sa" if "\<exists>i. sa = new_sampler i" for sa using that by (auto simp: sampler_inv_def new_sampler_def good_history_def)
  show "sampler_inv (sample x sa)" if "sampler_inv sa" "later_observation x sa" for sa x using that by (rule sampler_inv_step)
qed

section \<open>Rates over windows\<close>

lemma covered_within:
  "sorted_wrt (\<lambda>s t. sn_timestamp s \<le> sn_start t) h \<Longrightarrow> \<forall>s \<in> set h. a \<le> sn_start s \<and> sn_start s \<le> sn_timestamp s \<and> sn_timestamp s \<le> b \<Longrightarrow> a \<le> b
     \<Longrightarrow> sum_list (map interval_ms h) \<le> b - a"
proof (induction h arbitrary: a)
  case (Cons s h)
  have "sum_list (map interval_ms h) \<le> b - sn_timestamp s" using Cons.prems by (intro Cons.IH) auto
  moreover have "a \<le> sn_start s" using Cons.prems by simp
  moreover have "interval_ms s = sn_timestamp s - sn_start s" by (simp add: interval_ms_def)
  ultimately show ?case by simp
qed simp

lemma weighted_mean:
  assumes "\<forall>s \<in> set h. 0 < interval_ms s \<and> lo \<le> unit_delta u s / (interval_ms s / 1000) \<and> unit_delta u s / (interval_ms s / 1000) \<le> hi"
  shows "lo * (sum_list (map interval_ms h) / 1000) \<le> sum_list (map (unit_delta u) h)
    \<and> sum_list (map (unit_delta u) h) \<le> hi * (sum_list (map interval_ms h) / 1000)"
  using assms
proof (induction h)
  case (Cons s h)
  then have s: "0 < interval_ms s / 1000" "lo \<le> unit_delta u s / (interval_ms s / 1000)" "unit_delta u s / (interval_ms s / 1000) \<le> hi" by simp_all
  have "lo * (interval_ms s / 1000) \<le> unit_delta u s" using s(2) unfolding pos_le_divide_eq [OF s(1)] .
  moreover have "unit_delta u s \<le> hi * (interval_ms s / 1000)" using s(3) unfolding pos_divide_le_eq [OF s(1)] .
  moreover have "lo * (sum_list (map interval_ms h) / 1000) \<le> sum_list (map (unit_delta u) h)"
    "sum_list (map (unit_delta u) h) \<le> hi * (sum_list (map interval_ms h) / 1000)" using Cons by simp_all
  ultimately show ?case by (simp add: add_divide_distrib distrib_left)
qed simp

lemma sn_le_last: "good_history h \<Longrightarrow> s \<in> set h \<Longrightarrow> sn_timestamp s \<le> sn_timestamp (last h)"
proof (induction h rule: rev_induct)
  case (snoc t h)
  have "good_snapshot t" using snoc.prems(1) by (simp add: good_history_def)
  then show ?case using snoc.prems by (auto simp: good_history_def sorted_wrt_append good_snapshot_def)
qed simp

lemma counted_in_window: "counted_sample e (Some w) u s \<Longrightarrow> sn_timestamp s \<le> e \<Longrightarrow> e - w \<le> sn_start s"
  by (auto simp: counted_sample_def Let_def interval_ms_def split: if_splits)

lemma counted_short: "counted_sample e (Some w) u s \<Longrightarrow> interval_ms s \<le> w"
  by (auto simp: counted_sample_def Let_def interval_ms_def split: if_splits)

lemma unit_delta_nonneg: "good_snapshot s \<Longrightarrow> 0 \<le> unit_delta u s"
  by (simp add: good_snapshot_def unit_delta_def split: rate_unit.split)

lemma observedRate_window:
  assumes h: "good_history h" and w: "0 \<le> w"
  shows "0 \<le> fst (observedRate h (Some w) u) \<and> snd (observedRate h (Some w) u) \<le> w / 1000"
proof (cases "h = []")
  case False
  define c where "c = filter (counted_sample (sn_timestamp (last h)) (Some w) u) h"
  have c: "\<forall>s \<in> set c. good_snapshot s \<and> sn_timestamp (last h) - w \<le> sn_start s \<and> sn_timestamp s \<le> sn_timestamp (last h)"
    using h sn_le_last [OF h] counted_in_window by (auto simp: c_def good_history_def)
  have "sum_list (map interval_ms c) \<le> sn_timestamp (last h) - (sn_timestamp (last h) - w)"
    using h c w by (intro covered_within) (auto simp: c_def good_history_def sorted_wrt_filter good_snapshot_def)
  moreover have "0 \<le> sum_list (map (unit_delta u) c)" using c by (auto intro!: sum_list_nonneg simp: unit_delta_nonneg)
  moreover have "0 \<le> sum_list (map interval_ms c)"
    using c by (intro sum_list_nonneg) (auto simp: interval_ms_def good_snapshot_def intro: less_imp_le)
  ultimately show ?thesis by (simp add: observedRate_def Let_def c_def [symmetric] divide_right_mono)
qed (use w in \<open>simp add: observedRate_def\<close>)

lemma observedRate_mean:
  assumes "\<forall>s \<in> set h. lo \<le> unit_delta u s / (interval_ms s / 1000) \<and> unit_delta u s / (interval_ms s / 1000) \<le> hi" "0 < snd (observedRate h w u)"
  shows "lo \<le> fst (observedRate h w u) \<and> fst (observedRate h w u) \<le> hi"
proof -
  define c where "c = filter (counted_sample (sn_timestamp (last h)) w u) h"
  have "\<forall>s \<in> set c. 0 < interval_ms s \<and> lo \<le> unit_delta u s / (interval_ms s / 1000) \<and> unit_delta u s / (interval_ms s / 1000) \<le> hi"
    using assms(1) by (simp add: c_def counted_sample_def Let_def)
  then have m: "lo * (sum_list (map interval_ms c) / 1000) \<le> sum_list (map (unit_delta u) c)"
    "sum_list (map (unit_delta u) c) \<le> hi * (sum_list (map interval_ms c) / 1000)" using weighted_mean by blast+
  have pos: "0 < sum_list (map interval_ms c) / 1000" using assms(2) by (simp add: observedRate_def Let_def c_def)
  then have "fst (observedRate h w u) = sum_list (map (unit_delta u) c) / (sum_list (map interval_ms c) / 1000)"
    by (simp add: observedRate_def Let_def c_def)
  then show ?thesis using m unfolding pos_le_divide_eq [OF pos, symmetric] pos_divide_le_eq [OF pos, symmetric] by simp
qed


definition observe :: "rat \<Rightarrow> rat \<Rightarrow> sampling_inputs" where
  "observe t n = \<lparr>si_jobId = ''j'', si_detailsId = Some ''j'', si_observedAt = t, si_completed = n, si_items = n, si_authoritative = False, si_inflight = 4,
     si_ready = 0, si_failed = 0, si_errors = 0, si_p50 = 1, si_p95 = 2, si_capacity = 0, si_live = True\<rparr>"

definition two_polls :: sampler where
  "two_polls = sample (observe 3000 6) (sample (observe 1000 2) (new_sampler ''j''))"

lemma two_polls_shown:
  "map (\<lambda>s. (sn_start s, sn_timestamp s, sn_completedDelta s, sn_inflight s)) (shown_snapshots ''j'' two_polls) = [(1000, 3000, 4, 0)]"
  "observedRate (shown_snapshots ''j'' two_polls) (Some 60000) Tasks = (2, 2)"
  by code_simp+


text \<open>A job whose capacity is not known shows no work in flight, whatever the backend counts.\<close>

lemma unknown_capacity_hides_work:
  assumes "si_capacity x = 0" "0 < si_inflight x"
  shows "sn_inflight (new_snapshot x b) = 0"
  using assms by (simp add: new_snapshot_def calculated_inflight_def Let_def)

text \<open>Nor is its utilization a number.\<close>

lemma unknown_capacity_utilization: "0 \<le> inflight \<Longrightarrow> cs_utilization (proxy_capacity_of 0 enabled direct inflight) = NaN"
  by (simp add: proxy_capacity_of_def utilization_def)

text \<open>
  When the backend answers less often than every five seconds, no interval lies wholly in the window of recent work, and every
  job that makes progress is reported as decreasing by 100 percent.
\<close>

lemma fixed_minus_hundred: "fixed_value 1 (- 100) = - 100"
  by code_simp

lemma slow_polls_look_like_decline:
  assumes "h \<noteq> []" "\<forall>s \<in> set h. 5000 < interval_ms s" "0 < fst (observedRate h (Some 60000) u)"
  shows "th_trend (window_stats u h) = Decreasing \<and> th_trendDelta (window_stats u h) = - 100"
proof -
  have "filter (counted_sample (sn_timestamp (last h)) (Some 5000) u) h = []"
    using assms(2) counted_short by (fastforce simp: filter_empty_conv)
  then have r: "fst (observedRate h (Some 5000) u) = 0" by (simp add: observedRate_def Let_def)
  have "trend_delta 0 (fst (observedRate h (Some 60000) u)) = - 100"
    using assms(3) fixed_minus_hundred by (simp add: trend_delta_def)
  then show ?thesis
    using r by (cases u) (simp_all add: window_stats_def Let_def trend_of_def)
qed

section \<open>Buckets of the reconstructed history\<close>

lemma bucket_partition:
  assumes "0 \<le> width"
  shows "sum_list (map (\<lambda>i. length (filter (in_bucket (s + of_nat i * width) (s + of_nat i * width + width)) ts)) [0..<k])
    = length (filter (in_bucket s (s + of_nat k * width)) ts)"
proof (induction k)
  case (Suc k)
  let ?m = "s + of_nat k * width"
  have "length (filter (in_bucket s ?m) ts) + length (filter (in_bucket ?m (?m + width)) ts) = length (filter (in_bucket s (?m + width)) ts)"
  proof (induction ts)
    case (Cons t ts)
    have "s \<le> ?m" "?m \<le> ?m + width" using assms by simp_all
    then have "in_bucket s (?m + width) t \<longleftrightarrow> in_bucket s ?m t \<or> in_bucket ?m (?m + width) t" "\<not> (in_bucket s ?m t \<and> in_bucket ?m (?m + width) t)"
      unfolding in_bucket_def by linarith+
    then show ?case using Cons by auto
  qed simp
  then show ?case using Suc by (simp add: algebra_simps)
qed (simp add: in_bucket_def)

text \<open>
  When the details give no longer window, the buckets end at the last completion, and the last bucket does not
  include its end: the task that finished last is in none of them.
\<close>

lemma last_completion_in_no_bucket:
  assumes "length ts \<ge> 2" "time_span jobStart jobEnd ts = of_int (tt_time (last ts)) - of_int (tt_time (hd ts))"
    "tt_time (hd ts) < tt_time (last ts)"
  shows "(\<Sum>i \<leftarrow> [0..<bucket_count ts]. length (filter (in_bucket (of_int (tt_time (hd ts)) + of_nat i * (time_span jobStart jobEnd ts / of_nat (bucket_count ts)))
      (of_int (tt_time (hd ts)) + of_nat i * (time_span jobStart jobEnd ts / of_nat (bucket_count ts)) + time_span jobStart jobEnd ts / of_nat (bucket_count ts))) ts))
    < length ts"
proof -
  let ?s = "of_int (tt_time (hd ts)) :: rat" and ?w = "time_span jobStart jobEnd ts / of_nat (bucket_count ts)"
  have k: "(of_nat (bucket_count ts) :: rat) \<noteq> 0" by (simp add: bucket_count_def)
  have "0 \<le> ?w" using assms(2,3) by simp
  moreover have "?s + of_nat (bucket_count ts) * ?w = of_int (tt_time (last ts))" using k assms(2) by simp
  then have "\<not> in_bucket ?s (?s + of_nat (bucket_count ts) * ?w) (last ts)" by (simp add: in_bucket_def)
  then have "length (filter (in_bucket ?s (?s + of_nat (bucket_count ts) * ?w)) ts) < length ts"
    using assms(1) by (intro length_filter_less [of "last ts"]) (auto intro: last_in_set)
  ultimately show ?thesis by (simp only: bucket_partition)
qed

section \<open>The peak\<close>

text \<open>Without a known capacity the ceiling is zero, and with it the peak, whatever the average.\<close>

lemma unknown_capacity_peak: "ci_routes c = 0 \<Longrightarrow> 0 \<le> average \<Longrightarrow> peak_per_sec c u snapshots effective ts current average = 0"
  by (simp add: peak_per_sec_def burst_cap_def min_def max_def fixed_value_def fixed_mag_def js_round_def)

lemma recordPeakRate_cap: "0 \<le> peak \<Longrightarrow> peak \<le> fixed_value 1 cap \<Longrightarrow> 0 \<le> recordPeakRate cap rate peak \<and> recordPeakRate cap rate peak \<le> fixed_value 1 cap"
  by (auto simp: recordPeakRate_def fixed_value_mono le_max_iff_disj)

section \<open>The velocity of errors\<close>

lemma fixed_value_hundred: "fixed_value 0 100 = 100"
  by code_simp

lemma safety_margin_range: "0 \<le> errors \<Longrightarrow> 0 \<le> safety_margin errors limit \<and> safety_margin errors limit \<le> 100"
  by (simp add: safety_margin_def fixed_value_nonneg)

text \<open>A window with as many errors as the limit allows is critical, and the warning never gets weaker with more errors.\<close>

lemma safety_margin_full:
  assumes "limit \<le> errors" "1 \<le> errors"
  shows "safety_margin errors limit = 100"
proof -
  have "100 \<le> errors / max 1 limit * 100" using assms by (simp add: field_simps)
  from fixed_value_mono [OF this, of 0] show ?thesis by (simp add: safety_margin_def fixed_value_hundred)
qed

lemma limit_reached_critical: "limit \<le> errors \<Longrightarrow> 1 \<le> errors \<Longrightarrow> error_trend_of errors completed limit consecutive = Critical_trend"
  by (simp add: error_trend_of_def Let_def safety_margin_full)

lemma safety_margin_mono: "e \<le> f \<Longrightarrow> safety_margin e limit \<le> safety_margin f limit"
  unfolding safety_margin_def by (intro min.mono fixed_value_mono mult_right_mono divide_right_mono) simp_all

lemma error_share_mono:
  fixes e f completed :: rat
  assumes "0 \<le> e" "e \<le> f" "0 \<le> completed"
  shows "(if completed + e > 0 then e / (completed + e) else 0) \<le> (if completed + f > 0 then f / (completed + f) else 0)"
proof (cases "completed + e > 0")
  case True
  then have "e * (completed + f) \<le> f * (completed + e)" using assms by (simp add: algebra_simps mult_left_mono)
  then show ?thesis using True assms by (simp add: divide_le_eq le_divide_eq mult.commute pos_divide_le_eq pos_le_divide_eq frac_le_eq field_simps)
qed (use assms in auto)

fun trend_rank :: "error_trend \<Rightarrow> nat" where
  "trend_rank Stable = 0"
| "trend_rank Elevated = 1"
| "trend_rank Critical_trend = 2"

lemma error_trend_mono:
  assumes "0 \<le> e" "e \<le> f" "0 \<le> completed" "m \<le> n"
  shows "trend_rank (error_trend_of e completed limit m) \<le> trend_rank (error_trend_of f completed limit n)"
proof -
  define rate where "rate x = (if completed + x > 0 then x / (completed + x) else 0)" for x :: rat
  define share where "share p = (of_int \<lceil>limit * p\<rceil> :: rat)" for p :: rat
  define crit where "crit x \<longleftrightarrow> 80 \<le> safety_margin x limit \<or> max 5 (share (4 / 5)) \<le> x \<or> (3 / 10 \<le> rate x \<and> max 10 (share (2 / 5)) \<le> x)" for x
  define elev where "elev x k \<longleftrightarrow> 50 \<le> safety_margin x limit \<or> max 3 (share (1 / 2)) \<le> x \<or> (1 / 10 \<le> rate x \<and> max 5 (share (1 / 5)) \<le> x) \<or> 5 \<le> (k :: nat)" for x k
  have "rate e \<le> rate f" unfolding rate_def by (rule error_share_mono [OF assms(1-3)])
  moreover note safety_margin_mono [OF assms(2), of limit]
  ultimately have step: "crit e \<Longrightarrow> crit f" "elev e m \<Longrightarrow> elev f n" unfolding crit_def elev_def using assms(2,4) by (meson order_trans)+
  have "error_trend_of x completed limit k = (if crit x then Critical_trend else if elev x k then Elevated else Stable)" for x k
    unfolding error_trend_of_def Let_def crit_def elev_def rate_def share_def by simp
  then show ?thesis using step by simp
qed

end
