(* ===== verification/Pages.thy ===== *)
theory Pages
  imports ApiUrls Users "HOL-Library.AList"
begin

text \<open>
  What the pages decide in plain functions: the tokens of plugins (\<open>features/plugins/lib/pluginClient.ts\<close>), the recovery catalogue of failed jobs
  (\<open>features/jobs/lib/jobRecoveryCatalog.ts\<close>), tokens of file name formats (\<open>utils/formatTokens.ts\<close>), the navigation
  (\<open>components/layout/navigation.ts\<close>), saved content searches (\<open>features/content-library/lib/contentLibraryUtils.ts\<close>), and the
  small readers of \<open>features/jobs/lib/jobCreatorUtils.ts\<close>, \<open>features/plugins/lib/pluginManifestOptions.ts\<close>, \<open>features/tools/lib/toolsUtils.ts\<close> and
  \<open>features/chats/lib/chatUtils.ts\<close>.
\<close>

section \<open>Tokens of plugins\<close>

record token_store =
  tk_tokens :: "(string \<times> string \<times> rat) list"
  tk_pending :: "string list"

definition no_tokens :: token_store where
  "no_tokens = \<lparr>tk_tokens = [], tk_pending = []\<rparr>"

definition tokenKey :: "string option \<Rightarrow> string \<Rightarrow> string" where
  "tokenKey connection pluginId = or_else connection [] @ CHR 0x00 # pluginId"

datatype token_answer = Cached_token string | Joins_request | Starts_request

definition tokenFor :: "string \<Rightarrow> rat \<Rightarrow> token_store \<Rightarrow> token_answer \<times> token_store" where
  "tokenFor key now_ms st =
     (let waits = (if key \<in> set (tk_pending st) then (Joins_request, st) else (Starts_request, st\<lparr>tk_pending := tk_pending st @ [key]\<rparr>))
      in case map_of (tk_tokens st) key of
           Some (token, expires) \<Rightarrow> if expires > now_ms then (Cached_token token, st) else waits
         | None \<Rightarrow> waits)"

definition token_arrives :: "string \<Rightarrow> string \<Rightarrow> rat \<Rightarrow> rat \<Rightarrow> token_store \<Rightarrow> token_store" where
  "token_arrives key token expires_in now_ms st =
     st\<lparr>tk_tokens := AList.update key (token, now_ms + (expires_in - 30) * 1000) (tk_tokens st), tk_pending := filter (\<lambda>k. k \<noteq> key) (tk_pending st)\<rparr>"

definition token_fails :: "string \<Rightarrow> token_store \<Rightarrow> token_store" where
  "token_fails key st = st\<lparr>tk_pending := filter (\<lambda>k. k \<noteq> key) (tk_pending st)\<rparr>"

definition forgetPluginToken :: "string \<Rightarrow> token_store \<Rightarrow> token_store" where
  "forgetPluginToken pluginId st = st\<lparr>tk_tokens := filter (\<lambda>x. \<not> ends_with (CHR 0x00 # pluginId) (fst x)) (tk_tokens st)\<rparr>"

datatype token_action = NeedToken string rat | TokenArrives string string rat rat | TokenFails string | ForgetToken string

fun token_step :: "token_action \<Rightarrow> token_store \<Rightarrow> token_store" where
  "token_step (NeedToken key now_ms) st = snd (tokenFor key now_ms st)"
| "token_step (TokenArrives key token expires_in now_ms) st = token_arrives key token expires_in now_ms st"
| "token_step (TokenFails key) st = token_fails key st"
| "token_step (ForgetToken p) st = forgetPluginToken p st"

text \<open>An answer comes for a request on its way.\<close>

fun token_enabled :: "token_action \<Rightarrow> token_store \<Rightarrow> bool" where
  "token_enabled (TokenArrives key token expires_in now_ms) st \<longleftrightarrow> key \<in> set (tk_pending st)"
| "token_enabled (TokenFails key) st \<longleftrightarrow> key \<in> set (tk_pending st)"
| "token_enabled _ st \<longleftrightarrow> True"

section \<open>Recovery of failed jobs\<close>

definition ERROR_CATEGORIES :: "(string \<times> string list) list" where
  "ERROR_CATEGORIES =
     [(''url_expired'', [''url_expired'', ''url_expired_runtime'', ''no_url'']),
      (''ip_mismatch'', [''ip_mismatch'']),
      (''download_error'', [''download_error'', ''network_error'']),
      (''content_issues'', [''content_expired'', ''content_deleted_runtime'']),
      (''data_issues'', [''size_mismatch'', ''disk_full''])]"

definition CATEGORIZED_REASONS :: "string list" where
  "CATEGORIZED_REASONS = concat (map snd ERROR_CATEGORIES)"

definition categoryMatches :: "string \<Rightarrow> string \<Rightarrow> bool" where
  "categoryMatches category reason \<longleftrightarrow>
     (if category = ''other'' then reason \<notin> set CATEGORIZED_REASONS
      else reason \<in> set (or_else (map_of ERROR_CATEGORIES category) []))"

text \<open>\<open>Number(value || 0)\<close> for counts, which are finite numbers or missing.\<close>

definition countCategoryErrors :: "(string \<times> rat option) list \<Rightarrow> string \<Rightarrow> rat" where
  "countCategoryErrors breakdown category =
     sum_list (map (\<lambda>b. or_else (snd b) 0) (filter (\<lambda>b. category = ''all'' \<or> categoryMatches category (fst b)) breakdown))"

definition failedItemReasons :: "(rat \<Rightarrow> string) \<Rightarrow> jsobject \<Rightarrow> string list" where
  "failedItemReasons fs item =
     (case oget item ''errors'' of
        JArr es \<Rightarrow> List.map_filter (\<lambda>e. case e of JObj ob \<Rightarrow> if ''reason'' \<in> fst ` set ob then Some (js_String fs (oget ob ''reason'')) else None | _ \<Rightarrow> None) es
      | _ \<Rightarrow> [])"

definition filterFailedItemsByCategory :: "(rat \<Rightarrow> string) \<Rightarrow> jsobject list \<Rightarrow> string \<Rightarrow> jsobject list" where
  "filterFailedItemsByCategory fs items category =
     (if category = ''all'' then items
      else filter (\<lambda>item. \<exists>r \<in> set (failedItemReasons fs item). categoryMatches category r) items)"

section \<open>Formats of file names\<close>

definition PERFORMER_TOKENS :: "string list" where
  "PERFORMER_TOKENS = [''site_name'', ''user_username'', ''user_id'', ''first_username_letter'', ''first_id_digit'']"

definition CONTENT_TOKENS :: "string list" where
  "CONTENT_TOKENS = [''authed_username'', ''content_type'', ''content_value'', ''content_id'', ''content_date'', ''media_type'', ''media_id'']"

definition FILE_TOKENS :: "string list" where
  "FILE_TOKENS = [''content_text'', ''media_filename'', ''media_ext'']"

definition LEGACY_TOKENS :: "string list" where
  "LEGACY_TOKENS = [''value'', ''api_type'', ''model_username'', ''filename'', ''ext'', ''text'', ''date'', ''first_letter'']"

definition KNOWN_TOKENS :: "string list" where
  "KNOWN_TOKENS = PERFORMER_TOKENS @ CONTENT_TOKENS @ FILE_TOKENS @ LEGACY_TOKENS"

text \<open>The matches of \<open>/\{([^}]*)\}/g\<close>: from an opening brace to the next closing one.\<close>

fun braced :: "string \<Rightarrow> string list" where
  "braced [] = []"
| "braced (c # s) =
     (if c = CHR ''{'' then
        (case dropWhile (\<lambda>x. x \<noteq> CHR ''}'') s of [] \<Rightarrow> [] | _ # rest \<Rightarrow> takeWhile (\<lambda>x. x \<noteq> CHR ''}'') s # braced (drop (Suc (length (takeWhile (\<lambda>x. x \<noteq> CHR ''}'') s))) s))
      else braced s)"

fun collect_invalid :: "string list \<Rightarrow> string list \<Rightarrow> string list" where
  "collect_invalid invalid [] = invalid"
| "collect_invalid invalid (token # ts) =
     collect_invalid (if token \<notin> set KNOWN_TOKENS \<and> token \<notin> set invalid then invalid @ [token] else invalid) ts"

definition invalidFormatTokens :: "string \<Rightarrow> string list" where
  "invalidFormatTokens template = collect_invalid [] (braced template)"

section \<open>Navigation\<close>

datatype match_mode = Default_mode | Root_mode | Subscriptions_mode | Users_mode

record nav_item =
  ni_path :: string
  ni_label :: string
  ni_mode :: match_mode

definition nav :: "string \<Rightarrow> string \<Rightarrow> nav_item" where
  "nav p l = \<lparr>ni_path = p, ni_label = l, ni_mode = Default_mode\<rparr>"

definition navigationSections :: "(string \<times> nav_item list) list" where
  "navigationSections =
     [(''Monitor'', [(nav ''/'' ''Dashboard'')\<lparr>ni_mode := Root_mode\<rparr>, nav ''/statistics'' ''Statistics'', nav ''/logs'' ''Logs'']),
      (''Jobs'', [nav ''/jobs'' ''Jobs'', nav ''/orders'' ''Orders'']),
      (''Content'', [nav ''/content'' ''Content'', nav ''/favourites'' ''Favourites'']),
      (''People'', [(nav ''/users'' ''Users'')\<lparr>ni_mode := Users_mode\<rparr>, (nav ''/subscriptions'' ''Subscriptions'')\<lparr>ni_mode := Subscriptions_mode\<rparr>,
         nav ''/chats'' ''Chats'', nav ''/auths'' ''Auths'']),
      (''Platform'', [nav ''/system'' ''System'', nav ''/network'' ''Network'', nav ''/webhooks'' ''Webhooks'', nav ''/tools'' ''Tools'',
         nav ''/plugins'' ''Plugins'', nav ''/mock'' ''Mock'']),
      (''Settings'', [nav ''/settings'' ''Settings''])]"

definition DEV_MODE_PATHS :: "string list" where
  "DEV_MODE_PATHS = [''/plugins'', ''/mock'']"

definition getNavigationSections :: "bool \<Rightarrow> (string \<times> nav_item list) list" where
  "getNavigationSections dev =
     (if dev then navigationSections
      else map (\<lambda>s. (fst s, filter (\<lambda>i. ni_path i \<notin> set DEV_MODE_PATHS) (snd s))) navigationSections)"

text \<open>\<open>source\<close> is the parameter of that name in the query.\<close>

definition isNavItemActive :: "nav_item \<Rightarrow> string \<Rightarrow> string option \<Rightarrow> bool \<Rightarrow> bool" where
  "isNavItemActive item pathname source routerActive =
     (let context = starts_with ''/users/'' pathname \<and> source = Some ''subscriptions''
      in case ni_mode item of
           Root_mode \<Rightarrow> pathname = ''/''
         | Subscriptions_mode \<Rightarrow> routerActive \<or> context
         | Users_mode \<Rightarrow> \<not> context \<and> routerActive
         | Default_mode \<Rightarrow> routerActive)"

record page_meta =
  pm_title :: string
  pm_section :: string
  pm_description :: string

definition meta :: "string \<Rightarrow> string \<Rightarrow> string \<Rightarrow> page_meta" where
  "meta t s d = \<lparr>pm_title = t, pm_section = s, pm_description = d\<rparr>"

definition pageMetaMatchers :: "((string \<Rightarrow> bool) \<times> page_meta) list" where
  "pageMetaMatchers =
     [((=) ''/'', meta ''Dashboard'' ''Monitor'' ''Track queue health, worker activity, and recovery signals.''),
      ((=) ''/statistics'', meta ''Statistics'' ''Monitor'' ''Review throughput, site activity, and pipeline totals.''),
      ((=) ''/logs'', meta ''Logs'' ''Monitor'' ''Inspect runtime events, diagnostics, and system output.''),
      (starts_with ''/jobs'', meta ''Jobs'' ''Jobs'' ''Create new work, inspect execution, and recover failures.''),
      ((=) ''/orders'', meta ''Orders'' ''Jobs'' ''Review order queues and expand task-level fulfillment details.''),
      ((=) ''/content'', meta ''Content Library'' ''Content'' ''Browse indexed media, apply filters, and save loadouts.''),
      ((=) ''/media'', meta ''Media'' ''Content'' ''Inspect stored assets and playback-ready content.''),
      ((=) ''/favourites'', meta ''Favourites'' ''Content'' ''Keep high-value creators and sources close to hand.''),
      ((=) ''/users'', meta ''Users'' ''People'' ''Review creators, segment lists, and trigger actions in bulk.''),
      (starts_with ''/users/'', meta ''User Profile'' ''People'' ''Inspect identity, subscriptions, content, and operator actions.''),
      ((=) ''/subscriptions'', meta ''Subscriptions'' ''People'' ''Audit active creators, loadouts, and subscription health.''),
      ((=) ''/chats'', meta ''Chats'' ''People'' ''Track messages, outreach context, and conversation state.''),
      ((=) ''/auths'', meta ''Auths'' ''People'' ''Manage credentials, session health, and verification flows.''),
      ((=) ''/system'', meta ''System'' ''Platform'' ''Monitor runtime status, workers, storage, and remote backends.''),
      ((=) ''/network'', meta ''Network'' ''Platform'' ''Operate proxies, connection health, and analyzer workflows.''),
      ((=) ''/webhooks'', meta ''Webhooks'' ''Platform'' ''Manage outbound hooks, watch lists, and delivery telemetry.''),
      ((=) ''/tools'', meta ''Tools'' ''Platform'' ''Run the Mass Profile Scraper and send raw API requests.''),
      ((=) ''/plugins'', meta ''Plugins'' ''Platform'' ''Create, inspect, and manage plugin manifests and lifecycle.''),
      ((=) ''/mock'', meta ''Design Lab'' ''Platform'' ''Compare interactive Webhooks and Mass Profile Scraper designs.''),
      ((=) ''/settings'', meta ''Settings'' ''Settings'' ''Configure services, directories, site defaults, and policies.''),
      ((=) ''/setup'', meta ''Setup'' ''Settings'' ''Initialize the runtime, database, and support requirements.'')]"

definition getPageMeta :: "string \<Rightarrow> page_meta" where
  "getPageMeta pathname =
     (case List.find (\<lambda>e. fst e pathname) pageMetaMatchers of
        Some e \<Rightarrow> snd e
      | None \<Rightarrow> meta ''UltimaScraper'' ''Workspace'' ''Operate jobs, people, and platform services from the WebUI shell.'')"

definition formatDocumentTitle :: "string \<Rightarrow> string" where
  "formatDocumentTitle title = (if title = ''UltimaScraper'' then ''UltimaScraper'' else title @ '' | UltimaScraper'')"

definition getDocumentTitle :: "string \<Rightarrow> string" where
  "getDocumentTitle pathname = formatDocumentTitle (pm_title (getPageMeta pathname))"

definition getUserProfileDocumentTitle :: "string option \<Rightarrow> string" where
  "getUserProfileDocumentTitle username =
     formatDocumentTitle (or_str (map_option (\<lambda>u. dropWhile (\<lambda>c. c = CHR ''@'') (trim u)) username) ''User Profile'')"

section \<open>Saved content searches\<close>

definition FILTER_KEYS :: "string list" where
  "FILTER_KEYS = [''purchased'', ''locked'', ''free'', ''has_media'', ''no_media'', ''has_video'', ''has_photo'', ''has_audio'', ''archived'', ''deleted'', ''expiring'', ''text'']"

datatype filter_state = Filter_none | Filter_include | Filter_exclude

definition filter_state_of :: "json \<Rightarrow> filter_state option" where
  "filter_state_of v =
     (if v = JStr ''include'' then Some Filter_include else if v = JStr ''exclude'' then Some Filter_exclude
      else if v = JStr ''none'' then Some Filter_none else None)"

record content_search =
  co_identifier :: string
  co_site :: string
  co_contentType :: string
  co_sortBy :: string
  co_ascending :: bool
  co_advanced :: "(string \<times> filter_state) list"
  co_excluded :: "jsnum list"

definition positive_ids :: "jsnum list \<Rightarrow> jsnum list" where
  "positive_ids = filter (\<lambda>n. case n of Fin q \<Rightarrow> q > 0 | PosInf \<Rightarrow> True | _ \<Rightarrow> False)"

definition string_or :: "json \<Rightarrow> string \<Rightarrow> string" where
  "string_or v d = (case v of JStr s \<Rightarrow> s | _ \<Rightarrow> d)"

definition applyContentLoadoutState :: "(rat \<Rightarrow> string) \<Rightarrow> string \<Rightarrow> string \<Rightarrow> jsobject \<Rightarrow> content_search" where
  "applyContentLoadoutState fs identifier site filters =
     (let raw = oget filters ''advanced_filters''
      in \<lparr>co_identifier = identifier, co_site = site, co_contentType = string_or (oget filters ''content_type'') [],
          co_sortBy = string_or (oget filters ''sort_by'') ''created_at'', co_ascending = (oget filters ''order'' = JStr ''asc''),
          co_advanced = map (\<lambda>k. (k, or_else (filter_state_of (jget raw k)) Filter_none)) FILTER_KEYS,
          co_excluded = (case oget filters ''exclude_user_ids'' of
             JArr xs \<Rightarrow> positive_ids (map (number_of fs) xs)
           | JStr s \<Rightarrow> positive_ids (map js_Number (split_on (CHR '','') s))
           | _ \<Rightarrow> [])\<rparr>)"

definition content_loadout_name :: "string \<Rightarrow> string \<Rightarrow> string \<Rightarrow> string" where
  "content_loadout_name site search searchInput =
     (let siteValue = or_str (Some (short_text 24 (or_str (Some site) ''all''))) ''all''; ident = short_text 36 (or_str (Some search) searchInput)
      in join '' | '' ((''site:'' @ siteValue) # (if ident = [] then [] else [''identifier:'' @ ident])))"

section \<open>Readers of forms\<close>

definition parseAuthId :: "json \<Rightarrow> rat option" where
  "parseAuthId v =
     (let finite = (\<lambda>n. case n of Fin q \<Rightarrow> Some q | _ \<Rightarrow> None)
      in case v of
           JNum n \<Rightarrow> finite n
         | JStr s \<Rightarrow> if trim s \<noteq> [] then finite (js_Number s) else None
         | _ \<Rightarrow> None)"

record template_parameter =
  tp_name :: string
  tp_type :: string
  tp_choices :: "json list option"

datatype param_type = Text_param | Multiselect_param | Select_param | Username_param | Boolean_param | Number_param

definition param_type_of :: "template_parameter \<Rightarrow> param_type" where
  "param_type_of p =
     (if tp_type p = ''multiselect'' then Multiselect_param
      else if or_else (tp_choices p) [] \<noteq> [] then Select_param
      else if tp_name p = ''username'' then Username_param
      else if tp_type p = ''bool'' then Boolean_param
      else if tp_type p = ''int'' \<or> tp_type p = ''float'' then Number_param
      else Text_param)"

definition param_label :: "string \<Rightarrow> string" where
  "param_label name = map upper_char (take 1 name) @ replace_char (CHR ''_'') (CHR '' '') (drop 1 name)"

definition param_options :: "(rat \<Rightarrow> string) \<Rightarrow> template_parameter \<Rightarrow> (string \<times> string) list" where
  "param_options fs p = map (\<lambda>c. (js_String fs c, js_String fs c)) (or_else (tp_choices p) [])"

definition parseOptionalInt :: "string \<Rightarrow> rat option" where
  "parseOptionalInt v =
     (if trim v = [] then None
      else case js_Number (trim v) of Fin q \<Rightarrow> if is_integral q \<and> q > 0 then Some q else None | _ \<Rightarrow> None)"

definition parseOptionalFloat :: "string \<Rightarrow> rat option" where
  "parseOptionalFloat v =
     (if trim v = [] then None else case js_Number (trim v) of Fin q \<Rightarrow> if q > 0 then Some q else None | _ \<Rightarrow> None)"

definition parseOptionalString :: "string \<Rightarrow> string option" where
  "parseOptionalString v = nonempty (trim v)"

definition mapping_text :: "string \<Rightarrow> json \<Rightarrow> string" where
  "mapping_text k v = (case v of JObj ob \<Rightarrow> (case oget ob k of JStr s \<Rightarrow> s | _ \<Rightarrow> []) | _ \<Rightarrow> [])"

definition getMappingSourcePath :: "json \<Rightarrow> string" where
  "getMappingSourcePath = mapping_text ''source_path''"

definition getMappingLiteral :: "json \<Rightarrow> string" where
  "getMappingLiteral = mapping_text ''literal''"

record chat_media =
  cm_url :: "string option"
  cm_thumb_url :: "string option"
  cm_preview_url :: "string option"
  cm_local_url :: "string option"

text \<open>\<open>resource\<close> and \<open>proxied\<close> are \<open>backendResourceUrl\<close> and \<open>getMediaProxyUrl\<close> of the page, modelled in \<open>ApiUrls\<close>.\<close>

definition proxy_url :: "(string \<Rightarrow> string option) \<Rightarrow> (string \<Rightarrow> string option) \<Rightarrow> string option \<Rightarrow> string option" where
  "proxy_url resource proxied u =
     (case Option.bind u nonempty of
        None \<Rightarrow> None
      | Some s \<Rightarrow> if starts_with ''/'' s then resource s else proxied s)"

definition proxyMediaUrls :: "(string \<Rightarrow> string option) \<Rightarrow> (string \<Rightarrow> string option) \<Rightarrow> chat_media list \<Rightarrow> chat_media list" where
  "proxyMediaUrls resource proxied media =
     map (\<lambda>m. m\<lparr>cm_url := proxy_url resource proxied (cm_url m), cm_thumb_url := proxy_url resource proxied (cm_thumb_url m),
                cm_preview_url := proxy_url resource proxied (cm_preview_url m), cm_local_url := proxy_url resource proxied (cm_local_url m)\<rparr>) media"

section \<open>Tokens\<close>

definition tokens_inv :: "token_store \<Rightarrow> bool" where
  "tokens_inv st \<longleftrightarrow> distinct (tk_pending st) \<and> distinct (map fst (tk_tokens st))"

lemma distinct_filter_fst: "distinct (map fst m) \<Longrightarrow> distinct (map fst (filter P m))"
  by (induction m) auto

lemma tokens_inv_step: "tokens_inv st \<Longrightarrow> tokens_inv (token_step a st)"
  by (cases a)
    (auto simp: tokens_inv_def tokenFor_def token_arrives_def token_fails_def forgetPluginToken_def Let_def distinct_update distinct_filter_fst
       split: option.split)

interpretation tokens: invariant_machine "\<lambda>st. st = no_tokens" token_enabled token_step tokens_inv
  by unfold_locales (simp_all add: tokens_inv_step, simp add: tokens_inv_def no_tokens_def)

text \<open>At most one request per backend and plugin is on its way; a token that is handed out has not expired; a token that is asked for while
  a request is on its way starts no other request.\<close>

lemma one_request_per_key:
  assumes "reachable (\<lambda>st. st = no_tokens) token_enabled token_step st"
  shows "distinct (tk_pending st) \<and> (key \<in> set (tk_pending st) \<longrightarrow> fst (tokenFor key now_ms st) \<noteq> Starts_request)
    \<and> (fst (tokenFor key now_ms st) = Cached_token t \<longrightarrow> (\<exists>e > now_ms. (key, t, e) \<in> set (tk_tokens st)))"
  using tokens.inv_reachable [OF assms] unfolding tokens_inv_def tokenFor_def Let_def
  by (auto split: option.splits if_splits dest!: map_of_SomeD)

lemma ends_with_key:
  assumes "CHR 0x00 \<notin> set p" "CHR 0x00 \<notin> set q"
  shows "ends_with (CHR 0x00 # q) (tokenKey c p) \<longleftrightarrow> p = q"
proof
  assume "ends_with (CHR 0x00 # q) (tokenKey c p)"
  then obtain z where z: "rev (tokenKey c p) = rev q @ CHR 0x00 # z"
    unfolding ends_with_def starts_with_def by (metis append_take_drop_id append.assoc append_Cons append_Nil rev.simps(2))
  then have e: "rev p @ CHR 0x00 # rev (or_else c []) = rev q @ CHR 0x00 # z" by (simp add: tokenKey_def)
  have n: "\<forall>x \<in> set (rev p). x \<noteq> CHR 0x00" "\<forall>x \<in> set (rev q). x \<noteq> CHR 0x00" using assms by auto
  have "takeWhile (\<lambda>x. x \<noteq> CHR 0x00) (rev p @ CHR 0x00 # rev (or_else c [])) = rev p"
    "takeWhile (\<lambda>x. x \<noteq> CHR 0x00) (rev q @ CHR 0x00 # z) = rev q" using n by (simp_all add: takeWhile_append takeWhile_eq_all_conv)
  then show "p = q" using e by simp
qed (simp add: ends_with_def starts_with_def tokenKey_def)

text \<open>Forgetting a plugin drops its tokens on every backend and no others.\<close>

lemma forget_exactly:
  assumes "CHR 0x00 \<notin> set p" "CHR 0x00 \<notin> set q"
  shows "map_of (tk_tokens (forgetPluginToken q st)) (tokenKey c p) = (if p = q then None else map_of (tk_tokens st) (tokenKey c p))"
proof -
  have "map_of (filter (\<lambda>x. P (fst x)) m) k = (if P k then map_of m k else None)" for P k and m :: "(string \<times> string \<times> rat) list"
    by (induction m) auto
  from this [of "\<lambda>k. \<not> ends_with (CHR 0x00 # q) k" "tk_tokens st" "tokenKey c p"] show ?thesis
    by (simp add: forgetPluginToken_def ends_with_key [OF assms])
qed

text \<open>A token that was asked for before its plugin was forgotten is kept when it arrives.\<close>

lemma late_token_survives_forget:
  "map_of (tk_tokens (token_step (TokenArrives ''k'' ''t'' 60 0) (token_step (ForgetToken p) (token_step (NeedToken ''k'' 0) no_tokens)))) ''k'' = Some (''t'', 30000)"
  by (simp add: tokenFor_def no_tokens_def forgetPluginToken_def token_arrives_def)

section \<open>Categories of failures\<close>

definition all_categories :: "string list" where
  "all_categories = map fst ERROR_CATEGORIES @ [''other'']"

lemma named_category: "c \<in> set (map fst ERROR_CATEGORIES) \<Longrightarrow> categoryMatches c r \<Longrightarrow> r \<in> set CATEGORIZED_REASONS"
proof -
  assume c: "c \<in> set (map fst ERROR_CATEGORIES)" and m: "categoryMatches c r"
  have "''other'' \<notin> set (map fst ERROR_CATEGORIES)" by (simp add: ERROR_CATEGORIES_def)
  then have "c \<noteq> ''other''" using c by metis
  then have "r \<in> set (or_else (map_of ERROR_CATEGORIES c) [])" using m by (simp only: categoryMatches_def if_False)
  then obtain rs where "map_of ERROR_CATEGORIES c = Some rs" "r \<in> set rs" by (cases "map_of ERROR_CATEGORIES c") (simp_all add: or_else_def)
  then show ?thesis unfolding CATEGORIZED_REASONS_def set_concat set_map by (metis UN_I image_eqI map_of_SomeD snd_conv)
qed

text \<open>Every reason is in exactly one category.\<close>

lemma known_reasons: "list_all (\<lambda>r. length (filter (\<lambda>c. categoryMatches c r) all_categories) = 1) CATEGORIZED_REASONS"
  by code_simp

lemma one_category: "length (filter (\<lambda>c. categoryMatches c r) all_categories) = 1"
proof (cases "r \<in> set CATEGORIZED_REASONS")
  case True
  then show ?thesis using known_reasons unfolding list_all_iff by blast
next
  case False
  then have "filter (\<lambda>c. categoryMatches c r) (map fst ERROR_CATEGORIES) = []" using named_category by (meson filter_False)
  moreover have "categoryMatches ''other'' r" using False by (simp only: categoryMatches_def if_True not_False_eq_True simp_thms)
  ultimately show ?thesis unfolding all_categories_def filter_append by simp
qed

lemma sum_categories:
  "(\<Sum>c \<leftarrow> cs. \<Sum>x \<leftarrow> filter (\<lambda>b. P c (fst b)) bs. w x) = (\<Sum>x \<leftarrow> bs. of_nat (length (filter (\<lambda>c. P c (fst x)) cs)) * (w x :: rat))"
proof (induction bs)
  case (Cons b bs)
  have "(\<Sum>c \<leftarrow> cs. \<Sum>x \<leftarrow> filter (\<lambda>b. P c (fst b)) (b # bs). w x)
      = (\<Sum>c \<leftarrow> cs. (if P c (fst b) then w b else 0) + (\<Sum>x \<leftarrow> filter (\<lambda>b. P c (fst b)) bs. w x))"
    by (induction cs) auto
  also have "(\<Sum>c \<leftarrow> cs. if P c (fst b) then w b else 0) = of_nat (length (filter (\<lambda>c. P c (fst b)) cs)) * w b"
    by (induction cs) (auto simp: algebra_simps)
  ultimately show ?case using Cons by (simp add: sum_list_addf)
qed simp

text \<open>The categories split the errors: their counts add up to the count of all.\<close>

lemma categories_add_up: "(\<Sum>c \<leftarrow> all_categories. countCategoryErrors breakdown c) = countCategoryErrors breakdown ''all''"
proof -
  have "''all'' \<notin> set all_categories" by (simp add: all_categories_def ERROR_CATEGORIES_def)
  then have "c \<noteq> ''all''" if "c \<in> set all_categories" for c using that by metis
  then have "(\<Sum>c \<leftarrow> all_categories. countCategoryErrors breakdown c)
      = (\<Sum>c \<leftarrow> all_categories. \<Sum>x \<leftarrow> filter (\<lambda>b. categoryMatches c (fst b)) breakdown. or_else (snd x) 0)"
    unfolding countCategoryErrors_def by (intro arg_cong [where f = sum_list] map_cong refl filter_cong) simp
  then show ?thesis by (simp add: sum_categories one_category countCategoryErrors_def)
qed

section \<open>Format tokens\<close>

lemma collect_invalid_eq:
  "collect_invalid invalid ts = invalid @ dedup (filter (\<lambda>t. t \<notin> set KNOWN_TOKENS \<and> t \<notin> set invalid) ts)"
proof (induction invalid ts rule: collect_invalid.induct)
  case (2 invalid t ts)
  have "filter (\<lambda>y. y \<noteq> x) (dedup xs) = dedup (filter (\<lambda>y. y \<noteq> x) xs)" for x :: string and xs
  proof (induction xs)
    case (Cons a xs)
    have "filter (\<lambda>y. y \<noteq> x) (filter (\<lambda>y. y \<noteq> a) (dedup xs)) = filter (\<lambda>y. y \<noteq> a) (filter (\<lambda>y. y \<noteq> x) (dedup xs))"
      by (simp add: conj_commute)
    then show ?case using Cons by (cases "a = x") (simp_all del: filter_filter)
  qed simp
  then show ?case using 2 by (auto simp: conj_ac intro!: arg_cong [where f = dedup] filter_cong)
qed simp

text \<open>The tokens reported are the unknown ones between braces, each once, in order of first appearance.\<close>

lemma invalidFormatTokens_eq: "invalidFormatTokens t = dedup (filter (\<lambda>k. k \<notin> set KNOWN_TOKENS) (braced t))"
  by (simp add: invalidFormatTokens_def collect_invalid_eq)

section \<open>Navigation\<close>

text \<open>Every entry of the navigation leads to a page whose heading names its section; without developer mode its pages are not listed.\<close>

lemma navigation_sections_named: "list_all (\<lambda>s. list_all (\<lambda>i. pm_section (getPageMeta (ni_path i)) = fst s) (snd s)) navigationSections"
  by code_simp

lemma no_dev_pages: "s \<in> set (getNavigationSections False) \<Longrightarrow> i \<in> set (snd s) \<Longrightarrow> ni_path i \<notin> set DEV_MODE_PATHS"
  by (auto simp: getNavigationSections_def)

lemma users_or_subscriptions:
  "ni_mode u = Users_mode \<Longrightarrow> ni_mode s = Subscriptions_mode \<Longrightarrow> starts_with ''/users/'' path \<Longrightarrow>
     isNavItemActive u path source True \<and> isNavItemActive s path source False \<longleftrightarrow> False"
  by (auto simp: isNavItemActive_def Let_def)

section \<open>Saved searches\<close>

lemma loadout_state_well_formed:
  "map fst (co_advanced (applyContentLoadoutState fs i s f)) = FILTER_KEYS
   \<and> (\<forall>n \<in> set (co_excluded (applyContentLoadoutState fs i s f)). n = PosInf \<or> (\<exists>q > 0. n = Fin q))"
  by (auto simp: applyContentLoadoutState_def Let_def positive_ids_def o_def split: json.splits jsnum.splits)

end
