(* ===== verification/Spec2Isabelle.thy ===== *)
theory Spec2Isabelle
  imports LiveSocket AuthImport PluginHost SettingsMerge SetupRules ArchPlan DrivePaths FleetStorage NetworkTools JobProgress Connections ApiUrls TaskRoutes
    Runbook Diagnostics Comparison Rates Favourites Users Statistics Session Webhooks Telemetry Pages
begin

text \<open>
  A verification of the web client of UltimaScraper (\<open>src/src/UltimaScraperWeb/webui/src\<close>, TypeScript). The client is a
  React application over the API of a scraper: it keeps one shared WebSocket per backend for live events, imports
  site credentials, hosts plugins, edits settings, guides the setup of clusters and shows jobs, storage and the
  network. What decides something in it sits in plain functions and a few state machines, and those are modelled
  here; the React components that call them draw their results.

  \<^bold>\<open>Layout.\<close> Paths below are relative to the directory above.

  \<^item> \<open>JsPrelude\<close>, \<open>JsRegex\<close>, \<open>JsJson\<close>: what the source uses of the language. Strings are lists of bytes, numbers are exact
    rationals with the infinities and NaN, plain objects are association lists in enumeration order, arrays are
    lists, \<open>sort\<close> is a stable sort by a comparator (locale \<open>comparator\<close>), regular expressions run in a backtracking
    matcher, \<open>JSON.stringify\<close> is a function. Reachable states and the locale \<open>invariant_machine\<close> are defined here, with
    \<open>update_first\<close> for an object that is found in a list and mutated.
  \<^item> \<open>LiveSocket\<close>: \<open>hooks/useWebSocket.ts\<close>. The state of a shared socket and of the registry, with every browser event
    and every client call as a step; the browser is a nondeterministic environment. Invariants over reachable states.
  \<^item> \<open>AuthImport\<close>: \<open>features/auths/lib/authsUtils.ts\<close>. The lenient Python-or-JSON parser, format detection, and
    normalisation of credentials.
  \<^item> \<open>PluginHost\<close>: \<open>features/plugins/lib/pluginHost.ts\<close>. The registry of active plugins, their contributions and hooks, and
    the API handed to a plugin, with its revocation.
  \<^item> \<open>SettingsMerge\<close>: \<open>features/settings/lib/settingsUtils.ts\<close> and the save path of \<open>hooks/useSettingsPageController.ts\<close>.
    Paths into nested objects (locale \<open>path_store\<close>), merges, and conflicts with their resolution.
  \<^item> \<open>SetupRules\<close>: \<open>features/setup-wizard/lib\<close>: \<open>componentRules.ts\<close>, \<open>imageVersion.ts\<close>, \<open>nameNewCluster.ts\<close>.
  \<^item> \<open>ArchPlan\<close>: \<open>features/setup-wizard/lib/architecturePlan.ts\<close>. A planned install drawn into the existing clusters, and
    the tiers of the diagram.
  \<^item> \<open>DrivePaths\<close>: \<open>features/system/lib/systemUtils.ts\<close>. Paths as segment lists, containment in a drive (locale
    \<open>containment\<close>), the merge of the configured drives with the live ones.
  \<^item> \<open>FleetStorage\<close>: \<open>features/system/systemFleetRegisterData.ts\<close>, \<open>lib/storagePool.ts\<close>, \<open>lib/architectureStorage.ts\<close>,
    \<open>lib/downloadFlows.ts\<close>. The rows of the fleet register, capacity, storage rows and the download flowchart.
  \<^item> \<open>NetworkTools\<close>: \<open>features/network/lib\<close> (\<open>proxyParser.ts\<close>, \<open>downloadLimits.ts\<close>, \<open>networkUtils.ts\<close>) and
    \<open>features/tools/lib/mpsAdaptiveBatch.ts\<close>.
  \<^item> \<open>JobProgress\<close>: \<open>features/jobs/lib\<close>: \<open>jobEta.ts\<close>, \<open>jobUtils.ts\<close>, \<open>jobLiveRefresh.ts\<close>.
  \<^item> \<open>Connections\<close>: \<open>features/connections/lib\<close> (\<open>clusterView.ts\<close>, \<open>lastConnection.ts\<close>, \<open>navigation.ts\<close>, \<open>ticket.ts\<close>,
    \<open>joinSummary.ts\<close>). The backends by cluster, the one to open, the same section on another one, tickets.
  \<^item> \<open>ApiUrls\<close>: \<open>api/http.ts\<close>, \<open>api/media.ts\<close>, \<open>api/failover.ts\<close>. The active backend of a page and the addresses built from it.
  \<^item> \<open>TaskRoutes\<close>: \<open>features/jobs/lib/taskProxyUtils.ts\<close>. Masked proxies and the hops of a task.
  \<^item> \<open>Runbook\<close>: \<open>features/jobs/lib/runbookModel.ts\<close>. What the runbook of a job reads out of its tasks and events, on top of
    the routes, the durations and the addresses.
  \<^item> \<open>Diagnostics\<close>: \<open>features/jobs/lib/jobDiagnosticsAnalysis.ts\<close>. Percentiles, phases, bottlenecks and the losses of
    throughput of a job.
  \<^item> \<open>Comparison\<close>: \<open>features/jobs/lib/historicalComparison.ts\<close>. A run against an earlier one: deltas, verdict and texts.
  \<^item> \<open>Rates\<close>: \<open>features/dashboard/lib\<close> (\<open>dashboardUtils.ts\<close>, \<open>dashboardChartUtils.ts\<close>), \<open>features/jobs/lib/diagnosticsChartUtils.ts\<close>.
    Rates kept from poll to poll, the throughput timeline and its buckets, chart paths.
  \<^item> \<open>Favourites\<close>: \<open>features/favourites\<close> (\<open>favouritesCache.ts\<close>, \<open>FavouriteButton.tsx\<close>). Loads in batches as a state
    machine, the cached queries a change touches, and the optimistic removal with its rollback.
  \<^item> \<open>Users\<close>: \<open>features/users/lib/usersUtils.ts\<close>, \<open>features/user-profile/lib\<close> (\<open>userProfileUtils.ts\<close>, \<open>identityDraft.ts\<close>),
    \<open>features/favourites/favouriteFilters.ts\<close>, \<open>shared/lib/format.ts\<close>. Query parameters, saved searches, the identity form.
  \<^item> \<open>Statistics\<close>: \<open>themes/ultima-atlas/views/statistics\<close> (\<open>statisticsModel.ts\<close>, \<open>statisticsActivityModel.ts\<close>). Totals,
    breakdowns, calendar series, activity buckets and regressions.
  \<^item> \<open>Session\<close>: \<open>app/backends/backendQueryClients.ts\<close>, \<open>shared/lib/browserStorage.ts\<close> and what is stored with it
    (\<open>components/videoPlayerStorage.ts\<close>, \<open>app/bootstrap/startupMigrationState.ts\<close>, \<open>app/theme/theme-storage.ts\<close>,
    \<open>features/settings/hooks/useWebUIPreferences.ts\<close>), \<open>features/setup-wizard/lib/usePanZoom.ts\<close> and
    \<open>features/connections/lib/useInstallRun.ts\<close>. Caches of backends, storage that may fail, the panned canvas, a polled install.
  \<^item> \<open>Webhooks\<close>: \<open>hooks/useWebhookStream.tsx\<close>, \<open>features/webhooks/lib\<close> (\<open>webhooksUtils.ts\<close>, \<open>webhookConfiguration.ts\<close>). Messages with
    cut-down payloads, shown in batches, and the routing of webhooks.
  \<^item> \<open>Telemetry\<close>: \<open>features/jobs/lib/useJobDiagnosticsTelemetry.ts\<close>. Snapshots sampled from the answers of the backend, rates over windows, the
    health of routes, the velocity of errors, a reconstructed history and the model of capacity.
  \<^item> \<open>Pages\<close>: \<open>features/plugins/lib/pluginClient.ts\<close>, \<open>features/jobs/lib/jobRecoveryCatalog.ts\<close>, \<open>utils/formatTokens.ts\<close>,
    \<open>components/layout/navigation.ts\<close>, \<open>features/content-library/lib/contentLibraryUtils.ts\<close> and small readers of forms.
  \<^item> this theory: the composition of the drives, the register and the storage rows on the fleet page.

  \<^bold>\<open>What is shown.\<close> For the socket: subscriptions agree with the listeners, at most one connection is live, a socket
  with listeners is never abandoned and one without leaks nothing. For the import: the parser is total and reads
  back what is printed, normalising is idempotent and keeps what it does not handle. For plugins: a revoked API is
  dead for good, contributions belong to active plugins, a plugin sees only what its scopes allow. For settings:
  each leaf of a resolved conflict comes from the chosen side. For the setup: validation agrees with the cards,
  changes keep the selection allowed, an install is drawn into exactly one cluster and each service once. For
  storage: every configured directory is on the most specific drive and reaches the storage view, each device is
  counted once, and paths refine segment lists. For the network: every imported line is reported, limits survive the
  form, batch sizes are bounded. For jobs: estimates are consistent and shrink with progress. For connections: each is listed in its
  clusters or alone, and switching keeps the section and makes the chosen backend the active one. For task routes:
  credentials are masked, hops are marked consistently, and a geographic block is reported on exactly that evidence.
  For diagnostics: percentiles are ranks, and the verdict names the phase nothing exceeds. For comparisons: a better
  run never gets a worse verdict. For rates: completions are counted exactly once, on the timeline and from poll to
  poll, and charts stay in their box. For statistics: the trend is the least-squares line and the buckets cover the
  window or are refused. For favourites: no load is
  lost and a failed removal leaves nothing behind. For the session: the kept caches are those used last, preferences are in force even when
  they cannot be stored, and an install shows each event once. For webhooks: no message waits forever or is shown twice, and kept payloads
  are bounded. For telemetry: snapshots do not overlap, and rates over windows are averages of what they hold. For users: the form reads back what it shows, and filters
  from the address bar are well formed.

  \<^bold>\<open>Modelling choices.\<close> Objects that the code mutates in place are updated in the state that holds them; a \<open>throw\<close> is a
  value of a sum or option type. Every definition is executable and total: the loops of the source are recursions
  on lists, or on the rest of the text with a length argument that the termination proof discharges; the only
  bounded loop is the retry of \<open>nameNewCluster\<close>, whose bound of five attempts is the source's own. Numbers are exact,
  so the rounding of doubles is not modelled. Parameters stand for what the code does not define: answers of the
  API, the browser's WebSocket and URL parser, URI coding, date parsing and formatting, \<open>localeCompare\<close> and
  \<open>toLocaleString\<close>, and the printing of numbers that are not whole.

  \<^bold>\<open>Not modelled.\<close> The React components and page controllers (rendering and wiring of queries), the API clients (one
  HTTP call each), themes and style sheets, the mock pages, the texts of the telemetry hook, of the refill report and of the
  export of the job diagnostics. The Python code
  (the server beside the client, the scraper's tests and scripts) is outside this development.
\<close>

section \<open>From the settings to the storage of the fleet\<close>

text \<open>
  The fleet page (\<open>features/system/SystemFleetRegisterPage.tsx\<close>) composes the merge of the drives with the register;
  the architecture dialog builds the storage rows from the result.
\<close>

definition fleet_backends ::
  "(string \<Rightarrow> string \<Rightarrow> int) \<Rightarrow> (string \<Rightarrow> int option) \<Rightarrow> (int \<Rightarrow> string) \<Rightarrow> backend_status option \<Rightarrow> fleet_cluster option
   \<Rightarrow> drive_info list \<Rightarrow> settings_response option \<Rightarrow> int \<Rightarrow> register_backend list" where
  "fleet_backends localeCompare dateParse isoString localStatus fleet liveDrives cfg now_ms =
     buildRegisterBackends dateParse isoString localStatus fleet (mergeConfiguredDrivesWithInventory localeCompare liveDrives cfg) now_ms"

lemma map_index_mem: "x \<in> set xs \<Longrightarrow> \<exists>i. f i x \<in> set (map_index f k xs)"
  by (induction xs arbitrary: k) auto

lemma storage_row_of_mount:
  assumes "m \<in> set (rb_mounts b)"
  shows "rm_path m \<in> set (points (sort_cmp cmp (backend_rows b staging)))"
proof -
  have "mset (map rm_path (rb_mounts b)) \<subseteq># mset (points (backend_rows b staging))" using backend_rows_spec by blast
  moreover have "mset (points (sort_cmp cmp (backend_rows b staging))) = mset (points (backend_rows b staging))" by (simp add: points_mset)
  ultimately have "set (map rm_path (rb_mounts b)) \<subseteq> set (points (sort_cmp cmp (backend_rows b staging)))"
    by (metis set_mset_mono set_mset_mset)
  then show ?thesis using assms by auto
qed

text \<open>
  C40. A directory of the settings reaches the storage view. When the local backend has an id, every directory of
  the configured drives is listed on a mount of the register's first row, which is the local one, and the path of that mount is a
  mount point of a row of the first storage group.
\<close>

theorem configured_directory_reaches_storage:
  assumes "coalesce (map_option st_backend_id localStatus) (map_option local_backend_id fleet) = Some i" "i \<noteq> []"
    "g \<in> set (configured_groups cfg)" "d \<in> set (directories g)"
  shows "\<exists>b bs grp grps m. fleet_backends localeCompare dateParse isoString localStatus fleet liveDrives cfg t = b # bs
    \<and> rb_isLocal b \<and> rb_backendId b = i
    \<and> buildStorageGroups localeCompare (b # bs) staging = grp # grps
    \<and> m \<in> set (rb_mounts b) \<and> normalizePath d \<in> set (rm_configuredDirectories m) \<and> rm_path m \<in> set (points (sg_rows grp))"
proof -
  let ?ds = "mergeConfiguredDrivesWithInventory localeCompare liveDrives cfg"
  obtain x where x: "x \<in> set ?ds" "normalizePath d \<in> set (configured_directories x)"
    using merge_lists_directory [OF assms(3,4)] by blast
  then have ne: "?ds \<noteq> []" by auto
  obtain reg bs where b: "fleet_backends localeCompare dateParse isoString localStatus fleet liveDrives cfg t =
      local_row dateParse isoString localStatus fleet ?ds t i reg # bs"
    using assms(1,2) by (simp add: fleet_backends_def buildRegisterBackends_def Let_def)
  define localRow where "localRow = local_row dateParse isoString localStatus fleet ?ds t i reg"
  have "rb_mounts localRow = map_index (local_mount i) 0 ?ds" using ne by (simp add: localRow_def local_row_def Let_def)
  then obtain k where k: "local_mount i k x \<in> set (rb_mounts localRow)" using map_index_mem [OF x(1)] by metis
  have "rm_configuredDirectories (local_mount i k x) = configured_directories x" by (simp add: local_mount_def)
  moreover have "rb_isLocal localRow" "rb_backendId localRow = i" by (simp_all add: localRow_def)
  moreover have "\<exists>grp grps. buildStorageGroups localeCompare (localRow # bs) staging = grp # grps \<and> rm_path (local_mount i k x) \<in> set (points (sg_rows grp))"
    using storage_row_of_mount [OF k] by (simp add: buildStorageGroups_def)
  ultimately show ?thesis using b k x(2) unfolding localRow_def [symmetric] by metis
qed

theorem configured_directory_reaches_storage_witness:
  "\<exists>b bs grp grps m. fleet_backends (cmp_on length cmp_num) (\<lambda>_. Some 0) (\<lambda>_. ''now'') (Some sample_status) None [] (Some sample_settings) 0 = b # bs
    \<and> rb_isLocal b \<and> rb_backendId b = ''b1''
    \<and> buildStorageGroups (cmp_on length cmp_num) (b # bs) None = grp # grps
    \<and> m \<in> set (rb_mounts b) \<and> normalizePath ''/mnt/a/./x'' \<in> set (rm_configuredDirectories m) \<and> rm_path m \<in> set (points (sg_rows grp))"
  by (rule configured_directory_reaches_storage [where g = "\<lparr>directories = [''/mnt/a/./x'']\<rparr>"])
    (simp_all add: sample_status_def sample_settings_def configured_groups_def coalesce_def)

end
